(* ===== verification/Prelude.thy ===== *)
theory Prelude
  imports Main "HOL-Library.Word" "HOL-Library.Monad_Syntax"
begin

text \<open>
  Shared vocabulary of the development: the machine integer types of the C and C++ sources, the
  errno values the code returns, bounds-checked access to byte buffers, the little-endian access
  macros of \<open>include/ext4_misc.h\<close>, and the generic lemmas on buffers that the component theories use.

  Conventions used by every theory:
  \<^item> a function that can hit an assertion (\<open>ext4_assert\<close> loops for ever), dereference a null or freed
    pointer or leave its buffer returns an \<open>option\<close>; \<open>None\<close> is exactly that outcome;
  \<^item> a C function returning an error code through state returns the triple of code, outputs and the
    new state; \<open>EOK\<close> is 0, as in the code;
  \<^item> an on-disk structure is the list of its bytes, since the code overlays it on a block buffer by a
    pointer cast and computes checksums over its bytes; fields are read and written at their offsets.
\<close>

unbundle bit_operations_syntax

section \<open>Collections of facts\<close>

named_theorems buffer_simps "reads of a byte buffer after writes to it"
named_theorems errno_simps "unfolding of result predicates"
named_theorems wf_intros "introduction rules for well-formedness predicates"

section \<open>Machine integers and error codes\<close>

type_synonym u8 = "8 word"
type_synonym u16 = "16 word"
type_synonym u32 = "32 word"
type_synonym u64 = "64 word"

type_synonym errno = int

abbreviation (input) EOK :: errno where "EOK \<equiv> 0"
abbreviation (input) EPERM :: errno where "EPERM \<equiv> 1"
abbreviation (input) ENOENT :: errno where "ENOENT \<equiv> 2"
abbreviation (input) EIO :: errno where "EIO \<equiv> 5"
abbreviation (input) ENXIO :: errno where "ENXIO \<equiv> 6"
abbreviation (input) EBADF :: errno where "EBADF \<equiv> 9"
abbreviation (input) ENOMEM :: errno where "ENOMEM \<equiv> 12"
abbreviation (input) EACCES :: errno where "EACCES \<equiv> 13"
abbreviation (input) ENOTBLK :: errno where "ENOTBLK \<equiv> 15"
abbreviation (input) EEXIST :: errno where "EEXIST \<equiv> 17"
abbreviation (input) EXDEV :: errno where "EXDEV \<equiv> 18"
abbreviation (input) EINVAL :: errno where "EINVAL \<equiv> 22"
abbreviation (input) ENOSPC :: errno where "ENOSPC \<equiv> 28"
abbreviation (input) EROFS :: errno where "EROFS \<equiv> 30"
abbreviation (input) ENOTSUP :: errno where "ENOTSUP \<equiv> 95"

text \<open>\<open>ext4_assert\<close>: a failed assertion never returns.\<close>

definition ext4_assert :: "bool \<Rightarrow> unit option" where
  "ext4_assert v = (if v then Some () else None)"

lemma ext4_assert_simps [simp]:
  "ext4_assert True = Some ()"
  "ext4_assert False = None"
  "v \<Longrightarrow> ext4_assert v = Some ()"
  "\<not> v \<Longrightarrow> ext4_assert v = None"
  "(ext4_assert v = Some u) = v"
  by (auto simp: ext4_assert_def)

section \<open>Word arithmetic\<close>

lemma unat_plus_nowrap [simp]:
  "unat (x::'a::len word) + unat y < 2 ^ LENGTH('a) \<Longrightarrow> unat (x + y) = unat x + unat y"
  by (simp add: unat_word_ariths)

lemma unat_plus_one_nowrap:
  "unat (x::'a::len word) + 1 < 2 ^ LENGTH('a) \<Longrightarrow> unat (x + 1) = unat x + 1"
  by (simp add: unat_word_ariths)

text \<open>A counter below a bound does not wrap when it is increased: the measure of \<open>for\<close> loops.\<close>

lemma unat_below: "unat (n::'a::len word) < 2 ^ LENGTH('a)"
  by (rule unsigned_less)

lemma unat_inc_below: "i < (n::'a::len word) \<Longrightarrow> unat (i + 1) = Suc (unat i)"
proof -
  assume "i < n"
  then have "unat i + 1 < 2 ^ LENGTH('a)"
    using unat_below [of n] unfolding word_less_nat_alt by linarith
  then show ?thesis by (simp add: unat_plus_one_nowrap)
qed

lemma for_loop_measure [termination_simp]:
  "i < (n::'a::len word) \<Longrightarrow> unat n - unat (i + 1) < unat n - unat i"
  by (simp add: unat_inc_below word_less_nat_alt)

lemma down_by_measure [termination_simp]:
  "0 < k \<Longrightarrow> k \<le> (n::'a::len word) \<Longrightarrow> unat (n - k) < unat n"
  by (simp add: unat_sub word_less_nat_alt word_le_nat_alt)

lemma bit_below:
  assumes "unat (c::'a::len word) < 2 ^ n" "bit c m"
  shows "m < n"
proof -
  have "bit (unat c) m" using assms(2) by (simp add: bit_unsigned_iff bit_imp_le_length)
  moreover have "take_bit n (unat c) = unat c" using assms(1) by (simp add: take_bit_nat_eq_self_iff)
  ultimately show ?thesis by (metis bit_take_bit_iff)
qed

lemma unat_mult_nowrap:
  "unat (x::'a::len word) * unat y < 2 ^ LENGTH('a) \<Longrightarrow> unat (x * y) = unat x * unat y"
  by (simp add: unat_word_ariths)

lemma ucast_u32_u64_unat [simp]: "unat (ucast (x::u32) :: u64) = unat x"
  by (simp add: unsigned_ucast_eq take_bit_nat_eq_self_iff less_le_trans [OF unsigned_less])

lemma ucast_u32_u64_zero [simp]: "(ucast (x::u32) :: u64) = 0 \<longleftrightarrow> x = 0"
  by (metis ucast_u32_u64_unat unat_eq_zero unsigned_0)

lemma unat_and7 [simp]: "unat ((x::u32) AND 7) = unat x mod 8"
proof -
  have "x AND 7 = take_bit 3 x"
    by (simp add: take_bit_eq_mask mask_eq_exp_minus_1)
  then show ?thesis
    by (simp add: take_bit_eq_mod unat_mod)
qed

lemma and7_zero_iff: "(x::u32) AND 7 = 0 \<longleftrightarrow> unat x mod 8 = 0"
  by (metis unat_and7 unat_eq_zero)

lemma unat_shr3 [simp]: "unat (drop_bit 3 (x::u32)) = unat x div 8"
  by (simp add: drop_bit_eq_div unat_div)

section \<open>Bounds-checked byte buffers\<close>

definition rd8 :: "u8 list \<Rightarrow> nat \<Rightarrow> u8 option" where
  "rd8 b i = (if i < length b then Some (b ! i) else None)"

definition wr8 :: "u8 list \<Rightarrow> nat \<Rightarrow> u8 \<Rightarrow> u8 list option" where
  "wr8 b i v = (if i < length b then Some (b[i := v]) else None)"

lemma rd8_Some [simp]: "i < length b \<Longrightarrow> rd8 b i = Some (b ! i)"
  by (simp add: rd8_def)

lemma wr8_Some [simp]: "i < length b \<Longrightarrow> wr8 b i v = Some (b[i := v])"
  by (simp add: wr8_def)

lemma rd8_eq_Some: "rd8 b i = Some v \<longleftrightarrow> i < length b \<and> v = b ! i"
  by (auto simp: rd8_def)

lemma wr8_eq_Some: "wr8 b i v = Some b' \<longleftrightarrow> i < length b \<and> b' = b[i := v]"
  by (auto simp: wr8_def)

text \<open>\<open>memcpy\<close> into a buffer at an offset, and a slice of a buffer.\<close>

definition memcpy_at :: "u8 list \<Rightarrow> nat \<Rightarrow> u8 list \<Rightarrow> u8 list option" where
  "memcpy_at b p src =
     (if p + length src \<le> length b then Some (take p b @ src @ drop (p + length src) b) else None)"

definition slice :: "nat \<Rightarrow> nat \<Rightarrow> 'a list \<Rightarrow> 'a list" where
  "slice p n b = take n (drop p b)"

definition slice_checked :: "nat \<Rightarrow> nat \<Rightarrow> 'a list \<Rightarrow> 'a list option" where
  "slice_checked p n b = (if p + n \<le> length b then Some (slice p n b) else None)"

definition splice :: "nat \<Rightarrow> 'a list \<Rightarrow> 'a list \<Rightarrow> 'a list" where
  "splice p src b = take p b @ src @ drop (p + length src) b"

lemma length_slice [simp]: "p + n \<le> length b \<Longrightarrow> length (slice p n b) = n"
  by (simp add: slice_def)

lemma length_splice [simp]: "p + length src \<le> length b \<Longrightarrow> length (splice p src b) = length b"
  by (simp add: splice_def)

lemma nth_slice [simp]: "p + n \<le> length b \<Longrightarrow> i < n \<Longrightarrow> slice p n b ! i = b ! (p + i)"
  by (simp add: slice_def)

lemma nth_splice:
  "p + length src \<le> length b \<Longrightarrow> i < length b \<Longrightarrow>
     splice p src b ! i = (if p \<le> i \<and> i < p + length src then src ! (i - p) else b ! i)"
  by (auto simp: splice_def nth_append)

lemma slice_splice_same [simp]:
  "p + length src \<le> length b \<Longrightarrow> n = length src \<Longrightarrow> slice p n (splice p src b) = src"
  by (simp add: splice_def slice_def)

lemma slice_splice_other:
  assumes "p + length src \<le> length b" "q + n \<le> length b" "q + n \<le> p \<or> p + length src \<le> q"
  shows "slice q n (splice p src b) = slice q n b"
  using assms by (intro nth_equalityI) (auto simp: nth_splice)

lemma splice_slice_id [simp]: "p + n \<le> length b \<Longrightarrow> splice p (slice p n b) b = b"
  by (intro nth_equalityI) (auto simp: nth_splice)

lemma memcpy_at_splice [simp]:
  "p + length src \<le> length b \<Longrightarrow> memcpy_at b p src = Some (splice p src b)"
  by (simp add: memcpy_at_def splice_def)

lemma slice_checked_Some [simp]: "p + n \<le> length b \<Longrightarrow> slice_checked p n b = Some (slice p n b)"
  by (simp add: slice_checked_def)

section \<open>Little-endian fields\<close>

text \<open>
  \<open>ext4_get16\<close>, \<open>ext4_get32\<close>, \<open>ext4_set16\<close> and \<open>ext4_set32\<close> of \<open>include/ext4_misc.h\<close>, on the bytes
  of the structure: the field at byte offset \<open>p\<close>, least significant byte first. The number a
  little-endian or (with \<open>CONFIG_BIG_ENDIAN\<close>) a big-endian host computes is the same.
\<close>

definition get8 :: "u8 list \<Rightarrow> nat \<Rightarrow> u8" where
  "get8 b p = b ! p"

definition get16 :: "u8 list \<Rightarrow> nat \<Rightarrow> u16" where
  "get16 b p = ucast (b ! p) OR push_bit 8 (ucast (b ! (p + 1)))"

definition get32 :: "u8 list \<Rightarrow> nat \<Rightarrow> u32" where
  "get32 b p = ucast (b ! p) OR push_bit 8 (ucast (b ! (p + 1)))
     OR push_bit 16 (ucast (b ! (p + 2))) OR push_bit 24 (ucast (b ! (p + 3)))"

definition set8 :: "u8 list \<Rightarrow> nat \<Rightarrow> u8 \<Rightarrow> u8 list" where
  "set8 b p v = b[p := v]"

definition le16 :: "u16 \<Rightarrow> u8 list" where
  "le16 v = [ucast v, ucast (drop_bit 8 v)]"

definition le32 :: "u32 \<Rightarrow> u8 list" where
  "le32 v = [ucast v, ucast (drop_bit 8 v), ucast (drop_bit 16 v), ucast (drop_bit 24 v)]"

definition set16 :: "u8 list \<Rightarrow> nat \<Rightarrow> u16 \<Rightarrow> u8 list" where
  "set16 b p v = b[p := ucast v, p + 1 := ucast (drop_bit 8 v)]"

definition set32 :: "u8 list \<Rightarrow> nat \<Rightarrow> u32 \<Rightarrow> u8 list" where
  "set32 b p v = b[p := ucast v, p + 1 := ucast (drop_bit 8 v),
     p + 2 := ucast (drop_bit 16 v), p + 3 := ucast (drop_bit 24 v)]"

lemma length_set [simp]:
  "length (set8 b p v8) = length b"
  "length (set16 b p v16) = length b"
  "length (set32 b p v32) = length b"
  by (simp_all add: set8_def set16_def set32_def)

lemma length_le [simp]: "length (le16 v) = 2" "length (le32 w) = 4"
  by (simp_all add: le16_def le32_def)

lemma join16: "ucast (ucast (v::u16) :: u8) OR push_bit 8 (ucast (ucast (drop_bit 8 v) :: u8)) = v"
  by (rule bit_word_eqI) (auto simp: bit_simps)

lemma join32:
  "ucast (ucast (v::u32) :: u8) OR push_bit 8 (ucast (ucast (drop_bit 8 v) :: u8))
     OR push_bit 16 (ucast (ucast (drop_bit 16 v) :: u8))
     OR push_bit 24 (ucast (ucast (drop_bit 24 v) :: u8)) = v" (is "?l = v")
proof (rule bit_word_eqI)
  fix n assume "n < LENGTH(32)"
  then consider "n < 8" | "8 \<le> n \<and> n < 16" | "16 \<le> n \<and> n < 24" | "24 \<le> n \<and> n < 32"
    by fastforce
  then show "bit ?l n = bit v n"
    by cases (auto simp: bit_simps)
qed

lemma get_set_same [simp, buffer_simps]:
  "p < length b \<Longrightarrow> get8 (set8 b p v8) p = v8"
  "p + 1 < length b \<Longrightarrow> get16 (set16 b p v16) p = v16"
  "p + 3 < length b \<Longrightarrow> get32 (set32 b p v32) p = v32"
  by (simp_all add: get8_def set8_def get16_def set16_def get32_def set32_def join16 join32)

lemma get16_set_other [simp, buffer_simps]:
  "q + 1 < p \<or> p < q \<Longrightarrow> get16 (set8 b p v8) q = get16 b q"
  "q + 1 < p \<or> p + 1 < q \<Longrightarrow> get16 (set16 b p v16) q = get16 b q"
  "q + 1 < p \<or> p + 3 < q \<Longrightarrow> get16 (set32 b p v32) q = get16 b q"
  by (auto simp: get16_def set8_def set16_def set32_def)

lemma get32_set_other [simp, buffer_simps]:
  "q + 3 < p \<or> p < q \<Longrightarrow> get32 (set8 b p v8) q = get32 b q"
  "q + 3 < p \<or> p + 1 < q \<Longrightarrow> get32 (set16 b p v16) q = get32 b q"
  "q + 3 < p \<or> p + 3 < q \<Longrightarrow> get32 (set32 b p v32) q = get32 b q"
  by (auto simp: get32_def set8_def set16_def set32_def)

lemma get8_set_other [simp, buffer_simps]:
  "q \<noteq> p \<Longrightarrow> get8 (set8 b p v8) q = get8 b q"
  "q < p \<or> p + 1 < q \<Longrightarrow> get8 (set16 b p v16) q = get8 b q"
  "q < p \<or> p + 3 < q \<Longrightarrow> get8 (set32 b p v32) q = get8 b q"
  by (auto simp: get8_def set8_def set16_def set32_def)

text \<open>Bytes outside a field keep their value, the form the checksum arguments use.\<close>

lemma nth_set_other:
  "i < p \<or> p + 1 < i \<Longrightarrow> set16 b p v16 ! i = b ! i"
  "i < p \<or> p + 3 < i \<Longrightarrow> set32 b p v32 ! i = b ! i"
  by (auto simp: set16_def set32_def)

lemma take_set_other [simp]:
  "n \<le> p \<Longrightarrow> take n (set16 b p v16) = take n b"
  "n \<le> p \<Longrightarrow> take n (set32 b p v32) = take n b"
  by (simp_all add: set16_def set32_def)

lemma drop_set_other [simp]:
  "p + 2 \<le> n \<Longrightarrow> drop n (set16 b p v16) = drop n b"
  "p + 4 \<le> n \<Longrightarrow> drop n (set32 b p v32) = drop n b"
  by (simp_all add: set16_def set32_def)

lemma slice_set_other [simp]:
  "q + n \<le> p \<or> p + 2 \<le> q \<Longrightarrow> slice q n (set16 b p v16) = slice q n b"
  "q + n \<le> p \<or> p + 4 \<le> q \<Longrightarrow> slice q n (set32 b p v32) = slice q n b"
  unfolding slice_def set16_def set32_def
  by (elim disjE; simp add: take_drop; fail | simp)+

lemma set16_get16_id [simp]: "p + 1 < length b \<Longrightarrow> set16 b p (get16 b p) = b"
proof (rule nth_equalityI)
  fix i assume len: "p + 1 < length b" and i: "i < length (set16 b p (get16 b p))"
  have lo: "ucast (get16 b p) = b ! p" unfolding get16_def
    by (rule bit_word_eqI) (auto simp: bit_simps)
  have hi: "ucast (drop_bit 8 (get16 b p)) = b ! (p + 1)" unfolding get16_def
    by (rule bit_word_eqI) (auto simp: bit_simps dest: bit_imp_le_length)
  from len i lo hi show "set16 b p (get16 b p) ! i = b ! i"
    by (auto simp: set16_def nth_list_update)
qed simp

text \<open>Splitting a 64-bit count into two 32-bit fields and joining it again, as the superblock does.\<close>

lemma join64:
  "push_bit 32 (ucast (ucast (drop_bit 32 (c::u64)) :: u32)) OR ucast (ucast c :: u32) = c"
  by (rule bit_word_eqI) (auto simp: bit_simps)

lemma join64': "ucast (ucast c :: u32) OR push_bit 32 (ucast (ucast (drop_bit 32 (c::u64)) :: u32)) = c"
  using join64 [of c] by (simp only: or.commute)

lemma join32_16:
  "ucast (ucast (c::u32) :: u16) OR push_bit 16 (ucast (ucast (drop_bit 16 c) :: u16)) = c"
  by (rule bit_word_eqI) (auto simp: bit_simps)

text \<open>The C idiom \<open>(x << k) >> k\<close> keeps the low half.\<close>

lemma low_half [simp]:
  "ucast (drop_bit 16 (push_bit 16 (c::u32))) = (ucast c :: u16)"
  "ucast (drop_bit 32 (push_bit 32 (d::u64))) = (ucast d :: u32)"
  by (rule bit_word_eqI; auto simp: bit_simps)+

section \<open>Division\<close>

text \<open>Division by zero is undefined in C: it is the outcome \<open>None\<close>.\<close>

definition div_checked :: "'a::len word \<Rightarrow> 'a word \<Rightarrow> 'a word option" where
  "div_checked x y = (if y = 0 then None else Some (x div y))"

definition mod_checked :: "'a::len word \<Rightarrow> 'a word \<Rightarrow> 'a word option" where
  "mod_checked x y = (if y = 0 then None else Some (x mod y))"

lemma div_checked_Some [simp]: "y \<noteq> 0 \<Longrightarrow> div_checked x y = Some (x div y)"
  by (simp add: div_checked_def)

lemma mod_checked_Some [simp]: "y \<noteq> 0 \<Longrightarrow> mod_checked x y = Some (x mod y)"
  by (simp add: mod_checked_def)

lemma div_checked_zero [simp]: "div_checked x 0 = None" "mod_checked x 0 = None"
  by (simp_all add: div_checked_def mod_checked_def)

end
