(* ===== verification/Path.thy ===== *)
theory Path
  imports Prelude
begin

text \<open>
  The part of \<open>std::filesystem::path\<close> (POSIX, native separator \<open>/\<close>, no root names) that
  \<open>lib/common/vfs.cpp\<close>, \<open>lib/common/file_descriptor_container.hpp\<close> and \<open>adapters/fs_dir.cpp\<close> use:
  \<open>has_root_path\<close>, \<open>root_path\<close>, \<open>lexically_normal\<close> and \<open>operator/=\<close>. A path is the string of its
  native form. \<open>lexically_normal\<close> is the normal form algorithm of the C++ standard: the components
  are taken from left to right, a dot is dropped, a dot-dot removes the name before it, and at the
  root directory dot-dots vanish.
\<close>

section \<open>Components\<close>

definition is_slash :: "char \<Rightarrow> bool" where
  "is_slash c = (c = CHR 0x2F)"

definition dot :: string where "dot = ''.''"
definition dotdot :: string where "dotdot = ''..''"

text \<open>The names between the separators, runs of separators counting as one.\<close>

fun components_from :: "string \<Rightarrow> string \<Rightarrow> string list" where
  "components_from acc [] = (if acc = [] then [] else [acc])"
| "components_from acc (c # cs) =
     (if is_slash c then (if acc = [] then components_from [] cs else acc # components_from [] cs)
      else components_from (acc @ [c]) cs)"

definition components :: "string \<Rightarrow> string list" where
  "components p = components_from [] p"

definition has_root_path :: "string \<Rightarrow> bool" where
  "has_root_path p = (case p of [] \<Rightarrow> False | c # _ \<Rightarrow> is_slash c)"

definition root_path :: "string \<Rightarrow> string" where
  "root_path p = (if has_root_path p then ''/'' else [])"

definition ends_with_slash :: "string \<Rightarrow> bool" where
  "ends_with_slash p = (p \<noteq> [] \<and> is_slash (List.last p))"

text \<open>\<open>operator/=\<close>: an absolute operand replaces the path, otherwise a separator is put in between
  when the path ends in a file name.\<close>

definition path_append :: "string \<Rightarrow> string \<Rightarrow> string" where
  "path_append p q =
     (if has_root_path q then q
      else if p \<noteq> [] \<and> \<not> ends_with_slash p then p @ ''/'' @ q
      else p @ q)"

section \<open>Lexical normal form\<close>

text \<open>The stack holds the components kept so far, the last one first.\<close>

definition norm_step :: "bool \<Rightarrow> string list \<Rightarrow> string \<Rightarrow> string list" where
  "norm_step rooted st c =
     (if c = dot then st
      else if c = dotdot then
        (case st of [] \<Rightarrow> if rooted then [] else [dotdot]
         | t # ts \<Rightarrow> if t = dotdot then dotdot # st else ts)
      else c # st)"

definition norm_stack :: "bool \<Rightarrow> string list \<Rightarrow> string list" where
  "norm_stack rooted cs = foldl (norm_step rooted) [] cs"

fun join_path :: "string list \<Rightarrow> string" where
  "join_path [] = []"
| "join_path [c] = c"
| "join_path (c # d # cs) = c @ ''/'' @ join_path (d # cs)"

text \<open>The normal form ends in a separator when the path does or when its last component is a dot or a
  dot-dot, unless what is left ends in a dot-dot.\<close>

definition norm_trailing :: "string \<Rightarrow> string list \<Rightarrow> bool" where
  "norm_trailing p cs =
     (ends_with_slash p \<or> cs \<noteq> [] \<and> (List.last cs = dot \<or> List.last cs = dotdot))"

definition lexically_normal :: "string \<Rightarrow> string" where
  "lexically_normal p =
     (if p = [] then []
      else let rooted = has_root_path p; cs = components p; st = norm_stack rooted cs in
        case st of [] \<Rightarrow> if rooted then ''/'' else dot
        | t # _ \<Rightarrow>
            (if rooted then ''/'' else []) @ join_path (rev st) @
            (if norm_trailing p cs \<and> t \<noteq> dotdot then ''/'' else []))"

section \<open>Lemmas\<close>

definition is_name :: "string \<Rightarrow> bool" where
  "is_name c = (c \<noteq> [] \<and> (\<forall>x \<in> set c. \<not> is_slash x))"

lemma is_slash_simps [simp]: "is_slash CHR 0x2F" "\<not> is_slash CHR 0x2E"
  by (simp_all add: is_slash_def)

lemma is_slash_eq: "is_slash c \<longleftrightarrow> c = CHR 0x2F"
  by (simp add: is_slash_def)

lemma dot_simps [simp]: "dot \<noteq> []" "dotdot \<noteq> []" "dot \<noteq> dotdot" "dotdot \<noteq> dot" "is_name dot" "is_name dotdot"
  by (simp_all add: dot_def dotdot_def is_name_def)

lemma components_from_names:
  "\<forall>x \<in> set acc. \<not> is_slash x \<Longrightarrow> c \<in> set (components_from acc p) \<Longrightarrow> is_name c"
proof (induction acc p rule: components_from.induct)
  case (1 acc)
  then show ?case by (cases "acc = []") (auto simp: is_name_def)
next
  case (2 acc x cs)
  then show ?case
    by (cases "is_slash x"; cases "acc = []") (auto simp del: components_from.simps(1) simp: is_name_def)
qed

lemma components_names: "\<forall>c \<in> set (components p). is_name c"
  using components_from_names [of "[]"] by (auto simp: components_def)

lemma components_from_name:
  "\<forall>x \<in> set n. \<not> is_slash x \<Longrightarrow> components_from acc (n @ p) = components_from (acc @ n) p"
  by (induction n arbitrary: acc) auto

lemma components_from_app:
  "is_name n \<Longrightarrow> components_from [] (n @ CHR 0x2F # p) = n # components_from [] p"
  by (simp add: components_from_name is_name_def)

lemma components_slash [simp]: "components (CHR 0x2F # p) = components p"
  by (simp add: components_def)

lemma components_join:
  "\<forall>c \<in> set cs. is_name c \<Longrightarrow> components (join_path cs) = cs"
proof (induction cs rule: join_path.induct)
  case (2 c)
  then show ?case
    using components_from_name [of c "[]" "[]"] by (simp add: components_def is_name_def)
next
  case (3 c d cs)
  then show ?case
    using components_from_app [of c "join_path (d # cs)"] by (simp add: components_def)
qed (simp add: components_def)

lemma components_from_slash_end:
  "components_from acc (p @ [CHR 0x2F]) = components_from acc p"
  by (induction acc p rule: components_from.induct) auto

lemma components_join_slash:
  "\<forall>c \<in> set cs. is_name c \<Longrightarrow> components (join_path cs @ ''/'') = cs"
  using components_join [of cs] by (simp add: components_def components_from_slash_end)

lemma join_path_nonempty: "cs \<noteq> [] \<Longrightarrow> \<forall>c \<in> set cs. is_name c \<Longrightarrow> join_path cs \<noteq> []"
  by (induction cs rule: join_path.induct) (auto simp: is_name_def)

lemma join_path_no_root:
  assumes "\<forall>c \<in> set cs. is_name c" and "cs \<noteq> []"
  shows "\<not> has_root_path (join_path cs @ q)"
  using assms by (cases cs rule: join_path.cases; cases "hd cs") (auto simp: has_root_path_def is_name_def)

lemma has_root_path_slash [simp]: "has_root_path (CHR 0x2F # p)"
  by (simp add: has_root_path_def)

lemma join_path_last:
  "\<forall>c \<in> set cs. is_name c \<Longrightarrow> cs \<noteq> [] \<Longrightarrow> \<not> is_slash (List.last (join_path cs))"
  by (induction cs rule: join_path.induct)
    (auto simp: is_name_def join_path_nonempty)

text \<open>A stack in normal form: names, and dot-dots only below them (and none at all under a root).\<close>

definition norm_ok :: "bool \<Rightarrow> string list \<Rightarrow> bool" where
  "norm_ok rooted st =
     (\<exists>ns k. st = ns @ replicate k dotdot \<and> (rooted \<longrightarrow> k = 0) \<and>
       (\<forall>c \<in> set ns. is_name c \<and> c \<noteq> dot \<and> c \<noteq> dotdot))"

lemma norm_ok_names: "norm_ok rooted st \<Longrightarrow> c \<in> set st \<Longrightarrow> is_name c \<and> c \<noteq> dot \<and> (rooted \<longrightarrow> c \<noteq> dotdot)"
  by (auto simp: norm_ok_def)

lemma norm_ok_Nil [simp]: "norm_ok rooted []"
  by (auto simp: norm_ok_def intro: exI [of _ "[]"])

lemma norm_okI:
  "st = ns @ replicate k dotdot \<Longrightarrow> (rooted \<longrightarrow> k = 0) \<Longrightarrow>
    (\<forall>c \<in> set ns. is_name c \<and> c \<noteq> dot \<and> c \<noteq> dotdot) \<Longrightarrow> norm_ok rooted st"
  unfolding norm_ok_def by blast

lemma norm_step_ok:
  assumes "norm_ok rooted st" and "is_name c"
  shows "norm_ok rooted (norm_step rooted st c)"
proof -
  obtain ns k where st: "st = ns @ replicate k dotdot" and k: "rooted \<longrightarrow> k = 0"
    and ns: "\<forall>c \<in> set ns. is_name c \<and> c \<noteq> dot \<and> c \<noteq> dotdot"
    using assms(1) by (auto simp: norm_ok_def)
  show ?thesis
  proof (cases "c = dot \<or> c \<noteq> dotdot")
    case True
    then show ?thesis
      using assms norm_okI [of "c # st" "c # ns" k rooted] st k ns by (auto simp: norm_step_def)
  next
    case False
    show ?thesis
    proof (cases ns)
      case Nil
      then show ?thesis
        using False st k norm_okI [of "dotdot # st" "[]" "Suc k" rooted]
          norm_okI [of "[dotdot]" "[]" 1 rooted]
        by (cases k) (auto simp: norm_step_def)
    next
      case (Cons n ns')
      then show ?thesis
        using False st k ns norm_okI [of "ns' @ replicate k dotdot" ns' k rooted]
        by (simp add: norm_step_def)
    qed
  qed
qed

lemma norm_stack_ok:
  "norm_ok rooted st \<Longrightarrow> \<forall>c \<in> set cs. is_name c \<Longrightarrow> norm_ok rooted (foldl (norm_step rooted) st cs)"
  by (induction cs arbitrary: st) (auto simp: norm_step_ok)

lemma norm_stack_components: "norm_ok rooted (norm_stack rooted (components p))"
  using norm_stack_ok [OF norm_ok_Nil components_names] by (simp add: norm_stack_def)

text \<open>The components of a normal form are pushed one by one.\<close>

lemma norm_push_names:
  "\<forall>c \<in> set ns. c \<noteq> dot \<and> c \<noteq> dotdot \<Longrightarrow> foldl (norm_step rooted) st ns = rev ns @ st"
  by (induction ns arbitrary: st) (auto simp: norm_step_def)

lemma replicate_snoc: "replicate k x @ [x] = x # replicate k x"
  using replicate_append_same [of k x] by simp

lemma norm_push_dotdots:
  "foldl (norm_step False) (replicate j dotdot) (replicate k dotdot) = replicate (k + j) dotdot"
proof (induction k arbitrary: j)
  case (Suc k)
  have "norm_step False (replicate j dotdot) dotdot = replicate (Suc j) dotdot"
    by (cases j) (auto simp: norm_step_def)
  then show ?case using Suc.IH [of "Suc j"] by simp
qed simp

lemma norm_stack_fixed:
  assumes "norm_ok rooted st"
  shows "norm_stack rooted (rev st) = st"
proof -
  obtain ns k where st: "st = ns @ replicate k dotdot" and k: "rooted \<longrightarrow> k = 0"
    and ns: "\<forall>c \<in> set ns. is_name c \<and> c \<noteq> dot \<and> c \<noteq> dotdot"
    using assms by (auto simp: norm_ok_def)
  have "foldl (norm_step rooted) [] (replicate k dotdot) = replicate k dotdot"
    using k norm_push_dotdots [of 0 k] by (cases rooted) auto
  then have "foldl (norm_step rooted) [] (rev st) = rev (rev ns) @ replicate k dotdot"
    using st ns norm_push_names [of "rev ns"] by simp
  then show ?thesis using st by (simp add: norm_stack_def)
qed

text \<open>The components and the rootedness of a normal form, and its form.\<close>

lemma lexically_normal_cases:
  assumes "p \<noteq> []"
  obtains (empty) "norm_stack (has_root_path p) (components p) = []"
      "lexically_normal p = (if has_root_path p then ''/'' else dot)"
  | (names) st where "st = norm_stack (has_root_path p) (components p)" "st \<noteq> []"
      "lexically_normal p = (if has_root_path p then ''/'' else []) @ join_path (rev st) @
         (if norm_trailing p (components p) \<and> hd st \<noteq> dotdot then ''/'' else [])"
  using assms by (cases "norm_stack (has_root_path p) (components p)")
    (auto simp: lexically_normal_def Let_def)

lemma has_root_path_normal:
  "has_root_path (lexically_normal p) = has_root_path p"
proof (cases "p = []")
  case False
  then show ?thesis
  proof (cases rule: lexically_normal_cases [case_names empty names])
    case (names st)
    then have "\<forall>c \<in> set (rev st). is_name c"
      using norm_ok_names [OF norm_stack_components] by fastforce
    then show ?thesis
      using names join_path_no_root [of "rev st"] by (cases "has_root_path p") (simp_all add: has_root_path_slash)
  qed (auto simp: has_root_path_def dot_def)
qed (simp add: lexically_normal_def)

lemma components_normal:
  assumes "has_root_path p"
  shows "components (lexically_normal p) = rev (norm_stack True (components p))"
proof -
  have "p \<noteq> []" using assms by (auto simp: has_root_path_def)
  then show ?thesis
  proof (cases rule: lexically_normal_cases [case_names empty names])
    case empty
    then show ?thesis using assms by (simp add: components_def)
  next
    case (names st)
    then have ok: "\<forall>c \<in> set (rev st). is_name c"
      using norm_ok_names [OF norm_stack_components] by fastforce
    show ?thesis
      using names assms components_join [OF ok] components_join_slash [OF ok] by auto
  qed
qed

lemma lexically_normal_relative_components:
  assumes "\<not> has_root_path p" "norm_stack False (components p) \<noteq> []" "p \<noteq> []"
  shows "components (lexically_normal p) = rev (norm_stack False (components p))"
  using assms(3)
proof (cases rule: lexically_normal_cases [case_names empty names])
  case empty
  then show ?thesis using assms by simp
next
  case (names st)
  then have ok: "\<forall>c \<in> set (rev st). is_name c"
    using norm_ok_names [OF norm_stack_components] by fastforce
  show ?thesis
    using names assms components_join [OF ok] components_join_slash [OF ok] by auto
qed

lemma hd_not_dot_last:
  "norm_ok rooted st \<Longrightarrow> st \<noteq> [] \<Longrightarrow> hd st \<noteq> dotdot \<Longrightarrow> List.last (rev st) \<noteq> dot \<and> List.last (rev st) \<noteq> dotdot"
  using norm_ok_names [of rooted st "hd st"] by (cases st) auto

lemma norm_trailing_normal:
  assumes st: "st = norm_stack (has_root_path p) (components p)" "st \<noteq> []"
    and q: "q = (if has_root_path p then ''/'' else []) @ join_path (rev st) @
       (if b \<and> hd st \<noteq> dotdot then ''/'' else [])"
  shows "(norm_trailing q (rev st) \<and> hd st \<noteq> dotdot) = (b \<and> hd st \<noteq> dotdot)"
proof -
  have ok: "norm_ok (has_root_path p) st" using st norm_stack_components by simp
  have names: "\<forall>c \<in> set (rev st). is_name c" using norm_ok_names [OF ok] by auto
  have "join_path (rev st) \<noteq> []" "\<not> is_slash (List.last (join_path (rev st)))"
    using names st(2) join_path_nonempty join_path_last by auto
  then show ?thesis
    using q hd_not_dot_last [OF ok st(2)] st(2) by (auto simp: norm_trailing_def ends_with_slash_def)
qed

text \<open>Normalising a normal form changes nothing.\<close>

lemma lexically_normal_fixed: "lexically_normal (lexically_normal p) = lexically_normal p"
proof (cases "p = []")
  case False
  then show ?thesis
  proof (cases rule: lexically_normal_cases [case_names empty names])
    case empty
    then show ?thesis by (simp, code_simp)
  next
    case (names st)
    let ?q = "lexically_normal p"
    have ok: "norm_ok (has_root_path p) st" using names norm_stack_components by simp
    have cs: "components ?q = rev st"
      using names False components_normal [of p] lexically_normal_relative_components [of p]
      by (cases "has_root_path p") auto
    have q: "?q \<noteq> []" using cs names(2) by (auto simp: components_def)
    have "lexically_normal ?q = (if has_root_path p then ''/'' else []) @ join_path (rev st) @
         (if norm_trailing ?q (rev st) \<and> hd st \<noteq> dotdot then ''/'' else [])"
      using q
    proof (cases rule: lexically_normal_cases [case_names empty names])
      case empty
      then show ?thesis
        using cs names(2) norm_stack_fixed [OF ok] by (simp add: has_root_path_normal)
    next
      case (names st')
      then show ?thesis
        using cs norm_stack_fixed [OF ok] by (simp add: has_root_path_normal)
    qed
    then show ?thesis
      using names norm_trailing_normal [OF names(1,2,3)] by (simp only:)
  qed
qed (simp add: lexically_normal_def)

lemma lexically_normal_root [simp]: "lexically_normal ''/'' = ''/''"
  by code_simp

text \<open>An absolute normal form has no component that is empty, a dot or a dot-dot.\<close>

lemma lexically_normal_absolute_components:
  assumes "has_root_path p" "c \<in> set (components (lexically_normal p))"
  shows "c \<noteq> [] \<and> c \<noteq> dot \<and> c \<noteq> dotdot"
  using assms norm_ok_names [OF norm_stack_components, of c True p]
  by (auto simp: components_normal is_name_def)

end
