(* ===== verification/Unordered_Map.thy ===== *)
theory Unordered_Map
  imports Prelude
begin

text \<open>
  \<open>std::unordered_map\<close> with unique keys, as the association list of its elements in iteration order.
  The standard leaves the place of a new element open; here it is put in front, as libstdc++ does when its
  bucket is empty. Where a statement shows a new element in front of a table, the content is that the rest of the
  table is what it was; that it comes first is this choice of the model.
\<close>

type_synonym ('k, 'v) unordered_map = "('k \<times> 'v) list"

definition umap_contains :: "'k \<Rightarrow> ('k, 'v) unordered_map \<Rightarrow> bool" where
  "umap_contains k m = (map_of m k \<noteq> None)"

text \<open>\<open>insert\<close> and \<open>emplace\<close> keep an element that is already there.\<close>

definition umap_insert :: "'k \<Rightarrow> 'v \<Rightarrow> ('k, 'v) unordered_map \<Rightarrow> ('k, 'v) unordered_map" where
  "umap_insert k v m = (if umap_contains k m then m else (k, v) # m)"

definition umap_erase :: "'k \<Rightarrow> ('k, 'v) unordered_map \<Rightarrow> ('k, 'v) unordered_map" where
  "umap_erase k m = filter (\<lambda>e. fst e \<noteq> k) m"

text \<open>A write through a reference to the mapped value.\<close>

definition umap_modify :: "'k \<Rightarrow> ('v \<Rightarrow> 'v) \<Rightarrow> ('k, 'v) unordered_map \<Rightarrow> ('k, 'v) unordered_map" where
  "umap_modify k f m = List.map (\<lambda>(k', v). (k', if k' = k then f v else v)) m"

definition umap_keys :: "('k, 'v) unordered_map \<Rightarrow> 'k list" where
  "umap_keys m = List.map fst m"

definition umap_wf :: "('k, 'v) unordered_map \<Rightarrow> bool" where
  "umap_wf m = distinct (umap_keys m)"

named_theorems umap_simps "lookups and keys of a map after its operations"

lemma umap_contains_keys: "umap_contains k m \<longleftrightarrow> k \<in> set (umap_keys m)"
  by (simp add: umap_contains_def umap_keys_def map_of_eq_None_iff)

lemma umap_containsE: "umap_contains k m \<Longrightarrow> (\<And>v. map_of m k = Some v \<Longrightarrow> P) \<Longrightarrow> P"
  by (auto simp: umap_contains_def)

lemma map_of_umap_insert [umap_simps]:
  "map_of (umap_insert k v m) = (if umap_contains k m then map_of m else (map_of m)(k \<mapsto> v))"
  by (simp add: umap_insert_def)

lemma map_of_filter_key: "map_of (filter (\<lambda>e. fst e \<noteq> k) m) = (map_of m)(k := None)"
  by (induction m) auto

lemma map_of_umap_erase [umap_simps]: "map_of (umap_erase k m) = (map_of m)(k := None)"
  by (simp add: umap_erase_def map_of_filter_key)

lemma map_of_umap_modify [umap_simps]:
  "map_of (umap_modify k f m) = (map_of m)(k := map_option f (map_of m k))"
  by (induction m) (auto simp: umap_modify_def)

lemma umap_keys_simps [umap_simps]:
  "umap_keys [] = []"
  "umap_keys ((k, v) # m) = k # umap_keys m"
  "umap_keys (umap_insert k v m) = (if k \<in> set (umap_keys m) then umap_keys m else k # umap_keys m)"
  "umap_keys (umap_modify k f m) = umap_keys m"
  by (auto simp: umap_keys_def umap_insert_def umap_modify_def umap_contains_keys)

lemma umap_keys_erase [umap_simps]: "umap_keys (umap_erase k m) = filter (\<lambda>x. x \<noteq> k) (umap_keys m)"
  by (induction m) (auto simp: umap_keys_def umap_erase_def)

lemma umap_contains_simps [umap_simps]:
  "umap_contains k (umap_insert k' v m) = (k = k' \<or> umap_contains k m)"
  "umap_contains k (umap_erase k' m) = (k \<noteq> k' \<and> umap_contains k m)"
  "umap_contains k (umap_modify k' f m) = umap_contains k m"
  by (auto simp: umap_contains_keys umap_simps)

lemma umap_wf_simps [simp]:
  "umap_wf []"
  "umap_wf m \<Longrightarrow> umap_wf (umap_insert k v m)"
  "umap_wf m \<Longrightarrow> umap_wf (umap_erase k m)"
  "umap_wf (umap_modify k f m) = umap_wf m"
  by (auto simp: umap_wf_def umap_simps)

lemma map_of_in_set: "map_of m k = Some v \<Longrightarrow> (k, v) \<in> set m"
  by (rule map_of_SomeD)

lemma umap_in_set: "umap_wf m \<Longrightarrow> (k, v) \<in> set m \<longleftrightarrow> map_of m k = Some v"
  by (auto simp: umap_wf_def umap_keys_def intro: map_of_is_SomeI dest: map_of_SomeD)

end
