(* ===== verification/Locker.thy ===== *)
theory Locker
  imports Prelude
begin

text \<open>
  The locks of \<open>lib/common/locker.hpp\<close> and \<open>lib/common/vfs.cpp\<close> as one thread sees them. A
  \<open>std::mutex\<close> is a flag: locking a mutex that the thread already holds never returns (the outcome
  \<open>None\<close>). A \<open>std::recursive_mutex\<close> is the number of times the thread has locked it; unlocking it
  when it is not held is undefined.
\<close>

section \<open>Mutex and the value it guards\<close>

record 'a locker =
  locker_value :: 'a
  locker_mutex :: bool

definition locker_new :: "'a \<Rightarrow> 'a locker" where
  "locker_new v = \<lparr>locker_value = v, locker_mutex = False\<rparr>"

text \<open>\<open>lock\<close> builds the \<open>locked\<close> object, whose constructor locks the mutex and whose destructor
  unlocks it.\<close>

definition locker_lock :: "'a locker \<Rightarrow> 'a locker option" where
  "locker_lock l = (if locker_mutex l then None else Some (l\<lparr>locker_mutex := True\<rparr>))"

definition locked_get :: "'a locker \<Rightarrow> 'a" where
  "locked_get l = locker_value l"

definition locked_release :: "'a locker \<Rightarrow> 'a locker" where
  "locked_release l = l\<lparr>locker_mutex := False\<rparr>"

section \<open>Recursive mutex\<close>

definition rm_lock :: "nat \<Rightarrow> nat" where
  "rm_lock n = Suc n"

definition rm_unlock :: "nat \<Rightarrow> nat option" where
  "rm_unlock n = (case n of 0 \<Rightarrow> None | Suc m \<Rightarrow> Some m)"

lemma locker_simps [simp]:
  "locker_lock l = Some l' \<longleftrightarrow> \<not> locker_mutex l \<and> l' = l\<lparr>locker_mutex := True\<rparr>"
  "locker_lock l = None \<longleftrightarrow> locker_mutex l"
  "locked_get (l\<lparr>locker_mutex := b\<rparr>) = locker_value l"
  "\<not> locker_mutex (locked_release l)"
  "locker_value (locked_release l) = locker_value l"
  "\<not> locker_mutex (locker_new v)"
  "locker_value (locker_new v) = v"
  by (auto simp: locker_lock_def locked_get_def locked_release_def locker_new_def)

lemma locker_lock_release:
  "\<not> locker_mutex l \<Longrightarrow> locked_release (l\<lparr>locker_mutex := True\<rparr>) = l"
  by (simp add: locked_release_def)

lemma rm_unlock_lock [simp]: "rm_unlock (rm_lock n) = Some n"
  by (simp add: rm_lock_def rm_unlock_def)

end
