(* ===== verification/Bitmap.thy ===== *)
theory Bitmap
  imports Prelude
begin

text \<open>
  The block and inode bitmaps: \<open>include/ext4_bitmap.h\<close> and \<open>src/ext4_bitmap.c\<close>.

  A \<open>uint8_t *bmap\<close> is a buffer with a displacement \<open>base\<close> (the code advances the pointer with
  \<open>bmap += sbit >> 3\<close>); every access is checked against the buffer, \<open>None\<close> being an access outside
  it. The loops keep their C shape; \<open>CONFIG_UNALIGNED_ACCESS\<close> is 0 in this configuration, so the
  32- and 16-bit strides are compiled out. The abstraction is \<open>bmap_bit\<close>, the bit of a number.
\<close>

section \<open>Single bits\<close>

definition ext4_bmap_bit_set :: "u8 list \<Rightarrow> nat \<Rightarrow> u32 \<Rightarrow> u8 list option" where
  "ext4_bmap_bit_set b base i = do {
     v \<leftarrow> rd8 b (base + unat (drop_bit 3 i));
     wr8 b (base + unat (drop_bit 3 i)) (v OR push_bit (unat (i AND 7)) 1)
   }"

definition ext4_bmap_bit_clr :: "u8 list \<Rightarrow> nat \<Rightarrow> u32 \<Rightarrow> u8 list option" where
  "ext4_bmap_bit_clr b base i = do {
     v \<leftarrow> rd8 b (base + unat (drop_bit 3 i));
     wr8 b (base + unat (drop_bit 3 i)) (v AND NOT (push_bit (unat (i AND 7)) 1))
   }"

definition ext4_bmap_is_bit_set :: "u8 list \<Rightarrow> nat \<Rightarrow> u32 \<Rightarrow> bool option" where
  "ext4_bmap_is_bit_set b base i = do {
     v \<leftarrow> rd8 b (base + unat (drop_bit 3 i));
     Some (v AND push_bit (unat (i AND 7)) 1 \<noteq> 0)
   }"

definition ext4_bmap_is_bit_clr :: "u8 list \<Rightarrow> nat \<Rightarrow> u32 \<Rightarrow> bool option" where
  "ext4_bmap_is_bit_clr b base i = map_option Not (ext4_bmap_is_bit_set b base i)"

section \<open>Freeing a range of bits\<close>

text \<open>The first loop of \<open>ext4_bmap_bits_free\<close>: clear bits until the index is byte aligned. The last
  component tells whether the function has returned from inside the loop.\<close>

function bmap_free_align :: "u8 list \<Rightarrow> u32 \<Rightarrow> u32 \<Rightarrow> (u8 list \<times> u32 \<times> u32 \<times> bool) option" where
  "bmap_free_align b i bcnt =
     (if i AND 7 \<noteq> 0 then
        if bcnt = 0 then Some (b, i, bcnt, True)
        else do {
          b' \<leftarrow> ext4_bmap_bit_clr b 0 i;
          bmap_free_align b' (i + 1) (bcnt - 1)
        }
      else Some (b, i, bcnt, False))"
  by pat_completeness auto
termination
  by (relation "measure (\<lambda>(b, i, bcnt). unat bcnt)") (auto simp: unat_minus_one unat_gt_0)

text \<open>Whole bytes: \<open>while (bcnt >= 8) { *bmap = 0; bmap += 1; bcnt -= 8; sbit += 8; }\<close>\<close>

function bmap_free_bytes :: "u8 list \<Rightarrow> nat \<Rightarrow> u32 \<Rightarrow> (u8 list \<times> nat \<times> u32) option" where
  "bmap_free_bytes b base bcnt =
     (if 8 \<le> bcnt then do {
        b' \<leftarrow> wr8 b base 0;
        bmap_free_bytes b' (base + 1) (bcnt - 8)
      }
      else Some (b, base, bcnt))"
  by pat_completeness auto
termination
  by (relation "measure (\<lambda>(b, base, bcnt). unat bcnt)")
     (auto simp: down_by_measure)

text \<open>The tail: \<open>for (i = 0; i < bcnt; ++i) ext4_bmap_bit_clr(bmap, i);\<close>\<close>

function bmap_free_tail :: "u8 list \<Rightarrow> nat \<Rightarrow> u32 \<Rightarrow> u32 \<Rightarrow> u8 list option" where
  "bmap_free_tail b base i bcnt =
     (if i < bcnt then do {
        b' \<leftarrow> ext4_bmap_bit_clr b base i;
        bmap_free_tail b' base (i + 1) bcnt
      }
      else Some b)"
  by pat_completeness auto
termination
  by (relation "measure (\<lambda>(b, base, i, bcnt). unat bcnt - unat i)")
     (auto simp: for_loop_measure)

declare bmap_free_align.simps [simp del] bmap_free_bytes.simps [simp del] bmap_free_tail.simps [simp del]

definition ext4_bmap_bits_free :: "u8 list \<Rightarrow> u32 \<Rightarrow> u32 \<Rightarrow> u8 list option" where
  "ext4_bmap_bits_free b sbit bcnt = do {
     (b1, i, bcnt1, returned) \<leftarrow> bmap_free_align b sbit bcnt;
     if returned then Some b1
     else do {
       (b2, base, bcnt2) \<leftarrow> bmap_free_bytes b1 (unat (drop_bit 3 i)) bcnt1;
       bmap_free_tail b2 base 0 bcnt2
     }
   }"

section \<open>Searching a clear bit\<close>

text \<open>The result of the search is \<open>Inl ENOSPC\<close>, or \<open>Inr bit_id\<close> for \<open>EOK\<close> with the output written.\<close>

function bmap_find_align :: "u8 list \<Rightarrow> u32 \<Rightarrow> u32 \<Rightarrow> ((errno + u32) + (u32 \<times> u32)) option" where
  "bmap_find_align b i bcnt =
     (if i AND 7 \<noteq> 0 then
        if bcnt = 0 then Some (Inl (Inl ENOSPC))
        else do {
          c \<leftarrow> ext4_bmap_is_bit_clr b 0 i;
          if c then Some (Inl (Inr i))
          else bmap_find_align b (i + 1) (bcnt - 1)
        }
      else Some (Inr (i, bcnt)))"
  by pat_completeness auto
termination
  by (relation "measure (\<lambda>(b, i, bcnt). unat bcnt)") (auto simp: unat_minus_one unat_gt_0)

text \<open>\<open>for (i = 0; i < lim; ++i) if (ext4_bmap_is_bit_clr(bmap, i)) { *bit_id = sbit + i; return EOK; }\<close>:
  the inner loop of the byte scan (\<open>lim = 8\<close>) and the tail scan (\<open>lim = bcnt\<close>).\<close>

function bmap_find_tail :: "u8 list \<Rightarrow> nat \<Rightarrow> u32 \<Rightarrow> u32 \<Rightarrow> u32 \<Rightarrow> u32 option option" where
  "bmap_find_tail b base sbit i lim =
     (if i < lim then do {
        c \<leftarrow> ext4_bmap_is_bit_clr b base i;
        if c then Some (Some (sbit + i))
        else bmap_find_tail b base sbit (i + 1) lim
      }
      else Some None)"
  by pat_completeness auto
termination
  by (relation "measure (\<lambda>(b, base, sbit, i, lim). unat lim - unat i)")
     (auto simp: for_loop_measure)

function bmap_find_bytes ::
  "u8 list \<Rightarrow> nat \<Rightarrow> u32 \<Rightarrow> u32 \<Rightarrow> (u32 + (nat \<times> u32 \<times> u32)) option" where
  "bmap_find_bytes b base sbit bcnt =
     (if 8 \<le> bcnt then do {
        v \<leftarrow> rd8 b base;
        hit \<leftarrow> (if v \<noteq> 0xFF then bmap_find_tail b base sbit 0 8 else Some None);
        case hit of
          Some k \<Rightarrow> Some (Inl k)
        | None \<Rightarrow> bmap_find_bytes b (base + 1) (sbit + 8) (bcnt - 8)
      }
      else Some (Inr (base, sbit, bcnt)))"
  by pat_completeness auto
termination
  by (relation "measure (\<lambda>(b, base, sbit, bcnt). unat bcnt)")
     (auto simp: down_by_measure)

declare bmap_find_align.simps [simp del] bmap_find_tail.simps [simp del] bmap_find_bytes.simps [simp del]

definition ext4_bmap_bit_find_clr :: "u8 list \<Rightarrow> u32 \<Rightarrow> u32 \<Rightarrow> (errno + u32) option" where
  "ext4_bmap_bit_find_clr b sbit ebit = do {
     r \<leftarrow> bmap_find_align b sbit (ebit - sbit);
     case r of
       Inl res \<Rightarrow> Some res
     | Inr (i, bcnt) \<Rightarrow> do {
         r' \<leftarrow> bmap_find_bytes b (unat (drop_bit 3 i)) i bcnt;
         case r' of
           Inl k \<Rightarrow> Some (Inr k)
         | Inr (base, sbit', bcnt') \<Rightarrow> do {
             hit \<leftarrow> bmap_find_tail b base sbit' 0 bcnt';
             case hit of Some k \<Rightarrow> Some (Inr k) | None \<Rightarrow> Some (Inl ENOSPC)
           }
       }
   }"

section \<open>The bitmap as a set of bits\<close>

definition bmap_bit :: "u8 list \<Rightarrow> nat \<Rightarrow> bool" where
  "bmap_bit b k = bit (b ! (k div 8)) (k mod 8)"

definition bmap_set :: "u8 list \<Rightarrow> nat \<Rightarrow> u8 list" where
  "bmap_set b n = b[n div 8 := (b ! (n div 8)) OR push_bit (n mod 8) 1]"

definition bmap_clear :: "u8 list \<Rightarrow> nat \<Rightarrow> u8 list" where
  "bmap_clear b n = b[n div 8 := (b ! (n div 8)) AND NOT (push_bit (n mod 8) 1)]"

lemma length_bmap [simp]: "length (bmap_set b n) = length b" "length (bmap_clear b n) = length b"
  by (simp_all add: bmap_set_def bmap_clear_def)

lemma div_mod_8_inject: "(k::nat) div 8 = n div 8 \<Longrightarrow> k mod 8 = n mod 8 \<Longrightarrow> k = n"
  by (metis div_mult_mod_eq)

lemma bmap_bit_set:
  "n < 8 * length b \<Longrightarrow> bmap_bit (bmap_set b n) k = (k = n \<or> bmap_bit b k)"
  by (cases "k div 8 = n div 8")
     (auto simp: bmap_bit_def bmap_set_def bit_simps less_mult_imp_div_less mult.commute
           dest: div_mod_8_inject)

lemma bmap_bit_clear:
  "n < 8 * length b \<Longrightarrow> bmap_bit (bmap_clear b n) k = (k \<noteq> n \<and> bmap_bit b k)"
  by (cases "k div 8 = n div 8")
     (auto simp: bmap_bit_def bmap_clear_def bit_simps less_mult_imp_div_less mult.commute
           dest: div_mod_8_inject)

lemma mult8_div8: "(n::nat) mod 8 = 0 \<Longrightarrow> 8 * (n div 8) = n"
  by presburger

lemma bit_at_base: "(8 * base + unat (i::u32)) div 8 = base + unat i div 8"
  "(8 * base + unat i) mod 8 = unat i mod 8"
  by simp_all

lemma ext4_bmap_bit_set_eq:
  "ext4_bmap_bit_set b base i =
     (if 8 * base + unat i < 8 * length b then Some (bmap_set b (8 * base + unat i)) else None)"
  by (auto simp: ext4_bmap_bit_set_def bmap_set_def rd8_def wr8_def Let_def)

lemma ext4_bmap_bit_clr_eq:
  "ext4_bmap_bit_clr b base i =
     (if 8 * base + unat i < 8 * length b then Some (bmap_clear b (8 * base + unat i)) else None)"
  by (auto simp: ext4_bmap_bit_clr_def bmap_clear_def rd8_def wr8_def Let_def)

lemma ext4_bmap_is_bit_set_eq:
  "ext4_bmap_is_bit_set b base i =
     (if 8 * base + unat i < 8 * length b then Some (bmap_bit b (8 * base + unat i)) else None)"
  by (auto simp: ext4_bmap_is_bit_set_def bmap_bit_def rd8_def and_exp_eq_0_iff_not_bit)

lemma ext4_bmap_is_bit_clr_eq:
  "ext4_bmap_is_bit_clr b base i =
     (if 8 * base + unat i < 8 * length b then Some (\<not> bmap_bit b (8 * base + unat i)) else None)"
  by (simp add: ext4_bmap_is_bit_clr_def ext4_bmap_is_bit_set_eq)

lemmas bmap_op_eqs = ext4_bmap_bit_set_eq ext4_bmap_bit_clr_eq ext4_bmap_is_bit_set_eq
  ext4_bmap_is_bit_clr_eq

section \<open>Correctness of the range operations\<close>

text \<open>\<open>bmap_cleared b b' S\<close>: the buffer \<open>b'\<close> is \<open>b\<close> with exactly the bits of \<open>S\<close> cleared.\<close>

definition bmap_cleared :: "u8 list \<Rightarrow> u8 list \<Rightarrow> nat set \<Rightarrow> bool" where
  "bmap_cleared b b' S \<longleftrightarrow>
     length b' = length b \<and> (\<forall>k < 8 * length b. bmap_bit b' k = (bmap_bit b k \<and> k \<notin> S))"

lemma bmap_cleared_refl [simp]: "bmap_cleared b b {}"
  by (simp add: bmap_cleared_def)

lemma bmap_cleared_trans:
  "bmap_cleared b b1 S \<Longrightarrow> bmap_cleared b1 b2 T \<Longrightarrow> bmap_cleared b b2 (S \<union> T)"
  by (auto simp: bmap_cleared_def)

lemma bmap_cleared_length: "bmap_cleared b b' S \<Longrightarrow> length b' = length b"
  by (simp add: bmap_cleared_def)

lemma bmap_cleared_one:
  "n < 8 * length b \<Longrightarrow> bmap_cleared b (bmap_clear b n) {n}"
  by (auto simp: bmap_cleared_def bmap_bit_clear)

lemma bmap_cleared_step:
  assumes "n < 8 * length b" "bmap_cleared (bmap_clear b n) b' {Suc n..<m}" "n < m"
  shows "bmap_cleared b b' {n..<m}"
proof -
  have "{n} \<union> {Suc n..<m} = {n..<m}" using assms(3) by auto
  with bmap_cleared_trans [OF bmap_cleared_one [OF assms(1)] assms(2)] show ?thesis by simp
qed

lemma bmap_cleared_byte:
  assumes "p < length b"
  shows "bmap_cleared b (b[p := 0]) {8 * p..<8 * Suc p}"
  unfolding bmap_cleared_def
proof (intro conjI allI impI)
  fix k assume "k < 8 * length b"
  then show "bmap_bit (b[p := 0]) k = (bmap_bit b k \<and> k \<notin> {8 * p..<8 * Suc p})"
    using assms by (cases "k div 8 = p") (auto simp: bmap_bit_def)
qed simp

lemma bmap_free_align_spec:
  assumes "unat i + unat bcnt \<le> 8 * length b" "8 * length b < 2 ^ 32"
  shows "\<exists>b' i' bcnt' ret. bmap_free_align b i bcnt = Some (b', i', bcnt', ret)
           \<and> bmap_cleared b b' {unat i..<unat i'} \<and> unat i \<le> unat i'
           \<and> unat i' + unat bcnt' = unat i + unat bcnt
           \<and> (ret \<longrightarrow> bcnt' = 0) \<and> (\<not> ret \<longrightarrow> unat i' mod 8 = 0)"
  using assms
proof (induction b i bcnt rule: bmap_free_align.induct)
  case (1 b i bcnt)
  show ?case
  proof (cases "i AND 7 \<noteq> 0 \<and> bcnt \<noteq> 0")
    case True
    then have pos: "0 < unat bcnt" by (simp add: unat_gt_0)
    have lt: "unat i < 8 * length b" using pos "1.prems" by linarith
    have inc: "unat (i + 1) = Suc (unat i)"
      using lt "1.prems"(2) unat_plus_one_nowrap [of i] by simp
    have dec: "unat (bcnt - 1) = unat bcnt - 1" using True by (simp add: unat_minus_one)
    let ?b = "bmap_clear b (unat i)"
    have clr: "ext4_bmap_bit_clr b 0 i = Some ?b" using lt by (simp add: ext4_bmap_bit_clr_eq)
    have "unat (i + 1) + unat (bcnt - 1) \<le> 8 * length ?b" using inc dec pos "1.prems" by simp
    with "1.IH" [of ?b] True clr "1.prems"(2)
    obtain b' i' bcnt' ret where IH: "bmap_free_align ?b (i + 1) (bcnt - 1) = Some (b', i', bcnt', ret)"
      "bmap_cleared ?b b' {unat (i + 1)..<unat i'}" "unat (i + 1) \<le> unat i'"
      "unat i' + unat bcnt' = unat (i + 1) + unat (bcnt - 1)"
      "ret \<longrightarrow> bcnt' = 0" "\<not> ret \<longrightarrow> unat i' mod 8 = 0"
      by auto
    have "bmap_cleared b b' {unat i..<unat i'}"
      by (rule bmap_cleared_step [OF lt]) (use IH(2,3) inc in simp_all)
    moreover have "bmap_free_align b i bcnt = Some (b', i', bcnt', ret)"
      using True clr IH(1) by (subst bmap_free_align.simps) simp
    ultimately show ?thesis using IH inc dec pos by auto
  next
    case False
    then show ?thesis
      by (subst bmap_free_align.simps) (auto simp: and7_zero_iff)
  qed
qed

lemma bmap_free_bytes_spec:
  assumes "8 * base + unat bcnt \<le> 8 * length b"
  shows "\<exists>b' base' bcnt'. bmap_free_bytes b base bcnt = Some (b', base', bcnt')
           \<and> bmap_cleared b b' {8 * base..<8 * base'} \<and> base \<le> base'
           \<and> 8 * base' + unat bcnt' = 8 * base + unat bcnt \<and> unat bcnt' < 8"
  using assms
proof (induction b base bcnt rule: bmap_free_bytes.induct)
  case (1 b base bcnt)
  show ?case
  proof (cases "8 \<le> bcnt")
    case True
    then have le: "8 \<le> unat bcnt" by (simp add: word_le_nat_alt)
    have dec: "unat (bcnt - 8) = unat bcnt - 8" using True by (simp add: unat_sub)
    have p: "base < length b" using le "1.prems" by linarith
    let ?b = "b[base := 0]"
    from "1.IH" [of ?b] True p dec le "1.prems"
    obtain b' base' bcnt' where IH: "bmap_free_bytes ?b (base + 1) (bcnt - 8) = Some (b', base', bcnt')"
      "bmap_cleared ?b b' {8 * (base + 1)..<8 * base'}" "base + 1 \<le> base'"
      "8 * base' + unat bcnt' = 8 * (base + 1) + unat (bcnt - 8)" "unat bcnt' < 8"
      by auto
    have "{8 * base..<8 * Suc base} \<union> {8 * (base + 1)..<8 * base'} = {8 * base..<8 * base'}"
      using IH(3) by auto
    with bmap_cleared_trans [OF bmap_cleared_byte [OF p] IH(2)]
    have "bmap_cleared b b' {8 * base..<8 * base'}" by simp
    moreover have "bmap_free_bytes b base bcnt = Some (b', base', bcnt')"
      using True p IH(1) by (subst bmap_free_bytes.simps) simp
    ultimately show ?thesis using IH dec le by auto
  next
    case False
    then show ?thesis
      by (subst bmap_free_bytes.simps) (auto simp: word_le_nat_alt)
  qed
qed

lemma bmap_free_tail_spec:
  assumes "8 * base + unat bcnt \<le> 8 * length b"
  shows "\<exists>b'. bmap_free_tail b base i bcnt = Some b'
           \<and> bmap_cleared b b' {8 * base + unat i..<8 * base + unat bcnt}"
  using assms
proof (induction b base i bcnt rule: bmap_free_tail.induct)
  case (1 b base i bcnt)
  show ?case
  proof (cases "i < bcnt")
    case True
    then have inc: "unat (i + 1) = Suc (unat i)" by (rule unat_inc_below)
    have lt: "8 * base + unat i < 8 * base + unat bcnt" using True by (simp add: word_less_nat_alt)
    let ?b = "bmap_clear b (8 * base + unat i)"
    have clr: "ext4_bmap_bit_clr b base i = Some ?b"
      using lt "1.prems" by (simp add: ext4_bmap_bit_clr_eq)
    from "1.IH" [OF True clr] "1.prems"
    obtain b' where IH: "bmap_free_tail ?b base (i + 1) bcnt = Some b'"
      "bmap_cleared ?b b' {8 * base + unat (i + 1)..<8 * base + unat bcnt}" by auto
    have "bmap_cleared b b' {8 * base + unat i..<8 * base + unat bcnt}"
      by (rule bmap_cleared_step) (use IH(2) inc lt "1.prems" in simp_all)
    moreover have "bmap_free_tail b base i bcnt = Some b'"
      using True clr IH(1) by (subst bmap_free_tail.simps) simp
    ultimately show ?thesis by blast
  next
    case False
    then have "{8 * base + unat i..<8 * base + unat bcnt} = {}" by (simp add: word_less_nat_alt)
    with False show ?thesis
      by (subst bmap_free_tail.simps) (simp del: atLeastLessThan_empty_iff)
  qed
qed

text \<open>freeing a range clears exactly that range and never leaves the buffer.\<close>

theorem ext4_bmap_bits_free_correct:
  assumes "unat sbit + unat bcnt \<le> 8 * length b" "8 * length b < 2 ^ 32"
  shows "\<exists>b'. ext4_bmap_bits_free b sbit bcnt = Some b' \<and> length b' = length b
           \<and> (\<forall>k < 8 * length b.
                bmap_bit b' k = (bmap_bit b k \<and> \<not> (unat sbit \<le> k \<and> k < unat sbit + unat bcnt)))"
proof -
  obtain b1 i bcnt1 ret where al: "bmap_free_align b sbit bcnt = Some (b1, i, bcnt1, ret)"
    "bmap_cleared b b1 {unat sbit..<unat i}" "unat sbit \<le> unat i"
    "unat i + unat bcnt1 = unat sbit + unat bcnt" "ret \<longrightarrow> bcnt1 = 0" "\<not> ret \<longrightarrow> unat i mod 8 = 0"
    using bmap_free_align_spec [OF assms] by (elim exE conjE) (rule that; assumption)
  show ?thesis
  proof (cases ret)
    case True
    with al show ?thesis
      by (auto simp: ext4_bmap_bits_free_def bmap_cleared_def)
  next
    case False
    with al(6) have i8: "8 * (unat i div 8) = unat i" by (simp only: mult8_div8 not_False_eq_True)
    have len1: "length b1 = length b" using al(2) by (rule bmap_cleared_length)
    obtain b2 base bcnt2 where wb: "bmap_free_bytes b1 (unat i div 8) bcnt1 = Some (b2, base, bcnt2)"
      "bmap_cleared b1 b2 {unat i..<8 * base}" "unat i \<le> 8 * base"
      "8 * base + unat bcnt2 = unat i + unat bcnt1"
      using bmap_free_bytes_spec [of "unat i div 8" bcnt1 b1] i8 al(4) assms(1) len1 by force
    have len2: "length b2 = length b" using wb(2) len1 bmap_cleared_length by simp
    obtain b3 where tl: "bmap_free_tail b2 base 0 bcnt2 = Some b3"
      "bmap_cleared b2 b3 {8 * base..<8 * base + unat bcnt2}"
      using bmap_free_tail_spec [of base bcnt2 b2 0] wb(4) al(4) assms(1) len2 by auto
    have "bmap_cleared b b3 ({unat sbit..<unat i} \<union> {unat i..<8 * base} \<union> {8 * base..<8 * base + unat bcnt2})"
      using al(2) wb(2) tl(2) by (blast intro: bmap_cleared_trans)
    also have "{unat sbit..<unat i} \<union> {unat i..<8 * base} \<union> {8 * base..<8 * base + unat bcnt2}
                 = {unat sbit..<unat sbit + unat bcnt}"
      using al(3,4) wb(3,4) by auto
    finally have "bmap_cleared b b3 {unat sbit..<unat sbit + unat bcnt}" .
    moreover have "ext4_bmap_bits_free b sbit bcnt = Some b3"
      using al(1) wb(1) tl(1) False by (simp add: ext4_bmap_bits_free_def)
    ultimately show ?thesis by (auto simp: bmap_cleared_def)
  qed
qed

theorem ext4_bmap_bits_free_correct_witness:
  "\<exists>b'. ext4_bmap_bits_free [0xFF, 0xFF, 0xFF] 5 12 = Some b' \<and> length b' = 3
     \<and> (\<forall>k < 24. bmap_bit b' k = (bmap_bit [0xFF, 0xFF, 0xFF] k \<and> \<not> (5 \<le> k \<and> k < 17)))"
  using ext4_bmap_bits_free_correct [of 5 12 "[0xFF, 0xFF, 0xFF]"] by (simp add: numeral_3_eq_3)

subsection \<open>The search\<close>

text \<open>\<open>bmap_full b s e\<close>: every bit of the range is set; \<open>bmap_first b s e k\<close>: \<open>k\<close> is the lowest
  clear bit of the range.\<close>

definition bmap_full :: "u8 list \<Rightarrow> nat \<Rightarrow> nat \<Rightarrow> bool" where
  "bmap_full b s e \<longleftrightarrow> (\<forall>j \<in> {s..<e}. bmap_bit b j)"

definition bmap_first :: "u8 list \<Rightarrow> nat \<Rightarrow> nat \<Rightarrow> nat \<Rightarrow> bool" where
  "bmap_first b s e k \<longleftrightarrow> s \<le> k \<and> k < e \<and> \<not> bmap_bit b k \<and> bmap_full b s k"

fun bmap_answer :: "u8 list \<Rightarrow> nat \<Rightarrow> nat \<Rightarrow> errno + u32 \<Rightarrow> bool" where
  "bmap_answer b s e (Inl err) = (err = ENOSPC \<and> bmap_full b s e)"
| "bmap_answer b s e (Inr k) = bmap_first b s e (unat k)"

lemma bmap_full_empty [simp]: "e \<le> s \<Longrightarrow> bmap_full b s e"
  by (simp add: bmap_full_def)

lemma bmap_full_append: "bmap_full b s m \<Longrightarrow> bmap_full b m e \<Longrightarrow> bmap_full b s e"
  by (auto simp: bmap_full_def)

lemma bmap_first_skip: "s \<le> m \<Longrightarrow> bmap_full b s m \<Longrightarrow> bmap_first b m e k \<Longrightarrow> bmap_first b s e k"
  by (auto simp: bmap_first_def intro: bmap_full_append)

lemma bmap_first_here: "\<not> bmap_bit b s \<Longrightarrow> s < e \<Longrightarrow> bmap_first b s e s"
  by (simp add: bmap_first_def)

lemma bmap_one_full: "bmap_bit b s \<Longrightarrow> bmap_full b s (Suc s)"
  by (simp add: bmap_full_def)

lemma bmap_answer_skip:
  "s \<le> m \<Longrightarrow> bmap_full b s m \<Longrightarrow> bmap_answer b m e r \<Longrightarrow> bmap_answer b s e r"
  by (cases r) (auto intro: bmap_full_append bmap_first_skip)

fun bmap_align_answer :: "u8 list \<Rightarrow> nat \<Rightarrow> nat \<Rightarrow> (errno + u32) + (u32 \<times> u32) \<Rightarrow> bool" where
  "bmap_align_answer b s e (Inl r) = bmap_answer b s e r"
| "bmap_align_answer b s e (Inr (i, bcnt)) =
     (s \<le> unat i \<and> unat i + unat bcnt = e \<and> unat i mod 8 = 0 \<and> bmap_full b s (unat i))"

lemma bmap_align_answer_skip:
  assumes "s \<le> m" "bmap_full b s m" "bmap_align_answer b m e r"
  shows "bmap_align_answer b s e r"
  using assms(3) assms(1,2)
  by (cases "(b, m, e, r)" rule: bmap_align_answer.cases)
     (auto intro: bmap_answer_skip bmap_full_append)

lemma bmap_find_align_spec:
  assumes "unat i + unat bcnt \<le> 8 * length b" "8 * length b < 2 ^ 32"
  shows "\<exists>r. bmap_find_align b i bcnt = Some r
           \<and> bmap_align_answer b (unat i) (unat i + unat bcnt) r"
  using assms
proof (induction b i bcnt rule: bmap_find_align.induct)
  case (1 b i bcnt)
  show ?case
  proof (cases "i AND 7 \<noteq> 0 \<and> bcnt \<noteq> 0")
    case True
    then have pos: "0 < unat bcnt" by (simp add: unat_gt_0)
    have lt: "unat i < 8 * length b" using pos "1.prems" by linarith
    have inc: "unat (i + 1) = Suc (unat i)"
      using lt "1.prems"(2) unat_plus_one_nowrap [of i] by simp
    have dec: "unat (bcnt - 1) = unat bcnt - 1" using True by (simp add: unat_minus_one)
    have chk: "ext4_bmap_is_bit_clr b 0 i = Some (\<not> bmap_bit b (unat i))"
      using lt by (simp add: ext4_bmap_is_bit_clr_eq)
    have sum: "unat (i + 1) + unat (bcnt - 1) = unat i + unat bcnt" using inc dec pos by simp
    show ?thesis
    proof (cases "bmap_bit b (unat i)")
      case set: True
      have pre: "unat (i + 1) + unat (bcnt - 1) \<le> 8 * length b" using sum "1.prems" by simp
      from "1.IH" [OF _ _ chk _ pre "1.prems"(2)] True set
      obtain r where r: "bmap_find_align b (i + 1) (bcnt - 1) = Some r"
        "bmap_align_answer b (unat (i + 1)) (unat (i + 1) + unat (bcnt - 1)) r" by blast
      have "bmap_find_align b i bcnt = Some r"
        using True chk set r(1) by (subst bmap_find_align.simps) simp
      moreover have "bmap_align_answer b (unat i) (unat i + unat bcnt) r"
        using r(2) [unfolded sum, unfolded inc] bmap_one_full [OF set]
        by (auto intro: bmap_align_answer_skip [of _ "Suc (unat i)"])
      ultimately show ?thesis by blast
    next
      case False
      with True chk have "bmap_find_align b i bcnt = Some (Inl (Inr i))"
        by (subst bmap_find_align.simps) simp
      with False pos show ?thesis by (simp add: bmap_first_here)
    qed
  next
    case False
    then show ?thesis
      by (subst bmap_find_align.simps) (auto simp: and7_zero_iff)
  qed
qed

fun bmap_hit :: "u8 list \<Rightarrow> nat \<Rightarrow> nat \<Rightarrow> u32 option \<Rightarrow> bool" where
  "bmap_hit b s e None = bmap_full b s e"
| "bmap_hit b s e (Some k) = bmap_first b s e (unat k)"

lemma bmap_hit_skip: "s \<le> m \<Longrightarrow> bmap_full b s m \<Longrightarrow> bmap_hit b m e r \<Longrightarrow> bmap_hit b s e r"
  by (cases r) (auto intro: bmap_full_append bmap_first_skip)

lemma bmap_find_tail_spec:
  assumes "8 * base + unat lim \<le> 8 * length b" "unat i \<le> unat lim"
    "unat sbit = 8 * base" "8 * length b < 2 ^ 32"
  shows "\<exists>r. bmap_find_tail b base sbit i lim = Some r
           \<and> bmap_hit b (8 * base + unat i) (8 * base + unat lim) r"
  using assms
proof (induction b base sbit i lim rule: bmap_find_tail.induct)
  case (1 b base sbit i lim)
  show ?case
  proof (cases "i < lim")
    case True
    then have lt: "unat i < unat lim" by (simp add: word_less_nat_alt)
    have inc: "unat (i + 1) = Suc (unat i)" using True by (rule unat_inc_below)
    have chk: "ext4_bmap_is_bit_clr b base i = Some (\<not> bmap_bit b (8 * base + unat i))"
      using lt "1.prems"(1) by (simp add: ext4_bmap_is_bit_clr_eq)
    have add: "unat (sbit + i) = 8 * base + unat i"
      using lt "1.prems" by simp
    show ?thesis
    proof (cases "bmap_bit b (8 * base + unat i)")
      case set: True
      have le: "unat (i + 1) \<le> unat lim" using inc lt by simp
      from "1.IH" [OF True chk _ "1.prems"(1) le "1.prems"(3,4)] set
      obtain r where r: "bmap_find_tail b base sbit (i + 1) lim = Some r"
        "bmap_hit b (8 * base + unat (i + 1)) (8 * base + unat lim) r" by blast
      have "bmap_find_tail b base sbit i lim = Some r"
        using True chk set r(1) by (subst bmap_find_tail.simps) simp
      moreover have "bmap_hit b (8 * base + unat i) (8 * base + unat lim) r"
        by (rule bmap_hit_skip [OF _ bmap_one_full [OF set]]) (use r(2) inc in simp_all)
      ultimately show ?thesis by blast
    next
      case False
      with True chk have "bmap_find_tail b base sbit i lim = Some (Some (sbit + i))"
        by (subst bmap_find_tail.simps) simp
      with False lt add show ?thesis by (simp add: bmap_first_here)
    qed
  next
    case False
    with "1.prems"(2) have "unat i = unat lim" by (simp add: word_less_nat_alt)
    with False show ?thesis
      by (subst bmap_find_tail.simps) simp
  qed
qed

lemma full_byte: "b ! p = 0xFF \<Longrightarrow> bmap_full b (8 * p) (8 * Suc p)"
  unfolding bmap_full_def
proof
  fix j assume full: "b ! p = 0xFF" and j: "j \<in> {8 * p..<8 * Suc p}"
  have "j div 8 = p" using j by auto
  moreover have "bit (0xFF :: u8) (j mod 8)"
  proof -
    have "(0xFF :: u8) = mask 8" by (simp add: mask_eq_exp_minus_1)
    then show ?thesis by (simp only: bit_mask_iff) simp
  qed
  ultimately show "bmap_bit b j" using full by (simp add: bmap_bit_def)
qed

text \<open>The scan of one byte, as the loop body of \<open>bmap_find_bytes\<close> does it.\<close>

lemma bmap_find_byte:
  assumes "base < length b" "unat sbit = 8 * base" "8 * length b < 2 ^ 32"
  shows "\<exists>r. (if b ! base \<noteq> 0xFF then bmap_find_tail b base sbit 0 8 else Some None) = Some r
           \<and> bmap_hit b (8 * base) (8 * Suc base) r"
proof (cases "b ! base = 0xFF")
  case True
  then show ?thesis using full_byte [of b base] by simp
next
  case False
  have e: "8 * base + unat (0::u32) = 8 * base" "8 * base + unat (8::u32) = 8 * Suc base"
    by simp_all
  have "8 * Suc base \<le> 8 * length b" "unat (0::u32) \<le> unat (8::u32)" using assms(1) by simp_all
  from bmap_find_tail_spec [of base 8 b 0, unfolded e, OF this assms(2,3)] False
  show ?thesis by simp
qed

fun bmap_bytes_answer :: "u8 list \<Rightarrow> nat \<Rightarrow> nat \<Rightarrow> u32 + (nat \<times> u32 \<times> u32) \<Rightarrow> bool" where
  "bmap_bytes_answer b s e (Inl k) = bmap_first b s e (unat k)"
| "bmap_bytes_answer b s e (Inr (base, sbit, bcnt)) =
     (s \<le> 8 * base \<and> unat sbit = 8 * base \<and> 8 * base + unat bcnt = e \<and> bmap_full b s (8 * base))"

lemma bmap_bytes_answer_skip:
  assumes "s \<le> m" "bmap_full b s m" "bmap_bytes_answer b m e r"
  shows "bmap_bytes_answer b s e r"
  using assms(3) assms(1,2)
  by (cases "(b, m, e, r)" rule: bmap_bytes_answer.cases)
     (auto intro: bmap_first_skip bmap_full_append)

lemma bmap_first_mono: "bmap_first b s e k \<Longrightarrow> e \<le> e' \<Longrightarrow> bmap_first b s e' k"
  by (simp add: bmap_first_def)

lemma bmap_find_bytes_spec:
  assumes "8 * base + unat bcnt \<le> 8 * length b" "unat sbit = 8 * base" "8 * length b < 2 ^ 32"
  shows "\<exists>r. bmap_find_bytes b base sbit bcnt = Some r
           \<and> bmap_bytes_answer b (8 * base) (8 * base + unat bcnt) r"
  using assms
proof (induction b base sbit bcnt rule: bmap_find_bytes.induct)
  case (1 b base sbit bcnt)
  show ?case
  proof (cases "8 \<le> bcnt")
    case True
    then have le: "8 \<le> unat bcnt" by (simp add: word_le_nat_alt)
    have dec: "unat (bcnt - 8) = unat bcnt - 8" using True by (simp add: unat_sub)
    have p: "base < length b" using le "1.prems"(1) by linarith
    have rd: "rd8 b base = Some (b ! base)" using p by simp
    have adv: "unat (sbit + 8) = 8 * (base + 1)" using p "1.prems"(2,3) by simp
    have sum: "8 * (base + 1) + unat (bcnt - 8) = 8 * base + unat bcnt" using dec le by simp
    obtain r where r: "(if b ! base \<noteq> 0xFF then bmap_find_tail b base sbit 0 8 else Some None) = Some r"
      and rs: "bmap_hit b (8 * base) (8 * Suc base) r"
      using bmap_find_byte [OF p "1.prems"(2,3)] by blast
    show ?thesis
    proof (cases r)
      case (Some k)
      then have "bmap_find_bytes b base sbit bcnt = Some (Inl k)"
        using True rd r by (subst bmap_find_bytes.simps) simp
      moreover have "8 * Suc base \<le> 8 * base + unat bcnt" using le by simp
      ultimately show ?thesis using rs Some by (auto intro: bmap_first_mono)
    next
      case None
      have pre: "8 * (base + 1) + unat (bcnt - 8) \<le> 8 * length b" using sum "1.prems"(1) by simp
      from "1.IH" [OF True rd r None pre adv "1.prems"(3)]
      obtain q where q: "bmap_find_bytes b (base + 1) (sbit + 8) (bcnt - 8) = Some q"
        "bmap_bytes_answer b (8 * (base + 1)) (8 * (base + 1) + unat (bcnt - 8)) q" by blast
      have "bmap_find_bytes b base sbit bcnt = Some q"
        using True rd r None q(1) by (subst bmap_find_bytes.simps) simp
      moreover have "bmap_bytes_answer b (8 * base) (8 * base + unat bcnt) q"
        using q(2) [unfolded sum] rs None
        by (auto intro: bmap_bytes_answer_skip [of _ "8 * Suc base"])
      ultimately show ?thesis by blast
    qed
  next
    case False
    then show ?thesis using "1.prems"
      by (subst bmap_find_bytes.simps) auto
  qed
qed

text \<open>the search returns the lowest clear bit of the range, and \<open>ENOSPC\<close> exactly when every
  bit of the range is set; it reads only inside the buffer.\<close>

theorem ext4_bmap_bit_find_clr_correct:
  assumes "sbit \<le> ebit" "unat ebit \<le> 8 * length b" "8 * length b < 2 ^ 32"
  shows "\<exists>r. ext4_bmap_bit_find_clr b sbit ebit = Some r \<and> bmap_answer b (unat sbit) (unat ebit) r"
proof -
  have sum: "unat sbit + unat (ebit - sbit) = unat ebit"
    using assms(1) by (simp add: unat_sub word_le_nat_alt)
  obtain r where al: "bmap_find_align b sbit (ebit - sbit) = Some r"
    "bmap_align_answer b (unat sbit) (unat ebit) r"
    using bmap_find_align_spec [of sbit "ebit - sbit" b, unfolded sum, OF assms(2,3)] by blast
  show ?thesis
  proof (cases r)
    case (Inl a)
    with al show ?thesis by (auto simp: ext4_bmap_bit_find_clr_def)
  next
    case (Inr p)
    obtain i bcnt where p: "p = (i, bcnt)" by (cases p)
    with Inr al(2) have i: "unat sbit \<le> unat i" "unat i + unat bcnt = unat ebit" "unat i mod 8 = 0"
      and pre: "bmap_full b (unat sbit) (unat i)" by auto
    have i8: "unat i = 8 * (unat i div 8)" using mult8_div8 [OF i(3)] by simp
    have sum2: "8 * (unat i div 8) + unat bcnt = unat ebit" using i(2) i8 by linarith
    obtain q where q: "bmap_find_bytes b (unat i div 8) i bcnt = Some q"
      "bmap_bytes_answer b (8 * (unat i div 8)) (unat ebit) q"
      using bmap_find_bytes_spec [of "unat i div 8" bcnt b i, unfolded sum2, OF assms(2) i8 assms(3)]
      by blast
    have qs: "bmap_bytes_answer b (unat sbit) (unat ebit) q"
      by (rule bmap_bytes_answer_skip [OF i(1) pre]) (use q(2) i8 in metis)
    show ?thesis
    proof (cases q)
      case (Inl k)
      with al(1) Inr p q(1) qs show ?thesis by (simp add: ext4_bmap_bit_find_clr_def)
    next
      case (Inr t)
      obtain base sb bc where t: "t = (base, sb, bc)" by (cases t)
      with Inr qs have b: "unat sbit \<le> 8 * base" "unat sb = 8 * base" "8 * base + unat bc = unat ebit"
        "bmap_full b (unat sbit) (8 * base)" by auto
      obtain h where h: "bmap_find_tail b base sb 0 bc = Some h" "bmap_hit b (8 * base) (unat ebit) h"
        using bmap_find_tail_spec [of base bc b 0 sb, unfolded b(3), OF assms(2) _ b(2) assms(3)]
        by auto
      have "ext4_bmap_bit_find_clr b sbit ebit =
              Some (case h of Some k \<Rightarrow> Inr k | None \<Rightarrow> Inl ENOSPC)"
        using al(1) \<open>r = Inr p\<close> p q(1) Inr t h(1)
        by (simp add: ext4_bmap_bit_find_clr_def split: option.split)
      with bmap_hit_skip [OF b(1,4) h(2)] show ?thesis by (cases h) auto
    qed
  qed
qed

theorem ext4_bmap_bit_find_clr_correct_witness:
  "\<exists>r. ext4_bmap_bit_find_clr [0xFF, 0xDF] 3 16 = Some r \<and> bmap_answer [0xFF, 0xDF] 3 16 r"
  using ext4_bmap_bit_find_clr_correct [of 3 16 "[0xFF, 0xDF]"] by simp

end
