(* ===== verification/Crc.thy ===== *)
theory Crc
  imports Prelude
begin

text \<open>
  The checksums of the file system: CRC-32 and CRC-32C of \<open>src/ext4_crc32.c\<close> and the CRC-16 of the
  block group descriptors, \<open>src/ext4_block_group.c\<close>, with their lookup tables as the code has them.

  The reference is the bit-serial division by the reflected polynomial. The tables are checked against
  it entry by entry in the kernel, the table-driven loop is proved equal to it for every buffer and
  start value, and from the serial form follows that the checksum tells apart any two buffers that
  differ in one byte, whatever surrounds it.
\<close>

section \<open>The tables and the table-driven loops\<close>

definition crc32_tab :: "u32 list" where
  "crc32_tab = [
     0x00000000, 0x77073096, 0xEE0E612C, 0x990951BA, 0x076DC419, 0x706AF48F, 0xE963A535, 0x9E6495A3,
     0x0EDB8832, 0x79DCB8A4, 0xE0D5E91E, 0x97D2D988, 0x09B64C2B, 0x7EB17CBD, 0xE7B82D07, 0x90BF1D91,
     0x1DB71064, 0x6AB020F2, 0xF3B97148, 0x84BE41DE, 0x1ADAD47D, 0x6DDDE4EB, 0xF4D4B551, 0x83D385C7,
     0x136C9856, 0x646BA8C0, 0xFD62F97A, 0x8A65C9EC, 0x14015C4F, 0x63066CD9, 0xFA0F3D63, 0x8D080DF5,
     0x3B6E20C8, 0x4C69105E, 0xD56041E4, 0xA2677172, 0x3C03E4D1, 0x4B04D447, 0xD20D85FD, 0xA50AB56B,
     0x35B5A8FA, 0x42B2986C, 0xDBBBC9D6, 0xACBCF940, 0x32D86CE3, 0x45DF5C75, 0xDCD60DCF, 0xABD13D59,
     0x26D930AC, 0x51DE003A, 0xC8D75180, 0xBFD06116, 0x21B4F4B5, 0x56B3C423, 0xCFBA9599, 0xB8BDA50F,
     0x2802B89E, 0x5F058808, 0xC60CD9B2, 0xB10BE924, 0x2F6F7C87, 0x58684C11, 0xC1611DAB, 0xB6662D3D,
     0x76DC4190, 0x01DB7106, 0x98D220BC, 0xEFD5102A, 0x71B18589, 0x06B6B51F, 0x9FBFE4A5, 0xE8B8D433,
     0x7807C9A2, 0x0F00F934, 0x9609A88E, 0xE10E9818, 0x7F6A0DBB, 0x086D3D2D, 0x91646C97, 0xE6635C01,
     0x6B6B51F4, 0x1C6C6162, 0x856530D8, 0xF262004E, 0x6C0695ED, 0x1B01A57B, 0x8208F4C1, 0xF50FC457,
     0x65B0D9C6, 0x12B7E950, 0x8BBEB8EA, 0xFCB9887C, 0x62DD1DDF, 0x15DA2D49, 0x8CD37CF3, 0xFBD44C65,
     0x4DB26158, 0x3AB551CE, 0xA3BC0074, 0xD4BB30E2, 0x4ADFA541, 0x3DD895D7, 0xA4D1C46D, 0xD3D6F4FB,
     0x4369E96A, 0x346ED9FC, 0xAD678846, 0xDA60B8D0, 0x44042D73, 0x33031DE5, 0xAA0A4C5F, 0xDD0D7CC9,
     0x5005713C, 0x270241AA, 0xBE0B1010, 0xC90C2086, 0x5768B525, 0x206F85B3, 0xB966D409, 0xCE61E49F,
     0x5EDEF90E, 0x29D9C998, 0xB0D09822, 0xC7D7A8B4, 0x59B33D17, 0x2EB40D81, 0xB7BD5C3B, 0xC0BA6CAD,
     0xEDB88320, 0x9ABFB3B6, 0x03B6E20C, 0x74B1D29A, 0xEAD54739, 0x9DD277AF, 0x04DB2615, 0x73DC1683,
     0xE3630B12, 0x94643B84, 0x0D6D6A3E, 0x7A6A5AA8, 0xE40ECF0B, 0x9309FF9D, 0x0A00AE27, 0x7D079EB1,
     0xF00F9344, 0x8708A3D2, 0x1E01F268, 0x6906C2FE, 0xF762575D, 0x806567CB, 0x196C3671, 0x6E6B06E7,
     0xFED41B76, 0x89D32BE0, 0x10DA7A5A, 0x67DD4ACC, 0xF9B9DF6F, 0x8EBEEFF9, 0x17B7BE43, 0x60B08ED5,
     0xD6D6A3E8, 0xA1D1937E, 0x38D8C2C4, 0x4FDFF252, 0xD1BB67F1, 0xA6BC5767, 0x3FB506DD, 0x48B2364B,
     0xD80D2BDA, 0xAF0A1B4C, 0x36034AF6, 0x41047A60, 0xDF60EFC3, 0xA867DF55, 0x316E8EEF, 0x4669BE79,
     0xCB61B38C, 0xBC66831A, 0x256FD2A0, 0x5268E236, 0xCC0C7795, 0xBB0B4703, 0x220216B9, 0x5505262F,
     0xC5BA3BBE, 0xB2BD0B28, 0x2BB45A92, 0x5CB36A04, 0xC2D7FFA7, 0xB5D0CF31, 0x2CD99E8B, 0x5BDEAE1D,
     0x9B64C2B0, 0xEC63F226, 0x756AA39C, 0x026D930A, 0x9C0906A9, 0xEB0E363F, 0x72076785, 0x05005713,
     0x95BF4A82, 0xE2B87A14, 0x7BB12BAE, 0x0CB61B38, 0x92D28E9B, 0xE5D5BE0D, 0x7CDCEFB7, 0x0BDBDF21,
     0x86D3D2D4, 0xF1D4E242, 0x68DDB3F8, 0x1FDA836E, 0x81BE16CD, 0xF6B9265B, 0x6FB077E1, 0x18B74777,
     0x88085AE6, 0xFF0F6A70, 0x66063BCA, 0x11010B5C, 0x8F659EFF, 0xF862AE69, 0x616BFFD3, 0x166CCF45,
     0xA00AE278, 0xD70DD2EE, 0x4E048354, 0x3903B3C2, 0xA7672661, 0xD06016F7, 0x4969474D, 0x3E6E77DB,
     0xAED16A4A, 0xD9D65ADC, 0x40DF0B66, 0x37D83BF0, 0xA9BCAE53, 0xDEBB9EC5, 0x47B2CF7F, 0x30B5FFE9,
     0xBDBDF21C, 0xCABAC28A, 0x53B39330, 0x24B4A3A6, 0xBAD03605, 0xCDD70693, 0x54DE5729, 0x23D967BF,
     0xB3667A2E, 0xC4614AB8, 0x5D681B02, 0x2A6F2B94, 0xB40BBE37, 0xC30C8EA1, 0x5A05DF1B, 0x2D02EF8D]"

definition crc32c_tab :: "u32 list" where
  "crc32c_tab = [
     0x00000000, 0xF26B8303, 0xE13B70F7, 0x1350F3F4, 0xC79A971F, 0x35F1141C, 0x26A1E7E8, 0xD4CA64EB,
     0x8AD958CF, 0x78B2DBCC, 0x6BE22838, 0x9989AB3B, 0x4D43CFD0, 0xBF284CD3, 0xAC78BF27, 0x5E133C24,
     0x105EC76F, 0xE235446C, 0xF165B798, 0x030E349B, 0xD7C45070, 0x25AFD373, 0x36FF2087, 0xC494A384,
     0x9A879FA0, 0x68EC1CA3, 0x7BBCEF57, 0x89D76C54, 0x5D1D08BF, 0xAF768BBC, 0xBC267848, 0x4E4DFB4B,
     0x20BD8EDE, 0xD2D60DDD, 0xC186FE29, 0x33ED7D2A, 0xE72719C1, 0x154C9AC2, 0x061C6936, 0xF477EA35,
     0xAA64D611, 0x580F5512, 0x4B5FA6E6, 0xB93425E5, 0x6DFE410E, 0x9F95C20D, 0x8CC531F9, 0x7EAEB2FA,
     0x30E349B1, 0xC288CAB2, 0xD1D83946, 0x23B3BA45, 0xF779DEAE, 0x05125DAD, 0x1642AE59, 0xE4292D5A,
     0xBA3A117E, 0x4851927D, 0x5B016189, 0xA96AE28A, 0x7DA08661, 0x8FCB0562, 0x9C9BF696, 0x6EF07595,
     0x417B1DBC, 0xB3109EBF, 0xA0406D4B, 0x522BEE48, 0x86E18AA3, 0x748A09A0, 0x67DAFA54, 0x95B17957,
     0xCBA24573, 0x39C9C670, 0x2A993584, 0xD8F2B687, 0x0C38D26C, 0xFE53516F, 0xED03A29B, 0x1F682198,
     0x5125DAD3, 0xA34E59D0, 0xB01EAA24, 0x42752927, 0x96BF4DCC, 0x64D4CECF, 0x77843D3B, 0x85EFBE38,
     0xDBFC821C, 0x2997011F, 0x3AC7F2EB, 0xC8AC71E8, 0x1C661503, 0xEE0D9600, 0xFD5D65F4, 0x0F36E6F7,
     0x61C69362, 0x93AD1061, 0x80FDE395, 0x72966096, 0xA65C047D, 0x5437877E, 0x4767748A, 0xB50CF789,
     0xEB1FCBAD, 0x197448AE, 0x0A24BB5A, 0xF84F3859, 0x2C855CB2, 0xDEEEDFB1, 0xCDBE2C45, 0x3FD5AF46,
     0x7198540D, 0x83F3D70E, 0x90A324FA, 0x62C8A7F9, 0xB602C312, 0x44694011, 0x5739B3E5, 0xA55230E6,
     0xFB410CC2, 0x092A8FC1, 0x1A7A7C35, 0xE811FF36, 0x3CDB9BDD, 0xCEB018DE, 0xDDE0EB2A, 0x2F8B6829,
     0x82F63B78, 0x709DB87B, 0x63CD4B8F, 0x91A6C88C, 0x456CAC67, 0xB7072F64, 0xA457DC90, 0x563C5F93,
     0x082F63B7, 0xFA44E0B4, 0xE9141340, 0x1B7F9043, 0xCFB5F4A8, 0x3DDE77AB, 0x2E8E845F, 0xDCE5075C,
     0x92A8FC17, 0x60C37F14, 0x73938CE0, 0x81F80FE3, 0x55326B08, 0xA759E80B, 0xB4091BFF, 0x466298FC,
     0x1871A4D8, 0xEA1A27DB, 0xF94AD42F, 0x0B21572C, 0xDFEB33C7, 0x2D80B0C4, 0x3ED04330, 0xCCBBC033,
     0xA24BB5A6, 0x502036A5, 0x4370C551, 0xB11B4652, 0x65D122B9, 0x97BAA1BA, 0x84EA524E, 0x7681D14D,
     0x2892ED69, 0xDAF96E6A, 0xC9A99D9E, 0x3BC21E9D, 0xEF087A76, 0x1D63F975, 0x0E330A81, 0xFC588982,
     0xB21572C9, 0x407EF1CA, 0x532E023E, 0xA145813D, 0x758FE5D6, 0x87E466D5, 0x94B49521, 0x66DF1622,
     0x38CC2A06, 0xCAA7A905, 0xD9F75AF1, 0x2B9CD9F2, 0xFF56BD19, 0x0D3D3E1A, 0x1E6DCDEE, 0xEC064EED,
     0xC38D26C4, 0x31E6A5C7, 0x22B65633, 0xD0DDD530, 0x0417B1DB, 0xF67C32D8, 0xE52CC12C, 0x1747422F,
     0x49547E0B, 0xBB3FFD08, 0xA86F0EFC, 0x5A048DFF, 0x8ECEE914, 0x7CA56A17, 0x6FF599E3, 0x9D9E1AE0,
     0xD3D3E1AB, 0x21B862A8, 0x32E8915C, 0xC083125F, 0x144976B4, 0xE622F5B7, 0xF5720643, 0x07198540,
     0x590AB964, 0xAB613A67, 0xB831C993, 0x4A5A4A90, 0x9E902E7B, 0x6CFBAD78, 0x7FAB5E8C, 0x8DC0DD8F,
     0xE330A81A, 0x115B2B19, 0x020BD8ED, 0xF0605BEE, 0x24AA3F05, 0xD6C1BC06, 0xC5914FF2, 0x37FACCF1,
     0x69E9F0D5, 0x9B8273D6, 0x88D28022, 0x7AB90321, 0xAE7367CA, 0x5C18E4C9, 0x4F48173D, 0xBD23943E,
     0xF36E6F75, 0x0105EC76, 0x12551F82, 0xE03E9C81, 0x34F4F86A, 0xC69F7B69, 0xD5CF889D, 0x27A40B9E,
     0x79B737BA, 0x8BDCB4B9, 0x988C474D, 0x6AE7C44E, 0xBE2DA0A5, 0x4C4623A6, 0x5F16D052, 0xAD7D5351]"

definition crc16_tab :: "u16 list" where
  "crc16_tab = [
     0x0000, 0xC0C1, 0xC181, 0x0140, 0xC301, 0x03C0, 0x0280, 0xC241, 0xC601, 0x06C0, 0x0780, 0xC741,
     0x0500, 0xC5C1, 0xC481, 0x0440, 0xCC01, 0x0CC0, 0x0D80, 0xCD41, 0x0F00, 0xCFC1, 0xCE81, 0x0E40,
     0x0A00, 0xCAC1, 0xCB81, 0x0B40, 0xC901, 0x09C0, 0x0880, 0xC841, 0xD801, 0x18C0, 0x1980, 0xD941,
     0x1B00, 0xDBC1, 0xDA81, 0x1A40, 0x1E00, 0xDEC1, 0xDF81, 0x1F40, 0xDD01, 0x1DC0, 0x1C80, 0xDC41,
     0x1400, 0xD4C1, 0xD581, 0x1540, 0xD701, 0x17C0, 0x1680, 0xD641, 0xD201, 0x12C0, 0x1380, 0xD341,
     0x1100, 0xD1C1, 0xD081, 0x1040, 0xF001, 0x30C0, 0x3180, 0xF141, 0x3300, 0xF3C1, 0xF281, 0x3240,
     0x3600, 0xF6C1, 0xF781, 0x3740, 0xF501, 0x35C0, 0x3480, 0xF441, 0x3C00, 0xFCC1, 0xFD81, 0x3D40,
     0xFF01, 0x3FC0, 0x3E80, 0xFE41, 0xFA01, 0x3AC0, 0x3B80, 0xFB41, 0x3900, 0xF9C1, 0xF881, 0x3840,
     0x2800, 0xE8C1, 0xE981, 0x2940, 0xEB01, 0x2BC0, 0x2A80, 0xEA41, 0xEE01, 0x2EC0, 0x2F80, 0xEF41,
     0x2D00, 0xEDC1, 0xEC81, 0x2C40, 0xE401, 0x24C0, 0x2580, 0xE541, 0x2700, 0xE7C1, 0xE681, 0x2640,
     0x2200, 0xE2C1, 0xE381, 0x2340, 0xE101, 0x21C0, 0x2080, 0xE041, 0xA001, 0x60C0, 0x6180, 0xA141,
     0x6300, 0xA3C1, 0xA281, 0x6240, 0x6600, 0xA6C1, 0xA781, 0x6740, 0xA501, 0x65C0, 0x6480, 0xA441,
     0x6C00, 0xACC1, 0xAD81, 0x6D40, 0xAF01, 0x6FC0, 0x6E80, 0xAE41, 0xAA01, 0x6AC0, 0x6B80, 0xAB41,
     0x6900, 0xA9C1, 0xA881, 0x6840, 0x7800, 0xB8C1, 0xB981, 0x7940, 0xBB01, 0x7BC0, 0x7A80, 0xBA41,
     0xBE01, 0x7EC0, 0x7F80, 0xBF41, 0x7D00, 0xBDC1, 0xBC81, 0x7C40, 0xB401, 0x74C0, 0x7580, 0xB541,
     0x7700, 0xB7C1, 0xB681, 0x7640, 0x7200, 0xB2C1, 0xB381, 0x7340, 0xB101, 0x71C0, 0x7080, 0xB041,
     0x5000, 0x90C1, 0x9181, 0x5140, 0x9301, 0x53C0, 0x5280, 0x9241, 0x9601, 0x56C0, 0x5780, 0x9741,
     0x5500, 0x95C1, 0x9481, 0x5440, 0x9C01, 0x5CC0, 0x5D80, 0x9D41, 0x5F00, 0x9FC1, 0x9E81, 0x5E40,
     0x5A00, 0x9AC1, 0x9B81, 0x5B40, 0x9901, 0x59C0, 0x5880, 0x9841, 0x8801, 0x48C0, 0x4980, 0x8941,
     0x4B00, 0x8BC1, 0x8A81, 0x4A40, 0x4E00, 0x8EC1, 0x8F81, 0x4F40, 0x8D01, 0x4DC0, 0x4C80, 0x8C41,
     0x4400, 0x84C1, 0x8581, 0x4540, 0x8701, 0x47C0, 0x4680, 0x8641, 0x8201, 0x42C0, 0x4380, 0x8341,
     0x4100, 0x81C1, 0x8081, 0x4040]"

text \<open>\<open>while (size--) crc = tab[(crc ^ *p++) & 0xFF] ^ (crc >> 8);\<close>, the buffer being the list of
  the \<open>size\<close> bytes read.\<close>

fun crc32 :: "u32 \<Rightarrow> u8 list \<Rightarrow> u32 list \<Rightarrow> u32" where
  "crc32 crc [] tab = crc"
| "crc32 crc (p # ps) tab =
     crc32 (tab ! unat ((crc XOR ucast p) AND 0xFF) XOR drop_bit 8 crc) ps tab"

definition ext4_crc32 :: "u32 \<Rightarrow> u8 list \<Rightarrow> u32" where
  "ext4_crc32 crc buf = crc32 crc buf crc32_tab"

definition ext4_crc32c :: "u32 \<Rightarrow> u8 list \<Rightarrow> u32" where
  "ext4_crc32c crc buf = crc32 crc buf crc32c_tab"

abbreviation (input) EXT4_CRC32_INIT :: u32 where "EXT4_CRC32_INIT \<equiv> 0xFFFFFFFF"

fun ext4_bg_crc16 :: "u16 \<Rightarrow> u8 list \<Rightarrow> u16" where
  "ext4_bg_crc16 crc [] = crc"
| "ext4_bg_crc16 crc (p # ps) =
     ext4_bg_crc16
       ((((drop_bit 8 crc) AND 0xFF) XOR crc16_tab ! unat ((crc XOR ucast p) AND 0xFF)) AND 0xFFFF) ps"

section \<open>Bit-serial division\<close>

definition crc_bit :: "'a::len word \<Rightarrow> 'a word \<Rightarrow> 'a word" where
  "crc_bit poly c = (if bit c 0 then drop_bit 1 c XOR poly else drop_bit 1 c)"

definition crc_byte :: "'a::len word \<Rightarrow> 'a word \<Rightarrow> 'a word" where
  "crc_byte poly c =
     crc_bit poly (crc_bit poly (crc_bit poly (crc_bit poly
       (crc_bit poly (crc_bit poly (crc_bit poly (crc_bit poly c)))))))"

fun crc_serial :: "'a::len word \<Rightarrow> 'a word \<Rightarrow> u8 list \<Rightarrow> 'a word" where
  "crc_serial poly crc [] = crc"
| "crc_serial poly crc (p # ps) = crc_serial poly (crc_byte poly (crc XOR ucast p)) ps"

abbreviation (input) CRC32_POLY :: u32 where "CRC32_POLY \<equiv> 0xEDB88320"
abbreviation (input) CRC32C_POLY :: u32 where "CRC32C_POLY \<equiv> 0x82F63B78"
abbreviation (input) CRC16_POLY :: u16 where "CRC16_POLY \<equiv> 0xA001"

text \<open>
  The bit-serial step is linear over exclusive or, so a table of it is determined by the entries at
  the powers of two: each table doubles the one for the lower bits.
\<close>

lemma crc_bit_xor: "crc_bit poly (x XOR y) = crc_bit poly x XOR crc_bit poly y"
  by (rule bit_word_eqI) (auto simp: crc_bit_def bit_simps)

lemma crc_byte_xor: "crc_byte poly (x XOR y) = crc_byte poly x XOR crc_byte poly y"
  by (simp add: crc_byte_def crc_bit_xor)

fun xor_table :: "'a::len word list \<Rightarrow> 'a word list" where
  "xor_table [] = [0]"
| "xor_table (b # bs) = xor_table bs @ map (\<lambda>t. b XOR t) (xor_table bs)"

lemma length_xor_table [simp]: "length (xor_table bs) = 2 ^ length bs"
  by (induction bs) auto

fun crc_powers :: "'a::len word \<Rightarrow> nat \<Rightarrow> 'a word list" where
  "crc_powers poly 0 = []"
| "crc_powers poly (Suc n) = crc_byte poly (push_bit n 1) # crc_powers poly n"

lemma length_crc_powers [simp]: "length (crc_powers poly n) = n"
  by (induction n) auto

lemma not_bit_below: "(j::nat) < 2 ^ n \<Longrightarrow> \<not> bit j n"
  by (simp add: bit_iff_odd)

lemma of_nat_top_bit:
  assumes "j < 2 ^ n"
  shows "(of_nat (2 ^ n + j) :: 'a::len word) = push_bit n 1 XOR of_nat j"
proof -
  have disj: "push_bit n (1::nat) AND j = 0"
    by (rule bit_eqI) (auto simp: bit_simps not_bit_below [OF assms] dest: le_antisym)
  have "2 ^ n + j = push_bit n (1::nat) XOR j"
    using disjunctive_add_eq_xor [OF disj] by (simp add: push_bit_of_1)
  then show ?thesis
    by (simp only: of_nat_xor_eq of_nat_push_bit of_nat_1)
qed

lemma upt_double: "[0..<2 ^ Suc n] = [0..<2 ^ n] @ map (\<lambda>j. 2 ^ n + j) [0..<2 ^ n]"
  by (rule nth_equalityI) (auto simp: nth_append)

lemma xor_table_crc:
  "xor_table (crc_powers poly n) = map (\<lambda>i. crc_byte poly (of_nat i)) [0..<2 ^ n]"
proof (induction n)
  case 0
  show ?case by (simp add: crc_byte_def crc_bit_def)
next
  case (Suc n)
  have "map (\<lambda>i. crc_byte poly (of_nat i)) (map (\<lambda>j. 2 ^ n + j) [0..<2 ^ n])
      = map (\<lambda>t. crc_byte poly (push_bit n 1) XOR t) (map (\<lambda>i. crc_byte poly (of_nat i)) [0..<2 ^ n])"
    unfolding map_map
    by (rule map_cong [OF refl]) (simp only: set_upt o_apply atLeastLessThan_iff of_nat_top_bit crc_byte_xor)
  then show ?case
    by (simp only: crc_powers.simps xor_table.simps Suc upt_double map_append)
qed

text \<open>The tables of the source are the ones the polynomials give.\<close>


text \<open>The tables of the source are the ones the polynomials give.\<close>

lemma eight_Suc: "(8::nat) = Suc (Suc (Suc (Suc (Suc (Suc (Suc (Suc 0)))))))"
  by simp

lemma crc_powers_8:
  "crc_powers poly 8 = map (crc_byte poly) [128, 64, 32, 16, 8, 4, 2, 1]"
  by (simp only: eight_Suc crc_powers.simps list.map) (simp add: push_bit_eq_mult)

lemma crc32_powers: "crc_powers CRC32_POLY 8 = [0xEDB88320, 0x76DC4190, 0x3B6E20C8, 0x1DB71064, 0xEDB8832, 0x76DC419, 0xEE0E612C, 0x77073096]"
  by (simp add: crc_powers_8 crc_byte_def crc_bit_def)

lemma crc32_tab_serial: "crc32_tab = xor_table (crc_powers CRC32_POLY 8)"
  unfolding crc32_powers crc32_tab_def by simp

lemma crc32c_powers: "crc_powers CRC32C_POLY 8 = [0x82F63B78, 0x417B1DBC, 0x20BD8EDE, 0x105EC76F, 0x8AD958CF, 0xC79A971F, 0xE13B70F7, 0xF26B8303]"
  by (simp add: crc_powers_8 crc_byte_def crc_bit_def)

lemma crc32c_tab_serial: "crc32c_tab = xor_table (crc_powers CRC32C_POLY 8)"
  unfolding crc32c_powers crc32c_tab_def by simp

lemma crc16_powers: "crc_powers CRC16_POLY 8 = [0xA001, 0xF001, 0xD801, 0xCC01, 0xC601, 0xC301, 0xC181, 0xC0C1]"
  by (simp add: crc_powers_8 crc_byte_def crc_bit_def)

lemma crc16_tab_serial: "crc16_tab = xor_table (crc_powers CRC16_POLY 8)"
  unfolding crc16_powers crc16_tab_def by simp

section \<open>The table-driven loops compute the bit-serial division\<close>

lemma xor_table_nth:
  assumes "tab = xor_table (crc_powers poly 8)" "i < 256"
  shows "tab ! i = crc_byte poly (of_nat i)"
  using assms by (simp add: xor_table_crc)

lemma FF_mask: "(0xFF :: 'a::len word) = mask 8"
  by (simp add: mask_eq_exp_minus_1)

lemma bit_FF_int [simp]: "bit (0xFF::int) n \<longleftrightarrow> n < 8" "bit (- 0x100::int) n \<longleftrightarrow> 8 \<le> n"
proof -
  have "(0xFF::int) = mask 8" by (simp add: mask_eq_exp_minus_1)
  then show FF: "bit (0xFF::int) n \<longleftrightarrow> n < 8"
    by (simp only: bit_mask_iff possible_bit_int) simp
  have "(- 0x100::int) = NOT 0xFF" by simp
  then show "bit (- 0x100::int) n \<longleftrightarrow> 8 \<le> n"
    by (simp only: bit_not_iff FF possible_bit_int) auto
qed

lemma and_FF_bit: "bit ((c::'a::len word) AND 0xFF) n \<longleftrightarrow> n < 8 \<and> bit c n"
  by (auto simp: bit_simps dest: bit_imp_le_length)

lemma unat_and_FF: "unat ((c::'a::len word) AND 0xFF) < 256"
proof -
  have "c AND 0xFF = take_bit 8 c" by (simp only: FF_mask take_bit_eq_mask)
  then have "unat (c AND 0xFF) = take_bit 8 (unat c)" by (simp only: unsigned_take_bit_eq)
  also have "\<dots> < 2 ^ 8" by (rule take_bit_nat_less_exp)
  finally show ?thesis by simp
qed

lemma crc_byte_low_zero:
  assumes "\<forall>n<8. \<not> bit c n"
  shows "crc_byte poly c = drop_bit 8 c"
proof -
  have "crc_byte poly c = drop_bit (Suc (Suc (Suc (Suc (Suc (Suc (Suc (Suc 0)))))))) c"
    using assms by (simp add: crc_byte_def crc_bit_def bit_simps)
  then show ?thesis by (simp only: eight_Suc)
qed

text \<open>One byte step looks at the low byte alone and shifts the rest down.\<close>

lemma crc_byte_split: "crc_byte poly c = crc_byte poly (c AND 0xFF) XOR drop_bit 8 c"
proof -
  let ?h = "c AND NOT 0xFF"
  have c: "c = (c AND 0xFF) XOR ?h"
    by (rule bit_word_eqI) (auto simp: bit_and_iff bit_xor_iff bit_not_iff possible_bit_word)
  have low: "\<forall>n<8. \<not> bit ?h n"
  proof (intro allI impI)
    fix n :: nat assume "n < 8"
    then show "\<not> bit ?h n"
      by (auto simp: bit_and_iff bit_not_iff possible_bit_word dest: bit_imp_le_length)
  qed
  have "drop_bit 8 ?h = drop_bit 8 c"
  proof (rule bit_word_eqI)
    fix n
    have "bit ?h (8 + n) = bit c (8 + n)"
      by (auto simp: bit_and_iff bit_not_iff possible_bit_word dest: bit_imp_le_length)
    then show "bit (drop_bit 8 ?h) n = bit (drop_bit 8 c) n"
      by (simp only: bit_drop_bit_eq o_apply)
  qed
  then show ?thesis
    by (subst c) (simp only: crc_byte_xor crc_byte_low_zero [OF low])
qed

lemma crc_byte_table:
  assumes "tab = xor_table (crc_powers poly 8)"
  shows "tab ! unat (c AND 0xFF) XOR drop_bit 8 c = crc_byte poly c"
  by (simp only: xor_table_nth [OF assms unat_and_FF] crc_byte_split [of poly c, symmetric]
      of_nat_unat ucast_id)

lemma drop_8_ucast8: "drop_bit 8 (ucast (p::u8) :: 'a::len word) = 0"
  by (rule bit_word_eqI) (auto simp: bit_simps dest: bit_imp_le_length)

lemma drop_8_xor_byte: "drop_bit 8 (c XOR ucast (p::u8)) = drop_bit 8 (c :: 'a::len word)"
  by (simp only: drop_bit_xor drop_8_ucast8 xor.right_neutral)

lemma crc32_serial:
  assumes "tab = xor_table (crc_powers poly 8)"
  shows "crc32 crc buf tab = crc_serial poly crc buf"
proof (induction buf arbitrary: crc)
  case (Cons p buf)
  have "tab ! unat ((crc XOR ucast p) AND 0xFF) XOR drop_bit 8 crc = crc_byte poly (crc XOR ucast p)"
    using crc_byte_table [OF assms, of "crc XOR ucast p"] by (simp only: drop_8_xor_byte)
  with Cons show ?case by (simp only: crc32.simps crc_serial.simps)
qed simp

text \<open>C39: For every start value and every buffer the table-driven \<open>ext4_crc32c\<close> is the bit-serial division
  by the Castagnoli polynomial, with the 256 constants of the source's table.
\<close>

theorem ext4_crc32c_serial: "ext4_crc32c crc buf = crc_serial CRC32C_POLY crc buf"
  unfolding ext4_crc32c_def by (rule crc32_serial [OF crc32c_tab_serial])

lemma ext4_crc32_serial: "ext4_crc32 crc buf = crc_serial CRC32_POLY crc buf"
  unfolding ext4_crc32_def by (rule crc32_serial [OF crc32_tab_serial])

lemma and_16: "drop_bit 8 (c::u16) AND 0xFF = drop_bit 8 c" "c AND 0xFFFF = c"
proof -
  show "drop_bit 8 c AND 0xFF = drop_bit 8 c"
    by (rule bit_word_eqI) (auto simp: bit_and_iff bit_drop_bit_eq dest: bit_imp_le_length)
  have "(0xFFFF :: u16) = mask 16" by (simp add: mask_eq_exp_minus_1)
  then show "c AND 0xFFFF = c"
    by (simp only: take_bit_eq_mask [symmetric]) (rule bit_word_eqI, simp add: bit_simps)
qed

lemma ext4_bg_crc16_serial: "ext4_bg_crc16 crc buf = crc_serial CRC16_POLY crc buf"
proof (induction buf arbitrary: crc)
  case (Cons p buf)
  have "(((drop_bit 8 crc) AND 0xFF) XOR crc16_tab ! unat ((crc XOR ucast p) AND 0xFF)) AND 0xFFFF
      = crc_byte CRC16_POLY (crc XOR ucast p)"
    using crc_byte_table [OF crc16_tab_serial, of "crc XOR ucast p"]
    by (simp only: drop_8_xor_byte and_16 xor.commute)
  with Cons show ?case by (simp only: ext4_bg_crc16.simps crc_serial.simps)
qed simp

section \<open>Error detection\<close>

text \<open>A polynomial with the top bit set makes every step reversible.\<close>

lemma xor_cancel: "(a XOR c = b XOR c) = (a = (b::'a::len word))"
  by (metis xor.assoc xor_self_eq xor.right_neutral)

lemma crc_bit_inj:
  assumes top: "bit poly (LENGTH('a) - 1)" and eq: "crc_bit poly x = crc_bit poly (y::'a::len word)"
  shows "x = y"
proof -
  have clear: "\<not> bit (drop_bit 1 z) (LENGTH('a) - 1)" for z :: "'a word"
    by (simp add: bit_simps)
  have fst: "bit (crc_bit poly z) (LENGTH('a) - 1) = bit z 0" for z :: "'a word"
    using top clear [of z] by (simp add: crc_bit_def bit_xor_iff)
  have zero: "bit x 0 = bit y 0" using eq fst by metis
  then have shr: "drop_bit 1 x = drop_bit 1 y"
    using eq by (auto simp: crc_bit_def xor_cancel split: if_splits)
  show ?thesis
  proof (rule bit_word_eqI)
    fix n
    show "bit x n = bit y n"
    proof (cases n)
      case (Suc m)
      have "bit (drop_bit 1 x) m = bit (drop_bit 1 y) m" using shr by simp
      then show ?thesis using Suc by (simp add: bit_simps)
    qed (simp add: zero)
  qed
qed

lemma crc_byte_inj:
  assumes "bit poly (LENGTH('a) - 1)" "crc_byte poly x = crc_byte poly (y::'a::len word)"
  shows "x = y"
  using assms(2) unfolding crc_byte_def by (auto dest!: crc_bit_inj [OF assms(1)])

lemma crc_serial_append: "crc_serial poly c (xs @ ys) = crc_serial poly (crc_serial poly c xs) ys"
  by (induction xs arbitrary: c) auto

lemma crc_serial_inj:
  assumes "bit poly (LENGTH('a) - 1)" "crc_serial poly c xs = crc_serial poly (d::'a::len word) xs"
  shows "c = d"
  using assms(2)
proof (induction xs arbitrary: c d)
  case (Cons p xs)
  then have "c XOR ucast p = d XOR ucast p"
    by (auto dest!: Cons.IH crc_byte_inj [OF assms(1)])
  then show ?case by (simp only: xor_cancel)
qed simp

text \<open>The bytes of a burst as a number, the first byte least significant.\<close>

fun burst :: "u8 list \<Rightarrow> 'a::len word" where
  "burst [] = 0"
| "burst (p # ps) = ucast p XOR push_bit 8 (burst ps)"

lemma burst_bit:
  "bit (burst ps :: 'a::len word) n \<longleftrightarrow>
     n < LENGTH('a) \<and> n div 8 < length ps \<and> bit (ps ! (n div 8)) (n mod 8)"
proof (induction ps arbitrary: n)
  case (Cons p ps)
  show ?case
  proof (cases "n < 8")
    case False
    then obtain m where n: "n = 8 + m" using le_Suc_ex not_less by blast
    with Cons [of m] show ?thesis
      by (auto simp: bit_simps div_add_self1 mod_add_self1 dest: bit_imp_le_length)
  qed (auto simp: bit_simps)
qed simp

lemma burst_inj:
  assumes "length xs = length ys" "8 * length xs \<le> LENGTH('a)"
    "(burst xs :: 'a::len word) = burst ys"
  shows "xs = ys"
proof (rule nth_equalityI [OF assms(1)])
  fix i assume i: "i < length xs"
  show "xs ! i = ys ! i"
  proof (rule bit_word_eqI)
    fix k assume k: "k < LENGTH(8)"
    then have "(8 * i + k) div 8 = i" "(8 * i + k) mod 8 = k" "8 * i + k < LENGTH('a)"
      using i assms(2) by auto
    with i assms(1) show "bit (xs ! i) k = bit (ys ! i) k"
      using burst_bit [of xs "8 * i + k", where ?'a = 'a] burst_bit [of ys "8 * i + k", where ?'a = 'a]
        assms(3) by simp
  qed
qed

lemma crc_byte_above:
  assumes "\<forall>n. bit m n \<longrightarrow> n + 8 < LENGTH('a)"
  shows "crc_byte poly (c XOR push_bit 8 m) = crc_byte poly c XOR (m::'a::len word)"
proof -
  have "drop_bit 8 (push_bit 8 m) = m"
    by (rule bit_word_eqI) (auto simp: bit_simps add.commute dest: assms [rule_format])
  moreover have "\<forall>n<8. \<not> bit (push_bit 8 m) n" by (simp add: bit_simps)
  ultimately show ?thesis by (simp only: crc_byte_xor crc_byte_low_zero)
qed

lemma crc_serial_burst:
  assumes "8 * length ps \<le> LENGTH('a)"
  shows "crc_serial poly c ps = (crc_byte poly ^^ length ps) (c XOR (burst ps :: 'a::len word))"
  using assms
proof (induction ps arbitrary: c)
  case (Cons p ps)
  have "\<forall>n. bit (burst ps :: 'a word) n \<longrightarrow> n + 8 < LENGTH('a)"
    using Cons.prems by (auto simp: burst_bit)
  note step = crc_byte_above [OF this, of poly "c XOR ucast p"]
  show ?case
    using Cons.prems
    by (simp add: Cons.IH step funpow_swap1 del: funpow.simps(2)) (simp add: funpow_swap1 xor.assoc step [symmetric])
qed simp

lemma crc_powers_inj:
  assumes "bit poly (LENGTH('a) - 1)"
    "(crc_byte poly ^^ k) x = (crc_byte poly ^^ k) (y::'a::len word)"
  shows "x = y"
  using assms(2) by (induction k) (auto dest: crc_byte_inj [OF assms(1)])

lemma crc_serial_detects_burst:
  assumes top: "bit poly (LENGTH('a) - 1)"
    and len: "length xs = length ys" "8 * length xs \<le> LENGTH('a)" and "xs \<noteq> ys"
  shows "crc_serial poly (c::'a::len word) (pre @ xs @ post) \<noteq> crc_serial poly c (pre @ ys @ post)"
proof
  assume "crc_serial poly c (pre @ xs @ post) = crc_serial poly c (pre @ ys @ post)"
  then have "crc_serial poly (crc_serial poly c pre) xs = crc_serial poly (crc_serial poly c pre) ys"
    unfolding crc_serial_append by (rule crc_serial_inj [OF top])
  then have "crc_serial poly c pre XOR (burst xs :: 'a word) = crc_serial poly c pre XOR burst ys"
    using len by (simp only: crc_serial_burst) (rule crc_powers_inj [OF top])
  then have "(burst xs :: 'a word) = burst ys" by (metis xor.commute xor_cancel)
  with burst_inj [OF len] \<open>xs \<noteq> ys\<close> show False by blast
qed

text \<open>
  Whatever the start value and the bytes around them, two buffers that differ only inside a window
  of at most four bytes (one 32-bit field, a bit-flip, a torn word) have different \<open>ext4_crc32c\<close>
  checksums: a metadata block corrupted in one place never keeps its checksum.
\<close>

theorem ext4_crc32c_detects_burst:
  assumes "length xs = length ys" "length xs \<le> 4" "xs \<noteq> ys"
  shows "ext4_crc32c crc (pre @ xs @ post) \<noteq> ext4_crc32c crc (pre @ ys @ post)"
  unfolding ext4_crc32c_serial
  by (rule crc_serial_detects_burst) (use assms in simp_all)

theorem ext4_crc32c_detects_burst_witness:
  "ext4_crc32c 5 ([1, 2] @ [3, 4, 5, 6] @ [7]) \<noteq> ext4_crc32c 5 ([1, 2] @ [3, 8, 5, 9] @ [7])"
  by (rule ext4_crc32c_detects_burst) simp_all

text \<open>
  The CRC-16 of the block group descriptors is the bit-serial division by the polynomial of its
  table, and two buffers that differ only inside two consecutive bytes have different checksums.
\<close>

theorem ext4_bg_crc16_correct:
  "ext4_bg_crc16 crc buf = crc_serial CRC16_POLY crc buf \<and>
   (length xs = length ys \<and> length xs \<le> 2 \<and> xs \<noteq> ys \<longrightarrow>
      ext4_bg_crc16 crc (pre @ xs @ post) \<noteq> ext4_bg_crc16 crc (pre @ ys @ post))"
  unfolding ext4_bg_crc16_serial
  using crc_serial_detects_burst [of CRC16_POLY xs ys crc pre post] by simp

theorem ext4_bg_crc16_correct_witness:
  "ext4_bg_crc16 0xFFFF ([1] @ [3, 4] @ [7]) \<noteq> ext4_bg_crc16 0xFFFF ([1] @ [3, 5] @ [7])"
  using ext4_bg_crc16_correct [where crc = "0xFFFF" and xs = "[3, 4]" and ys = "[3, 5]"
      and pre = "[1]" and post = "[7]"] by simp

text \<open>Checksums of consecutive pieces compose, as the code computes them.\<close>

lemma ext4_crc32c_append: "ext4_crc32c c (xs @ ys) = ext4_crc32c (ext4_crc32c c xs) ys"
  by (simp only: ext4_crc32c_serial crc_serial_append)

lemma ext4_crc32c_Nil [simp]: "ext4_crc32c c [] = c"
  by (simp add: ext4_crc32c_def)

lemma ext4_crc32c_start_inj: "ext4_crc32c c xs = ext4_crc32c d xs \<Longrightarrow> c = d"
  unfolding ext4_crc32c_serial by (erule crc_serial_inj [rotated]) simp

lemma ext4_bg_crc16_append: "ext4_bg_crc16 c (xs @ ys) = ext4_bg_crc16 (ext4_bg_crc16 c xs) ys"
  by (simp only: ext4_bg_crc16_serial crc_serial_append)

end
