(* ===== verification/Superblock.thy ===== *)
theory Superblock
  imports Crc
begin

text \<open>
  The superblock: \<open>struct ext4_sblock\<close> of \<open>include/ext4_types.h\<close>, its accessors in
  \<open>include/ext4_super.h\<close> and its operations in \<open>src/ext4_super.c\<close>. A superblock is the list of its 1024
  bytes; \<open>sbf_<field>\<close> is the byte offset of a field of the packed structure.

  Shifts by a field (\<open>1024 << log_block_size\<close>) are taken in 32 bits, which is what the C expression
  gives for every shift for which it is defined. \<open>ext4_sb_write\<close> and \<open>ext4_sb_read\<close>, which need the
  block device, are in theory \<open>Superblock_Io\<close>.
\<close>

section \<open>Layout\<close>

type_synonym ext4_sblock = "u8 list"

abbreviation (input) sbf_inodes_count :: nat where "sbf_inodes_count \<equiv> 0"
abbreviation (input) sbf_blocks_count_lo :: nat where "sbf_blocks_count_lo \<equiv> 4"
abbreviation (input) sbf_reserved_blocks_count_lo :: nat where "sbf_reserved_blocks_count_lo \<equiv> 8"
abbreviation (input) sbf_free_blocks_count_lo :: nat where "sbf_free_blocks_count_lo \<equiv> 12"
abbreviation (input) sbf_free_inodes_count :: nat where "sbf_free_inodes_count \<equiv> 16"
abbreviation (input) sbf_first_data_block :: nat where "sbf_first_data_block \<equiv> 20"
abbreviation (input) sbf_log_block_size :: nat where "sbf_log_block_size \<equiv> 24"
abbreviation (input) sbf_log_cluster_size :: nat where "sbf_log_cluster_size \<equiv> 28"
abbreviation (input) sbf_blocks_per_group :: nat where "sbf_blocks_per_group \<equiv> 32"
abbreviation (input) sbf_frags_per_group :: nat where "sbf_frags_per_group \<equiv> 36"
abbreviation (input) sbf_inodes_per_group :: nat where "sbf_inodes_per_group \<equiv> 40"
abbreviation (input) sbf_mount_time :: nat where "sbf_mount_time \<equiv> 44"
abbreviation (input) sbf_write_time :: nat where "sbf_write_time \<equiv> 48"
abbreviation (input) sbf_mount_count :: nat where "sbf_mount_count \<equiv> 52"
abbreviation (input) sbf_max_mount_count :: nat where "sbf_max_mount_count \<equiv> 54"
abbreviation (input) sbf_magic :: nat where "sbf_magic \<equiv> 56"
abbreviation (input) sbf_state :: nat where "sbf_state \<equiv> 58"
abbreviation (input) sbf_errors :: nat where "sbf_errors \<equiv> 60"
abbreviation (input) sbf_minor_rev_level :: nat where "sbf_minor_rev_level \<equiv> 62"
abbreviation (input) sbf_last_check_time :: nat where "sbf_last_check_time \<equiv> 64"
abbreviation (input) sbf_check_interval :: nat where "sbf_check_interval \<equiv> 68"
abbreviation (input) sbf_creator_os :: nat where "sbf_creator_os \<equiv> 72"
abbreviation (input) sbf_rev_level :: nat where "sbf_rev_level \<equiv> 76"
abbreviation (input) sbf_def_resuid :: nat where "sbf_def_resuid \<equiv> 80"
abbreviation (input) sbf_def_resgid :: nat where "sbf_def_resgid \<equiv> 82"
abbreviation (input) sbf_first_inode :: nat where "sbf_first_inode \<equiv> 84"
abbreviation (input) sbf_inode_size :: nat where "sbf_inode_size \<equiv> 88"
abbreviation (input) sbf_block_group_index :: nat where "sbf_block_group_index \<equiv> 90"
abbreviation (input) sbf_features_compatible :: nat where "sbf_features_compatible \<equiv> 92"
abbreviation (input) sbf_features_incompatible :: nat where "sbf_features_incompatible \<equiv> 96"
abbreviation (input) sbf_features_read_only :: nat where "sbf_features_read_only \<equiv> 100"
abbreviation (input) sbf_uuid :: nat where "sbf_uuid \<equiv> 104"
abbreviation (input) sbf_volume_name :: nat where "sbf_volume_name \<equiv> 120"
abbreviation (input) sbf_last_mounted :: nat where "sbf_last_mounted \<equiv> 136"
abbreviation (input) sbf_algorithm_usage_bitmap :: nat where "sbf_algorithm_usage_bitmap \<equiv> 200"
abbreviation (input) sbf_s_prealloc_blocks :: nat where "sbf_s_prealloc_blocks \<equiv> 204"
abbreviation (input) sbf_s_prealloc_dir_blocks :: nat where "sbf_s_prealloc_dir_blocks \<equiv> 205"
abbreviation (input) sbf_s_reserved_gdt_blocks :: nat where "sbf_s_reserved_gdt_blocks \<equiv> 206"
abbreviation (input) sbf_journal_uuid :: nat where "sbf_journal_uuid \<equiv> 208"
abbreviation (input) sbf_journal_inode_number :: nat where "sbf_journal_inode_number \<equiv> 224"
abbreviation (input) sbf_journal_dev :: nat where "sbf_journal_dev \<equiv> 228"
abbreviation (input) sbf_last_orphan :: nat where "sbf_last_orphan \<equiv> 232"
abbreviation (input) sbf_hash_seed :: nat where "sbf_hash_seed \<equiv> 236"
abbreviation (input) sbf_default_hash_version :: nat where "sbf_default_hash_version \<equiv> 252"
abbreviation (input) sbf_journal_backup_type :: nat where "sbf_journal_backup_type \<equiv> 253"
abbreviation (input) sbf_desc_size :: nat where "sbf_desc_size \<equiv> 254"
abbreviation (input) sbf_default_mount_opts :: nat where "sbf_default_mount_opts \<equiv> 256"
abbreviation (input) sbf_first_meta_bg :: nat where "sbf_first_meta_bg \<equiv> 260"
abbreviation (input) sbf_mkfs_time :: nat where "sbf_mkfs_time \<equiv> 264"
abbreviation (input) sbf_journal_blocks :: nat where "sbf_journal_blocks \<equiv> 268"
abbreviation (input) sbf_blocks_count_hi :: nat where "sbf_blocks_count_hi \<equiv> 336"
abbreviation (input) sbf_reserved_blocks_count_hi :: nat where "sbf_reserved_blocks_count_hi \<equiv> 340"
abbreviation (input) sbf_free_blocks_count_hi :: nat where "sbf_free_blocks_count_hi \<equiv> 344"
abbreviation (input) sbf_min_extra_isize :: nat where "sbf_min_extra_isize \<equiv> 348"
abbreviation (input) sbf_want_extra_isize :: nat where "sbf_want_extra_isize \<equiv> 350"
abbreviation (input) sbf_flags :: nat where "sbf_flags \<equiv> 352"
abbreviation (input) sbf_raid_stride :: nat where "sbf_raid_stride \<equiv> 356"
abbreviation (input) sbf_mmp_interval :: nat where "sbf_mmp_interval \<equiv> 358"
abbreviation (input) sbf_mmp_block :: nat where "sbf_mmp_block \<equiv> 360"
abbreviation (input) sbf_raid_stripe_width :: nat where "sbf_raid_stripe_width \<equiv> 368"
abbreviation (input) sbf_log_groups_per_flex :: nat where "sbf_log_groups_per_flex \<equiv> 372"
abbreviation (input) sbf_checksum_type :: nat where "sbf_checksum_type \<equiv> 373"
abbreviation (input) sbf_reserved_pad :: nat where "sbf_reserved_pad \<equiv> 374"
abbreviation (input) sbf_kbytes_written :: nat where "sbf_kbytes_written \<equiv> 376"
abbreviation (input) sbf_snapshot_inum :: nat where "sbf_snapshot_inum \<equiv> 384"
abbreviation (input) sbf_snapshot_id :: nat where "sbf_snapshot_id \<equiv> 388"
abbreviation (input) sbf_snapshot_r_blocks_count :: nat where "sbf_snapshot_r_blocks_count \<equiv> 392"
abbreviation (input) sbf_snapshot_list :: nat where "sbf_snapshot_list \<equiv> 400"
abbreviation (input) sbf_error_count :: nat where "sbf_error_count \<equiv> 404"
abbreviation (input) sbf_first_error_time :: nat where "sbf_first_error_time \<equiv> 408"
abbreviation (input) sbf_first_error_ino :: nat where "sbf_first_error_ino \<equiv> 412"
abbreviation (input) sbf_first_error_block :: nat where "sbf_first_error_block \<equiv> 416"
abbreviation (input) sbf_first_error_func :: nat where "sbf_first_error_func \<equiv> 424"
abbreviation (input) sbf_first_error_line :: nat where "sbf_first_error_line \<equiv> 456"
abbreviation (input) sbf_last_error_time :: nat where "sbf_last_error_time \<equiv> 460"
abbreviation (input) sbf_last_error_ino :: nat where "sbf_last_error_ino \<equiv> 464"
abbreviation (input) sbf_last_error_line :: nat where "sbf_last_error_line \<equiv> 468"
abbreviation (input) sbf_last_error_block :: nat where "sbf_last_error_block \<equiv> 472"
abbreviation (input) sbf_last_error_func :: nat where "sbf_last_error_func \<equiv> 480"
abbreviation (input) sbf_mount_opts :: nat where "sbf_mount_opts \<equiv> 512"
abbreviation (input) sbf_usr_quota_inum :: nat where "sbf_usr_quota_inum \<equiv> 576"
abbreviation (input) sbf_grp_quota_inum :: nat where "sbf_grp_quota_inum \<equiv> 580"
abbreviation (input) sbf_overhead_clusters :: nat where "sbf_overhead_clusters \<equiv> 584"
abbreviation (input) sbf_backup_bgs :: nat where "sbf_backup_bgs \<equiv> 588"
abbreviation (input) sbf_encrypt_algos :: nat where "sbf_encrypt_algos \<equiv> 596"
abbreviation (input) sbf_encrypt_pw_salt :: nat where "sbf_encrypt_pw_salt \<equiv> 600"
abbreviation (input) sbf_lpf_ino :: nat where "sbf_lpf_ino \<equiv> 616"
abbreviation (input) sbf_padding :: nat where "sbf_padding \<equiv> 620"
abbreviation (input) sbf_checksum :: nat where "sbf_checksum \<equiv> 1020"

abbreviation (input) EXT4_CHECKSUM_CRC32C :: u8 where "EXT4_CHECKSUM_CRC32C \<equiv> 1"
abbreviation (input) EXT4_SUPERBLOCK_SIZE :: nat where "EXT4_SUPERBLOCK_SIZE \<equiv> 1024"
abbreviation (input) EXT4_SUPERBLOCK_OFFSET :: u64 where "EXT4_SUPERBLOCK_OFFSET \<equiv> 1024"
abbreviation (input) EXT4_SUPERBLOCK_MAGIC :: u16 where "EXT4_SUPERBLOCK_MAGIC \<equiv> 0xEF53"
abbreviation (input) EXT4_SUPERBLOCK_FLAGS_UNSIGNED_HASH :: u32 where "EXT4_SUPERBLOCK_FLAGS_UNSIGNED_HASH \<equiv> 2"
abbreviation (input) EXT4_SUPERBLOCK_STATE_VALID_FS :: u16 where "EXT4_SUPERBLOCK_STATE_VALID_FS \<equiv> 1"
abbreviation (input) EXT4_SUPERBLOCK_STATE_ERROR_FS :: u16 where "EXT4_SUPERBLOCK_STATE_ERROR_FS \<equiv> 2"
abbreviation (input) EXT4_FCOM_HAS_JOURNAL :: u32 where "EXT4_FCOM_HAS_JOURNAL \<equiv> 4"
abbreviation (input) EXT4_FCOM_DIR_INDEX :: u32 where "EXT4_FCOM_DIR_INDEX \<equiv> 0x20"
abbreviation (input) EXT4_FRO_COM_SPARSE_SUPER :: u32 where "EXT4_FRO_COM_SPARSE_SUPER \<equiv> 1"
abbreviation (input) EXT4_FRO_COM_LARGE_FILE :: u32 where "EXT4_FRO_COM_LARGE_FILE \<equiv> 2"
abbreviation (input) EXT4_FRO_COM_HUGE_FILE :: u32 where "EXT4_FRO_COM_HUGE_FILE \<equiv> 8"
abbreviation (input) EXT4_FRO_COM_GDT_CSUM :: u32 where "EXT4_FRO_COM_GDT_CSUM \<equiv> 0x10"
abbreviation (input) EXT4_FRO_COM_DIR_NLINK :: u32 where "EXT4_FRO_COM_DIR_NLINK \<equiv> 0x20"
abbreviation (input) EXT4_FRO_COM_EXTRA_ISIZE :: u32 where "EXT4_FRO_COM_EXTRA_ISIZE \<equiv> 0x40"
abbreviation (input) EXT4_FRO_COM_METADATA_CSUM :: u32 where "EXT4_FRO_COM_METADATA_CSUM \<equiv> 0x400"
abbreviation (input) EXT4_FINCOM_FILETYPE :: u32 where "EXT4_FINCOM_FILETYPE \<equiv> 2"
abbreviation (input) EXT4_FINCOM_RECOVER :: u32 where "EXT4_FINCOM_RECOVER \<equiv> 4"
abbreviation (input) EXT4_FINCOM_META_BG :: u32 where "EXT4_FINCOM_META_BG \<equiv> 0x10"
abbreviation (input) EXT4_FINCOM_EXTENTS :: u32 where "EXT4_FINCOM_EXTENTS \<equiv> 0x40"
abbreviation (input) EXT4_FINCOM_64BIT :: u32 where "EXT4_FINCOM_64BIT \<equiv> 0x80"
abbreviation (input) EXT4_FINCOM_MMP :: u32 where "EXT4_FINCOM_MMP \<equiv> 0x100"
abbreviation (input) EXT4_FINCOM_FLEX_BG :: u32 where "EXT4_FINCOM_FLEX_BG \<equiv> 0x200"
abbreviation (input) EXT4_MIN_BLOCK_GROUP_DESCRIPTOR_SIZE :: u16 where "EXT4_MIN_BLOCK_GROUP_DESCRIPTOR_SIZE \<equiv> 32"
abbreviation (input) EXT4_MAX_BLOCK_GROUP_DESCRIPTOR_SIZE :: u16 where "EXT4_MAX_BLOCK_GROUP_DESCRIPTOR_SIZE \<equiv> 64"

section \<open>Accessors\<close>

definition ext4_sb_get_blocks_cnt :: "ext4_sblock \<Rightarrow> u64" where
  "ext4_sb_get_blocks_cnt s =
     push_bit 32 (ucast (get32 s sbf_blocks_count_hi)) OR ucast (get32 s sbf_blocks_count_lo)"

definition ext4_sb_set_blocks_cnt :: "ext4_sblock \<Rightarrow> u64 \<Rightarrow> ext4_sblock" where
  "ext4_sb_set_blocks_cnt s cnt =
     (let s = set32 s sbf_blocks_count_lo (ucast (drop_bit 32 (push_bit 32 cnt)))
      in set32 s sbf_blocks_count_hi (ucast (drop_bit 32 cnt)))"

definition ext4_sb_get_free_blocks_cnt :: "ext4_sblock \<Rightarrow> u64" where
  "ext4_sb_get_free_blocks_cnt s =
     push_bit 32 (ucast (get32 s sbf_free_blocks_count_hi)) OR ucast (get32 s sbf_free_blocks_count_lo)"

definition ext4_sb_set_free_blocks_cnt :: "ext4_sblock \<Rightarrow> u64 \<Rightarrow> ext4_sblock" where
  "ext4_sb_set_free_blocks_cnt s cnt =
     (let s = set32 s sbf_free_blocks_count_lo (ucast (drop_bit 32 (push_bit 32 cnt)))
      in set32 s sbf_free_blocks_count_hi (ucast (drop_bit 32 cnt)))"

definition ext4_sb_get_block_size :: "ext4_sblock \<Rightarrow> u32" where
  "ext4_sb_get_block_size s = push_bit (unat (get32 s sbf_log_block_size)) 1024"

definition ext4_sb_get_desc_size :: "ext4_sblock \<Rightarrow> u16" where
  "ext4_sb_get_desc_size s =
     (let size = get16 s sbf_desc_size
      in if size < EXT4_MIN_BLOCK_GROUP_DESCRIPTOR_SIZE
         then EXT4_MIN_BLOCK_GROUP_DESCRIPTOR_SIZE else size)"

definition ext4_sb_check_flag :: "ext4_sblock \<Rightarrow> u32 \<Rightarrow> bool" where
  "ext4_sb_check_flag s v = (get32 s sbf_flags AND v \<noteq> 0)"

definition ext4_sb_feature_com :: "ext4_sblock \<Rightarrow> u32 \<Rightarrow> bool" where
  "ext4_sb_feature_com s v = (get32 s sbf_features_compatible AND v \<noteq> 0)"

definition ext4_sb_feature_incom :: "ext4_sblock \<Rightarrow> u32 \<Rightarrow> bool" where
  "ext4_sb_feature_incom s v = (get32 s sbf_features_incompatible AND v \<noteq> 0)"

definition ext4_sb_feature_ro_com :: "ext4_sblock \<Rightarrow> u32 \<Rightarrow> bool" where
  "ext4_sb_feature_ro_com s v = (get32 s sbf_features_read_only AND v \<noteq> 0)"

definition ext4_sb_bg_to_flex :: "ext4_sblock \<Rightarrow> u32 \<Rightarrow> u32" where
  "ext4_sb_bg_to_flex s block_group = drop_bit (unat (get8 s sbf_log_groups_per_flex)) block_group"

definition ext4_sb_flex_bg_size :: "ext4_sblock \<Rightarrow> u32" where
  "ext4_sb_flex_bg_size s = push_bit (unat (get8 s sbf_log_groups_per_flex)) 1"

definition ext4_sb_first_meta_bg :: "ext4_sblock \<Rightarrow> u32" where
  "ext4_sb_first_meta_bg s = get32 s sbf_first_meta_bg"

section \<open>Geometry\<close>

definition ext4_block_group_cnt :: "ext4_sblock \<Rightarrow> u32 option" where
  "ext4_block_group_cnt s = do {
     let blocks_count = ext4_sb_get_blocks_cnt s;
     let blocks_per_group = get32 s sbf_blocks_per_group;
     q \<leftarrow> div_checked blocks_count (ucast blocks_per_group);
     r \<leftarrow> mod_checked blocks_count (ucast blocks_per_group);
     let block_groups_count = (ucast q :: u32);
     Some (if r \<noteq> 0 then block_groups_count + 1 else block_groups_count) }"

definition ext4_blocks_in_group_cnt :: "ext4_sblock \<Rightarrow> u32 \<Rightarrow> u32 option" where
  "ext4_blocks_in_group_cnt s bgid = do {
     block_group_count \<leftarrow> ext4_block_group_cnt s;
     let blocks_per_group = get32 s sbf_blocks_per_group;
     let total_blocks = ext4_sb_get_blocks_cnt s;
     Some (if bgid < block_group_count - 1 then blocks_per_group
           else ucast (total_blocks - ucast ((block_group_count - 1) * blocks_per_group))) }"

definition ext4_inodes_in_group_cnt :: "ext4_sblock \<Rightarrow> u32 \<Rightarrow> u32 option" where
  "ext4_inodes_in_group_cnt s bgid = do {
     block_group_count \<leftarrow> ext4_block_group_cnt s;
     let inodes_per_group = get32 s sbf_inodes_per_group;
     let total_inodes = get32 s sbf_inodes_count;
     Some (if bgid < block_group_count - 1 then inodes_per_group
           else total_inodes - (block_group_count - 1) * inodes_per_group) }"

section \<open>Checksum and validity\<close>

definition ext4_sb_csum :: "ext4_sblock \<Rightarrow> u32" where
  "ext4_sb_csum s = ext4_crc32c EXT4_CRC32_INIT (slice 0 sbf_checksum s)"

definition ext4_sb_verify_csum :: "ext4_sblock \<Rightarrow> bool" where
  "ext4_sb_verify_csum s =
     (if \<not> ext4_sb_feature_ro_com s EXT4_FRO_COM_METADATA_CSUM then True
      else if get8 s sbf_checksum_type \<noteq> EXT4_CHECKSUM_CRC32C then False
      else get32 s sbf_checksum = ext4_sb_csum s)"

definition ext4_sb_set_csum :: "ext4_sblock \<Rightarrow> ext4_sblock" where
  "ext4_sb_set_csum s =
     (if \<not> ext4_sb_feature_ro_com s EXT4_FRO_COM_METADATA_CSUM then s
      else set32 s sbf_checksum (ext4_sb_csum s))"

definition ext4_sb_check :: "ext4_sblock \<Rightarrow> bool" where
  "ext4_sb_check s =
     (if get16 s sbf_magic \<noteq> EXT4_SUPERBLOCK_MAGIC then False
      else if get32 s sbf_inodes_count = 0 then False
      else if ext4_sb_get_blocks_cnt s = 0 then False
      else if get32 s sbf_blocks_per_group = 0 then False
      else if get32 s sbf_inodes_per_group = 0 then False
      else if get16 s sbf_inode_size < 128 then False
      else if get32 s sbf_first_inode < 11 then False
      else if ext4_sb_get_desc_size s < EXT4_MIN_BLOCK_GROUP_DESCRIPTOR_SIZE then False
      else if ext4_sb_get_desc_size s > EXT4_MAX_BLOCK_GROUP_DESCRIPTOR_SIZE then False
      else if \<not> ext4_sb_verify_csum s then False
      else True)"

section \<open>Backup superblocks and descriptor blocks\<close>

text \<open>The loop of \<open>is_power_of\<close> has no bound of its own: \<open>None\<close> is not returning (base 1) or the
  division by zero (base 0).\<close>

partial_function (option) is_power_of :: "u32 \<Rightarrow> u32 \<Rightarrow> bool option" where
  "is_power_of a b =
     (if a < b then Some False
      else if a = b then Some True
      else if b = 0 then None
      else if a mod b \<noteq> 0 then Some False
      else is_power_of (a div b) b)"

definition ext4_sb_sparse :: "u32 \<Rightarrow> bool option" where
  "ext4_sb_sparse grp =
     (if grp \<le> 1 then Some True
      else if grp AND 1 = 0 then Some False
      else do {
        p7 \<leftarrow> is_power_of grp 7;
        if p7 then Some True else do {
        p5 \<leftarrow> is_power_of grp 5;
        if p5 then Some True else is_power_of grp 3 }})"

definition ext4_sb_is_super_in_bg :: "ext4_sblock \<Rightarrow> u32 \<Rightarrow> bool option" where
  "ext4_sb_is_super_in_bg s grp =
     (if ext4_sb_feature_ro_com s EXT4_FRO_COM_SPARSE_SUPER then ext4_sb_sparse grp
      else Some True)"

definition ext4_bg_num_gdb_meta :: "ext4_sblock \<Rightarrow> u32 \<Rightarrow> u32 option" where
  "ext4_bg_num_gdb_meta s grp = do {
     dsc_per_block \<leftarrow> div_checked (ext4_sb_get_block_size s) (ucast (ext4_sb_get_desc_size s));
     metagroup \<leftarrow> div_checked grp dsc_per_block;
     let first = metagroup * dsc_per_block;
     let last = first + dsc_per_block - 1;
     Some (if grp = first \<or> grp = first + 1 \<or> grp = last then 1 else 0) }"

definition ext4_bg_num_gdb_nometa :: "ext4_sblock \<Rightarrow> u32 \<Rightarrow> u32 option" where
  "ext4_bg_num_gdb_nometa s grp = do {
     super \<leftarrow> ext4_sb_is_super_in_bg s grp;
     if \<not> super then Some 0 else do {
     dsc_per_block \<leftarrow> div_checked (ext4_sb_get_block_size s) (ucast (ext4_sb_get_desc_size s));
     cnt \<leftarrow> ext4_block_group_cnt s;
     db_count \<leftarrow> div_checked (cnt + dsc_per_block - 1) dsc_per_block;
     if ext4_sb_feature_incom s EXT4_FINCOM_META_BG then Some (ext4_sb_first_meta_bg s)
     else Some db_count }}"

definition ext4_bg_num_gdb :: "ext4_sblock \<Rightarrow> u32 \<Rightarrow> u32 option" where
  "ext4_bg_num_gdb s grp = do {
     dsc_per_block \<leftarrow> div_checked (ext4_sb_get_block_size s) (ucast (ext4_sb_get_desc_size s));
     let first_meta_bg = ext4_sb_first_meta_bg s;
     metagroup \<leftarrow> div_checked grp dsc_per_block;
     if \<not> ext4_sb_feature_incom s EXT4_FINCOM_META_BG \<or> metagroup < first_meta_bg
     then ext4_bg_num_gdb_nometa s grp
     else ext4_bg_num_gdb_meta s grp }"

definition ext4_num_base_meta_clusters :: "ext4_sblock \<Rightarrow> u32 \<Rightarrow> u32 option" where
  "ext4_num_base_meta_clusters s block_group = do {
     dsc_per_block \<leftarrow> div_checked (ext4_sb_get_block_size s) (ucast (ext4_sb_get_desc_size s));
     super \<leftarrow> ext4_sb_is_super_in_bg s block_group;
     let num = (if super then 1 else 0 :: u32);
     num \<leftarrow>
       (if \<not> ext4_sb_feature_incom s EXT4_FINCOM_META_BG
           \<or> block_group < ext4_sb_first_meta_bg s * dsc_per_block
        then if num \<noteq> 0 then do {
               gdb \<leftarrow> ext4_bg_num_gdb s block_group;
               Some (num + gdb + ucast (get16 s sbf_s_reserved_gdt_blocks)) }
             else Some num
        else do {
          gdb \<leftarrow> ext4_bg_num_gdb s block_group;
          Some (num + gdb) });
     let clustersize = push_bit (unat (get32 s sbf_log_cluster_size)) 1024;
     cluster_ratio \<leftarrow> div_checked clustersize (ext4_sb_get_block_size s);
     Some (drop_bit (unat (get32 s sbf_log_cluster_size)) (num + cluster_ratio - 1)) }"

section \<open>Accessor laws\<close>

lemma ext4_sb_blocks_cnt_roundtrip:
  "length s = 1024 \<Longrightarrow> ext4_sb_get_blocks_cnt (ext4_sb_set_blocks_cnt s c) = c"
  by (simp add: ext4_sb_get_blocks_cnt_def ext4_sb_set_blocks_cnt_def join64)

lemma ext4_sb_free_blocks_cnt_roundtrip [simp]:
  "length s = 1024 \<Longrightarrow> ext4_sb_get_free_blocks_cnt (ext4_sb_set_free_blocks_cnt s c) = c"
  by (simp add: ext4_sb_get_free_blocks_cnt_def ext4_sb_set_free_blocks_cnt_def join64)

lemma length_ext4_sb_set [simp]:
  "length (ext4_sb_set_blocks_cnt s c) = length s"
  "length (ext4_sb_set_free_blocks_cnt s c) = length s"
  "length (ext4_sb_set_csum s) = length s"
  by (simp_all add: ext4_sb_set_blocks_cnt_def ext4_sb_set_free_blocks_cnt_def ext4_sb_set_csum_def)

lemma ext4_sb_get_desc_size_ge: "32 \<le> ext4_sb_get_desc_size s"
  by (simp add: ext4_sb_get_desc_size_def Let_def not_less)

lemma ext4_sb_desc_size_pos: "ext4_sb_get_desc_size s \<noteq> 0"
  using ext4_sb_get_desc_size_ge [of s] by auto

section \<open>Block groups partition the blocks\<close>

lemma ext4_block_group_cnt_None: "get32 s sbf_blocks_per_group = 0 \<Longrightarrow> ext4_block_group_cnt s = None"
  by (simp add: ext4_block_group_cnt_def Let_def)

text \<open>The number of groups is the rounded-up quotient, when it fits its 32 bits.\<close>

definition groups_of :: "ext4_sblock \<Rightarrow> nat" where
  "groups_of s =
     (unat (ext4_sb_get_blocks_cnt s) + unat (get32 s sbf_blocks_per_group) - 1)
       div unat (get32 s sbf_blocks_per_group)"

lemma ceil_div_nat:
  assumes "0 < (b::nat)"
  shows "(a + b - 1) div b = a div b + (if a mod b = 0 then 0 else 1)"
proof -
  have ab: "a = b * (a div b) + a mod b" by simp
  show ?thesis
  proof (cases "a mod b = 0")
    case True
    then have "a + b - 1 = (b - 1) + b * (a div b)" using ab assms by linarith
    then show ?thesis using True assms by (simp only: div_mult_self2) simp
  next
    case False
    then have "a + b - 1 = (a mod b - 1) + b + b * (a div b)"
      using ab assms by linarith
    then have "a + b - 1 = (a mod b - 1) + b * (a div b + 1)" by simp
    moreover have "a mod b - 1 < b" using assms by (meson less_imp_diff_less mod_less_divisor)
    ultimately show ?thesis using False assms by (simp only: div_mult_self2) simp
  qed
qed

lemma ext4_block_group_cnt_eq:
  assumes bpg: "get32 s sbf_blocks_per_group \<noteq> 0" and fits: "groups_of s < 2 ^ 32"
  obtains n where "ext4_block_group_cnt s = Some n" "unat n = groups_of s"
proof
  let ?a = "unat (ext4_sb_get_blocks_cnt s)" and ?b = "unat (get32 s sbf_blocks_per_group)"
  let ?q = "ucast (ext4_sb_get_blocks_cnt s div ucast (get32 s sbf_blocks_per_group)) :: u32"
  let ?n = "if ext4_sb_get_blocks_cnt s mod ucast (get32 s sbf_blocks_per_group) \<noteq> 0
            then ?q + 1 else ?q"
  have b: "0 < ?b" using bpg by (simp add: unat_gt_0)
  have g: "groups_of s = ?a div ?b + (if ?a mod ?b = 0 then 0 else 1)"
    unfolding groups_of_def by (rule ceil_div_nat [OF b])
  have q: "unat ?q = ?a div ?b"
    using fits unfolding g by (simp add: unsigned_ucast_eq unat_div take_bit_nat_eq_self_iff split: if_splits)
  have r: "ext4_sb_get_blocks_cnt s mod ucast (get32 s sbf_blocks_per_group) = 0 \<longleftrightarrow> ?a mod ?b = 0"
    by (simp only: unat_eq_zero [symmetric] unat_mod ucast_u32_u64_unat)
  show "ext4_block_group_cnt s = Some ?n"
    using bpg by (simp add: ext4_block_group_cnt_def Let_def)
  show "unat ?n = groups_of s"
  proof (cases "?a mod ?b = 0")
    case True
    then show ?thesis unfolding r g q [symmetric] by simp
  next
    case False
    then have "unat ?q + 1 < 2 ^ LENGTH(32)" using fits unfolding g q by simp
    then have "unat (?q + 1) = unat ?q + 1" by (rule unat_plus_one_nowrap)
    with False show ?thesis unfolding r g q [symmetric] by simp
  qed
qed

lemma last_group_bounds:
  assumes "0 < (b::nat)" "0 < a"
  shows "((a + b - 1) div b - 1) * b < a" "a \<le> (a + b - 1) div b * b" "0 < (a + b - 1) div b"
proof -
  have m: "a mod b < b" and ab: "b * (a div b) + a mod b = a" using assms by simp_all
  consider "a mod b = 0" "0 < a div b" | "0 < a mod b"
    using ab assms by (metis add.right_neutral mult_0_right neq0_conv)
  then have "((a + b - 1) div b - 1) * b < a \<and> a \<le> (a + b - 1) div b * b \<and> 0 < (a + b - 1) div b"
    unfolding ceil_div_nat [OF assms(1)]
  proof cases
    case 1
    then have "(a div b - 1) * b + b = b * (a div b)" by (cases "a div b") simp_all
    then have "(a div b - 1) * b < a" using ab 1 assms by linarith
    then show "(a div b + (if a mod b = 0 then 0 else 1) - 1) * b < a \<and>
      a \<le> (a div b + (if a mod b = 0 then 0 else 1)) * b \<and> 0 < a div b + (if a mod b = 0 then 0 else 1)"
      using 1 ab by (simp add: mult.commute)
  next
    case 2
    have "a \<le> b * (a div b) + b" "b * (a div b) < a" using ab m 2 by linarith+
    then show "(a div b + (if a mod b = 0 then 0 else 1) - 1) * b < a \<and>
      a \<le> (a div b + (if a mod b = 0 then 0 else 1)) * b \<and> 0 < a div b + (if a mod b = 0 then 0 else 1)"
      using 2 \<open>a \<le> b * (a div b) + b\<close> by (simp add: mult.commute)
  qed
  then show "((a + b - 1) div b - 1) * b < a" "a \<le> (a + b - 1) div b * b" "0 < (a + b - 1) div b"
    by blast+
qed

lemma ucast_minus_down: "(ucast (x - ucast p) :: u32) = ucast (x::u64) - (p::u32)"
proof (transfer, goal_cases)
  case (1 x p)
  have "take_bit 32 (take_bit 64 (x - take_bit 32 p)) = take_bit 32 (x - take_bit 32 p)"
    by (simp add: take_bit_take_bit)
  also have "\<dots> = take_bit 32 (x - p)"
    by (metis take_bit_diff take_bit_take_bit min.idem)
  also have "\<dots> = take_bit 32 (take_bit 64 x - p)"
    using take_bit_diff [of 32 x p] take_bit_diff [of 32 "take_bit 64 x" p] by (simp add: take_bit_take_bit)
  finally show ?case by simp
qed

lemma ucast_u64_of_nat: "(ucast (x::u64) :: u32) = of_nat (unat x)"
  by transfer (simp add: take_bit_take_bit)

lemma ext4_blocks_in_group_cnt_eq:
  assumes bpg: "get32 s sbf_blocks_per_group \<noteq> 0" and pos: "ext4_sb_get_blocks_cnt s \<noteq> 0"
    and fits: "groups_of s < 2 ^ 32" and g: "g < groups_of s"
  shows "map_option unat (ext4_blocks_in_group_cnt s (of_nat g)) =
    Some (min (unat (get32 s sbf_blocks_per_group))
              (unat (ext4_sb_get_blocks_cnt s) - g * unat (get32 s sbf_blocks_per_group)))"
proof -
  let ?a = "unat (ext4_sb_get_blocks_cnt s)" and ?b = "unat (get32 s sbf_blocks_per_group)"
  obtain n where cnt: "ext4_block_group_cnt s = Some n" and n: "unat n = groups_of s"
    using bpg fits by (rule ext4_block_group_cnt_eq)
  have b: "0 < ?b" and a: "0 < ?a" using bpg pos by (simp_all add: unat_gt_0)
  note bounds = last_group_bounds [OF b a, folded groups_of_def]
  have n1: "unat (n - 1) = groups_of s - 1"
    using bounds(3) n by (simp add: unat_sub word_le_nat_alt)
  have ug: "unat (of_nat g :: u32) = g" using g fits by (simp add: unsigned_of_nat take_bit_nat_eq_self_iff)
  show ?thesis
  proof (cases "g < groups_of s - 1")
    case True
    then have "(g + 1) * ?b \<le> (groups_of s - 1) * ?b" by (intro mult_right_mono) simp_all
    then have "?b \<le> ?a - g * ?b" using bounds(1) by simp
    moreover have "(of_nat g :: u32) < n - 1" using True by (simp only: word_less_nat_alt ug n1)
    ultimately show ?thesis by (simp add: ext4_blocks_in_group_cnt_def cnt Let_def min_def)
  next
    case False
    then have last: "g = groups_of s - 1" using g by simp
    then have g': "of_nat g = n - 1" by (metis n1 word_unat_eq_iff ug)
    have "groups_of s * ?b = g * ?b + ?b" using last bounds(3) by (cases "groups_of s") simp_all
    then have rest: "?a - g * ?b \<le> ?b" "g * ?b \<le> ?a" using bounds(1,2) last by simp_all
    let ?v = "ucast (ext4_sb_get_blocks_cnt s - ucast ((n - 1) * get32 s sbf_blocks_per_group)) :: u32"
    have "(n - 1) * get32 s sbf_blocks_per_group = of_nat (g * ?b)"
      unfolding g' [symmetric] by simp
    then have "?v = of_nat ?a - of_nat (g * ?b)" by (simp only: ucast_minus_down ucast_u64_of_nat [of "ext4_sb_get_blocks_cnt s"])
    then have "?v = of_nat (?a - g * ?b)" using rest(2) by (simp only: of_nat_diff)
    moreover have "?a - g * ?b < 2 ^ 32" using rest(1) unat_below [of "get32 s sbf_blocks_per_group"] by simp
    ultimately have "unat ?v = ?a - g * ?b" by (simp add: unsigned_of_nat take_bit_nat_eq_self_iff)
    then show ?thesis using rest(1) by (simp add: ext4_blocks_in_group_cnt_def cnt Let_def g' min_def)
  qed
qed

lemma sum_min_pieces: "(\<Sum>g < (m::nat). min b (a - g * b)) = min a (m * b)"
proof (induction m)
  case (Suc m)
  have "min a (m * b) + min b (a - m * b) = min a (Suc m * b)"
    by (cases "a \<le> m * b") (auto simp: min_def)
  with Suc show ?case by (simp only: sum.lessThan_Suc)
qed simp

text \<open>On a superblock that passes \<open>ext4_sb_check\<close> and has fewer than \<open>2\<^sup>3\<^sup>2\<close> groups, \<open>ext4_block_group_cnt\<close> does
  not fail and \<open>ext4_blocks_in_group_cnt\<close> cuts the blocks \<open>0 ..< blocks_count\<close> into that many groups:
  each has \<open>blocks_per_group\<close> blocks but the last, which has the non-empty remainder, so that the group
  sizes add up to the block count. (Like the code, this counts from block 0 and takes no account of
  \<open>first_data_block\<close>.)
\<close>

theorem ext4_blocks_in_group_cnt_partition:
  assumes "ext4_sb_check s" and "groups_of s < 2 ^ 32"
  shows "map_option unat (ext4_block_group_cnt s) = Some (groups_of s) \<and>
    (\<forall>g < groups_of s. map_option unat (ext4_blocks_in_group_cnt s (of_nat g)) =
       Some (min (unat (get32 s sbf_blocks_per_group))
                 (unat (ext4_sb_get_blocks_cnt s) - g * unat (get32 s sbf_blocks_per_group)))) \<and>
    (\<Sum>g < groups_of s. unat (the (ext4_blocks_in_group_cnt s (of_nat g)))) =
       unat (ext4_sb_get_blocks_cnt s)"
proof (intro conjI)
  let ?a = "unat (ext4_sb_get_blocks_cnt s)" and ?b = "unat (get32 s sbf_blocks_per_group)"
  have nz: "get32 s sbf_blocks_per_group \<noteq> 0" "ext4_sb_get_blocks_cnt s \<noteq> 0"
    using assms(1) by (auto simp: ext4_sb_check_def split: if_splits)
  show "map_option unat (ext4_block_group_cnt s) = Some (groups_of s)"
    using ext4_block_group_cnt_eq [OF nz(1) assms(2)] by fastforce
  note each = ext4_blocks_in_group_cnt_eq [OF nz assms(2)]
  show "\<forall>g < groups_of s. map_option unat (ext4_blocks_in_group_cnt s (of_nat g)) =
       Some (min ?b (?a - g * ?b))" using each by blast
  have "(\<Sum>g < groups_of s. unat (the (ext4_blocks_in_group_cnt s (of_nat g)))) =
      (\<Sum>g < groups_of s. min ?b (?a - g * ?b))"
  proof (rule sum.cong [OF refl])
    fix g assume "g \<in> {..<groups_of s}"
    then have "g < groups_of s" by simp
    from each [OF this] show "unat (the (ext4_blocks_in_group_cnt s (of_nat g))) = min ?b (?a - g * ?b)"
      by (cases "ext4_blocks_in_group_cnt s (of_nat g)") simp_all
  qed
  also have "\<dots> = min ?a (groups_of s * ?b)" by (rule sum_min_pieces)
  also have "\<dots> = ?a"
    using last_group_bounds(2) [of ?b ?a, folded groups_of_def] nz by (simp add: min_def unat_gt_0)
  finally show "(\<Sum>g < groups_of s. unat (the (ext4_blocks_in_group_cnt s (of_nat g)))) = ?a" .
qed

definition sample_sb :: ext4_sblock where
  "sample_sb =
    (let s = replicate 1024 0; s = set16 s sbf_magic EXT4_SUPERBLOCK_MAGIC;
         s = set32 s sbf_inodes_count 32; s = set32 s sbf_blocks_count_lo 20;
         s = set32 s sbf_blocks_per_group 8; s = set32 s sbf_inodes_per_group 12;
         s = set16 s sbf_inode_size 128; s = set32 s sbf_first_inode 11;
         s = set32 s sbf_features_read_only EXT4_FRO_COM_METADATA_CSUM
     in set8 s sbf_checksum_type EXT4_CHECKSUM_CRC32C)"

lemma ext4_sb_get_blocks_cnt_set [simp]:
  "p + 3 < 4 \<or> 8 \<le> p \<and> p + 3 < 336 \<or> 340 \<le> p \<Longrightarrow>
     ext4_sb_get_blocks_cnt (set32 s p v) = ext4_sb_get_blocks_cnt s"
  by (auto simp: ext4_sb_get_blocks_cnt_def)

section \<open>The checksum of the superblock\<close>

lemma ext4_sb_csum_set [simp]: "ext4_sb_csum (set32 s sbf_checksum v) = ext4_sb_csum s"
  by (simp add: ext4_sb_csum_def)

lemma ext4_sb_feature_set [simp]:
  "p + 3 < 100 \<or> 104 \<le> p \<Longrightarrow> ext4_sb_feature_ro_com (set32 s p v) f = ext4_sb_feature_ro_com s f"
  "p + 3 < 96 \<or> 100 \<le> p \<Longrightarrow> ext4_sb_feature_incom (set32 s p v) f = ext4_sb_feature_incom s f"
  "p + 3 < 92 \<or> 96 \<le> p \<Longrightarrow> ext4_sb_feature_com (set32 s p v) f = ext4_sb_feature_com s f"
  by (auto simp: ext4_sb_feature_ro_com_def ext4_sb_feature_incom_def ext4_sb_feature_com_def)

lemma ext4_sb_set_csum_verify:
  assumes "length s = 1024"
    and "ext4_sb_feature_ro_com s EXT4_FRO_COM_METADATA_CSUM \<Longrightarrow>
           get8 s sbf_checksum_type = EXT4_CHECKSUM_CRC32C"
  shows "ext4_sb_verify_csum (ext4_sb_set_csum s)"
  using assms by (simp add: ext4_sb_verify_csum_def ext4_sb_set_csum_def)

text \<open>A burst inside the checksummed part changes the checksum and leaves the stored one alone.\<close>

definition burst_at :: "nat \<Rightarrow> u8 list \<Rightarrow> u8 list \<Rightarrow> bool" where
  "burst_at p b b' =
     (length b' = length b \<and> (\<forall>i < length b. \<not> (p \<le> i \<and> i < p + 4) \<longrightarrow> b' ! i = b ! i))"

lemma burst_at_split:
  assumes "burst_at p b b'" "p + 4 \<le> length b" "b' \<noteq> b"
  shows "b = take p b @ slice p 4 b @ drop (p + 4) b"
    and "b' = take p b @ slice p 4 b' @ drop (p + 4) b" and "slice p 4 b \<noteq> slice p 4 b'"
proof -
  have split: "c = take p c @ slice p 4 c @ drop (p + 4) c" for c :: "u8 list"
    by (simp add: slice_def) (metis append_take_drop_id drop_drop add.commute)
  show b: "b = take p b @ slice p 4 b @ drop (p + 4) b" by (rule split)
  have "take p b' = take p b" "drop (p + 4) b' = drop (p + 4) b"
    using assms by (auto simp: burst_at_def intro!: nth_equalityI)
  then show b': "b' = take p b @ slice p 4 b' @ drop (p + 4) b"
    using split [of b'] by simp
  show "slice p 4 b \<noteq> slice p 4 b'"
  proof
    assume "slice p 4 b = slice p 4 b'"
    then have "b' = b" using b b' by metis
    then show False using assms(3) by simp
  qed
qed

lemma ext4_crc32c_burst_at:
  assumes "burst_at p b b'" "p + 4 \<le> length b" "b' \<noteq> b"
  shows "ext4_crc32c c (pre @ b') \<noteq> ext4_crc32c c (pre @ b)"
proof -
  have "crc_serial CRC32C_POLY c ((pre @ take p b) @ slice p 4 b' @ drop (p + 4) b)
      \<noteq> crc_serial CRC32C_POLY c ((pre @ take p b) @ slice p 4 b @ drop (p + 4) b)"
    by (rule crc_serial_detects_burst) (use assms burst_at_split(3) [OF assms] in \<open>auto simp: burst_at_def\<close>)
  then show ?thesis
    using burst_at_split(1,2) [OF assms] by (metis append.assoc ext4_crc32c_serial)
qed

text \<open>C40: With \<open>metadata_csum\<close> on and CRC32C as its type, \<open>ext4_sb_set_csum\<close> produces a superblock that
  \<open>ext4_sb_verify_csum\<close> accepts and that agrees with the old one before the checksum field; and if that
  superblock is then altered inside any window of four bytes before the checksum field (the word of the
  read-only features excepted, whose bit switches the check itself), verification rejects it.\<close>

theorem ext4_sb_csum_protects:
  assumes "length s = 1024" "ext4_sb_feature_ro_com s EXT4_FRO_COM_METADATA_CSUM"
    and "get8 s sbf_checksum_type = EXT4_CHECKSUM_CRC32C"
    and "burst_at p (ext4_sb_set_csum s) s'" "s' \<noteq> ext4_sb_set_csum s" "p + 4 \<le> sbf_checksum"
    and "p + 4 \<le> sbf_features_read_only \<or> sbf_features_read_only + 4 \<le> p"
  shows "ext4_sb_verify_csum (ext4_sb_set_csum s) \<and> slice 0 sbf_checksum (ext4_sb_set_csum s) =
    slice 0 sbf_checksum s \<and> \<not> ext4_sb_verify_csum s'"
proof (intro conjI)
  let ?t = "ext4_sb_set_csum s"
  show ok: "ext4_sb_verify_csum ?t" using assms(1,3) by (simp add: ext4_sb_set_csum_verify)
  show "slice 0 sbf_checksum ?t = slice 0 sbf_checksum s" by (simp add: ext4_sb_set_csum_def)
  have len: "length ?t = 1024" "length s' = 1024" using assms(1,4) by (simp_all add: burst_at_def)
  have same: "s' ! i = ?t ! i" if "i < 1024" "\<not> (p \<le> i \<and> i < p + 4)" for i
    using assms(4) that len by (auto simp: burst_at_def)
  have ro: "get32 s' sbf_features_read_only = get32 ?t sbf_features_read_only"
    unfolding get32_def using assms(7) by (auto simp: same)
  have ck: "get32 s' sbf_checksum = get32 ?t sbf_checksum"
    unfolding get32_def using assms(6) by (auto simp: same)
  have tail: "drop 1020 s' = drop 1020 ?t"
    by (rule nth_equalityI) (use len assms(6) in \<open>auto simp: same\<close>)
  have burst: "burst_at p (slice 0 sbf_checksum ?t) (slice 0 sbf_checksum s')"
    using assms(4) len by (auto simp: burst_at_def slice_def)
  have "slice 0 sbf_checksum s' \<noteq> slice 0 sbf_checksum ?t"
  proof
    assume "slice 0 sbf_checksum s' = slice 0 sbf_checksum ?t"
    then have "s' = ?t" using tail by (metis append_take_drop_id drop_0 slice_def)
    with assms(5) show False by simp
  qed
  from ext4_crc32c_burst_at [OF burst _ this, of EXT4_CRC32_INIT "[]"] assms(6) len
  have "ext4_sb_csum s' \<noteq> ext4_sb_csum ?t" by (simp add: ext4_sb_csum_def)
  moreover have "get32 ?t sbf_checksum = ext4_sb_csum ?t"
    using ok assms(2) by (simp add: ext4_sb_verify_csum_def ext4_sb_set_csum_def split: if_splits)
  moreover have "ext4_sb_feature_ro_com s' EXT4_FRO_COM_METADATA_CSUM"
    using assms(2) ro by (simp add: ext4_sb_feature_ro_com_def ext4_sb_set_csum_def)
  ultimately show "\<not> ext4_sb_verify_csum s'" using ck by (auto simp: ext4_sb_verify_csum_def)
qed

lemma sample_sb_facts:
  "length sample_sb = 1024" "ext4_sb_feature_ro_com sample_sb EXT4_FRO_COM_METADATA_CSUM"
  "get8 sample_sb sbf_checksum_type = EXT4_CHECKSUM_CRC32C"
  "get32 sample_sb sbf_blocks_per_group = 8" "ext4_sb_get_blocks_cnt sample_sb = 20"
  by (simp_all add: sample_sb_def Let_def ext4_sb_feature_ro_com_def ext4_sb_get_blocks_cnt_def get32_def get8_def
      set8_def set16_def set32_def)

lemma sample_sb_other:
  "get16 sample_sb sbf_magic = EXT4_SUPERBLOCK_MAGIC" "get32 sample_sb sbf_inodes_count = 32"
  "get32 sample_sb sbf_inodes_per_group = 12" "get16 sample_sb sbf_inode_size = 128"
  "get32 sample_sb sbf_first_inode = 11" "get16 sample_sb sbf_desc_size = 0"
  by (simp_all add: sample_sb_def Let_def get32_def get16_def set8_def set16_def set32_def)

lemma ext4_sb_set_csum_other [simp]:
  "p + 3 < sbf_checksum \<Longrightarrow> get32 (ext4_sb_set_csum s) p = get32 s p"
  "p + 1 < sbf_checksum \<Longrightarrow> get16 (ext4_sb_set_csum s) p = get16 s p"
  "p < sbf_checksum \<Longrightarrow> get8 (ext4_sb_set_csum s) p = get8 s p"
  "ext4_sb_get_blocks_cnt (ext4_sb_set_csum s) = ext4_sb_get_blocks_cnt s"
  by (simp_all add: ext4_sb_set_csum_def ext4_sb_get_blocks_cnt_def)

lemma sample_sb_check: "ext4_sb_check (ext4_sb_set_csum sample_sb)"
  using ext4_sb_set_csum_verify [OF sample_sb_facts(1)]
  by (simp add: ext4_sb_check_def sample_sb_facts sample_sb_other ext4_sb_get_desc_size_def Let_def)

theorem ext4_sb_csum_protects_witness:
  "\<not> ext4_sb_verify_csum (set32 (ext4_sb_set_csum sample_sb) sbf_inodes_count 33)"
proof -
  let ?t = "ext4_sb_set_csum sample_sb"
  have len: "length ?t = 1024" by (simp add: sample_sb_facts)
  have 1: "burst_at sbf_inodes_count ?t (set32 ?t sbf_inodes_count 33)"
    by (auto simp: burst_at_def set32_def)
  have "get32 (set32 ?t sbf_inodes_count 33) sbf_inodes_count \<noteq> get32 ?t sbf_inodes_count"
    by (simp add: sample_sb_facts sample_sb_other)
  then have 2: "set32 ?t sbf_inodes_count 33 \<noteq> ?t" by auto
  show ?thesis
    using ext4_sb_csum_protects [OF sample_sb_facts(1-3) 1 2] by simp
qed

theorem ext4_blocks_in_group_cnt_partition_witness:
  "(\<Sum>g < 3. unat (the (ext4_blocks_in_group_cnt (ext4_sb_set_csum sample_sb) (of_nat g)))) = 20"
proof -
  have g: "groups_of (ext4_sb_set_csum sample_sb) = 3"
    by (simp add: groups_of_def sample_sb_facts)
  show ?thesis
    using ext4_blocks_in_group_cnt_partition [OF sample_sb_check] unfolding g
    by (simp add: sample_sb_facts)
qed

section \<open>Backup copies\<close>

text \<open>\<open>is_power_of\<close> returns for every base above one, with the answer its name promises.\<close>

lemma is_power_of_correct:
  assumes "2 \<le> unat b"
  shows "is_power_of a b = Some (\<exists>k\<ge>1. unat a = unat b ^ k)"
proof (induction "unat a" arbitrary: a rule: less_induct)
  case less
  have b: "b \<noteq> 0" "1 < unat b" using assms by (auto simp: unat_eq_zero [symmetric])
  consider "a < b" | "a = b" | "b < a" "a mod b \<noteq> 0" | "b < a" "a mod b = 0" by fastforce
  then show ?case
  proof cases
    case 1
    have "unat a < unat b ^ k" if "k \<ge> 1" for k
      using 1 b that self_le_power [of "unat b" k] by (simp add: word_less_nat_alt)
    then have "\<not> (\<exists>k\<ge>1. unat a = unat b ^ k)" by fastforce
    then show ?thesis using 1 by (simp only: is_power_of.simps [of a b] if_True)
  next
    case 2
    then show ?thesis by (subst is_power_of.simps) (auto intro: exI [of _ "1::nat"])
  next
    case 3
    have "unat a mod unat b \<noteq> 0" using 3 by (metis unat_eq_zero unat_mod)
    then have "\<not> (\<exists>k\<ge>1. unat a = unat b ^ k)" by (auto simp: dvd_power Suc_le_eq)
    then show ?thesis using 3 b by (subst is_power_of.simps) auto
  next
    case 4
    then have a: "unat a = unat b * unat (a div b)"
      by (metis add.right_neutral div_mult_mod_eq mult.commute unat_div unat_eq_zero unat_mod)
    have lt: "unat (a div b) < unat a"
      using 4 b by (simp add: unat_div word_less_nat_alt)
    have "is_power_of a b = is_power_of (a div b) b"
      using 4 b by (subst is_power_of.simps) auto
    also have "\<dots> = Some (\<exists>k\<ge>1. unat (a div b) = unat b ^ k)"
      by (rule less [OF lt])
    also have "(\<exists>k\<ge>1. unat (a div b) = unat b ^ k) = (\<exists>k\<ge>1. unat a = unat b ^ k)"
    proof
      assume "\<exists>k\<ge>1. unat (a div b) = unat b ^ k"
      then show "\<exists>k\<ge>1. unat a = unat b ^ k"
        using a by (metis le_SucI power_Suc)
    next
      assume "\<exists>k\<ge>1. unat a = unat b ^ k"
      then obtain k where k: "1 \<le> k" "unat a = unat b ^ k" by blast
      have "k \<noteq> 1" using k 4 by (auto simp: word_less_nat_alt)
      then obtain m where "k = Suc m" "1 \<le> m" using k by (cases k) auto
      then show "\<exists>k\<ge>1. unat (a div b) = unat b ^ k" using a k b by auto
    qed
    finally show ?thesis .
  qed
qed

text \<open>
  \<open>ext4_sb_sparse\<close> returns for every group number (the unbounded loop of \<open>is_power_of\<close> ends), and
  says yes exactly for groups 0 and 1 and the powers of 3, 5 and 7, the groups that hold a backup
  superblock under \<open>sparse_super\<close>.
\<close>

theorem ext4_sb_sparse_correct:
  "ext4_sb_sparse g =
     Some (unat g \<le> 1 \<or> (\<exists>k\<ge>1. unat g = 3 ^ k \<or> unat g = 5 ^ k \<or> unat g = 7 ^ k))"
proof -
  have odd: "g AND 1 = 0 \<longleftrightarrow> even (unat g)"
    by (simp only: and_one_eq unat_eq_zero [symmetric] unat_mod) (simp add: even_iff_mod_2_eq_zero)
  have "\<not> even (unat g)" if "\<exists>k\<ge>1. unat g = 3 ^ k \<or> unat g = 5 ^ k \<or> unat g = 7 ^ k"
    using that by auto
  moreover have "g \<le> 1 \<longleftrightarrow> unat g \<le> 1" by (simp add: word_le_nat_alt)
  ultimately show ?thesis
    unfolding ext4_sb_sparse_def odd by (auto simp: is_power_of_correct)
qed

text \<open>Without \<open>meta_bg\<close> the descriptor blocks of a group with a superblock copy hold every group.\<close>

lemma ext4_bg_num_gdb_nometa_enough:
  assumes "ext4_bg_num_gdb_nometa s g = Some n" "n \<noteq> 0" "\<not> ext4_sb_feature_incom s EXT4_FINCOM_META_BG"
    and "div_checked (ext4_sb_get_block_size s) (ucast (ext4_sb_get_desc_size s)) = Some dpb"
    and "ext4_block_group_cnt s = Some cnt" "unat cnt + unat dpb < 2 ^ 32"
  shows "unat cnt \<le> unat n * unat dpb"
proof -
  have n: "n = (cnt + dpb - 1) div dpb" and d: "dpb \<noteq> 0"
    using assms by (auto simp: ext4_bg_num_gdb_nometa_def div_checked_def Option.bind_eq_Some_conv
        split: if_splits)
  have d': "1 \<le> dpb" using d by (simp add: word_le_nat_alt Suc_le_eq unat_gt_0)
  have "unat (cnt + dpb - 1) = unat cnt + unat dpb - 1"
    using assms(6) d' by (simp add: add_diff_eq [symmetric] unat_sub word_le_nat_alt del: add_diff_eq)
  then have "unat n = (unat cnt + unat dpb - 1) div unat dpb" using n by (simp add: unat_div)
  then show ?thesis
    using last_group_bounds(2) [of "unat dpb" "unat cnt"] d by (cases "unat cnt = 0") (simp_all add: unat_gt_0)
qed

end
