(* ===== verification/Block_Group.thy ===== *)
theory Block_Group
  imports Superblock
begin

text \<open>
  The block group descriptor: \<open>struct ext4_bgroup\<close> of \<open>include/ext4_types.h\<close> and its accessors in
  \<open>include/ext4_block_group.h\<close>. A descriptor is the list of its bytes (32 of them, or 64 when the
  superblock says that descriptors are larger); the high halves exist in the large form only. The
  CRC-16 of \<open>src/ext4_block_group.c\<close> is in theory \<open>Crc\<close>.
\<close>

section \<open>Layout\<close>

type_synonym ext4_bgroup = "u8 list"

abbreviation (input) bgf_block_bitmap_lo :: nat where "bgf_block_bitmap_lo \<equiv> 0"
abbreviation (input) bgf_inode_bitmap_lo :: nat where "bgf_inode_bitmap_lo \<equiv> 4"
abbreviation (input) bgf_inode_table_first_block_lo :: nat where "bgf_inode_table_first_block_lo \<equiv> 8"
abbreviation (input) bgf_free_blocks_count_lo :: nat where "bgf_free_blocks_count_lo \<equiv> 12"
abbreviation (input) bgf_free_inodes_count_lo :: nat where "bgf_free_inodes_count_lo \<equiv> 14"
abbreviation (input) bgf_used_dirs_count_lo :: nat where "bgf_used_dirs_count_lo \<equiv> 16"
abbreviation (input) bgf_flags :: nat where "bgf_flags \<equiv> 18"
abbreviation (input) bgf_exclude_bitmap_lo :: nat where "bgf_exclude_bitmap_lo \<equiv> 20"
abbreviation (input) bgf_block_bitmap_csum_lo :: nat where "bgf_block_bitmap_csum_lo \<equiv> 24"
abbreviation (input) bgf_inode_bitmap_csum_lo :: nat where "bgf_inode_bitmap_csum_lo \<equiv> 26"
abbreviation (input) bgf_itable_unused_lo :: nat where "bgf_itable_unused_lo \<equiv> 28"
abbreviation (input) bgf_checksum :: nat where "bgf_checksum \<equiv> 30"
abbreviation (input) bgf_block_bitmap_hi :: nat where "bgf_block_bitmap_hi \<equiv> 32"
abbreviation (input) bgf_inode_bitmap_hi :: nat where "bgf_inode_bitmap_hi \<equiv> 36"
abbreviation (input) bgf_inode_table_first_block_hi :: nat where "bgf_inode_table_first_block_hi \<equiv> 40"
abbreviation (input) bgf_free_blocks_count_hi :: nat where "bgf_free_blocks_count_hi \<equiv> 44"
abbreviation (input) bgf_free_inodes_count_hi :: nat where "bgf_free_inodes_count_hi \<equiv> 46"
abbreviation (input) bgf_used_dirs_count_hi :: nat where "bgf_used_dirs_count_hi \<equiv> 48"
abbreviation (input) bgf_itable_unused_hi :: nat where "bgf_itable_unused_hi \<equiv> 50"
abbreviation (input) bgf_exclude_bitmap_hi :: nat where "bgf_exclude_bitmap_hi \<equiv> 52"
abbreviation (input) bgf_block_bitmap_csum_hi :: nat where "bgf_block_bitmap_csum_hi \<equiv> 56"
abbreviation (input) bgf_inode_bitmap_csum_hi :: nat where "bgf_inode_bitmap_csum_hi \<equiv> 58"
abbreviation (input) bgf_reserved :: nat where "bgf_reserved \<equiv> 60"

abbreviation (input) EXT4_BLOCK_GROUP_INODE_UNINIT :: u32 where "EXT4_BLOCK_GROUP_INODE_UNINIT \<equiv> 1"
abbreviation (input) EXT4_BLOCK_GROUP_BLOCK_UNINIT :: u32 where "EXT4_BLOCK_GROUP_BLOCK_UNINIT \<equiv> 2"
abbreviation (input) EXT4_BLOCK_GROUP_ITABLE_ZEROED :: u32 where "EXT4_BLOCK_GROUP_ITABLE_ZEROED \<equiv> 4"

section \<open>Accessors\<close>

definition ext4_bg_get_block_bitmap :: "ext4_bgroup \<Rightarrow> ext4_sblock \<Rightarrow> u64" where
  "ext4_bg_get_block_bitmap bg s =
     (let v = ucast (get32 bg bgf_block_bitmap_lo)
      in if ext4_sb_get_desc_size s > EXT4_MIN_BLOCK_GROUP_DESCRIPTOR_SIZE
         then v OR push_bit 32 (ucast (get32 bg bgf_block_bitmap_hi)) else v)"

definition ext4_bg_set_block_bitmap :: "ext4_bgroup \<Rightarrow> ext4_sblock \<Rightarrow> u64 \<Rightarrow> ext4_bgroup" where
  "ext4_bg_set_block_bitmap bg s blk =
     (let bg = set32 bg bgf_block_bitmap_lo (ucast blk)
      in if ext4_sb_get_desc_size s > EXT4_MIN_BLOCK_GROUP_DESCRIPTOR_SIZE
         then set32 bg bgf_block_bitmap_hi (ucast (drop_bit 32 blk)) else bg)"

definition ext4_bg_get_inode_bitmap :: "ext4_bgroup \<Rightarrow> ext4_sblock \<Rightarrow> u64" where
  "ext4_bg_get_inode_bitmap bg s =
     (let v = ucast (get32 bg bgf_inode_bitmap_lo)
      in if ext4_sb_get_desc_size s > EXT4_MIN_BLOCK_GROUP_DESCRIPTOR_SIZE
         then v OR push_bit 32 (ucast (get32 bg bgf_inode_bitmap_hi)) else v)"

definition ext4_bg_set_inode_bitmap :: "ext4_bgroup \<Rightarrow> ext4_sblock \<Rightarrow> u64 \<Rightarrow> ext4_bgroup" where
  "ext4_bg_set_inode_bitmap bg s blk =
     (let bg = set32 bg bgf_inode_bitmap_lo (ucast blk)
      in if ext4_sb_get_desc_size s > EXT4_MIN_BLOCK_GROUP_DESCRIPTOR_SIZE
         then set32 bg bgf_inode_bitmap_hi (ucast (drop_bit 32 blk)) else bg)"

definition ext4_bg_get_inode_table_first_block :: "ext4_bgroup \<Rightarrow> ext4_sblock \<Rightarrow> u64" where
  "ext4_bg_get_inode_table_first_block bg s =
     (let v = ucast (get32 bg bgf_inode_table_first_block_lo)
      in if ext4_sb_get_desc_size s > EXT4_MIN_BLOCK_GROUP_DESCRIPTOR_SIZE
         then v OR push_bit 32 (ucast (get32 bg bgf_inode_table_first_block_hi)) else v)"

definition ext4_bg_set_inode_table_first_block :: "ext4_bgroup \<Rightarrow> ext4_sblock \<Rightarrow> u64 \<Rightarrow> ext4_bgroup" where
  "ext4_bg_set_inode_table_first_block bg s blk =
     (let bg = set32 bg bgf_inode_table_first_block_lo (ucast blk)
      in if ext4_sb_get_desc_size s > EXT4_MIN_BLOCK_GROUP_DESCRIPTOR_SIZE
         then set32 bg bgf_inode_table_first_block_hi (ucast (drop_bit 32 blk)) else bg)"

definition ext4_bg_get_free_blocks_count :: "ext4_bgroup \<Rightarrow> ext4_sblock \<Rightarrow> u32" where
  "ext4_bg_get_free_blocks_count bg s =
     (let v = ucast (get16 bg bgf_free_blocks_count_lo)
      in if ext4_sb_get_desc_size s > EXT4_MIN_BLOCK_GROUP_DESCRIPTOR_SIZE
         then v OR push_bit 16 (ucast (get16 bg bgf_free_blocks_count_hi)) else v)"

definition ext4_bg_set_free_blocks_count :: "ext4_bgroup \<Rightarrow> ext4_sblock \<Rightarrow> u32 \<Rightarrow> ext4_bgroup" where
  "ext4_bg_set_free_blocks_count bg s cnt =
     (let bg = set16 bg bgf_free_blocks_count_lo (ucast (drop_bit 16 (push_bit 16 cnt)))
      in if ext4_sb_get_desc_size s > EXT4_MIN_BLOCK_GROUP_DESCRIPTOR_SIZE
         then set16 bg bgf_free_blocks_count_hi (ucast (drop_bit 16 cnt)) else bg)"

definition ext4_bg_get_free_inodes_count :: "ext4_bgroup \<Rightarrow> ext4_sblock \<Rightarrow> u32" where
  "ext4_bg_get_free_inodes_count bg s =
     (let v = ucast (get16 bg bgf_free_inodes_count_lo)
      in if ext4_sb_get_desc_size s > EXT4_MIN_BLOCK_GROUP_DESCRIPTOR_SIZE
         then v OR push_bit 16 (ucast (get16 bg bgf_free_inodes_count_hi)) else v)"

definition ext4_bg_set_free_inodes_count :: "ext4_bgroup \<Rightarrow> ext4_sblock \<Rightarrow> u32 \<Rightarrow> ext4_bgroup" where
  "ext4_bg_set_free_inodes_count bg s cnt =
     (let bg = set16 bg bgf_free_inodes_count_lo (ucast (drop_bit 16 (push_bit 16 cnt)))
      in if ext4_sb_get_desc_size s > EXT4_MIN_BLOCK_GROUP_DESCRIPTOR_SIZE
         then set16 bg bgf_free_inodes_count_hi (ucast (drop_bit 16 cnt)) else bg)"

definition ext4_bg_get_used_dirs_count :: "ext4_bgroup \<Rightarrow> ext4_sblock \<Rightarrow> u32" where
  "ext4_bg_get_used_dirs_count bg s =
     (let v = ucast (get16 bg bgf_used_dirs_count_lo)
      in if ext4_sb_get_desc_size s > EXT4_MIN_BLOCK_GROUP_DESCRIPTOR_SIZE
         then v OR push_bit 16 (ucast (get16 bg bgf_used_dirs_count_hi)) else v)"

definition ext4_bg_set_used_dirs_count :: "ext4_bgroup \<Rightarrow> ext4_sblock \<Rightarrow> u32 \<Rightarrow> ext4_bgroup" where
  "ext4_bg_set_used_dirs_count bg s cnt =
     (let bg = set16 bg bgf_used_dirs_count_lo (ucast (drop_bit 16 (push_bit 16 cnt)))
      in if ext4_sb_get_desc_size s > EXT4_MIN_BLOCK_GROUP_DESCRIPTOR_SIZE
         then set16 bg bgf_used_dirs_count_hi (ucast (drop_bit 16 cnt)) else bg)"

definition ext4_bg_get_itable_unused :: "ext4_bgroup \<Rightarrow> ext4_sblock \<Rightarrow> u32" where
  "ext4_bg_get_itable_unused bg s =
     (let v = ucast (get16 bg bgf_itable_unused_lo)
      in if ext4_sb_get_desc_size s > EXT4_MIN_BLOCK_GROUP_DESCRIPTOR_SIZE
         then v OR push_bit 16 (ucast (get16 bg bgf_itable_unused_hi)) else v)"

definition ext4_bg_set_itable_unused :: "ext4_bgroup \<Rightarrow> ext4_sblock \<Rightarrow> u32 \<Rightarrow> ext4_bgroup" where
  "ext4_bg_set_itable_unused bg s cnt =
     (let bg = set16 bg bgf_itable_unused_lo (ucast (drop_bit 16 (push_bit 16 cnt)))
      in if ext4_sb_get_desc_size s > EXT4_MIN_BLOCK_GROUP_DESCRIPTOR_SIZE
         then set16 bg bgf_itable_unused_hi (ucast (drop_bit 16 cnt)) else bg)"

definition ext4_bg_set_checksum :: "ext4_bgroup \<Rightarrow> u16 \<Rightarrow> ext4_bgroup" where
  "ext4_bg_set_checksum bg crc = set16 bg bgf_checksum crc"

definition ext4_bg_has_flag :: "ext4_bgroup \<Rightarrow> u32 \<Rightarrow> bool" where
  "ext4_bg_has_flag bg f = (ucast (get16 bg bgf_flags) AND f \<noteq> 0)"

definition ext4_bg_set_flag :: "ext4_bgroup \<Rightarrow> u32 \<Rightarrow> ext4_bgroup" where
  "ext4_bg_set_flag bg f = set16 bg bgf_flags (ucast (ucast (get16 bg bgf_flags) OR f))"

definition ext4_bg_clear_flag :: "ext4_bgroup \<Rightarrow> u32 \<Rightarrow> ext4_bgroup" where
  "ext4_bg_clear_flag bg f = set16 bg bgf_flags (ucast (ucast (get16 bg bgf_flags) AND NOT f))"

section \<open>Accessor laws\<close>

lemmas bg_blk_defs =
  ext4_bg_get_block_bitmap_def ext4_bg_set_block_bitmap_def ext4_bg_get_inode_bitmap_def
  ext4_bg_set_inode_bitmap_def ext4_bg_get_inode_table_first_block_def
  ext4_bg_set_inode_table_first_block_def Let_def

lemmas bg_cnt_defs =
  ext4_bg_get_free_blocks_count_def ext4_bg_set_free_blocks_count_def
  ext4_bg_get_free_inodes_count_def ext4_bg_set_free_inodes_count_def
  ext4_bg_get_used_dirs_count_def ext4_bg_set_used_dirs_count_def
  ext4_bg_get_itable_unused_def ext4_bg_set_itable_unused_def Let_def

lemmas bg_flag_defs =
  ext4_bg_has_flag_def ext4_bg_set_flag_def ext4_bg_clear_flag_def ext4_bg_set_checksum_def

lemma length_ext4_bg_set [simp]:
  "length (ext4_bg_set_block_bitmap bg s b) = length bg"
  "length (ext4_bg_set_inode_bitmap bg s b) = length bg"
  "length (ext4_bg_set_inode_table_first_block bg s b) = length bg"
  "length (ext4_bg_set_free_blocks_count bg s c) = length bg"
  "length (ext4_bg_set_free_inodes_count bg s c) = length bg"
  "length (ext4_bg_set_used_dirs_count bg s c) = length bg"
  "length (ext4_bg_set_itable_unused bg s c) = length bg"
  "length (ext4_bg_set_checksum bg crc) = length bg"
  "length (ext4_bg_set_flag bg f) = length bg"
  "length (ext4_bg_clear_flag bg f) = length bg"
  by (simp_all add: bg_blk_defs bg_cnt_defs bg_flag_defs)

text \<open>The bytes a descriptor of this file system has: the accessors stay inside them.\<close>

definition bg_wf :: "ext4_sblock \<Rightarrow> ext4_bgroup \<Rightarrow> bool" where
  "bg_wf s bg =
     (if ext4_sb_get_desc_size s > EXT4_MIN_BLOCK_GROUP_DESCRIPTOR_SIZE then 64 \<le> length bg
      else 32 \<le> length bg)"

definition bg_wide :: "ext4_sblock \<Rightarrow> bool" where
  "bg_wide s = (ext4_sb_get_desc_size s > EXT4_MIN_BLOCK_GROUP_DESCRIPTOR_SIZE)"

lemma bg_blk_roundtrip [simp]:
  assumes "bg_wf s bg"
  shows "ext4_bg_get_block_bitmap (ext4_bg_set_block_bitmap bg s b) s = (if bg_wide s then b else ucast (ucast b :: u32))"
    "ext4_bg_get_inode_bitmap (ext4_bg_set_inode_bitmap bg s b) s = (if bg_wide s then b else ucast (ucast b :: u32))"
    "ext4_bg_get_inode_table_first_block (ext4_bg_set_inode_table_first_block bg s b) s =
       (if bg_wide s then b else ucast (ucast b :: u32))"
  using assms by (simp_all add: bg_blk_defs bg_wf_def bg_wide_def join64' split: if_splits)

lemma bg_cnt_roundtrip [simp]:
  assumes "bg_wf s bg"
  shows "ext4_bg_get_free_blocks_count (ext4_bg_set_free_blocks_count bg s c) s = (if bg_wide s then c else ucast (ucast c :: u16))"
    "ext4_bg_get_free_inodes_count (ext4_bg_set_free_inodes_count bg s c) s = (if bg_wide s then c else ucast (ucast c :: u16))"
    "ext4_bg_get_used_dirs_count (ext4_bg_set_used_dirs_count bg s c) s = (if bg_wide s then c else ucast (ucast c :: u16))"
    "ext4_bg_get_itable_unused (ext4_bg_set_itable_unused bg s c) s = (if bg_wide s then c else ucast (ucast c :: u16))"
  using assms by (simp_all add: bg_cnt_defs bg_wf_def bg_wide_def join32_16 split: if_splits)

text \<open>The counters and the flags do not disturb each other, nor the locations of the bitmaps.\<close>

lemma bg_get_set_other [simp]:
  "ext4_bg_get_block_bitmap (ext4_bg_set_free_blocks_count bg s c) t = ext4_bg_get_block_bitmap bg t"
  "ext4_bg_get_inode_bitmap (ext4_bg_set_free_blocks_count bg s c) t = ext4_bg_get_inode_bitmap bg t"
  "ext4_bg_get_inode_table_first_block (ext4_bg_set_free_blocks_count bg s c) t = ext4_bg_get_inode_table_first_block bg t"
  "ext4_bg_get_free_inodes_count (ext4_bg_set_free_blocks_count bg s c) t = ext4_bg_get_free_inodes_count bg t"
  "ext4_bg_get_used_dirs_count (ext4_bg_set_free_blocks_count bg s c) t = ext4_bg_get_used_dirs_count bg t"
  "ext4_bg_get_itable_unused (ext4_bg_set_free_blocks_count bg s c) t = ext4_bg_get_itable_unused bg t"
  "ext4_bg_get_block_bitmap (ext4_bg_set_free_inodes_count bg s c) t = ext4_bg_get_block_bitmap bg t"
  "ext4_bg_get_inode_bitmap (ext4_bg_set_free_inodes_count bg s c) t = ext4_bg_get_inode_bitmap bg t"
  "ext4_bg_get_inode_table_first_block (ext4_bg_set_free_inodes_count bg s c) t = ext4_bg_get_inode_table_first_block bg t"
  "ext4_bg_get_free_blocks_count (ext4_bg_set_free_inodes_count bg s c) t = ext4_bg_get_free_blocks_count bg t"
  "ext4_bg_get_used_dirs_count (ext4_bg_set_free_inodes_count bg s c) t = ext4_bg_get_used_dirs_count bg t"
  "ext4_bg_get_itable_unused (ext4_bg_set_free_inodes_count bg s c) t = ext4_bg_get_itable_unused bg t"
  "ext4_bg_get_block_bitmap (ext4_bg_set_used_dirs_count bg s c) t = ext4_bg_get_block_bitmap bg t"
  "ext4_bg_get_inode_bitmap (ext4_bg_set_used_dirs_count bg s c) t = ext4_bg_get_inode_bitmap bg t"
  "ext4_bg_get_inode_table_first_block (ext4_bg_set_used_dirs_count bg s c) t = ext4_bg_get_inode_table_first_block bg t"
  "ext4_bg_get_free_blocks_count (ext4_bg_set_used_dirs_count bg s c) t = ext4_bg_get_free_blocks_count bg t"
  "ext4_bg_get_free_inodes_count (ext4_bg_set_used_dirs_count bg s c) t = ext4_bg_get_free_inodes_count bg t"
  "ext4_bg_get_itable_unused (ext4_bg_set_used_dirs_count bg s c) t = ext4_bg_get_itable_unused bg t"
  "ext4_bg_get_block_bitmap (ext4_bg_set_itable_unused bg s c) t = ext4_bg_get_block_bitmap bg t"
  "ext4_bg_get_inode_bitmap (ext4_bg_set_itable_unused bg s c) t = ext4_bg_get_inode_bitmap bg t"
  "ext4_bg_get_inode_table_first_block (ext4_bg_set_itable_unused bg s c) t = ext4_bg_get_inode_table_first_block bg t"
  "ext4_bg_get_free_blocks_count (ext4_bg_set_itable_unused bg s c) t = ext4_bg_get_free_blocks_count bg t"
  "ext4_bg_get_free_inodes_count (ext4_bg_set_itable_unused bg s c) t = ext4_bg_get_free_inodes_count bg t"
  "ext4_bg_get_used_dirs_count (ext4_bg_set_itable_unused bg s c) t = ext4_bg_get_used_dirs_count bg t"
  "ext4_bg_get_block_bitmap (ext4_bg_set_checksum bg crc) t = ext4_bg_get_block_bitmap bg t"
  "ext4_bg_get_inode_bitmap (ext4_bg_set_checksum bg crc) t = ext4_bg_get_inode_bitmap bg t"
  "ext4_bg_get_inode_table_first_block (ext4_bg_set_checksum bg crc) t = ext4_bg_get_inode_table_first_block bg t"
  "ext4_bg_get_free_blocks_count (ext4_bg_set_checksum bg crc) t = ext4_bg_get_free_blocks_count bg t"
  "ext4_bg_get_free_inodes_count (ext4_bg_set_checksum bg crc) t = ext4_bg_get_free_inodes_count bg t"
  "ext4_bg_get_used_dirs_count (ext4_bg_set_checksum bg crc) t = ext4_bg_get_used_dirs_count bg t"
  "ext4_bg_get_itable_unused (ext4_bg_set_checksum bg crc) t = ext4_bg_get_itable_unused bg t"
  "ext4_bg_get_block_bitmap (ext4_bg_set_flag bg f) t = ext4_bg_get_block_bitmap bg t"
  "ext4_bg_get_inode_bitmap (ext4_bg_set_flag bg f) t = ext4_bg_get_inode_bitmap bg t"
  "ext4_bg_get_inode_table_first_block (ext4_bg_set_flag bg f) t = ext4_bg_get_inode_table_first_block bg t"
  "ext4_bg_get_free_blocks_count (ext4_bg_set_flag bg f) t = ext4_bg_get_free_blocks_count bg t"
  "ext4_bg_get_free_inodes_count (ext4_bg_set_flag bg f) t = ext4_bg_get_free_inodes_count bg t"
  "ext4_bg_get_used_dirs_count (ext4_bg_set_flag bg f) t = ext4_bg_get_used_dirs_count bg t"
  "ext4_bg_get_itable_unused (ext4_bg_set_flag bg f) t = ext4_bg_get_itable_unused bg t"
  "ext4_bg_get_block_bitmap (ext4_bg_clear_flag bg f) t = ext4_bg_get_block_bitmap bg t"
  "ext4_bg_get_inode_bitmap (ext4_bg_clear_flag bg f) t = ext4_bg_get_inode_bitmap bg t"
  "ext4_bg_get_inode_table_first_block (ext4_bg_clear_flag bg f) t = ext4_bg_get_inode_table_first_block bg t"
  "ext4_bg_get_free_blocks_count (ext4_bg_clear_flag bg f) t = ext4_bg_get_free_blocks_count bg t"
  "ext4_bg_get_free_inodes_count (ext4_bg_clear_flag bg f) t = ext4_bg_get_free_inodes_count bg t"
  "ext4_bg_get_used_dirs_count (ext4_bg_clear_flag bg f) t = ext4_bg_get_used_dirs_count bg t"
  "ext4_bg_get_itable_unused (ext4_bg_clear_flag bg f) t = ext4_bg_get_itable_unused bg t"
  "ext4_bg_has_flag (ext4_bg_set_free_blocks_count bg s c) f = ext4_bg_has_flag bg f"
  "ext4_bg_has_flag (ext4_bg_set_free_inodes_count bg s c) f = ext4_bg_has_flag bg f"
  "ext4_bg_has_flag (ext4_bg_set_used_dirs_count bg s c) f = ext4_bg_has_flag bg f"
  "ext4_bg_has_flag (ext4_bg_set_itable_unused bg s c) f = ext4_bg_has_flag bg f"
  "ext4_bg_has_flag (ext4_bg_set_checksum bg crc) f = ext4_bg_has_flag bg f"
  by (simp_all add: bg_blk_defs bg_cnt_defs bg_flag_defs)

lemma ucast_16_keep:
  assumes "f AND 0xFFFF = (f::u32)"
  shows "ucast (ucast (ucast (x::u16) OR f) :: u16) = ucast x OR f"
proof (rule bit_word_eqI)
  fix n assume n: "n < LENGTH(32)"
  have m: "(0xFFFF::u32) = mask 16" by (simp add: mask_eq_exp_minus_1)
  have "bit (0xFFFF::u32) n \<longleftrightarrow> n < 16"
    using n by (simp only: m bit_mask_iff possible_bit_word simp_thms)
  then have "bit f n \<Longrightarrow> n < 16" using assms by (metis bit_and_iff)
  then show "bit (ucast (ucast (ucast x OR f :: u32) :: u16) :: u32) n = bit (ucast x OR f) n"
    by (auto simp: bit_simps dest: bit_imp_le_length)
qed

lemma bg_flag_laws:
  assumes "20 \<le> length bg" "f AND 0xFFFF = f"
  shows "ext4_bg_has_flag (ext4_bg_set_flag bg f) g = (ext4_bg_has_flag bg g \<or> f AND g \<noteq> 0)"
    and "\<not> ext4_bg_has_flag (ext4_bg_clear_flag bg f) f"
proof -
  have "(ucast (get16 bg bgf_flags) OR f) AND g = 0 \<longleftrightarrow> ucast (get16 bg bgf_flags) AND g = 0 \<and> f AND g = 0"
    by (simp only: bit.conj_disj_distrib2 or_eq_0_iff)
  then show "ext4_bg_has_flag (ext4_bg_set_flag bg f) g = (ext4_bg_has_flag bg g \<or> f AND g \<noteq> 0)"
    using assms(1) by (auto simp: bg_flag_defs ucast_16_keep [OF assms(2)])
  have "ucast (ucast (ucast (get16 bg bgf_flags) AND NOT f) :: u16) AND f = 0"
    by (rule bit_word_eqI) (auto simp: bit_simps)
  then show "\<not> ext4_bg_has_flag (ext4_bg_clear_flag bg f) f"
    using assms(1) by (simp add: bg_flag_defs)
qed

text \<open>
  Reading a counter or location of a block group descriptor after writing it gives the written
  value on large descriptors and its low half on 32-byte ones (the counters wrap at \<open>2\<^sup>1\<^sup>6\<close> there, the
  locations at \<open>2\<^sup>3\<^sup>2\<close>), the write stays inside the descriptor, and writing the counters or the checksum
  moves neither the bitmaps nor the inode table.
\<close>

theorem ext4_bg_lens:
  assumes "bg_wf s bg"
  shows "ext4_bg_get_free_blocks_count (ext4_bg_set_free_blocks_count bg s c) s =
           (if bg_wide s then c else c mod 2 ^ 16) \<and>
         ext4_bg_get_free_inodes_count (ext4_bg_set_free_inodes_count bg s c) s =
           (if bg_wide s then c else c mod 2 ^ 16) \<and>
         ext4_bg_get_block_bitmap (ext4_bg_set_block_bitmap bg s b) s = (if bg_wide s then b else b mod 2 ^ 32) \<and>
         ext4_bg_get_inode_table_first_block
           (ext4_bg_set_checksum (ext4_bg_set_free_blocks_count bg s c) crc) s =
           ext4_bg_get_inode_table_first_block bg s \<and>
         ext4_bg_get_free_inodes_count (ext4_bg_set_free_blocks_count bg s c) s =
           ext4_bg_get_free_inodes_count bg s \<and>
         bg_wf s (ext4_bg_set_free_blocks_count bg s c)"
proof -
  have "ucast (ucast c :: u16) = c mod 2 ^ 16" "ucast (ucast b :: u32) = b mod 2 ^ 32"
    by (simp_all add: word_eq_iff_unsigned unsigned_ucast_eq unat_mod take_bit_eq_mod)
  then show ?thesis using assms by (simp add: bg_wf_def)
qed

theorem ext4_bg_lens_witness:
  "ext4_bg_get_free_blocks_count (ext4_bg_set_free_blocks_count (replicate 32 0) sample_sb 70000) sample_sb = 4464"
proof -
  have "\<not> bg_wide sample_sb" "bg_wf sample_sb (replicate 32 0)"
    by (simp_all add: bg_wide_def bg_wf_def ext4_sb_get_desc_size_def sample_sb_other Let_def)
  from ext4_bg_lens [OF this(2), where c = 70000] this(1) show ?thesis by simp
qed

end
