(* ===== verification/Inode.thy ===== *)
theory Inode
  imports Superblock
begin

text \<open>
  The inode: \<open>struct ext4_inode\<close> of \<open>include/ext4_types.h\<close> and its accessors, \<open>src/ext4_inode.c\<close>. An inode is
  the list of its bytes, as many as the superblock's \<open>inode_size\<close> says; the fields from \<open>extra_isize\<close> on
  exist when that is more than 128. The fields of the union \<open>osd2\<close> appear by their own offsets, the
  Linux ones without prefix.
\<close>

section \<open>Layout\<close>

type_synonym ext4_inode = "u8 list"

abbreviation (input) inf_mode :: nat where "inf_mode \<equiv> 0"
abbreviation (input) inf_uid :: nat where "inf_uid \<equiv> 2"
abbreviation (input) inf_size_lo :: nat where "inf_size_lo \<equiv> 4"
abbreviation (input) inf_access_time :: nat where "inf_access_time \<equiv> 8"
abbreviation (input) inf_change_inode_time :: nat where "inf_change_inode_time \<equiv> 12"
abbreviation (input) inf_modification_time :: nat where "inf_modification_time \<equiv> 16"
abbreviation (input) inf_deletion_time :: nat where "inf_deletion_time \<equiv> 20"
abbreviation (input) inf_gid :: nat where "inf_gid \<equiv> 24"
abbreviation (input) inf_links_count :: nat where "inf_links_count \<equiv> 26"
abbreviation (input) inf_blocks_count_lo :: nat where "inf_blocks_count_lo \<equiv> 28"
abbreviation (input) inf_flags :: nat where "inf_flags \<equiv> 32"
abbreviation (input) inf_unused_osd1 :: nat where "inf_unused_osd1 \<equiv> 36"
abbreviation (input) inf_blocks :: nat where "inf_blocks \<equiv> 40"
abbreviation (input) inf_generation :: nat where "inf_generation \<equiv> 100"
abbreviation (input) inf_file_acl_lo :: nat where "inf_file_acl_lo \<equiv> 104"
abbreviation (input) inf_size_hi :: nat where "inf_size_hi \<equiv> 108"
abbreviation (input) inf_obso_faddr :: nat where "inf_obso_faddr \<equiv> 112"
abbreviation (input) inf_blocks_high :: nat where "inf_blocks_high \<equiv> 116"
abbreviation (input) inf_file_acl_high :: nat where "inf_file_acl_high \<equiv> 118"
abbreviation (input) inf_hurd_mode_high :: nat where "inf_hurd_mode_high \<equiv> 118"
abbreviation (input) inf_uid_high :: nat where "inf_uid_high \<equiv> 120"
abbreviation (input) inf_gid_high :: nat where "inf_gid_high \<equiv> 122"
abbreviation (input) inf_checksum_lo :: nat where "inf_checksum_lo \<equiv> 124"
abbreviation (input) inf_extra_isize :: nat where "inf_extra_isize \<equiv> 128"
abbreviation (input) inf_checksum_hi :: nat where "inf_checksum_hi \<equiv> 130"
abbreviation (input) inf_ctime_extra :: nat where "inf_ctime_extra \<equiv> 132"
abbreviation (input) inf_mtime_extra :: nat where "inf_mtime_extra \<equiv> 136"
abbreviation (input) inf_atime_extra :: nat where "inf_atime_extra \<equiv> 140"
abbreviation (input) inf_crtime :: nat where "inf_crtime \<equiv> 144"
abbreviation (input) inf_crtime_extra :: nat where "inf_crtime_extra \<equiv> 148"
abbreviation (input) inf_version_hi :: nat where "inf_version_hi \<equiv> 152"

abbreviation (input) EXT4_GOOD_OLD_INODE_SIZE :: u16 where "EXT4_GOOD_OLD_INODE_SIZE \<equiv> 128"
abbreviation (input) EXT4_SUPERBLOCK_OS_LINUX :: u32 where "EXT4_SUPERBLOCK_OS_LINUX \<equiv> 0"
abbreviation (input) EXT4_SUPERBLOCK_OS_HURD :: u32 where "EXT4_SUPERBLOCK_OS_HURD \<equiv> 1"
abbreviation (input) EXT4_INODE_BLOCKS :: u32 where "EXT4_INODE_BLOCKS \<equiv> 15"
abbreviation (input) EXT4_INODE_DIRECT_BLOCK_COUNT :: u32 where "EXT4_INODE_DIRECT_BLOCK_COUNT \<equiv> 12"
abbreviation (input) EXT4_INODE_INDIRECT_BLOCK :: u32 where "EXT4_INODE_INDIRECT_BLOCK \<equiv> 12"
abbreviation (input) EXT4_INODE_MODE_FIFO :: u32 where "EXT4_INODE_MODE_FIFO \<equiv> 0x1000"
abbreviation (input) EXT4_INODE_MODE_CHARDEV :: u32 where "EXT4_INODE_MODE_CHARDEV \<equiv> 0x2000"
abbreviation (input) EXT4_INODE_MODE_DIRECTORY :: u32 where "EXT4_INODE_MODE_DIRECTORY \<equiv> 0x4000"
abbreviation (input) EXT4_INODE_MODE_BLOCKDEV :: u32 where "EXT4_INODE_MODE_BLOCKDEV \<equiv> 0x6000"
abbreviation (input) EXT4_INODE_MODE_FILE :: u32 where "EXT4_INODE_MODE_FILE \<equiv> 0x8000"
abbreviation (input) EXT4_INODE_MODE_SOFTLINK :: u32 where "EXT4_INODE_MODE_SOFTLINK \<equiv> 0xA000"
abbreviation (input) EXT4_INODE_MODE_SOCKET :: u32 where "EXT4_INODE_MODE_SOCKET \<equiv> 0xC000"
abbreviation (input) EXT4_INODE_MODE_TYPE_MASK :: u32 where "EXT4_INODE_MODE_TYPE_MASK \<equiv> 0xF000"
abbreviation (input) EXT4_INODE_FLAG_IMMUTABLE :: u32 where "EXT4_INODE_FLAG_IMMUTABLE \<equiv> 0x10"
abbreviation (input) EXT4_INODE_FLAG_APPEND :: u32 where "EXT4_INODE_FLAG_APPEND \<equiv> 0x20"
abbreviation (input) EXT4_INODE_FLAG_INDEX :: u32 where "EXT4_INODE_FLAG_INDEX \<equiv> 0x1000"
abbreviation (input) EXT4_INODE_FLAG_HUGE_FILE :: u32 where "EXT4_INODE_FLAG_HUGE_FILE \<equiv> 0x40000"
abbreviation (input) EXT4_INODE_FLAG_EXTENTS :: u32 where "EXT4_INODE_FLAG_EXTENTS \<equiv> 0x80000"

section \<open>Accessors\<close>

text \<open>The \<open>do \<dots> while\<close> loop of \<open>ext4_inode_block_bits_count\<close>; it ends as the size is halved.\<close>

function block_bits_loop :: "u32 \<Rightarrow> u32 \<Rightarrow> u32" where
  "block_bits_loop bits sz =
     (let bits = bits + 1; sz = drop_bit 1 sz
      in if sz > 256 then block_bits_loop bits sz else bits)"
  by pat_completeness auto
termination
  by (relation "measure (\<lambda>(b, s). unat s)")
    (auto simp: word_less_nat_alt drop_bit_eq_div unat_div)

definition ext4_inode_block_bits_count :: "u32 \<Rightarrow> u32" where
  "ext4_inode_block_bits_count block_size = block_bits_loop 8 block_size"

definition ext4_inode_get_mode :: "ext4_sblock \<Rightarrow> ext4_inode \<Rightarrow> u32" where
  "ext4_inode_get_mode sb inode =
     (let v = ucast (get16 inode inf_mode)
      in if get32 sb sbf_creator_os = EXT4_SUPERBLOCK_OS_HURD
         then v OR push_bit 16 (ucast (get16 inode inf_hurd_mode_high)) else v)"

definition ext4_inode_set_mode :: "ext4_sblock \<Rightarrow> ext4_inode \<Rightarrow> u32 \<Rightarrow> ext4_inode" where
  "ext4_inode_set_mode sb inode mode =
     (let inode = set16 inode inf_mode (ucast (drop_bit 16 (push_bit 16 mode)))
      in if get32 sb sbf_creator_os = EXT4_SUPERBLOCK_OS_HURD
         then set16 inode inf_hurd_mode_high (ucast (drop_bit 16 mode)) else inode)"

definition ext4_inode_get_uid :: "ext4_inode \<Rightarrow> u32" where
  "ext4_inode_get_uid inode = ucast (get16 inode inf_uid)"

definition ext4_inode_set_uid :: "ext4_inode \<Rightarrow> u32 \<Rightarrow> ext4_inode" where
  "ext4_inode_set_uid inode uid = set16 inode inf_uid (ucast uid)"

definition ext4_inode_type :: "ext4_sblock \<Rightarrow> ext4_inode \<Rightarrow> u32" where
  "ext4_inode_type sb inode = (ext4_inode_get_mode sb inode AND EXT4_INODE_MODE_TYPE_MASK)"

definition ext4_inode_is_type :: "ext4_sblock \<Rightarrow> ext4_inode \<Rightarrow> u32 \<Rightarrow> bool" where
  "ext4_inode_is_type sb inode typ = (ext4_inode_type sb inode = typ)"

definition ext4_inode_get_size :: "ext4_sblock \<Rightarrow> ext4_inode \<Rightarrow> u64" where
  "ext4_inode_get_size sb inode =
     (let v = ucast (get32 inode inf_size_lo)
      in if get32 sb sbf_rev_level > 0 \<and> ext4_inode_is_type sb inode EXT4_INODE_MODE_FILE
         then v OR push_bit 32 (ucast (get32 inode inf_size_hi)) else v)"

definition ext4_inode_set_size :: "ext4_inode \<Rightarrow> u64 \<Rightarrow> ext4_inode" where
  "ext4_inode_set_size inode sz =
     (let inode = set32 inode inf_size_lo (ucast (drop_bit 32 (push_bit 32 sz)))
      in set32 inode inf_size_hi (ucast (drop_bit 32 sz)))"

definition ext4_inode_get_csum :: "ext4_sblock \<Rightarrow> ext4_inode \<Rightarrow> u32" where
  "ext4_inode_get_csum sb inode =
     (let inode_size = get16 sb sbf_inode_size; v = ucast (get16 inode inf_checksum_lo)
      in if inode_size > EXT4_GOOD_OLD_INODE_SIZE
         then v OR push_bit 16 (ucast (get16 inode inf_checksum_hi)) else v)"

definition ext4_inode_set_csum :: "ext4_sblock \<Rightarrow> ext4_inode \<Rightarrow> u32 \<Rightarrow> ext4_inode" where
  "ext4_inode_set_csum sb inode checksum =
     (let inode_size = get16 sb sbf_inode_size;
          inode = set16 inode inf_checksum_lo (ucast (drop_bit 16 (push_bit 16 checksum)))
      in if inode_size > EXT4_GOOD_OLD_INODE_SIZE
         then set16 inode inf_checksum_hi (ucast (drop_bit 16 checksum)) else inode)"

definition ext4_inode_get_access_time :: "ext4_inode \<Rightarrow> u32" where
  "ext4_inode_get_access_time inode = get32 inode inf_access_time"

definition ext4_inode_set_access_time :: "ext4_inode \<Rightarrow> u32 \<Rightarrow> ext4_inode" where
  "ext4_inode_set_access_time inode v = set32 inode inf_access_time v"

definition ext4_inode_get_change_inode_time :: "ext4_inode \<Rightarrow> u32" where
  "ext4_inode_get_change_inode_time inode = get32 inode inf_change_inode_time"

definition ext4_inode_set_change_inode_time :: "ext4_inode \<Rightarrow> u32 \<Rightarrow> ext4_inode" where
  "ext4_inode_set_change_inode_time inode v = set32 inode inf_change_inode_time v"

definition ext4_inode_get_modif_time :: "ext4_inode \<Rightarrow> u32" where
  "ext4_inode_get_modif_time inode = get32 inode inf_modification_time"

definition ext4_inode_set_modif_time :: "ext4_inode \<Rightarrow> u32 \<Rightarrow> ext4_inode" where
  "ext4_inode_set_modif_time inode v = set32 inode inf_modification_time v"

definition ext4_inode_get_del_time :: "ext4_inode \<Rightarrow> u32" where
  "ext4_inode_get_del_time inode = get32 inode inf_deletion_time"

definition ext4_inode_set_del_time :: "ext4_inode \<Rightarrow> u32 \<Rightarrow> ext4_inode" where
  "ext4_inode_set_del_time inode v = set32 inode inf_deletion_time v"

definition ext4_inode_get_gid :: "ext4_inode \<Rightarrow> u32" where
  "ext4_inode_get_gid inode = ucast (get16 inode inf_gid)"

definition ext4_inode_set_gid :: "ext4_inode \<Rightarrow> u32 \<Rightarrow> ext4_inode" where
  "ext4_inode_set_gid inode v = set16 inode inf_gid (ucast v)"

definition ext4_inode_get_links_cnt :: "ext4_inode \<Rightarrow> u16" where
  "ext4_inode_get_links_cnt inode = get16 inode inf_links_count"

definition ext4_inode_set_links_cnt :: "ext4_inode \<Rightarrow> u16 \<Rightarrow> ext4_inode" where
  "ext4_inode_set_links_cnt inode v = set16 inode inf_links_count v"

definition ext4_inode_get_flags :: "ext4_inode \<Rightarrow> u32" where
  "ext4_inode_get_flags inode = get32 inode inf_flags"

definition ext4_inode_set_flags :: "ext4_inode \<Rightarrow> u32 \<Rightarrow> ext4_inode" where
  "ext4_inode_set_flags inode v = set32 inode inf_flags v"

definition ext4_inode_get_generation :: "ext4_inode \<Rightarrow> u32" where
  "ext4_inode_get_generation inode = get32 inode inf_generation"

definition ext4_inode_set_generation :: "ext4_inode \<Rightarrow> u32 \<Rightarrow> ext4_inode" where
  "ext4_inode_set_generation inode v = set32 inode inf_generation v"

definition ext4_inode_has_flag :: "ext4_inode \<Rightarrow> u32 \<Rightarrow> bool" where
  "ext4_inode_has_flag inode f = (ext4_inode_get_flags inode AND f \<noteq> 0)"

definition ext4_inode_clear_flag :: "ext4_inode \<Rightarrow> u32 \<Rightarrow> ext4_inode" where
  "ext4_inode_clear_flag inode f =
     (let flags = ext4_inode_get_flags inode; flags = flags AND NOT f
      in ext4_inode_set_flags inode flags)"

definition ext4_inode_set_flag :: "ext4_inode \<Rightarrow> u32 \<Rightarrow> ext4_inode" where
  "ext4_inode_set_flag inode f =
     (let flags = ext4_inode_get_flags inode; flags = flags OR f
      in ext4_inode_set_flags inode flags)"

definition ext4_inode_get_blocks_count :: "ext4_sblock \<Rightarrow> ext4_inode \<Rightarrow> u64" where
  "ext4_inode_get_blocks_count sb inode =
     (let cnt = ucast (get32 inode inf_blocks_count_lo)
      in if ext4_sb_feature_ro_com sb EXT4_FRO_COM_HUGE_FILE
         then let cnt = cnt OR push_bit 32 (ucast (get16 inode inf_blocks_high))
              in if ext4_inode_has_flag inode EXT4_INODE_FLAG_HUGE_FILE
                 then let b = ext4_inode_block_bits_count (ext4_sb_get_block_size sb)
                      in push_bit (unat (b - 9)) cnt
                 else cnt
         else cnt)"

definition ext4_inode_set_blocks_count :: "ext4_sblock \<Rightarrow> ext4_inode \<Rightarrow> u64 \<Rightarrow> errno \<times> ext4_inode" where
  "ext4_inode_set_blocks_count sb inode count =
     (let max = drop_bit 32 (NOT 0)
      in if count \<le> max
         then let inode = set32 inode inf_blocks_count_lo (ucast count);
                  inode = set16 inode inf_blocks_high 0
              in (EOK, ext4_inode_clear_flag inode EXT4_INODE_FLAG_HUGE_FILE)
         else if \<not> ext4_sb_feature_ro_com sb EXT4_FRO_COM_HUGE_FILE then (EINVAL, inode)
         else let max = drop_bit 16 (NOT 0)
              in if count \<le> max
                 then let inode = set32 inode inf_blocks_count_lo (ucast count);
                          inode = set16 inode inf_blocks_high (ucast (drop_bit 32 count))
                      in (EOK, ext4_inode_clear_flag inode EXT4_INODE_FLAG_HUGE_FILE)
                 else let block_bits = ext4_inode_block_bits_count (ext4_sb_get_block_size sb);
                          inode = ext4_inode_set_flag inode EXT4_INODE_FLAG_HUGE_FILE;
                          count = drop_bit (unat (block_bits - 9)) count;
                          inode = set32 inode inf_blocks_count_lo (ucast count)
                      in (EOK, set16 inode inf_blocks_high (ucast (drop_bit 32 count))))"

definition ext4_inode_get_extra_isize :: "ext4_sblock \<Rightarrow> ext4_inode \<Rightarrow> u16" where
  "ext4_inode_get_extra_isize sb inode =
     (if get16 sb sbf_inode_size > EXT4_GOOD_OLD_INODE_SIZE then get16 inode inf_extra_isize else 0)"

definition ext4_inode_set_extra_isize :: "ext4_sblock \<Rightarrow> ext4_inode \<Rightarrow> u16 \<Rightarrow> ext4_inode" where
  "ext4_inode_set_extra_isize sb inode sz =
     (if get16 sb sbf_inode_size > EXT4_GOOD_OLD_INODE_SIZE
      then set16 inode inf_extra_isize sz else inode)"

definition ext4_inode_get_file_acl :: "ext4_inode \<Rightarrow> ext4_sblock \<Rightarrow> u64" where
  "ext4_inode_get_file_acl inode sb =
     (let v = ucast (get32 inode inf_file_acl_lo)
      in if get32 sb sbf_creator_os = EXT4_SUPERBLOCK_OS_LINUX
         then v OR ucast (push_bit 16 (ucast (get16 inode inf_file_acl_high) :: u32)) else v)"

definition ext4_inode_set_file_acl :: "ext4_inode \<Rightarrow> ext4_sblock \<Rightarrow> u64 \<Rightarrow> ext4_inode" where
  "ext4_inode_set_file_acl inode sb acl =
     (let inode = set32 inode inf_file_acl_lo (ucast (drop_bit 32 (push_bit 32 acl)))
      in if get32 sb sbf_creator_os = EXT4_SUPERBLOCK_OS_LINUX
         then set16 inode inf_file_acl_high (ucast (drop_bit 32 acl)) else inode)"

text \<open>The block array has \<open>EXT4_INODE_BLOCKS\<close> entries; indexing past it is the outcome \<open>None\<close>.\<close>

definition ext4_inode_get_direct_block :: "ext4_inode \<Rightarrow> u32 \<Rightarrow> u32 option" where
  "ext4_inode_get_direct_block inode idx =
     (if idx < EXT4_INODE_BLOCKS then Some (get32 inode (inf_blocks + 4 * unat idx)) else None)"

definition ext4_inode_set_direct_block :: "ext4_inode \<Rightarrow> u32 \<Rightarrow> u32 \<Rightarrow> ext4_inode option" where
  "ext4_inode_set_direct_block inode idx block =
     (if idx < EXT4_INODE_BLOCKS then Some (set32 inode (inf_blocks + 4 * unat idx) block) else None)"

definition ext4_inode_get_indirect_block :: "ext4_inode \<Rightarrow> u32 \<Rightarrow> u32 option" where
  "ext4_inode_get_indirect_block inode idx =
     ext4_inode_get_direct_block inode (idx + EXT4_INODE_INDIRECT_BLOCK)"

definition ext4_inode_set_indirect_block :: "ext4_inode \<Rightarrow> u32 \<Rightarrow> u32 \<Rightarrow> ext4_inode option" where
  "ext4_inode_set_indirect_block inode idx block =
     ext4_inode_set_direct_block inode (idx + EXT4_INODE_INDIRECT_BLOCK) block"

definition ext4_inode_get_dev :: "ext4_inode \<Rightarrow> u32 option" where
  "ext4_inode_get_dev inode = do {
     dev_0 \<leftarrow> ext4_inode_get_direct_block inode 0;
     dev_1 \<leftarrow> ext4_inode_get_direct_block inode 1;
     Some (if dev_0 \<noteq> 0 then dev_0 else dev_1) }"

definition ext4_inode_set_dev :: "ext4_inode \<Rightarrow> u32 \<Rightarrow> ext4_inode option" where
  "ext4_inode_set_dev inode dev =
     (if dev AND NOT 0xFFFF \<noteq> 0 then ext4_inode_set_direct_block inode 1 dev
      else ext4_inode_set_direct_block inode 0 dev)"

definition ext4_inode_can_truncate :: "ext4_sblock \<Rightarrow> ext4_inode \<Rightarrow> bool" where
  "ext4_inode_can_truncate sb inode =
     (if ext4_inode_has_flag inode EXT4_INODE_FLAG_APPEND
         \<or> ext4_inode_has_flag inode EXT4_INODE_FLAG_IMMUTABLE then False
      else if ext4_inode_is_type sb inode EXT4_INODE_MODE_FILE
         \<or> ext4_inode_is_type sb inode EXT4_INODE_MODE_DIRECTORY
         \<or> ext4_inode_is_type sb inode EXT4_INODE_MODE_SOFTLINK then True
      else False)"

section \<open>Accessor laws\<close>

lemmas inode_defs =
  ext4_inode_get_mode_def ext4_inode_set_mode_def ext4_inode_get_size_def ext4_inode_set_size_def
  ext4_inode_get_csum_def ext4_inode_set_csum_def ext4_inode_get_links_cnt_def
  ext4_inode_set_links_cnt_def ext4_inode_get_flags_def ext4_inode_set_flags_def
  ext4_inode_has_flag_def ext4_inode_set_flag_def ext4_inode_clear_flag_def
  ext4_inode_type_def ext4_inode_is_type_def Let_def

lemma length_ext4_inode_set [simp]:
  "length (ext4_inode_set_mode sb i m) = length i"
  "length (ext4_inode_set_size i sz) = length i"
  "length (ext4_inode_set_csum sb i c) = length i"
  "length (ext4_inode_set_links_cnt i l) = length i"
  "length (ext4_inode_set_flags i f) = length i"
  "length (ext4_inode_set_flag i f) = length i"
  "length (ext4_inode_clear_flag i f) = length i"
  "length (ext4_inode_set_file_acl i sb a) = length i"
  by (simp_all add: inode_defs ext4_inode_set_file_acl_def)

lemma block_bits_1024:
  assumes "k \<le> 6"
  shows "ext4_inode_block_bits_count (push_bit k 1024) = of_nat (10 + k)"
proof -
  from assms consider "k = 0" | "k = 1" | "k = 2" | "k = 3" | "k = 4" | "k = 5" | "k = 6" by linarith
  then show ?thesis
    by cases (simp_all add: ext4_inode_block_bits_count_def Let_def push_bit_eq_mult drop_bit_eq_div)
qed

lemma ext4_inode_flag_laws:
  assumes "36 \<le> length i"
  shows "ext4_inode_has_flag (ext4_inode_set_flag i f) f = (f \<noteq> 0)"
    and "\<not> ext4_inode_has_flag (ext4_inode_clear_flag i f) f"
proof -
  have "(x OR f) AND f = f" "(x AND NOT f) AND f = 0" for x :: u32
    by (rule bit_word_eqI; auto simp: bit_simps)+
  then show "ext4_inode_has_flag (ext4_inode_set_flag i f) f = (f \<noteq> 0)"
    and "\<not> ext4_inode_has_flag (ext4_inode_clear_flag i f) f"
    using assms by (simp_all add: inode_defs)
qed

lemma ext4_inode_size_roundtrip:
  assumes "112 \<le> length i" "get32 sb sbf_rev_level > 0" "ext4_inode_is_type sb i EXT4_INODE_MODE_FILE"
  shows "ext4_inode_get_size sb (ext4_inode_set_size i n) = n"
proof -
  have "ext4_inode_get_mode sb (ext4_inode_set_size i n) = ext4_inode_get_mode sb i"
    by (simp add: inode_defs)
  then have "ext4_inode_is_type sb (ext4_inode_set_size i n) EXT4_INODE_MODE_FILE"
    using assms(3) by (simp add: ext4_inode_is_type_def ext4_inode_type_def)
  then show ?thesis
    using assms by (simp add: ext4_inode_get_size_def ext4_inode_set_size_def Let_def join64')
qed

lemma ext4_inode_csum_roundtrip:
  assumes "128 \<le> length i" "get16 sb sbf_inode_size > 128 \<Longrightarrow> 132 \<le> length i"
  shows "ext4_inode_get_csum sb (ext4_inode_set_csum sb i c) =
    (if get16 sb sbf_inode_size > 128 then c else ucast (ucast c :: u16))"
  using assms
  by (cases "get16 sb sbf_inode_size > 128")
    (simp_all add: ext4_inode_get_csum_def ext4_inode_set_csum_def Let_def join32_16)

section \<open>The block count\<close>

lemma max32: "drop_bit 32 (NOT 0 :: u64) = 0xFFFFFFFF" and max48: "drop_bit 16 (NOT 0 :: u64) = 0xFFFFFFFFFFFF"
  by (simp_all add: drop_bit_eq_div)

lemma ucast_low_id:
  assumes "(c::u64) \<le> 0xFFFFFFFF"
  shows "ucast (ucast c :: u32) = c"
proof (rule bit_word_eqI)
  fix n assume "n < LENGTH(64)"
  have "unat c < 2 ^ 32" using assms by (simp add: word_le_nat_alt)
  from bit_below [OF this, of n] show "bit (ucast (ucast c :: u32) :: u64) n = bit c n"
    by (auto simp: bit_simps dest: bit_imp_le_length)
qed

lemma join48:
  assumes "(c::u64) \<le> 0xFFFFFFFFFFFF"
  shows "ucast (ucast c :: u32) OR push_bit 32 (ucast (ucast (drop_bit 32 c) :: u16)) = c"
proof (rule bit_word_eqI)
  fix n assume "n < LENGTH(64)"
  have "unat c < 2 ^ 48" using assms by (simp add: word_le_nat_alt)
  from bit_below [OF this, of n]
  show "bit (ucast (ucast c :: u32) OR push_bit 32 (ucast (ucast (drop_bit 32 c) :: u16)) :: u64) n = bit c n"
    by (cases "n < 32") (auto simp: bit_simps dest: bit_imp_le_length)
qed

lemma ext4_inode_flag_other [simp]:
  "ext4_inode_has_flag (set16 i inf_blocks_high v) f = ext4_inode_has_flag i f"
  "ext4_inode_has_flag (set32 i inf_blocks_count_lo w) f = ext4_inode_has_flag i f"
  "get16 (ext4_inode_set_flag i f) inf_blocks_high = get16 i inf_blocks_high"
  "get32 (ext4_inode_set_flag i f) inf_blocks_count_lo = get32 i inf_blocks_count_lo"
  "get16 (ext4_inode_clear_flag i f) inf_blocks_high = get16 i inf_blocks_high"
  "get32 (ext4_inode_clear_flag i f) inf_blocks_count_lo = get32 i inf_blocks_count_lo"
  by (simp_all add: inode_defs)

lemma ext4_inode_set_blocks_count_eq:
  "ext4_inode_set_blocks_count sb inode count =
     (if count \<le> 0xFFFFFFFF
      then (EOK, ext4_inode_clear_flag (set16 (set32 inode inf_blocks_count_lo (ucast count)) inf_blocks_high 0)
                   EXT4_INODE_FLAG_HUGE_FILE)
      else if \<not> ext4_sb_feature_ro_com sb EXT4_FRO_COM_HUGE_FILE then (EINVAL, inode)
      else if count \<le> 0xFFFFFFFFFFFF
      then (EOK, ext4_inode_clear_flag (set16 (set32 inode inf_blocks_count_lo (ucast count)) inf_blocks_high
                   (ucast (drop_bit 32 count))) EXT4_INODE_FLAG_HUGE_FILE)
      else let c = drop_bit (unat (ext4_inode_block_bits_count (ext4_sb_get_block_size sb) - 9)) count
           in (EOK, set16 (set32 (ext4_inode_set_flag inode EXT4_INODE_FLAG_HUGE_FILE) inf_blocks_count_lo (ucast c))
                   inf_blocks_high (ucast (drop_bit 32 c))))"
  by (simp only: ext4_inode_set_blocks_count_def Let_def max32 max48)

text \<open>On a file system with \<open>huge_file\<close> and a block size of 1 to 64 KiB, writing an inode's block count
  below \<open>2\<^sup>4\<^sup>8\<close> and reading it back is exact; above that the count is kept in units of the block size, so
  it comes back rounded down to a multiple of \<open>block_size / 512\<close>, as long as it fits. Without
  \<open>huge_file\<close> the write of a count above \<open>2\<^sup>3\<^sup>2 - 1\<close> is refused with \<open>EINVAL\<close> and changes nothing.
\<close>

theorem ext4_inode_blocks_count_roundtrip:
  assumes "128 \<le> length i" "ext4_sb_get_block_size sb = push_bit k 1024" "k \<le> 6"
    and "drop_bit (k + 1) c \<le> 0xFFFFFFFFFFFF"
    and "ext4_inode_set_blocks_count sb i c = (r, i')"
  shows "(r = EOK \<longleftrightarrow> c \<le> 0xFFFFFFFF \<or> ext4_sb_feature_ro_com sb EXT4_FRO_COM_HUGE_FILE) \<and>
    (r = EOK \<longrightarrow> ext4_inode_get_blocks_count sb i' =
       (if c \<le> 0xFFFFFFFFFFFF then c else push_bit (k + 1) (drop_bit (k + 1) c))) \<and>
    (r \<noteq> EOK \<longrightarrow> r = EINVAL \<and> i' = i)"
proof -
  let ?bits = "unat (ext4_inode_block_bits_count (push_bit k 1024) - 9)"
  have "(of_nat (10 + k) :: u32) - 9 = of_nat (Suc k)" by simp
  then have bits: "?bits = k + 1"
    using assms(3) unfolding block_bits_1024 [OF assms(3)]
    by (simp only: unsigned_of_nat) (simp add: take_bit_nat_eq_self_iff)
  note defs = ext4_inode_set_blocks_count_eq ext4_inode_get_blocks_count_def Let_def
  have read_huge: "ext4_inode_get_blocks_count sb (set16 (set32 (ext4_inode_set_flag i EXT4_INODE_FLAG_HUGE_FILE)
      inf_blocks_count_lo (ucast d)) inf_blocks_high (ucast (drop_bit 32 d))) = push_bit (k + 1) d"
    (is "ext4_inode_get_blocks_count sb ?i = _")
    if d: "d \<le> 0xFFFFFFFFFFFF" and huge: "ext4_sb_feature_ro_com sb EXT4_FRO_COM_HUGE_FILE" for d
  proof -
    have lo: "get32 ?i inf_blocks_count_lo = ucast d" and hi: "get16 ?i inf_blocks_high = ucast (drop_bit 32 d)"
      using assms(1) by simp_all
    have fl: "ext4_inode_has_flag ?i EXT4_INODE_FLAG_HUGE_FILE"
      using assms(1) by (simp add: ext4_inode_flag_laws)
    show ?thesis
      unfolding ext4_inode_get_blocks_count_def Let_def lo hi assms(2) bits join48 [OF d]
      by (simp only: huge fl if_True)
  qed
  have le: "c \<le> 0xFFFFFFFF \<Longrightarrow> c \<le> 0xFFFFFFFFFFFF" by (simp add: word_le_nat_alt)
  have hi: "c \<le> 0xFFFFFFFF \<Longrightarrow> ext4_inode_get_blocks_count sb i' = c"
    using assms(5) assms(1) by (auto simp: defs ext4_inode_flag_laws ucast_low_id)
  show ?thesis
  proof (cases "c \<le> 0xFFFFFFFF")
    case True
    then show ?thesis using assms(5) hi le by (auto simp: ext4_inode_set_blocks_count_eq)
  next
    case big: False
    show ?thesis
    proof (cases "ext4_sb_feature_ro_com sb EXT4_FRO_COM_HUGE_FILE")
      case False
      then show ?thesis using assms(5) big by (auto simp: ext4_inode_set_blocks_count_eq)
    next
      case huge: True
      show ?thesis
      proof (cases "c \<le> 0xFFFFFFFFFFFF")
        case True
        then show ?thesis using assms(5,1) big huge
          by (auto simp: defs ext4_inode_flag_laws join48)
      next
        case False
        then have "r = EOK" "ext4_inode_get_blocks_count sb i' = push_bit (k + 1) (drop_bit (k + 1) c)"
          using assms(5) big huge read_huge [OF assms(4) huge]
          unfolding ext4_inode_set_blocks_count_eq Let_def assms(2) bits by simp_all
        then show ?thesis using False big huge by simp
      qed
    qed
  qed
qed

theorem ext4_inode_blocks_count_roundtrip_witness:
  "fst (ext4_inode_set_blocks_count sample_sb (replicate 128 0) 0x100000000) = EINVAL"
proof -
  have bs: "ext4_sb_get_block_size sample_sb = push_bit 0 1024"
    by (simp add: ext4_sb_get_block_size_def sample_sb_def Let_def get32_def set8_def set16_def set32_def)
  have nf: "\<not> ext4_sb_feature_ro_com sample_sb EXT4_FRO_COM_HUGE_FILE"
    by (simp add: ext4_sb_feature_ro_com_def sample_sb_def Let_def get32_def set8_def set16_def set32_def)
  obtain r i' where r: "ext4_inode_set_blocks_count sample_sb (replicate 128 0) 0x100000000 = (r, i')"
    by (rule prod.exhaust)
  have "drop_bit (0 + 1) (0x100000000::u64) \<le> 0xFFFFFFFFFFFF" by (simp add: drop_bit_eq_div word_le_nat_alt)
  moreover have "\<not> (0x100000000::u64) \<le> 0xFFFFFFFF" by (simp add: word_le_nat_alt)
  ultimately show ?thesis
    using ext4_inode_blocks_count_roundtrip [OF _ bs _ _ r] nf by (auto simp: r)
qed

section \<open>The extended attribute block and device numbers\<close>

text \<open>
  \<open>ext4_inode_set_file_acl\<close> stores bits 32 to 47 of the block address in \<open>file_acl_high\<close>, but
  \<open>ext4_inode_get_file_acl\<close> shifts that field by 16 instead of 32: on Linux-created file systems an
  address is read back unchanged exactly when it is below \<open>2\<^sup>3\<^sup>2\<close>.
\<close>

theorem ext4_inode_file_acl_roundtrip_iff:
  assumes "120 \<le> length i" "get32 sb sbf_creator_os = EXT4_SUPERBLOCK_OS_LINUX"
  shows "ext4_inode_get_file_acl (ext4_inode_set_file_acl i sb acl) sb = acl \<longleftrightarrow> unat acl < 2 ^ 32"
proof -
  let ?hi = "push_bit 16 (ucast (ucast (drop_bit 32 acl) :: u16)) :: u32"
  have eq: "ext4_inode_get_file_acl (ext4_inode_set_file_acl i sb acl) sb = ucast (ucast acl :: u32) OR ucast ?hi"
    using assms by (simp add: ext4_inode_get_file_acl_def ext4_inode_set_file_acl_def Let_def)
  show ?thesis
  proof
    assume "ext4_inode_get_file_acl (ext4_inode_set_file_acl i sb acl) sb = acl"
    then have "acl = ucast (ucast acl OR ?hi :: u32)"
      unfolding eq by (simp only: unsigned_or_eq)
    then have "unat acl = unat (ucast acl OR ?hi :: u32)" by (metis ucast_u32_u64_unat)
    also have "\<dots> < 2 ^ 32" using unat_below [where 'a = 32] by simp
    finally show "unat acl < 2 ^ 32" .
  next
    assume lt: "unat acl < 2 ^ 32"
    have "drop_bit 32 acl = 0"
      by (rule bit_word_eqI) (use bit_below [OF lt] in \<open>fastforce simp: bit_simps\<close>)
    moreover have "ucast (ucast acl :: u32) = acl"
      using lt by (intro ucast_low_id) (simp add: word_le_nat_alt)
    ultimately show "ext4_inode_get_file_acl (ext4_inode_set_file_acl i sb acl) sb = acl"
      unfolding eq by simp
  qed
qed

theorem ext4_inode_file_acl_roundtrip_iff_witness:
  "ext4_inode_get_file_acl (ext4_inode_set_file_acl (replicate 128 0) sample_sb 0x100000001) sample_sb
     \<noteq> 0x100000001"
proof -
  have "get32 sample_sb sbf_creator_os = EXT4_SUPERBLOCK_OS_LINUX"
    by (simp add: sample_sb_def Let_def get32_def set8_def set16_def set32_def)
  from ext4_inode_file_acl_roundtrip_iff [OF _ this] show ?thesis by simp
qed

text \<open>A device number survives in an inode whose first two block pointers were clear, not otherwise:
  \<open>ext4_inode_set_dev\<close> leaves the slot it does not use as it was.\<close>

lemma ext4_inode_dev_roundtrip:
  assumes "128 \<le> length i" "ext4_inode_get_direct_block i 0 = Some 0" "ext4_inode_get_direct_block i 1 = Some 0"
  shows "Option.bind (ext4_inode_set_dev i dev) ext4_inode_get_dev = Some dev"
  using assms by (auto simp: ext4_inode_set_dev_def ext4_inode_get_dev_def ext4_inode_get_direct_block_def
      ext4_inode_set_direct_block_def)

lemma ext4_inode_dev_stale:
  assumes "128 \<le> length i" "ext4_inode_get_direct_block i 0 = Some d" "d \<noteq> 0" "dev AND NOT 0xFFFF \<noteq> 0"
  shows "Option.bind (ext4_inode_set_dev i dev) ext4_inode_get_dev = Some d"
  using assms by (auto simp: ext4_inode_set_dev_def ext4_inode_get_dev_def ext4_inode_get_direct_block_def
      ext4_inode_set_direct_block_def)

text \<open>A direct block pointer is the last value written to its own slot.\<close>

lemma ext4_inode_direct_block_update:
  assumes "100 \<le> length i" "idx < EXT4_INODE_BLOCKS" "idx' < EXT4_INODE_BLOCKS"
    and "ext4_inode_set_direct_block i idx b = Some i'"
  shows "ext4_inode_get_direct_block i' idx' =
    (if idx' = idx then Some b else ext4_inode_get_direct_block i idx')"
proof -
  have lt: "unat idx < 15" "unat idx' < 15" using assms(2,3) by (simp_all add: word_less_nat_alt)
  show ?thesis
  proof (cases "idx' = idx")
    case False
    then have "unat idx' < unat idx \<or> unat idx < unat idx'" by (metis nat_neq_iff word_unat_eq_iff)
    then show ?thesis
      using assms False lt by (auto simp: ext4_inode_set_direct_block_def ext4_inode_get_direct_block_def)
  qed (use assms lt in \<open>auto simp: ext4_inode_set_direct_block_def ext4_inode_get_direct_block_def\<close>)
qed

end
