(* ===== verification/Hash.thy ===== *)
theory Hash
  imports Prelude
begin

text \<open>
  The directory index hash, \<open>src/ext4_hash.c\<close>: half MD4, TEA and the legacy hash over a file name. The
  four-word state \<open>hash\<close> is a quadruple, the array \<open>data\<close> of eight words is a list that starts with
  whatever the stack holds, written through the checked pointer \<open>dst\<close>. A name is the list of its bytes
  (\<open>None\<close> is the null pointer); reading past it or writing past \<open>data\<close> is the outcome \<open>None\<close>.
\<close>

section \<open>Half MD4\<close>

definition F :: "u32 \<Rightarrow> u32 \<Rightarrow> u32 \<Rightarrow> u32" where
  "F x y z = ((x AND y) OR (NOT x AND z))"

definition G :: "u32 \<Rightarrow> u32 \<Rightarrow> u32 \<Rightarrow> u32" where
  "G x y z = ((x AND y) OR (x AND z) OR (y AND z))"

definition H :: "u32 \<Rightarrow> u32 \<Rightarrow> u32 \<Rightarrow> u32" where
  "H x y z = (x XOR y XOR z)"

definition ROTATE_LEFT :: "u32 \<Rightarrow> nat \<Rightarrow> u32" where
  "ROTATE_LEFT x n = (push_bit n x OR drop_bit (32 - n) x)"

text \<open>The macros update their first argument; here they return its new value.\<close>

definition FF :: "u32 \<Rightarrow> u32 \<Rightarrow> u32 \<Rightarrow> u32 \<Rightarrow> u32 \<Rightarrow> nat \<Rightarrow> u32" where
  "FF a b c d x s = ROTATE_LEFT (a + (F b c d + x)) s"

definition GG :: "u32 \<Rightarrow> u32 \<Rightarrow> u32 \<Rightarrow> u32 \<Rightarrow> u32 \<Rightarrow> nat \<Rightarrow> u32" where
  "GG a b c d x s = ROTATE_LEFT (a + (G b c d + x + 0x5A827999)) s"

definition HH :: "u32 \<Rightarrow> u32 \<Rightarrow> u32 \<Rightarrow> u32 \<Rightarrow> u32 \<Rightarrow> nat \<Rightarrow> u32" where
  "HH a b c d x s = ROTATE_LEFT (a + (H b c d + x + 0x6ED9EBA1)) s"

type_synonym hash_state = "u32 \<times> u32 \<times> u32 \<times> u32"

definition ext2_half_md4 :: "hash_state \<Rightarrow> u32 list \<Rightarrow> hash_state" where
  "ext2_half_md4 hash data = (case hash of (hash0, hash1, hash2, hash3) \<Rightarrow>
    let a = hash0; b = hash1; c = hash2; d = hash3;
       a = FF a b c d (data ! 0) 3; d = FF d a b c (data ! 1) 7;
       c = FF c d a b (data ! 2) 11; b = FF b c d a (data ! 3) 19;
       a = FF a b c d (data ! 4) 3; d = FF d a b c (data ! 5) 7;
       c = FF c d a b (data ! 6) 11; b = FF b c d a (data ! 7) 19;
       a = GG a b c d (data ! 1) 3; d = GG d a b c (data ! 3) 5;
       c = GG c d a b (data ! 5) 9; b = GG b c d a (data ! 7) 13;
       a = GG a b c d (data ! 0) 3; d = GG d a b c (data ! 2) 5;
       c = GG c d a b (data ! 4) 9; b = GG b c d a (data ! 6) 13;
       a = HH a b c d (data ! 3) 3; d = HH d a b c (data ! 7) 9;
       c = HH c d a b (data ! 2) 11; b = HH b c d a (data ! 6) 15;
       a = HH a b c d (data ! 1) 3; d = HH d a b c (data ! 5) 9;
       c = HH c d a b (data ! 0) 11; b = HH b c d a (data ! 4) 15
     in (hash0 + a, hash1 + b, hash2 + c, hash3 + d))"

section \<open>TEA\<close>

text \<open>The loop \<open>while (n-- > 0)\<close> of \<open>ext2_tea\<close>: \<open>n\<close> rounds, \<open>i\<close> the round number.\<close>

fun tea_rounds :: "nat \<Rightarrow> u32 \<Rightarrow> u32 list \<Rightarrow> u32 \<Rightarrow> u32 \<Rightarrow> u32 \<times> u32" where
  "tea_rounds 0 i data x y = (x, y)"
| "tea_rounds (Suc n) i data x y =
    (let sum = i * 0x9E3779B9;
         x = x + ((push_bit 4 y + data ! 0) XOR (y + sum) XOR (drop_bit 5 y + data ! 1));
         y = y + ((push_bit 4 x + data ! 2) XOR (x + sum) XOR (drop_bit 5 x + data ! 3))
     in tea_rounds n (i + 1) data x y)"

definition ext2_tea :: "hash_state \<Rightarrow> u32 list \<Rightarrow> hash_state" where
  "ext2_tea hash data = (case hash of (hash0, hash1, hash2, hash3) \<Rightarrow>
    let (x, y) = tea_rounds 16 1 data hash0 hash1
     in (hash0 + x, hash1 + y, hash2, hash3))"

section \<open>The legacy hash\<close>

text \<open>A character as the 32-bit value it has in the expressions: zero- or sign-extended.\<close>

definition char_val :: "bool \<Rightarrow> u8 \<Rightarrow> u32" where
  "char_val unsigned_char c = (if unsigned_char then ucast c else scast c)"

text \<open>The loop \<open>for (i = 0; i < len; i++)\<close> of \<open>ext2_legacy_hash\<close>.\<close>

function legacy_loop :: "u8 list \<Rightarrow> int \<Rightarrow> bool \<Rightarrow> int \<Rightarrow> u32 \<Rightarrow> u32 \<Rightarrow> u32 option" where
  "legacy_loop name len unsigned_char i h1 h2 =
     (if i < len then do {
        c \<leftarrow> rd8 name (nat i);
        let val = char_val unsigned_char c;
        let h0 = h2 + (h1 XOR (val * 0x6D22F5));
        let h0 = (if h0 AND 0x80000000 \<noteq> 0 then h0 - 0x7FFFFFFF else h0);
        legacy_loop name len unsigned_char (i + 1) h0 h1 }
      else Some (push_bit 1 h1))"
  by pat_completeness auto
termination by (relation "measure (\<lambda>(name, len, u, i, h1, h2). nat (len - i))") auto

definition ext2_legacy_hash :: "u8 list \<Rightarrow> int \<Rightarrow> bool \<Rightarrow> u32 option" where
  "ext2_legacy_hash name len unsigned_char =
     legacy_loop name len unsigned_char 0 0x12A3FE2D 0x37ABE8F9"

section \<open>Packing the name into words\<close>

text \<open>\<open>*dst++ = v\<close> on the array \<open>data\<close>, \<open>dst\<close> being the index of the next word.\<close>

definition put_word :: "u32 list \<Rightarrow> nat \<Rightarrow> u32 \<Rightarrow> (u32 list \<times> nat) option" where
  "put_word data dst v = (if dst < length data then Some (data[dst := v], dst + 1) else None)"

function prep_chars :: "u8 list \<Rightarrow> int \<Rightarrow> bool \<Rightarrow> u32 \<Rightarrow> int \<Rightarrow> u32 \<Rightarrow> u32 list \<Rightarrow> nat \<Rightarrow> int \<Rightarrow>
    (u32 \<times> u32 list \<times> nat \<times> int) option" where
  "prep_chars src len unsigned_char padding i buf_val data dst dlen =
     (if i < len then do {
        c \<leftarrow> rd8 src (nat i);
        let buf_byte = char_val unsigned_char c;
        let buf_val = (if i mod 4 = 0 then padding else buf_val);
        let buf_val = push_bit 8 buf_val + buf_byte;
        if i mod 4 = 3 then do {
          (data, dst) \<leftarrow> put_word data dst buf_val;
          prep_chars src len unsigned_char padding (i + 1) padding data dst (dlen - 4) }
        else prep_chars src len unsigned_char padding (i + 1) buf_val data dst dlen }
      else Some (buf_val, data, dst, dlen))"
  by pat_completeness auto
termination by (relation "measure (\<lambda>(s, len, u, p, i, b, d, t, n). nat (len - i))") auto

text \<open>The final \<open>while (dlen >= 0)\<close>, which fills the rest with padding.\<close>

function prep_fill :: "u32 \<Rightarrow> u32 list \<Rightarrow> nat \<Rightarrow> int \<Rightarrow> u32 list option" where
  "prep_fill padding data dst dlen =
     (if dlen \<ge> 0 then do {
        (data, dst) \<leftarrow> put_word data dst padding;
        prep_fill padding data dst (dlen - 4) }
      else Some data)"
  by pat_completeness auto
termination by (relation "measure (\<lambda>(p, d, t, n). nat (n + 1))") auto

definition ext2_prep_hashbuf :: "u8 list \<Rightarrow> u32 \<Rightarrow> u32 list \<Rightarrow> int \<Rightarrow> bool \<Rightarrow> u32 list option" where
  "ext2_prep_hashbuf src slen data dlen unsigned_char = do {
     let padding = slen OR push_bit 8 slen OR push_bit 16 slen OR push_bit 24 slen;
     let len = (if slen > word_of_int dlen then dlen else sint slen);
     (buf_val, data, dst, dlen) \<leftarrow> prep_chars src len unsigned_char padding 0 padding data 0 dlen;
     let dlen = dlen - 4;
     (data, dst) \<leftarrow> (if dlen \<ge> 0 then put_word data dst buf_val else Some (data, dst));
     let dlen = dlen - 4;
     prep_fill padding data dst dlen }"

section \<open>The hash of a name\<close>

abbreviation (input) EXT2_HTREE_LEGACY :: int where "EXT2_HTREE_LEGACY \<equiv> 0"
abbreviation (input) EXT2_HTREE_HALF_MD4 :: int where "EXT2_HTREE_HALF_MD4 \<equiv> 1"
abbreviation (input) EXT2_HTREE_TEA :: int where "EXT2_HTREE_TEA \<equiv> 2"
abbreviation (input) EXT2_HTREE_LEGACY_UNSIGNED :: int where "EXT2_HTREE_LEGACY_UNSIGNED \<equiv> 3"
abbreviation (input) EXT2_HTREE_HALF_MD4_UNSIGNED :: int where "EXT2_HTREE_HALF_MD4_UNSIGNED \<equiv> 4"
abbreviation (input) EXT2_HTREE_TEA_UNSIGNED :: int where "EXT2_HTREE_TEA_UNSIGNED \<equiv> 5"
abbreviation (input) EXT2_HTREE_EOF :: u32 where "EXT2_HTREE_EOF \<equiv> 0x7FFFFFFF"

function htree_tea_loop :: "u8 list \<Rightarrow> int \<Rightarrow> bool \<Rightarrow> hash_state \<Rightarrow> u32 list \<Rightarrow> hash_state option" where
  "htree_tea_loop name len unsigned_char hash data =
     (if len > 0 then do {
        data \<leftarrow> ext2_prep_hashbuf name (word_of_int len) data 16 unsigned_char;
        htree_tea_loop (drop 16 name) (len - 16) unsigned_char (ext2_tea hash data) data }
      else Some hash)"
  by pat_completeness auto
termination by (relation "measure (\<lambda>(name, len, u, h, d). nat len)") auto

function htree_md4_loop :: "u8 list \<Rightarrow> int \<Rightarrow> bool \<Rightarrow> hash_state \<Rightarrow> u32 list \<Rightarrow> hash_state option" where
  "htree_md4_loop name len unsigned_char hash data =
     (if len > 0 then do {
        data \<leftarrow> ext2_prep_hashbuf name (word_of_int len) data 32 unsigned_char;
        htree_md4_loop (drop 32 name) (len - 32) unsigned_char (ext2_half_md4 hash data) data }
      else Some hash)"
  by pat_completeness auto
termination by (relation "measure (\<lambda>(name, len, u, h, d). nat len)") auto

text \<open>The initial state: the seed of the superblock if there is one.\<close>

definition htree_seed :: "hash_state option \<Rightarrow> hash_state" where
  "htree_seed hash_seed =
    (case hash_seed of Some seed \<Rightarrow> seed
     | None \<Rightarrow> (0x67452301, 0xEFCDAB89, 0x98BADCFE, 0x10325476))"

text \<open>The last steps: the major hash is made even and kept off the end-of-directory value.\<close>

definition htree_major :: "u32 \<Rightarrow> u32" where
  "htree_major major =
    (let major = major AND NOT 1
     in if major = push_bit 1 EXT2_HTREE_EOF then push_bit 1 (EXT2_HTREE_EOF - 1) else major)"

text \<open>
  The result is the returned code and what is stored through \<open>hash_major\<close> and \<open>hash_minor\<close> (\<open>None\<close> when
  nothing is). \<open>hash_major\<close> and \<open>hash_minor\<close> say whether those pointers are non-null; \<open>data\<close> is the
  uninitialised local array.
\<close>

definition ext2_htree_hash ::
  "u8 list option \<Rightarrow> int \<Rightarrow> hash_state option \<Rightarrow> int \<Rightarrow> bool \<Rightarrow> bool \<Rightarrow> u32 list \<Rightarrow>
     (errno \<times> u32 option \<times> u32 option) option" where
  "ext2_htree_hash name_ptr len hash_seed hash_version hash_major hash_minor data =
    (let error = (ENOTSUP, Some 0, if hash_minor then Some 0 else None) in
     if \<not> hash_major then Some (- 1, None, None)
     else case name_ptr of None \<Rightarrow> Some (- 1, None, None) | Some name \<Rightarrow>
     if len < 1 \<or> len > 255 then Some error
     else
       let hash = htree_seed hash_seed;
           finish = (\<lambda>major minor.
             Some (EOK, Some (htree_major major), if hash_minor then Some minor else None))
       in if hash_version = EXT2_HTREE_TEA_UNSIGNED \<or> hash_version = EXT2_HTREE_TEA then do {
            (h0, h1, h2, h3) \<leftarrow>
              htree_tea_loop name len (hash_version = EXT2_HTREE_TEA_UNSIGNED) hash data;
            finish h0 h1 }
          else if hash_version = EXT2_HTREE_LEGACY_UNSIGNED \<or> hash_version = EXT2_HTREE_LEGACY then do {
            major \<leftarrow> ext2_legacy_hash name len (hash_version = EXT2_HTREE_LEGACY_UNSIGNED);
            finish major 0 }
          else if hash_version = EXT2_HTREE_HALF_MD4_UNSIGNED \<or> hash_version = EXT2_HTREE_HALF_MD4 then do {
            (h0, h1, h2, h3) \<leftarrow>
              htree_md4_loop name len (hash_version = EXT2_HTREE_HALF_MD4_UNSIGNED) hash data;
            finish h1 h2 }
          else Some error)"

declare legacy_loop.simps [simp del] prep_chars.simps [simp del] prep_fill.simps [simp del]
  htree_tea_loop.simps [simp del] htree_md4_loop.simps [simp del] tea_rounds.simps [simp del]

section \<open>Packing stays in bounds and leaves nothing uninitialised\<close>

definition agree :: "nat \<Rightarrow> u32 list \<Rightarrow> u32 list \<Rightarrow> bool" where
  "agree n d d' = (length d = 8 \<and> length d' = 8 \<and> take n d = take n d')"

lemma agree_nth: "agree n d d' \<Longrightarrow> i < n \<Longrightarrow> d ! i = d' ! i"
  unfolding agree_def by (metis nth_take)

lemma agree_update: "agree n d d' \<Longrightarrow> n < 8 \<Longrightarrow> agree (Suc n) (d[n := v]) (d'[n := v])"
  by (auto simp: agree_def take_Suc_conv_app_nth)

lemma put_word_Some: "dst < length d \<Longrightarrow> put_word d dst v = Some (d[dst := v], Suc dst)"
  by (simp add: put_word_def)

lemma prep_chars_agree:
  assumes "agree (nat (i div 4)) d d'" "0 \<le> i" "i \<le> len" "len \<le> int (length src)" "len \<le> 4 * m" "m \<le> 8"
  shows "\<exists>bv e e'. agree (nat (len div 4)) e e' \<and>
    prep_chars src len u p i b d (nat (i div 4)) (4 * m - 4 * (i div 4)) =
      Some (bv, e, nat (len div 4), 4 * m - 4 * (len div 4)) \<and>
    prep_chars src len u p i b d' (nat (i div 4)) (4 * m - 4 * (i div 4)) =
      Some (bv, e', nat (len div 4), 4 * m - 4 * (len div 4))"
  using assms(1-3)
proof (induction "nat (len - i)" arbitrary: i b d d')
  case 0
  then have "i = len" by simp
  then show ?case using 0 by (auto simp: prep_chars.simps)
next
  case (Suc k)
  have i: "i < len" "nat i < length src" using Suc.hyps(2) Suc.prems assms(4) by auto
  have k: "k = nat (len - (i + 1))" using Suc.hyps(2) by linarith
  let ?b = "push_bit 8 (if i mod 4 = 0 then p else b) + char_val u (src ! nat i)"
  have d8: "nat (i div 4) < 8" "length d = 8" "length d' = 8"
    using i assms(5,6) Suc.prems by (auto simp: agree_def)
  show ?case
  proof (cases "i mod 4 = 3")
    case True
    then have j: "(i + 1) div 4 = i div 4 + 1" by presburger
    then have n: "nat ((i + 1) div 4) = Suc (nat (i div 4))" using Suc.prems by simp
    have "agree (nat ((i + 1) div 4)) (d[nat (i div 4) := ?b]) (d'[nat (i div 4) := ?b])"
      unfolding n by (rule agree_update [OF Suc.prems(1) d8(1)])
    note IH = Suc.hyps(1) [OF k this, where b = p, unfolded n, unfolded j]
    have dl: "4 * m - 4 * (i div 4 + 1) = 4 * m - 4 * (i div 4) - 4" by simp
    have step: "prep_chars src len u p i b e (nat (i div 4)) (4 * m - 4 * (i div 4)) =
        prep_chars src len u p (i + 1) p (e[nat (i div 4) := ?b]) (Suc (nat (i div 4)))
          (4 * m - 4 * (i div 4) - 4)" if "length e = 8" for e
      using i True d8(1) that by (simp add: prep_chars.simps [of _ _ _ _ i] put_word_Some Let_def)
    show ?thesis
      unfolding step [OF d8(2)] step [OF d8(3)] dl [symmetric] by (rule IH) (use Suc.prems i in simp_all)
  next
    case False
    then have j: "(i + 1) div 4 = i div 4" by presburger
    from Suc.hyps(1) [OF k, of d d' ?b] Suc.prems i False show ?thesis
      by (simp add: prep_chars.simps [of _ _ _ _ i] j Let_def)
  qed
qed

lemma prep_fill_agree:
  assumes "agree n d d'" "n \<le> m" "m \<le> 8" "n = m \<and> dl < 0 \<or> dl = 4 * (int m - int n) - 4"
  shows "\<exists>e e'. agree m e e' \<and> prep_fill p d n dl = Some e \<and> prep_fill p d' n dl = Some e'"
  using assms
proof (induction "m - n" arbitrary: n d d' dl)
  case 0
  then show ?case by (auto simp: prep_fill.simps)
next
  case (Suc k)
  then have n: "n < 8" "length d = 8" "length d' = 8" and dl: "dl = 4 * (int m - int n) - 4" "0 \<le> dl"
    by (auto simp: agree_def)
  have "agree (Suc n) (d[n := p]) (d'[n := p])" using Suc.prems(1) n(1) by (rule agree_update)
  moreover have "k = m - Suc n" using Suc.hyps(2) by simp
  ultimately show ?case
    using Suc.hyps(1) [of "Suc n" "d[n := p]" "d'[n := p]" "dl - 4"] Suc.prems Suc.hyps(2) dl
    by (auto simp: prep_fill.simps [of _ _ n] put_word_Some n)
qed

lemma small_int:
  assumes "0 \<le> k" "k \<le> 255"
  shows "uint (word_of_int k :: u32) = k" "sint (word_of_int k :: u32) = k"
  using assms by (simp_all add: unsigned_of_int signed_of_int take_bit_int_eq_self_iff signed_take_bit_int_eq_self_iff)

lemma ext2_prep_hashbuf_agree:
  assumes "length d = 8" "length d' = 8" "0 < len" "len \<le> 255" "len \<le> int (length src)" "m \<le> 8"
  shows "\<exists>e e'. agree m e e' \<and>
    ext2_prep_hashbuf src (word_of_int len) d (4 * int m) u = Some e \<and>
    ext2_prep_hashbuf src (word_of_int len) d' (4 * int m) u = Some e'"
proof -
  let ?l = "if (word_of_int len :: u32) > word_of_int (4 * int m) then 4 * int m else sint (word_of_int len :: u32)"
  have l: "?l = min len (4 * int m)"
    using assms(3,4,6) small_int [of len] small_int [of "4 * int m"] by (auto simp: word_less_def)
  define p :: u32 where "p = (let slen = word_of_int len
      in slen OR push_bit 8 slen OR push_bit 16 slen OR push_bit 24 slen)"
  have "agree (nat (0 div 4)) d d'" using assms(1,2) by (simp add: agree_def)
  from prep_chars_agree [OF this, of ?l src "int m" u p p] obtain bv e e' where
    c: "agree (nat (?l div 4)) e e'"
      "prep_chars src ?l u p 0 p d 0 (4 * int m) = Some (bv, e, nat (?l div 4), 4 * int m - 4 * (?l div 4))"
      "prep_chars src ?l u p 0 p d' 0 (4 * int m) = Some (bv, e', nat (?l div 4), 4 * int m - 4 * (?l div 4))"
    using assms(3,5,6) unfolding l by (auto simp: min_le_iff_disj)
  let ?n = "nat (?l div 4)" and ?dl = "4 * int m - 4 * (?l div 4) - 4"
  have n: "?n \<le> m" "int ?n = ?l div 4" using assms(3) unfolding l by auto
  have len: "length e = 8" "length e' = 8" using c(1) by (simp_all add: agree_def)
  show ?thesis
  proof (cases "?n < m")
    case True
    then have dl: "0 \<le> ?dl" using n(2) by linarith
    have "agree (Suc ?n) (e[?n := bv]) (e'[?n := bv])"
      using c(1) True assms(6) by (intro agree_update) simp_all
    from prep_fill_agree [OF this, of m "?dl - 4" p] True n assms(6) c(2,3) dl len show ?thesis
      unfolding ext2_prep_hashbuf_def Let_def p_def [unfolded Let_def, symmetric]
      by (auto simp: put_word_Some)
  next
    case False
    then have "?n = m" "?dl < 0" using n by simp_all
    with prep_fill_agree [OF c(1), of m "?dl - 4" p] assms(6) c(2,3) show ?thesis
      unfolding ext2_prep_hashbuf_def Let_def p_def [unfolded Let_def, symmetric] by auto
  qed
qed

section \<open>Totality and independence of uninitialised memory\<close>

lemma tea_rounds_agree: "agree 4 e e' \<Longrightarrow> tea_rounds n i e x y = tea_rounds n i e' x y"
proof (induction n arbitrary: i x y)
  case (Suc n)
  have "e ! 0 = e' ! 0" "e ! 1 = e' ! 1" "e ! 2 = e' ! 2" "e ! 3 = e' ! 3"
    using agree_nth [OF Suc.prems] by simp_all
  with Suc show ?case by (simp add: tea_rounds.simps Let_def)
qed (simp add: tea_rounds.simps)

lemma ext2_tea_agree: "agree 4 e e' \<Longrightarrow> ext2_tea h e = ext2_tea h e'"
  unfolding ext2_tea_def by (simp add: tea_rounds_agree)

lemma ext2_half_md4_agree: "agree 8 e e' \<Longrightarrow> ext2_half_md4 h e = ext2_half_md4 h e'"
  by (auto simp: agree_def)

lemma htree_tea_loop_total:
  assumes "length d = 8" "length d' = 8" "len \<le> 255" "len \<le> int (length name)"
  shows "\<exists>r. htree_tea_loop name len u h d = Some r \<and> htree_tea_loop name len u h d' = Some r"
  using assms
proof (induction "nat len" arbitrary: name len h d d' rule: less_induct)
  case less
  show ?case
  proof (cases "len > 0")
    case True
    obtain e e' where e: "agree 4 e e'"
        "ext2_prep_hashbuf name (word_of_int len) d 16 u = Some e"
        "ext2_prep_hashbuf name (word_of_int len) d' 16 u = Some e'"
      using ext2_prep_hashbuf_agree [OF less.prems(1,2) True less.prems(3,4), where m = 4 and u = u] by auto
    have "\<exists>r. htree_tea_loop (drop 16 name) (len - 16) u (ext2_tea h e) e = Some r \<and>
        htree_tea_loop (drop 16 name) (len - 16) u (ext2_tea h e) e' = Some r"
      by (rule less.hyps) (use True less.prems e(1) in \<open>auto simp: agree_def\<close>)
    then show ?thesis
      using True e ext2_tea_agree [OF e(1), of h] by (simp add: htree_tea_loop.simps [of name])
  next
    case False
    then have "htree_tea_loop name len u h d = Some h" "htree_tea_loop name len u h d' = Some h"
      by (simp_all add: htree_tea_loop.simps)
    then show ?thesis by blast
  qed
qed

lemma htree_md4_loop_total:
  assumes "length d = 8" "length d' = 8" "len \<le> 255" "len \<le> int (length name)"
  shows "\<exists>r. htree_md4_loop name len u h d = Some r \<and> htree_md4_loop name len u h d' = Some r"
  using assms
proof (induction "nat len" arbitrary: name len h d d' rule: less_induct)
  case less
  show ?case
  proof (cases "len > 0")
    case True
    obtain e e' where e: "agree 8 e e'"
        "ext2_prep_hashbuf name (word_of_int len) d 32 u = Some e"
        "ext2_prep_hashbuf name (word_of_int len) d' 32 u = Some e'"
      using ext2_prep_hashbuf_agree [OF less.prems(1,2) True less.prems(3,4), where m = 8 and u = u] by auto
    have "\<exists>r. htree_md4_loop (drop 32 name) (len - 32) u (ext2_half_md4 h e) e = Some r \<and>
        htree_md4_loop (drop 32 name) (len - 32) u (ext2_half_md4 h e) e' = Some r"
      by (rule less.hyps) (use True less.prems e(1) in \<open>auto simp: agree_def\<close>)
    then show ?thesis
      using True e ext2_half_md4_agree [OF e(1), of h] by (simp add: htree_md4_loop.simps [of name])
  next
    case False
    then have "htree_md4_loop name len u h d = Some h" "htree_md4_loop name len u h d' = Some h"
      by (simp_all add: htree_md4_loop.simps)
    then show ?thesis by blast
  qed
qed

lemma legacy_loop_total:
  assumes "0 \<le> i" "len \<le> int (length name)"
  shows "\<exists>r. legacy_loop name len u i h1 h2 = Some r"
  using assms
proof (induction "nat (len - i)" arbitrary: i h1 h2)
  case (Suc k)
  then have k: "k = nat (len - (i + 1))" and i: "i < len" "nat i < length name" by auto
  from Suc.hyps(1) [OF k] Suc.prems i show ?case
    by (simp add: legacy_loop.simps [of _ _ _ i] Let_def)
qed (simp add: legacy_loop.simps)

lemma htree_major_correct:
  "even (htree_major major)" "htree_major major \<noteq> push_bit 1 EXT2_HTREE_EOF"
proof -
  have "\<not> bit (major AND NOT 1) 0" by (simp only: bit_and_iff bit_not_iff) simp
  then have "even (major AND NOT 1)" by (simp only: bit_0 not_not)
  then show "even (htree_major major)" by (simp add: htree_major_def Let_def push_bit_eq_mult)
  show "htree_major major \<noteq> push_bit 1 EXT2_HTREE_EOF" by (simp add: htree_major_def Let_def push_bit_eq_mult)
qed

text \<open>For a name of 1 to 255 bytes and one of the six hash versions \<open>ext2_htree_hash\<close> returns (its loops
  end, nothing is read past the name or written past the eight words), its result does not depend on
  the uninitialised array on the stack, and the major hash is even and never the reserved end-of-
  directory value; any other length or version gives \<open>ENOTSUP\<close> and zeroes.
\<close>

theorem ext2_htree_hash_total:
  assumes "len \<le> int (length name)" "length d = 8" "length d' = 8"
  shows "if 1 \<le> len \<and> len \<le> 255 \<and> 0 \<le> ver \<and> ver \<le> 5
    then \<exists>major minor.
      ext2_htree_hash (Some name) len seed ver True True d = Some (EOK, Some major, Some minor) \<and>
      ext2_htree_hash (Some name) len seed ver True True d' = Some (EOK, Some major, Some minor) \<and>
      even major \<and> major \<noteq> push_bit 1 EXT2_HTREE_EOF
    else ext2_htree_hash (Some name) len seed ver True True d = Some (ENOTSUP, Some 0, Some 0)"
proof (cases "1 \<le> len \<and> len \<le> 255 \<and> 0 \<le> ver \<and> ver \<le> 5")
  case False
  then show ?thesis by (auto simp: ext2_htree_hash_def Let_def)
next
  case True
  have len: "\<not> (len < 1 \<or> len > 255)" using True by auto
  consider "ver = 5 \<or> ver = 2" | "ver = 3 \<or> ver = 0" | "ver = 4 \<or> ver = 1" using True by linarith
  then show ?thesis
  proof cases
    case 1
    obtain h0 h1 h2 h3 where "htree_tea_loop name len (ver = 5) (htree_seed seed) d = Some (h0, h1, h2, h3)"
        "htree_tea_loop name len (ver = 5) (htree_seed seed) d' = Some (h0, h1, h2, h3)"
      using htree_tea_loop_total [OF assms(2,3) _ assms(1), of "ver = 5" "htree_seed seed"] True by (metis prod.exhaust)
    then show ?thesis
      using True len 1 htree_major_correct [of h0] by (auto simp: ext2_htree_hash_def Let_def)
  next
    case 2
    obtain r where "ext2_legacy_hash name len (ver = 3) = Some r"
      using legacy_loop_total [of 0 len name "ver = 3"] assms(1) by (auto simp: ext2_legacy_hash_def)
    then show ?thesis
      using True len 2 htree_major_correct [of r] by (auto simp: ext2_htree_hash_def Let_def)
  next
    case 3
    obtain h0 h1 h2 h3 where "htree_md4_loop name len (ver = 4) (htree_seed seed) d = Some (h0, h1, h2, h3)"
        "htree_md4_loop name len (ver = 4) (htree_seed seed) d' = Some (h0, h1, h2, h3)"
      using htree_md4_loop_total [OF assms(2,3) _ assms(1), of "ver = 4" "htree_seed seed"] True by (metis prod.exhaust)
    then show ?thesis
      using True len 3 htree_major_correct [of h1] by (auto simp: ext2_htree_hash_def Let_def)
  qed
qed

theorem ext2_htree_hash_total_witness:
  "\<exists>major minor. ext2_htree_hash (Some [97, 98]) 2 None 1 True True (replicate 8 0) =
     Some (EOK, Some major, Some minor) \<and> even major"
  using ext2_htree_hash_total [of 2 "[97, 98]" "replicate 8 0" "replicate 8 0" 1 None] by auto

section \<open>Signed and unsigned variants\<close>

definition ascii :: "u8 list \<Rightarrow> bool" where
  "ascii name = (\<forall>i < length name. unat (name ! i) < 128)"

lemma char_val_ascii:
  assumes "unat c < 128"
  shows "char_val u c = char_val u' c"
proof -
  have "bit c n \<Longrightarrow> n < 7" for n using bit_below [of c 7] assms by simp
  then have "scast c = (ucast c :: u32)"
    by (intro bit_word_eqI) (fastforce simp: bit_simps min_def split: if_splits)
  then show ?thesis by (simp add: char_val_def)
qed

lemma prep_chars_ascii:
  "ascii src \<Longrightarrow> prep_chars src len u p i b d n dl = prep_chars src len u' p i b d n dl"
proof (induction src len u p i b d n dl rule: prep_chars.induct)
  case (1 src len u p i b d n dl)
  show ?case
  proof (cases "i < len \<and> nat i < length src")
    case True
    then have c: "char_val u (src ! nat i) = char_val u' (src ! nat i)"
      using 1(3) by (intro char_val_ascii) (simp add: ascii_def)
    show ?thesis
      using 1(1,2) [of "src ! nat i"] True 1(3) c
      by (auto simp: prep_chars.simps [of _ _ _ _ i] Let_def split: option.splits intro!: Option.bind_cong)
  next
    case False
    then show ?thesis by (auto simp: prep_chars.simps [of _ _ _ _ i] rd8_def)
  qed
qed

lemma legacy_loop_ascii: "ascii name \<Longrightarrow> legacy_loop name len u i h1 h2 = legacy_loop name len u' i h1 h2"
proof (induction name len u i h1 h2 rule: legacy_loop.induct)
  case (1 name len u i h1 h2)
  show ?case
  proof (cases "i < len \<and> nat i < length name")
    case True
    then have c: "char_val u (name ! nat i) = char_val u' (name ! nat i)"
      using 1(2) by (intro char_val_ascii) (simp add: ascii_def)
    show ?thesis
      using 1(1) [of "name ! nat i"] True 1(2) c
      by (simp add: legacy_loop.simps [of _ _ _ i] Let_def)
  next
    case False
    then show ?thesis by (auto simp: legacy_loop.simps [of _ _ _ i] rd8_def)
  qed
qed

lemma ext2_prep_hashbuf_ascii:
  "ascii src \<Longrightarrow> ext2_prep_hashbuf src slen d dlen u = ext2_prep_hashbuf src slen d dlen u'"
  unfolding ext2_prep_hashbuf_def Let_def by (simp only: prep_chars_ascii [of src _ u _ _ _ _ _ _ u'])

lemma ascii_drop: "ascii name \<Longrightarrow> ascii (drop n name)"
  by (simp add: ascii_def)

lemma htree_tea_loop_ascii:
  "ascii name \<Longrightarrow> htree_tea_loop name len u h d = htree_tea_loop name len u' h d"
proof (induction name len u h d rule: htree_tea_loop.induct)
  case (1 name len u h d)
  then show ?case
    using ext2_prep_hashbuf_ascii [OF 1(2), of _ d 16 u u'] ascii_drop [OF 1(2)]
    by (subst (1 2) htree_tea_loop.simps) (auto intro!: Option.bind_cong)
qed

lemma htree_md4_loop_ascii:
  "ascii name \<Longrightarrow> htree_md4_loop name len u h d = htree_md4_loop name len u' h d"
proof (induction name len u h d rule: htree_md4_loop.induct)
  case (1 name len u h d)
  then show ?case
    using ext2_prep_hashbuf_ascii [OF 1(2), of _ d 32 u u'] ascii_drop [OF 1(2)]
    by (subst (1 2) htree_md4_loop.simps) (auto intro!: Option.bind_cong)
qed

text \<open>
  On names of 7-bit characters the signed and the unsigned variant of each hash agree, so a
  directory written with one can be searched with the other.
\<close>

theorem ext2_htree_hash_signedness:
  assumes "ascii name" "ver = EXT2_HTREE_LEGACY \<or> ver = EXT2_HTREE_HALF_MD4 \<or> ver = EXT2_HTREE_TEA"
  shows "ext2_htree_hash (Some name) len seed (ver + 3) hash_major hash_minor d =
    ext2_htree_hash (Some name) len seed ver hash_major hash_minor d"
  using assms(2) htree_tea_loop_ascii [OF assms(1), of len True "htree_seed seed" d False]
    htree_md4_loop_ascii [OF assms(1), of len True "htree_seed seed" d False]
    legacy_loop_ascii [OF assms(1), of len True 0 _ _ False]
  by (auto simp: ext2_htree_hash_def ext2_legacy_hash_def Let_def)

theorem ext2_htree_hash_signedness_witness:
  "ext2_htree_hash (Some [100, 105, 114]) 3 None EXT2_HTREE_TEA_UNSIGNED True True (replicate 8 0) =
   ext2_htree_hash (Some [100, 105, 114]) 3 None EXT2_HTREE_TEA True True (replicate 8 0)"
  using ext2_htree_hash_signedness [of "[100, 105, 114]" EXT2_HTREE_TEA 3 None True True "replicate 8 0"]
  by (simp add: ascii_def nth_Cons split: nat.splits)

end
