(* ===== verification/Bcache.thy ===== *)
theory Bcache
  imports Prelude
begin

text \<open>
  The buffer cache, \<open>src/ext4_bcache.c\<close> and \<open>include/ext4_bcache.h\<close>. The operations that also need the
  block device (\<open>ext4_bcache_free\<close>, \<open>ext4_bcache_cleanup\<close>) are in theory \<open>Blockdev\<close>.

  A cache never holds two buffers of one block, so the heap of \<open>struct ext4_buf\<close> objects is a map from
  the block address, and a pointer to a buffer is that address: \<open>bufs bc lba = None\<close> is a buffer that
  was freed or never allocated, and following such a pointer is the outcome \<open>None\<close>. The two red-black
  trees (macros of \<open>include/misc/tree.h\<close>) are the sequences of their nodes in order, the dirty list
  (\<open>include/misc/queue.h\<close>) the sequence of its nodes.

  \<open>malloc_oracle\<close> is the outcome of the allocations to come: \<open>None\<close> for a null pointer, otherwise the
  bytes the fresh memory happens to hold.
\<close>

section \<open>State\<close>

abbreviation (input) BC_UPTODATE :: nat where "BC_UPTODATE \<equiv> 0"
abbreviation (input) BC_DIRTY :: nat where "BC_DIRTY \<equiv> 1"
abbreviation (input) BC_FLUSH :: nat where "BC_FLUSH \<equiv> 2"
abbreviation (input) BC_TMP :: nat where "BC_TMP \<equiv> 3"

text \<open>\<open>end_write\<close> is the installed callback with its argument, if any.\<close>

record ext4_buf =
  buf_flags :: u32
  buf_lba :: u64
  buf_data :: "u8 list"
  lru_id :: u32
  refctr :: u32
  on_dirty_list :: bool
  end_write :: "u64 option"

record ext4_bcache =
  bc_cnt :: u32
  itemsize :: u32
  lru_ctr :: u32
  ref_blocks :: u32
  max_ref_blocks :: u32
  dont_shake :: bool
  bufs :: "u64 \<Rightarrow> ext4_buf option"
  lba_root :: "u64 list"
  lru_root :: "u64 list"
  dirty_list :: "u64 list"
  malloc_oracle :: "nat \<Rightarrow> (nat \<Rightarrow> u8) option"
  mallocs :: nat

record ext4_block =
  lb_id :: u64
  blk_buf :: "u64 option"
  blk_data :: "u64 option"

section \<open>Flags and reference counter of a buffer\<close>

definition ext4_bcache_set_flag :: "ext4_buf \<Rightarrow> nat \<Rightarrow> ext4_buf" where
  "ext4_bcache_set_flag buf b = buf\<lparr>buf_flags := buf_flags buf OR push_bit b 1\<rparr>"

definition ext4_bcache_clear_flag :: "ext4_buf \<Rightarrow> nat \<Rightarrow> ext4_buf" where
  "ext4_bcache_clear_flag buf b = buf\<lparr>buf_flags := buf_flags buf AND NOT (push_bit b 1)\<rparr>"

definition ext4_bcache_test_flag :: "ext4_buf \<Rightarrow> nat \<Rightarrow> bool" where
  "ext4_bcache_test_flag buf b = (drop_bit b (buf_flags buf AND push_bit b 1) \<noteq> 0)"

definition ext4_bcache_set_dirty :: "ext4_buf \<Rightarrow> ext4_buf" where
  "ext4_bcache_set_dirty buf =
     ext4_bcache_set_flag (ext4_bcache_set_flag buf BC_UPTODATE) BC_DIRTY"

definition ext4_bcache_clear_dirty :: "ext4_buf \<Rightarrow> ext4_buf" where
  "ext4_bcache_clear_dirty buf =
     ext4_bcache_clear_flag (ext4_bcache_clear_flag buf BC_UPTODATE) BC_DIRTY"

definition ext4_bcache_inc_ref :: "ext4_buf \<Rightarrow> ext4_buf" where
  "ext4_bcache_inc_ref buf = buf\<lparr>refctr := refctr buf + 1\<rparr>"

definition ext4_bcache_dec_ref :: "ext4_buf \<Rightarrow> ext4_buf" where
  "ext4_bcache_dec_ref buf = buf\<lparr>refctr := refctr buf - 1\<rparr>"

section \<open>Trees and list\<close>

text \<open>\<open>RB_INSERT\<close> (a node with an equal key is not inserted), \<open>RB_REMOVE\<close> and \<open>SLIST_REMOVE\<close> (removing a
  node that is not linked corrupts the structure).\<close>

fun rb_insert :: "('a \<Rightarrow> 'k::linorder) \<Rightarrow> 'a \<Rightarrow> 'a list \<Rightarrow> 'a list" where
  "rb_insert key x [] = [x]"
| "rb_insert key x (y # ys) =
     (if key x < key y then x # y # ys
      else if key x = key y then y # ys
      else y # rb_insert key x ys)"

definition list_unlink :: "'a \<Rightarrow> 'a list \<Rightarrow> 'a list option" where
  "list_unlink x xs = (if x \<in> set xs then Some (remove1 x xs) else None)"

definition put_buf :: "ext4_bcache \<Rightarrow> u64 \<Rightarrow> ext4_buf \<Rightarrow> ext4_bcache" where
  "put_buf bc p buf = bc\<lparr>bufs := (bufs bc)(p \<mapsto> buf)\<rparr>"

text \<open>The key the LRU tree compares.\<close>

definition lru_key :: "ext4_bcache \<Rightarrow> u64 \<Rightarrow> u32" where
  "lru_key bc p = (case bufs bc p of Some buf \<Rightarrow> lru_id buf | None \<Rightarrow> 0)"

definition ext4_bcache_insert_dirty_node :: "ext4_bcache \<Rightarrow> u64 \<Rightarrow> ext4_bcache option" where
  "ext4_bcache_insert_dirty_node bc p = do {
     buf \<leftarrow> bufs bc p;
     if \<not> on_dirty_list buf
     then Some (put_buf (bc\<lparr>dirty_list := p # dirty_list bc\<rparr>) p (buf\<lparr>on_dirty_list := True\<rparr>))
     else Some bc }"

definition ext4_bcache_remove_dirty_node :: "ext4_bcache \<Rightarrow> u64 \<Rightarrow> ext4_bcache option" where
  "ext4_bcache_remove_dirty_node bc p = do {
     buf \<leftarrow> bufs bc p;
     if on_dirty_list buf then do {
       dl \<leftarrow> list_unlink p (dirty_list bc);
       Some (put_buf (bc\<lparr>dirty_list := dl\<rparr>) p (buf\<lparr>on_dirty_list := False\<rparr>)) }
     else Some bc }"

section \<open>Operations\<close>

definition ext4_bcache_init_dynamic :: "ext4_bcache \<Rightarrow> u32 \<Rightarrow> u32 \<Rightarrow> (errno \<times> ext4_bcache) option" where
  "ext4_bcache_init_dynamic bc cnt item_size = do {
     _ \<leftarrow> ext4_assert (cnt \<noteq> 0 \<and> item_size \<noteq> 0);
     Some (EOK, bc\<lparr>bc_cnt := cnt, itemsize := item_size, lru_ctr := 0, ref_blocks := 0, max_ref_blocks := 0,
       dont_shake := False, bufs := Map.empty, lba_root := [], lru_root := [], dirty_list := []\<rparr>) }"

definition ext4_bcache_fini_dynamic :: "ext4_bcache \<Rightarrow> errno \<times> ext4_bcache" where
  "ext4_bcache_fini_dynamic bc =
     (EOK, bc\<lparr>bc_cnt := 0, itemsize := 0, lru_ctr := 0, ref_blocks := 0, max_ref_blocks := 0,
       dont_shake := False, bufs := Map.empty, lba_root := [], lru_root := [], dirty_list := []\<rparr>)"

text \<open>The two allocations of \<open>ext4_buf_alloc\<close>: the data, then the zeroed descriptor.\<close>

definition ext4_buf_alloc :: "ext4_bcache \<Rightarrow> u64 \<Rightarrow> ext4_buf option \<times> ext4_bcache" where
  "ext4_buf_alloc bc lba =
     (case malloc_oracle bc (mallocs bc) of
        None \<Rightarrow> (None, bc\<lparr>mallocs := mallocs bc + 1\<rparr>)
      | Some junk \<Rightarrow>
          (case malloc_oracle bc (mallocs bc + 1) of
             None \<Rightarrow> (None, bc\<lparr>mallocs := mallocs bc + 2\<rparr>)
           | Some _ \<Rightarrow>
               (Some \<lparr>buf_flags = 0, buf_lba = lba, buf_data = map junk [0..<unat (itemsize bc)],
                  lru_id = 0, refctr = 0, on_dirty_list = False, end_write = None\<rparr>,
                bc\<lparr>mallocs := mallocs bc + 2\<rparr>)))"

definition ext4_buf_free :: "ext4_bcache \<Rightarrow> u64 \<Rightarrow> ext4_bcache" where
  "ext4_buf_free bc p = bc\<lparr>bufs := (bufs bc)(p := None)\<rparr>"

definition ext4_buf_lookup :: "ext4_bcache \<Rightarrow> u64 \<Rightarrow> u64 option" where
  "ext4_buf_lookup bc lba = (if lba \<in> set (lba_root bc) then Some lba else None)"

definition ext4_buf_lowest_lru :: "ext4_bcache \<Rightarrow> u64 option" where
  "ext4_buf_lowest_lru bc = (case lru_root bc of [] \<Rightarrow> None | p # _ \<Rightarrow> Some p)"

definition ext4_bcache_drop_buf :: "ext4_bcache \<Rightarrow> u64 \<Rightarrow> ext4_bcache option" where
  "ext4_bcache_drop_buf bc p = do {
     buf \<leftarrow> bufs bc p;
     bc \<leftarrow> (if refctr buf \<noteq> 0 then Some bc else do {
       lru \<leftarrow> list_unlink p (lru_root bc);
       Some (bc\<lparr>lru_root := lru\<rparr>) });
     lbas \<leftarrow> list_unlink p (lba_root bc);
     let bc = bc\<lparr>lba_root := lbas\<rparr>;
     bc \<leftarrow> (if ext4_bcache_test_flag buf BC_DIRTY then ext4_bcache_remove_dirty_node bc p else Some bc);
     let bc = ext4_buf_free bc p;
     Some (bc\<lparr>ref_blocks := ref_blocks bc - 1\<rparr>) }"

definition ext4_bcache_invalidate_buf :: "ext4_bcache \<Rightarrow> u64 \<Rightarrow> ext4_bcache option" where
  "ext4_bcache_invalidate_buf bc p = do {
     buf \<leftarrow> bufs bc p;
     let bc = put_buf bc p (buf\<lparr>end_write := None\<rparr>);
     bc \<leftarrow> (if ext4_bcache_test_flag buf BC_DIRTY then ext4_bcache_remove_dirty_node bc p else Some bc);
     buf \<leftarrow> bufs bc p;
     Some (put_buf bc p (ext4_bcache_clear_dirty buf)) }"

text \<open>\<open>RB_FOREACH_FROM\<close>: the nodes from the given one on, until one past the end.\<close>

fun invalidate_from :: "ext4_bcache \<Rightarrow> u64 \<Rightarrow> u64 list \<Rightarrow> ext4_bcache option" where
  "invalidate_from bc end_lba [] = Some bc"
| "invalidate_from bc end_lba (p # ps) = do {
     buf \<leftarrow> bufs bc p;
     if buf_lba buf > end_lba then Some bc
     else do {
       bc \<leftarrow> ext4_bcache_invalidate_buf bc p;
       invalidate_from bc end_lba ps }}"

definition ext4_bcache_invalidate_lba :: "ext4_bcache \<Rightarrow> u64 \<Rightarrow> u32 \<Rightarrow> ext4_bcache option" where
  "ext4_bcache_invalidate_lba bc from_lba cnt =
     (let end_lba = from_lba + ucast cnt - 1
      in case ext4_buf_lookup bc from_lba of
           None \<Rightarrow> Some bc
         | Some p \<Rightarrow> invalidate_from bc end_lba (dropWhile (\<lambda>q. q \<noteq> p) (lba_root bc)))"

definition ext4_bcache_find_get ::
  "ext4_bcache \<Rightarrow> ext4_block \<Rightarrow> u64 \<Rightarrow> (u64 option \<times> ext4_block \<times> ext4_bcache) option" where
  "ext4_bcache_find_get bc b lba =
     (case ext4_buf_lookup bc lba of
        None \<Rightarrow> Some (None, b, bc)
      | Some p \<Rightarrow> do {
          buf \<leftarrow> bufs bc p;
          bc \<leftarrow> (if refctr buf = 0 then do {
             let bc = bc\<lparr>lru_ctr := lru_ctr bc + 1\<rparr>;
             let bc = put_buf bc p (buf\<lparr>lru_id := lru_ctr bc\<rparr>);
             lru \<leftarrow> list_unlink p (lru_root bc);
             let bc = bc\<lparr>lru_root := lru\<rparr>;
             if ext4_bcache_test_flag buf BC_DIRTY then ext4_bcache_remove_dirty_node bc p else Some bc }
           else Some bc);
          buf \<leftarrow> bufs bc p;
          let bc = put_buf bc p (ext4_bcache_inc_ref buf);
          Some (Some p, b\<lparr>lb_id := lba, blk_buf := Some p, blk_data := Some p\<rparr>, bc) })"

definition ext4_bcache_alloc ::
  "ext4_bcache \<Rightarrow> ext4_block \<Rightarrow> (errno \<times> bool \<times> ext4_block \<times> ext4_bcache) option" where
  "ext4_bcache_alloc bc b = do {
     (found, b, bc) \<leftarrow> ext4_bcache_find_get bc b (lb_id b);
     case found of
       Some _ \<Rightarrow> Some (EOK, False, b, bc)
     | None \<Rightarrow>
        (case ext4_buf_alloc bc (lb_id b) of
           (None, bc) \<Rightarrow> Some (ENOMEM, False, b, bc)
         | (Some buf, bc) \<Rightarrow>
             let p = lb_id b;
                 bc = put_buf bc p buf;
                 bc = bc\<lparr>lba_root := rb_insert id p (lba_root bc)\<rparr>;
                 bc = bc\<lparr>ref_blocks := ref_blocks bc + 1\<rparr>;
                 bc = (if max_ref_blocks bc < ref_blocks bc
                       then bc\<lparr>max_ref_blocks := ref_blocks bc\<rparr> else bc);
                 buf = ext4_bcache_inc_ref buf;
                 bc = bc\<lparr>lru_ctr := lru_ctr bc + 1\<rparr>;
                 bc = put_buf bc p (buf\<lparr>lru_id := lru_ctr bc\<rparr>)
             in Some (EOK, True, b\<lparr>blk_buf := Some p, blk_data := Some p\<rparr>, bc)) }"

definition ext4_bcache_is_full :: "ext4_bcache \<Rightarrow> bool" where
  "ext4_bcache_is_full bc = (bc_cnt bc \<le> ref_blocks bc)"

section \<open>Facts about flags, trees and updates\<close>

lemma flag_bit: "ext4_bcache_test_flag buf b \<longleftrightarrow> bit (buf_flags buf) b"
proof -
  have "drop_bit b (buf_flags buf AND push_bit b 1) = 0 \<longleftrightarrow> \<not> bit (buf_flags buf) b"
  proof
    assume "drop_bit b (buf_flags buf AND push_bit b 1) = 0"
    then have "\<not> bit (drop_bit b (buf_flags buf AND push_bit b 1)) 0" by simp
    then show "\<not> bit (buf_flags buf) b"
      by (auto simp: bit_simps dest: bit_imp_le_length simp del: bit_0)
  next
    assume "\<not> bit (buf_flags buf) b"
    then show "drop_bit b (buf_flags buf AND push_bit b 1) = 0"
      by (intro bit_word_eqI) (auto simp: bit_simps intro!: gr0I)
  qed
  then show ?thesis by (simp add: ext4_bcache_test_flag_def)
qed

lemma test_flag_simps [simp]:
  "b < 32 \<Longrightarrow> ext4_bcache_test_flag (ext4_bcache_set_flag buf c) b = (b = c \<or> ext4_bcache_test_flag buf b)"
  "b < 32 \<Longrightarrow> ext4_bcache_test_flag (ext4_bcache_clear_flag buf c) b = (b \<noteq> c \<and> ext4_bcache_test_flag buf b)"
  "ext4_bcache_test_flag (buf\<lparr>refctr := r\<rparr>) b = ext4_bcache_test_flag buf b"
  "ext4_bcache_test_flag (buf\<lparr>lru_id := i\<rparr>) b = ext4_bcache_test_flag buf b"
  "ext4_bcache_test_flag (buf\<lparr>on_dirty_list := d\<rparr>) b = ext4_bcache_test_flag buf b"
  "ext4_bcache_test_flag (buf\<lparr>end_write := e\<rparr>) b = ext4_bcache_test_flag buf b"
  "ext4_bcache_test_flag (buf\<lparr>buf_data := dat\<rparr>) b = ext4_bcache_test_flag buf b"
  by (auto simp: flag_bit ext4_bcache_set_flag_def ext4_bcache_clear_flag_def bit_simps)

lemma flag_other_fields [simp]:
  "buf_lba (ext4_bcache_set_flag buf c) = buf_lba buf" "buf_lba (ext4_bcache_clear_flag buf c) = buf_lba buf"
  "buf_data (ext4_bcache_set_flag buf c) = buf_data buf" "buf_data (ext4_bcache_clear_flag buf c) = buf_data buf"
  "lru_id (ext4_bcache_set_flag buf c) = lru_id buf" "lru_id (ext4_bcache_clear_flag buf c) = lru_id buf"
  "refctr (ext4_bcache_set_flag buf c) = refctr buf" "refctr (ext4_bcache_clear_flag buf c) = refctr buf"
  "on_dirty_list (ext4_bcache_set_flag buf c) = on_dirty_list buf"
  "on_dirty_list (ext4_bcache_clear_flag buf c) = on_dirty_list buf"
  "end_write (ext4_bcache_set_flag buf c) = end_write buf"
  "end_write (ext4_bcache_clear_flag buf c) = end_write buf"
  by (simp_all add: ext4_bcache_set_flag_def ext4_bcache_clear_flag_def)

lemma put_buf_fields [simp]:
  "bufs (put_buf bc p buf) = (bufs bc)(p \<mapsto> buf)" "lba_root (put_buf bc p buf) = lba_root bc"
  "lru_root (put_buf bc p buf) = lru_root bc" "dirty_list (put_buf bc p buf) = dirty_list bc"
  "lru_ctr (put_buf bc p buf) = lru_ctr bc" "itemsize (put_buf bc p buf) = itemsize bc"
  "ref_blocks (put_buf bc p buf) = ref_blocks bc" "bc_cnt (put_buf bc p buf) = bc_cnt bc"
  "dont_shake (put_buf bc p buf) = dont_shake bc" "mallocs (put_buf bc p buf) = mallocs bc"
  "malloc_oracle (put_buf bc p buf) = malloc_oracle bc" "max_ref_blocks (put_buf bc p buf) = max_ref_blocks bc"
  by (simp_all add: put_buf_def)

lemma set_rb_insert:
  "\<forall>y \<in> set xs. key y \<noteq> key x \<Longrightarrow> set (rb_insert key x xs) = insert x (set xs)"
  by (induction xs) auto

lemma length_rb_insert:
  "\<forall>y \<in> set xs. key y \<noteq> key x \<Longrightarrow> length (rb_insert key x xs) = Suc (length xs)"
  by (induction xs) auto

lemma sorted_rb_insert:
  "sorted_wrt (\<lambda>a b. key a < key b) xs \<Longrightarrow> \<forall>y \<in> set xs. key y \<noteq> key x \<Longrightarrow>
     sorted_wrt (\<lambda>a b. key a < key b) (rb_insert key x xs)"
proof (induction xs)
  case (Cons y ys)
  then have "set (rb_insert key x ys) = insert x (set ys)" by (intro set_rb_insert) simp
  with Cons show ?case by (auto intro: less_trans)
qed simp

lemma sorted_wrt_remove1: "sorted_wrt P xs \<Longrightarrow> sorted_wrt P (remove1 x xs)"
  by (induction xs) (auto dest: notin_set_remove1)

lemma sorted_wrt_distinct: "sorted_wrt (\<lambda>a b. key a < (key b :: 'k::linorder)) xs \<Longrightarrow> distinct xs"
  by (induction xs) auto

lemma list_unlink_Some: "x \<in> set xs \<Longrightarrow> list_unlink x xs = Some (remove1 x xs)"
  by (simp add: list_unlink_def)

lemma remove1_notin: "x \<notin> set xs \<Longrightarrow> remove1 x xs = xs"
  by (induction xs) auto

section \<open>Well-formedness\<close>

text \<open>
  The invariant of the cache: the LBA tree holds every buffer under its address, in order; LRU ids
  are distinct and handed out by the counter; the LRU tree holds exactly the unreferenced buffers,
  oldest first; the dirty list holds unreferenced buffers with valid data to be written, each once;
  \<open>ref_blocks\<close> counts the buffers.
\<close>

definition buf_ok :: "ext4_bcache \<Rightarrow> u64 \<Rightarrow> ext4_buf \<Rightarrow> bool" where
  "buf_ok bc p buf =
     (buf_lba buf = p \<and> length (buf_data buf) = unat (itemsize bc) \<and> 0 < lru_id buf \<and> lru_id buf \<le> lru_ctr bc \<and>
      (on_dirty_list buf \<longrightarrow> refctr buf = 0 \<and> ext4_bcache_test_flag buf BC_DIRTY
         \<and> ext4_bcache_test_flag buf BC_UPTODATE))"

definition wf_lba :: "ext4_bcache \<Rightarrow> bool" where
  "wf_lba bc = (sorted_wrt (<) (lba_root bc) \<and> set (lba_root bc) = dom (bufs bc) \<and>
     ref_blocks bc = of_nat (length (lba_root bc)))"

definition wf_lru :: "ext4_bcache \<Rightarrow> bool" where
  "wf_lru bc = (inj_on (lru_key bc) (dom (bufs bc)) \<and>
     sorted_wrt (\<lambda>p q. lru_key bc p < lru_key bc q) (lru_root bc) \<and>
     set (lru_root bc) = {p. \<exists>buf. bufs bc p = Some buf \<and> refctr buf = 0})"

definition wf_dirty :: "ext4_bcache \<Rightarrow> bool" where
  "wf_dirty bc = (distinct (dirty_list bc) \<and>
     set (dirty_list bc) = {p. \<exists>buf. bufs bc p = Some buf \<and> on_dirty_list buf})"

definition bcache_wf :: "ext4_bcache \<Rightarrow> bool" where
  "bcache_wf bc = (wf_lba bc \<and> wf_lru bc \<and> wf_dirty bc \<and>
     (\<forall>p buf. bufs bc p = Some buf \<longrightarrow> buf_ok bc p buf))"

lemma bcache_wfD:
  assumes "bcache_wf bc"
  shows "sorted_wrt (<) (lba_root bc)" "set (lba_root bc) = dom (bufs bc)"
    "inj_on (lru_key bc) (dom (bufs bc))" "sorted_wrt (\<lambda>p q. lru_key bc p < lru_key bc q) (lru_root bc)"
    "set (lru_root bc) = {p. \<exists>buf. bufs bc p = Some buf \<and> refctr buf = 0}"
    "distinct (dirty_list bc)" "set (dirty_list bc) = {p. \<exists>buf. bufs bc p = Some buf \<and> on_dirty_list buf}"
    "bufs bc p = Some buf \<Longrightarrow> buf_ok bc p buf" "distinct (lba_root bc)" "distinct (lru_root bc)"
    "ref_blocks bc = of_nat (length (lba_root bc))"
  using assms sorted_wrt_distinct [of id "lba_root bc"] sorted_wrt_distinct [of "lru_key bc" "lru_root bc"]
  by (simp_all add: bcache_wf_def wf_lba_def wf_lru_def wf_dirty_def)

lemma bcache_wf_lookup: "bcache_wf bc \<Longrightarrow> ext4_buf_lookup bc lba = (if lba \<in> dom (bufs bc) then Some lba else None)"
  by (simp add: ext4_buf_lookup_def bcache_wfD(2))

text \<open>The counter bounds the number of buffers, so that it cannot wrap before the LRU ids do.\<close>

lemma bcache_wf_count:
  assumes "bcache_wf bc"
  shows "length (lba_root bc) \<le> unat (lru_ctr bc)"
proof -
  have inj: "inj_on (\<lambda>p. unat (lru_key bc p)) (set (lba_root bc))"
  proof (rule inj_onI)
    fix p q assume "p \<in> set (lba_root bc)" "q \<in> set (lba_root bc)" "unat (lru_key bc p) = unat (lru_key bc q)"
    then show "p = q"
      using inj_onD [OF bcache_wfD(3) [OF assms], of p q] bcache_wfD(2) [OF assms] by (metis word_unat_eq_iff)
  qed
  have "(\<lambda>p. unat (lru_key bc p)) ` set (lba_root bc) \<subseteq> {1..unat (lru_ctr bc)}"
  proof (rule image_subsetI)
    fix p assume "p \<in> set (lba_root bc)"
    then obtain buf where buf: "bufs bc p = Some buf" using bcache_wfD(2) [OF assms] by blast
    from bcache_wfD(8) [OF assms buf] have "0 < lru_id buf" "lru_id buf \<le> lru_ctr bc"
      by (simp_all add: buf_ok_def)
    then show "unat (lru_key bc p) \<in> {1..unat (lru_ctr bc)}"
      by (simp add: lru_key_def buf word_le_nat_alt word_less_nat_alt Suc_le_eq)
  qed
  then have "card (set (lba_root bc)) \<le> card {1..unat (lru_ctr bc)}"
    by (rule card_inj_on_le [OF inj]) simp
  then show ?thesis using bcache_wfD(9) [OF assms] by (simp add: distinct_card)
qed

section \<open>What the operations do on a well-formed cache\<close>

lemma lru_key_cong: "(\<And>p. map_option lru_id (bufs bc' p) = map_option lru_id (bufs bc p)) \<Longrightarrow> lru_key bc' = lru_key bc"
  by (rule ext) (metis lru_key_def option.case_eq_if option.map_sel map_option_is_None)

lemma ext4_bcache_remove_dirty_node_eq:
  assumes "bcache_wf bc" "bufs bc p = Some buf"
  shows "ext4_bcache_remove_dirty_node bc p =
    Some (bc\<lparr>dirty_list := remove1 p (dirty_list bc),
             bufs := (bufs bc)(p \<mapsto> buf\<lparr>on_dirty_list := False\<rparr>)\<rparr>)"
proof (cases "on_dirty_list buf")
  case True
  then have "p \<in> set (dirty_list bc)" using assms by (simp add: bcache_wfD(7) [OF assms(1)])
  then show ?thesis
    using True assms(2) by (simp add: ext4_bcache_remove_dirty_node_def list_unlink_Some put_buf_def)
next
  case False
  then have "p \<notin> set (dirty_list bc)" using assms(2) by (simp add: bcache_wfD(7) [OF assms(1)])
  moreover have "(bufs bc)(p \<mapsto> buf\<lparr>on_dirty_list := False\<rparr>) = bufs bc"
    using False assms(2) by (auto intro!: ext)
  ultimately show ?thesis using False assms(2) by (simp add: ext4_bcache_remove_dirty_node_def remove1_notin)
qed

text \<open>The guard \<open>BC_DIRTY\<close> of the callers makes no difference: clean buffers are not on the list.\<close>

lemma remove_dirty_guarded:
  assumes "bcache_wf bc" "bufs bc p = Some buf"
  shows "(if ext4_bcache_test_flag buf BC_DIRTY then ext4_bcache_remove_dirty_node bc p else Some bc) =
    Some (bc\<lparr>dirty_list := remove1 p (dirty_list bc),
             bufs := (bufs bc)(p \<mapsto> buf\<lparr>on_dirty_list := False\<rparr>)\<rparr>)"
proof (cases "ext4_bcache_test_flag buf BC_DIRTY")
  case False
  then have off: "\<not> on_dirty_list buf" using bcache_wfD(8) [OF assms] by (auto simp: buf_ok_def)
  then have "p \<notin> set (dirty_list bc)" using assms(2) by (simp add: bcache_wfD(7) [OF assms(1)])
  moreover have "(bufs bc)(p \<mapsto> buf\<lparr>on_dirty_list := False\<rparr>) = bufs bc"
    using off assms(2) by (auto intro!: ext)
  ultimately show ?thesis using False by (simp add: remove1_notin)
qed (simp add: ext4_bcache_remove_dirty_node_eq [OF assms])

lemma bcache_wf_clear_dirty_node:
  assumes "bcache_wf bc" "bufs bc p = Some buf"
  shows "bcache_wf (bc\<lparr>dirty_list := remove1 p (dirty_list bc),
             bufs := (bufs bc)(p \<mapsto> buf\<lparr>on_dirty_list := False\<rparr>)\<rparr>)" (is "bcache_wf ?bc")
proof -
  have k: "lru_key ?bc = lru_key bc" by (rule lru_key_cong) (simp add: assms(2))
  note D = bcache_wfD [OF assms(1)]
  have "wf_lba ?bc" using D(1,2,11) assms(2) by (auto simp: wf_lba_def)
  moreover have "dom (bufs ?bc) = dom (bufs bc)" using assms(2) by auto
  then have "wf_lru ?bc" using D(3,4,5) assms(2) by (simp only: wf_lru_def k) auto
  moreover have "wf_dirty ?bc" using D(6,7) by (auto simp: wf_dirty_def set_remove1_eq)
  moreover have "buf_ok ?bc q b" if "bufs ?bc q = Some b" for q b
    using that D(8) [of q] D(8) [OF assms(2)] by (auto simp: buf_ok_def split: if_splits)
  ultimately show ?thesis by (simp add: bcache_wf_def)
qed

definition bcache_dropped :: "ext4_bcache \<Rightarrow> u64 \<Rightarrow> ext4_bcache" where
  "bcache_dropped bc p =
     bc\<lparr>lru_root := remove1 p (lru_root bc), lba_root := remove1 p (lba_root bc),
        dirty_list := remove1 p (dirty_list bc), bufs := (bufs bc)(p := None), ref_blocks := ref_blocks bc - 1\<rparr>"

lemma ext4_bcache_drop_buf_eq:
  assumes wf: "bcache_wf bc" and buf: "bufs bc p = Some buf"
  shows "ext4_bcache_drop_buf bc p = Some (bcache_dropped bc p)"
proof -
  note D = bcache_wfD [OF wf]
  have lba: "p \<in> set (lba_root bc)" using D(2) buf by blast
  have lru: "(refctr buf = 0) = (p \<in> set (lru_root bc))" using D(5) buf by simp
  have dirty: "on_dirty_list buf = (p \<in> set (dirty_list bc))" using D(7) buf by simp
  have od: "on_dirty_list buf \<Longrightarrow> ext4_bcache_test_flag buf BC_DIRTY"
    using D(8) [OF buf] by (simp add: buf_ok_def)
  show ?thesis
    by (cases "refctr buf = 0"; cases "ext4_bcache_test_flag buf BC_DIRTY"; cases "on_dirty_list buf")
      (use lba lru dirty od buf in \<open>simp_all add: ext4_bcache_drop_buf_def bcache_dropped_def list_unlink_Some
         remove1_notin ext4_bcache_remove_dirty_node_def put_buf_def ext4_buf_free_def\<close>)
qed

lemma bcache_wf_dropped:
  assumes wf: "bcache_wf bc" and buf: "bufs bc p = Some buf"
  shows "bcache_wf (bcache_dropped bc p)"
proof -
  let ?bc = "bcache_dropped bc p"
  note D = bcache_wfD [OF wf] and defs = bcache_dropped_def
  have k: "q \<noteq> p \<Longrightarrow> lru_key ?bc q = lru_key bc q" for q by (simp add: lru_key_def defs)
  have lba: "p \<in> set (lba_root bc)" using D(2) buf by blast
  have "Suc 0 \<le> length (lba_root bc)" using lba by (cases "lba_root bc") simp_all
  then have "ref_blocks ?bc = of_nat (length (lba_root ?bc))"
    using D(11) lba by (simp add: defs length_remove1 of_nat_diff)
  then have "wf_lba ?bc"
    using D(1,2,9) lba by (auto simp: wf_lba_def defs sorted_wrt_remove1 set_remove1_eq)
  moreover have "wf_lru ?bc"
  proof -
    have "inj_on (lru_key ?bc) (dom (bufs ?bc))"
      using D(3) by (auto simp: inj_on_def k defs split: if_splits) (use k in \<open>auto simp: defs\<close>)
    moreover have "sorted_wrt (\<lambda>a b. lru_key ?bc a < lru_key ?bc b) (lru_root ?bc)"
    proof (rule sorted_wrt_mono_rel [of _ "\<lambda>a b. lru_key bc a < lru_key bc b"])
      show "sorted_wrt (\<lambda>a b. lru_key bc a < lru_key bc b) (lru_root ?bc)"
        using D(4) by (simp add: defs sorted_wrt_remove1)
    qed (use D(10) k in \<open>auto simp: set_remove1_eq bcache_dropped_def\<close>)
    ultimately show ?thesis using D(5,10) by (auto simp: wf_lru_def defs set_remove1_eq)
  qed
  moreover have "wf_dirty ?bc" using D(6,7) by (auto simp: wf_dirty_def defs set_remove1_eq)
  moreover have "buf_ok ?bc q b" if "bufs ?bc q = Some b" for q b
    using that D(8) [of q b] by (auto simp: buf_ok_def defs split: if_splits)
  ultimately show ?thesis by (simp add: bcache_wf_def)
qed

text \<open>A change to one buffer that keeps its keys and its place.\<close>

lemma bcache_wf_update:
  assumes wf: "bcache_wf bc" and buf: "bufs bc p = Some buf"
    and keep: "buf_lba buf' = buf_lba buf" "lru_id buf' = lru_id buf"
      "refctr buf' = 0 \<longleftrightarrow> refctr buf = 0" "on_dirty_list buf' = on_dirty_list buf"
      "length (buf_data buf') = length (buf_data buf)"
    and flags: "on_dirty_list buf \<longrightarrow> ext4_bcache_test_flag buf' BC_DIRTY \<and> ext4_bcache_test_flag buf' BC_UPTODATE"
  shows "bcache_wf (put_buf bc p buf')"
proof -
  let ?bc = "put_buf bc p buf'"
  note D = bcache_wfD [OF wf]
  have k: "lru_key ?bc = lru_key bc" by (rule lru_key_cong) (simp add: buf keep)
  have dom: "dom (bufs ?bc) = dom (bufs bc)" using buf by auto
  have "wf_lba ?bc" using D(1,2,11) dom by (simp add: wf_lba_def)
  moreover have "wf_lru ?bc" using D(3,4,5) dom buf keep(3) unfolding wf_lru_def k by auto
  moreover have "wf_dirty ?bc" using D(6,7) buf keep(4) unfolding wf_dirty_def by auto
  moreover have "buf_ok ?bc q b" if "bufs ?bc q = Some b" for q b
    using that D(8) [of q] D(8) [OF buf] keep flags by (auto simp: buf_ok_def split: if_splits)
  ultimately show ?thesis by (simp add: bcache_wf_def)
qed

definition bcache_touched :: "ext4_bcache \<Rightarrow> u64 \<Rightarrow> ext4_buf \<Rightarrow> ext4_bcache" where
  "bcache_touched bc p buf =
     (if refctr buf = 0
      then bc\<lparr>lru_ctr := lru_ctr bc + 1, lru_root := remove1 p (lru_root bc),
              dirty_list := remove1 p (dirty_list bc),
              bufs := (bufs bc)(p \<mapsto> buf\<lparr>lru_id := lru_ctr bc + 1, on_dirty_list := False, refctr := 1\<rparr>)\<rparr>
      else bc\<lparr>bufs := (bufs bc)(p \<mapsto> buf\<lparr>refctr := refctr buf + 1\<rparr>)\<rparr>)"

lemma ext4_bcache_find_get_miss:
  "bcache_wf bc \<Longrightarrow> bufs bc lba = None \<Longrightarrow> ext4_bcache_find_get bc b lba = Some (None, b, bc)"
  by (simp add: ext4_bcache_find_get_def bcache_wf_lookup domIff)

lemma ext4_bcache_find_get_hit:
  assumes wf: "bcache_wf bc" and buf: "bufs bc lba = Some buf"
  shows "ext4_bcache_find_get bc b lba =
    Some (Some lba, b\<lparr>lb_id := lba, blk_buf := Some lba, blk_data := Some lba\<rparr>, bcache_touched bc lba buf)"
proof -
  note D = bcache_wfD [OF wf]
  have lk: "ext4_buf_lookup bc lba = Some lba" using buf by (simp add: bcache_wf_lookup [OF wf] domIff)
  show ?thesis
  proof (cases "refctr buf = 0")
    case False
    then show ?thesis
      using buf by (simp add: ext4_bcache_find_get_def lk bcache_touched_def ext4_bcache_inc_ref_def put_buf_def)
  next
    case True
    have lru: "lba \<in> set (lru_root bc)" using D(5) buf True by simp
    have dirty: "on_dirty_list buf = (lba \<in> set (dirty_list bc))" using D(7) buf by simp
    have od: "on_dirty_list buf \<Longrightarrow> ext4_bcache_test_flag buf BC_DIRTY"
      using D(8) [OF buf] by (simp add: buf_ok_def)
    have clr: "\<not> on_dirty_list buf \<Longrightarrow>
        buf\<lparr>lru_id := i, on_dirty_list := False, refctr := r\<rparr> = buf\<lparr>lru_id := i, refctr := r\<rparr>" for i r
      by (cases buf) simp
    show ?thesis
      by (cases "ext4_bcache_test_flag buf BC_DIRTY"; cases "on_dirty_list buf")
        (use True lru dirty od buf in \<open>simp_all add: clr ext4_bcache_find_get_def lk bcache_touched_def
           list_unlink_Some remove1_notin ext4_bcache_remove_dirty_node_def put_buf_def
           ext4_bcache_inc_ref_def\<close>)
  qed
qed

text \<open>Fresh LRU ids exceed the ones in use, as long as the 32-bit counter has not run out.\<close>

definition lru_left :: "ext4_bcache \<Rightarrow> bool" where
  "lru_left bc = (unat (lru_ctr bc) + 1 < 2 ^ 32)"

lemma lru_left_Suc: "lru_left bc \<Longrightarrow> unat (lru_ctr bc + 1) = unat (lru_ctr bc) + 1"
  by (simp add: lru_left_def unat_plus_one_nowrap)

lemma fresh_lru:
  assumes "bcache_wf bc" "lru_left bc" "bufs bc q = Some b"
  shows "lru_id b < lru_ctr bc + 1" "lru_key bc q \<noteq> lru_ctr bc + 1" "lru_id b \<noteq> lru_ctr bc + 1"
    "lru_id b \<le> lru_ctr bc + 1"
  using bcache_wfD(8) [OF assms(1,3)] lru_left_Suc [OF assms(2)]
  by (auto simp: buf_ok_def lru_key_def assms(3) word_less_nat_alt word_le_nat_alt)

lemma inj_on_fresh:
  assumes "inj_on f A" "\<And>a. a \<in> A \<Longrightarrow> a \<noteq> p \<Longrightarrow> f' a = f a" "\<And>a. a \<in> A \<Longrightarrow> a \<noteq> p \<Longrightarrow> f a \<noteq> f' p"
  shows "inj_on f' (insert p A)"
proof (rule inj_onI)
  fix x y assume "x \<in> insert p A" "y \<in> insert p A" "f' x = f' y"
  then show "x = y"
    by (cases "x = p"; cases "y = p")
      (use assms(2,3) [of x] assms(2,3) [of y] inj_onD [OF assms(1), of x y] in auto)
qed

lemma bcache_wf_touched:
  assumes wf: "bcache_wf bc" and buf: "bufs bc p = Some buf" and left: "lru_left bc"
    and refs: "refctr buf + 1 \<noteq> 0"
  shows "bcache_wf (bcache_touched bc p buf)"
proof (cases "refctr buf = 0")
  case False
  have eq: "bcache_touched bc p buf = put_buf bc p (buf\<lparr>refctr := refctr buf + 1\<rparr>)"
    using False by (simp add: bcache_touched_def put_buf_def)
  show ?thesis unfolding eq
    by (rule bcache_wf_update [OF wf buf])
      (use False refs bcache_wfD(8) [OF wf buf] in \<open>auto simp: buf_ok_def\<close>)
next
  case True
  let ?bc = "bcache_touched bc p buf"
  note D = bcache_wfD [OF wf]
  have k: "lru_key ?bc q = (if q = p then lru_ctr bc + 1 else lru_key bc q)" for q
    using True by (simp add: bcache_touched_def lru_key_def)
  have dom: "dom (bufs ?bc) = insert p (dom (bufs bc))" using True by (auto simp: bcache_touched_def)
  have ins: "insert p (dom (bufs bc)) = dom (bufs bc)" using buf by auto
  have "wf_lba ?bc" using D(1,2,11) dom ins True by (simp add: wf_lba_def bcache_touched_def)
  moreover have "wf_lru ?bc"
  proof -
    have "inj_on (lru_key ?bc) (dom (bufs ?bc))"
      unfolding dom by (rule inj_on_fresh [OF D(3)]) (use fresh_lru [OF wf left] in \<open>auto simp: k\<close>)
    moreover have "sorted_wrt (\<lambda>a b. lru_key ?bc a < lru_key ?bc b) (lru_root ?bc)"
    proof (rule sorted_wrt_mono_rel [of _ "\<lambda>a b. lru_key bc a < lru_key bc b"])
      show "sorted_wrt (\<lambda>a b. lru_key bc a < lru_key bc b) (lru_root ?bc)"
        using D(4) True by (simp add: bcache_touched_def sorted_wrt_remove1)
    qed (use D(10) True in \<open>auto simp: lru_key_def set_remove1_eq bcache_touched_def\<close>)
    moreover have "set (lru_root ?bc) = {q. \<exists>b. bufs ?bc q = Some b \<and> refctr b = 0}"
      using D(5,10) True by (auto simp: bcache_touched_def set_remove1_eq)
    ultimately show ?thesis by (simp add: wf_lru_def)
  qed
  moreover have "wf_dirty ?bc" using D(6,7) True by (auto simp: wf_dirty_def bcache_touched_def set_remove1_eq)
  moreover have "buf_ok ?bc q b" if "bufs ?bc q = Some b" for q b
    using that D(8) [of q] D(8) [OF buf] True fresh_lru(4) [OF wf left, of q] lru_left_Suc [OF left]
    by (auto simp: buf_ok_def bcache_touched_def word_less_nat_alt split: if_splits)
  ultimately show ?thesis by (simp add: bcache_wf_def)
qed

definition fresh_buf :: "ext4_bcache \<Rightarrow> u64 \<Rightarrow> (nat \<Rightarrow> u8) \<Rightarrow> ext4_buf" where
  "fresh_buf bc p junk =
     \<lparr>buf_flags = 0, buf_lba = p, buf_data = map junk [0..<unat (itemsize bc)], lru_id = lru_ctr bc + 1,
      refctr = 1, on_dirty_list = False, end_write = None\<rparr>"

definition bcache_inserted :: "ext4_bcache \<Rightarrow> u64 \<Rightarrow> (nat \<Rightarrow> u8) \<Rightarrow> ext4_bcache" where
  "bcache_inserted bc p junk =
     bc\<lparr>mallocs := mallocs bc + 2, lba_root := rb_insert id p (lba_root bc), ref_blocks := ref_blocks bc + 1,
        max_ref_blocks := (if max_ref_blocks bc < ref_blocks bc + 1 then ref_blocks bc + 1 else max_ref_blocks bc),
        lru_ctr := lru_ctr bc + 1, bufs := (bufs bc)(p \<mapsto> fresh_buf bc p junk)\<rparr>"

lemma ext4_bcache_alloc_hit:
  assumes "bcache_wf bc" "bufs bc (lb_id b) = Some buf"
  shows "ext4_bcache_alloc bc b =
    Some (EOK, False, b\<lparr>blk_buf := Some (lb_id b), blk_data := Some (lb_id b)\<rparr>, bcache_touched bc (lb_id b) buf)"
  by (simp add: ext4_bcache_alloc_def ext4_bcache_find_get_hit [OF assms])

lemma ext4_bcache_alloc_new:
  assumes "bcache_wf bc" "bufs bc (lb_id b) = None"
    and "malloc_oracle bc (mallocs bc) = Some junk" "malloc_oracle bc (mallocs bc + 1) \<noteq> None"
  shows "ext4_bcache_alloc bc b =
    Some (EOK, True, b\<lparr>blk_buf := Some (lb_id b), blk_data := Some (lb_id b)\<rparr>, bcache_inserted bc (lb_id b) junk)"
  using assms(3,4)
  by (auto simp: ext4_bcache_alloc_def ext4_bcache_find_get_miss [OF assms(1,2)] ext4_buf_alloc_def
      bcache_inserted_def fresh_buf_def put_buf_def ext4_bcache_inc_ref_def Let_def)

lemma ext4_bcache_alloc_nomem:
  assumes "bcache_wf bc" "bufs bc (lb_id b) = None"
    and "malloc_oracle bc (mallocs bc) = None \<or> malloc_oracle bc (mallocs bc + 1) = None"
  obtains n where "ext4_bcache_alloc bc b = Some (ENOMEM, False, b, bc\<lparr>mallocs := n\<rparr>)"
proof (cases "malloc_oracle bc (mallocs bc)")
  case None
  then show thesis
    by (intro that [of "mallocs bc + 1"])
      (simp add: ext4_bcache_alloc_def ext4_bcache_find_get_miss [OF assms(1,2)] ext4_buf_alloc_def)
next
  case (Some junk)
  then show thesis
    using assms(3) by (intro that [of "mallocs bc + 2"])
      (simp add: ext4_bcache_alloc_def ext4_bcache_find_get_miss [OF assms(1,2)] ext4_buf_alloc_def)
qed

lemma bcache_wf_mallocs [simp]: "bcache_wf (bc\<lparr>mallocs := n\<rparr>) = bcache_wf bc"
proof -
  have "lru_key (bc\<lparr>mallocs := n\<rparr>) = lru_key bc" by (rule lru_key_cong) simp
  then show ?thesis
    by (simp add: bcache_wf_def wf_lba_def wf_lru_def wf_dirty_def buf_ok_def)
qed

lemma bcache_wf_dont_shake [simp]: "bcache_wf (bc\<lparr>dont_shake := n\<rparr>) = bcache_wf bc"
proof -
  have "lru_key (bc\<lparr>dont_shake := n\<rparr>) = lru_key bc" by (rule lru_key_cong) simp
  then show ?thesis
    by (simp add: bcache_wf_def wf_lba_def wf_lru_def wf_dirty_def buf_ok_def)
qed

lemma bcache_wf_inserted:
  assumes wf: "bcache_wf bc" and none: "bufs bc p = None" and left: "lru_left bc"
  shows "bcache_wf (bcache_inserted bc p junk)"
proof -
  let ?bc = "bcache_inserted bc p junk"
  note D = bcache_wfD [OF wf] and defs = bcache_inserted_def
  have k: "lru_key ?bc q = (if q = p then lru_ctr bc + 1 else lru_key bc q)" for q
    by (simp add: defs lru_key_def fresh_buf_def)
  have dom: "dom (bufs ?bc) = insert p (dom (bufs bc))" by (auto simp: defs)
  have new: "\<forall>y \<in> set (lba_root bc). id y \<noteq> id p" using D(2) none by (auto simp: domIff)
  have lba: "lba_root ?bc = rb_insert id p (lba_root bc)" by (simp add: defs)
  have "sorted_wrt (<) (lba_root ?bc)"
    unfolding lba using sorted_rb_insert [of id, OF _ new] D(1) by simp
  moreover have "set (lba_root ?bc) = dom (bufs ?bc)"
    unfolding lba dom set_rb_insert [OF new] D(2) ..
  moreover have "ref_blocks ?bc = of_nat (length (lba_root ?bc))"
    unfolding lba length_rb_insert [OF new] using D(11) by (simp add: defs)
  ultimately have "wf_lba ?bc" by (simp add: wf_lba_def)
  moreover have "wf_lru ?bc"
  proof -
    have "inj_on (lru_key ?bc) (dom (bufs ?bc))"
      unfolding dom by (rule inj_on_fresh [OF D(3)]) (use fresh_lru [OF wf left] in \<open>auto simp: k\<close>)
    moreover have p: "p \<notin> set (lru_root bc)" using D(5) none by simp
    have "sorted_wrt (\<lambda>a b. lru_key ?bc a < lru_key ?bc b) (lru_root bc)"
      by (rule sorted_wrt_mono_rel [OF _ D(4)]) (use p in \<open>auto simp: k\<close>)
    moreover have "set (lru_root ?bc) = {q. \<exists>b. bufs ?bc q = Some b \<and> refctr b = 0}"
      using D(5) none by (auto simp: defs fresh_buf_def)
    ultimately show ?thesis by (simp add: wf_lru_def) (simp add: defs)
  qed
  moreover have "wf_dirty ?bc" using D(6,7) none by (auto simp: wf_dirty_def defs fresh_buf_def)
  moreover have "buf_ok ?bc q b" if "bufs ?bc q = Some b" for q b
    using that D(8) [of q b] fresh_lru(4) [OF wf left, of q] lru_left_Suc [OF left]
    by (auto simp: buf_ok_def defs fresh_buf_def word_less_nat_alt split: if_splits)
  ultimately show ?thesis by (simp add: bcache_wf_def)
qed

text \<open>The last reference is given back: the buffer joins the LRU tree.\<close>

definition bcache_unreferenced :: "ext4_bcache \<Rightarrow> u64 \<Rightarrow> ext4_buf \<Rightarrow> ext4_bcache" where
  "bcache_unreferenced bc p buf =
     bc\<lparr>bufs := (bufs bc)(p \<mapsto> buf\<lparr>refctr := 0\<rparr>), lru_root := rb_insert (lru_key bc) p (lru_root bc)\<rparr>"

lemma bcache_wf_unreferenced:
  assumes wf: "bcache_wf bc" and buf: "bufs bc p = Some buf" and ref: "refctr buf \<noteq> 0"
  shows "bcache_wf (bcache_unreferenced bc p buf)"
proof -
  let ?bc = "bcache_unreferenced bc p buf"
  note D = bcache_wfD [OF wf] and defs = bcache_unreferenced_def
  have k: "lru_key ?bc = lru_key bc" by (rule lru_key_cong) (simp add: defs buf)
  have dom: "dom (bufs ?bc) = dom (bufs bc)" using buf by (auto simp: defs)
  have new: "\<forall>y \<in> set (lru_root bc). lru_key bc y \<noteq> lru_key bc p"
    using D(3,5) buf ref by (fastforce simp: inj_on_def)
  have "wf_lba ?bc" using D(1,2,11) dom by (simp add: wf_lba_def defs)
  moreover have "wf_lru ?bc"
  proof -
    have "set (lru_root ?bc) = {q. \<exists>b. bufs ?bc q = Some b \<and> refctr b = 0}"
      using D(5) set_rb_insert [OF new] by (auto simp: defs)
    moreover have "sorted_wrt (\<lambda>a b. lru_key bc a < lru_key bc b) (lru_root ?bc)"
      using sorted_rb_insert [OF D(4) new] by (simp add: defs)
    ultimately show ?thesis using D(3) dom by (simp add: wf_lru_def k)
  qed
  moreover have "wf_dirty ?bc" using D(6,7) buf by (auto simp: wf_dirty_def defs)
  moreover have "buf_ok ?bc q b" if "bufs ?bc q = Some b" for q b
    using that D(8) [of q b] D(8) [OF buf] by (auto simp: buf_ok_def defs split: if_splits)
  ultimately show ?thesis by (simp add: bcache_wf_def)
qed

lemma ext4_bcache_insert_dirty_node_wf:
  assumes wf: "bcache_wf bc" and buf: "bufs bc p = Some buf" and ref: "refctr buf = 0"
    and flags: "ext4_bcache_test_flag buf BC_DIRTY" "ext4_bcache_test_flag buf BC_UPTODATE"
  obtains bc' where "ext4_bcache_insert_dirty_node bc p = Some bc'" "bcache_wf bc'"
    "bufs bc' = (bufs bc)(p \<mapsto> buf\<lparr>on_dirty_list := True\<rparr>)" "lru_ctr bc' = lru_ctr bc"
    "itemsize bc' = itemsize bc" "set (dirty_list bc') = insert p (set (dirty_list bc))"
proof (cases "on_dirty_list buf")
  case True
  have "(bufs bc)(p \<mapsto> buf\<lparr>on_dirty_list := True\<rparr>) = bufs bc" using True buf by (auto intro!: ext)
  moreover have "p \<in> set (dirty_list bc)" using bcache_wfD(7) [OF wf] True buf by simp
  ultimately show thesis using that wf True buf by (auto simp: ext4_bcache_insert_dirty_node_def)
next
  case False
  let ?bc = "put_buf (bc\<lparr>dirty_list := p # dirty_list bc\<rparr>) p (buf\<lparr>on_dirty_list := True\<rparr>)"
  note D = bcache_wfD [OF wf]
  have k: "lru_key ?bc = lru_key bc" by (rule lru_key_cong) (simp add: buf)
  have dom: "dom (bufs ?bc) = dom (bufs bc)" using buf by auto
  have "wf_lba ?bc" using D(1,2,11) dom by (simp add: wf_lba_def)
  moreover have "wf_lru ?bc" using D(3,4,5) dom buf unfolding wf_lru_def k by auto
  moreover have "wf_dirty ?bc" using D(6,7) False buf by (auto simp: wf_dirty_def)
  moreover have "buf_ok ?bc q b" if "bufs ?bc q = Some b" for q b
    using that D(8) [of q b] D(8) [OF buf] ref flags by (auto simp: buf_ok_def split: if_splits)
  ultimately have "bcache_wf ?bc" by (simp add: bcache_wf_def)
  moreover have "ext4_bcache_insert_dirty_node bc p = Some ?bc"
    using False buf by (simp add: ext4_bcache_insert_dirty_node_def)
  ultimately show thesis using that by simp
qed

section \<open>Invalidation\<close>

definition invalidated :: "ext4_buf \<Rightarrow> ext4_buf" where
  "invalidated buf = ext4_bcache_clear_dirty (buf\<lparr>end_write := None, on_dirty_list := False\<rparr>)"

lemma invalidated_simps [simp]:
  "\<not> ext4_bcache_test_flag (invalidated buf) BC_UPTODATE" "\<not> ext4_bcache_test_flag (invalidated buf) BC_DIRTY"
  "\<not> on_dirty_list (invalidated buf)" "end_write (invalidated buf) = None"
  "refctr (invalidated buf) = refctr buf" "buf_lba (invalidated buf) = buf_lba buf"
  "buf_data (invalidated buf) = buf_data buf" "lru_id (invalidated buf) = lru_id buf"
  by (simp_all add: invalidated_def ext4_bcache_clear_dirty_def)

lemma ext4_bcache_invalidate_buf_eq:
  assumes wf: "bcache_wf bc" and buf: "bufs bc p = Some buf"
  obtains bc' where "ext4_bcache_invalidate_buf bc p = Some bc'" "bcache_wf bc'"
    "bufs bc' = (bufs bc)(p \<mapsto> invalidated buf)" "lba_root bc' = lba_root bc"
proof -
  let ?buf = "buf\<lparr>end_write := None\<rparr>"
  let ?bc1 = "put_buf bc p ?buf"
  have wf1: "bcache_wf ?bc1" and buf1: "bufs ?bc1 p = Some ?buf"
    by (rule bcache_wf_update [OF wf buf]) (use bcache_wfD(8) [OF wf buf] in \<open>auto simp: buf_ok_def\<close>)
  let ?bc2 = "?bc1\<lparr>dirty_list := remove1 p (dirty_list ?bc1),
      bufs := (bufs ?bc1)(p \<mapsto> ?buf\<lparr>on_dirty_list := False\<rparr>)\<rparr>"
  note wf2 = bcache_wf_clear_dirty_node [OF wf1 buf1]
  have buf2: "bufs ?bc2 p = Some (?buf\<lparr>on_dirty_list := False\<rparr>)" by simp
  have wf3: "bcache_wf (put_buf ?bc2 p (invalidated buf))"
    by (rule bcache_wf_update [OF wf2 buf2]) simp_all
  have "ext4_bcache_invalidate_buf bc p = Some (put_buf ?bc2 p (invalidated buf))"
    using buf remove_dirty_guarded [OF wf1 buf1]
    by (simp add: ext4_bcache_invalidate_buf_def invalidated_def)
  then show thesis using that [of "put_buf ?bc2 p (invalidated buf)"] wf3 by simp
qed

lemma invalidate_from_eq:
  assumes "bcache_wf bc" "sorted_wrt (<) ps" "set ps \<subseteq> dom (bufs bc)"
  shows "\<exists>bc'. invalidate_from bc e ps = Some bc' \<and> bcache_wf bc' \<and>
    bufs bc' = (\<lambda>p. if p \<in> set ps \<and> p \<le> e then map_option invalidated (bufs bc p) else bufs bc p)"
  using assms
proof (induction ps arbitrary: bc)
  case (Cons q ps)
  obtain buf where buf: "bufs bc q = Some buf" using Cons.prems(3) by auto
  have lba: "buf_lba buf = q" using bcache_wfD(8) [OF Cons.prems(1) buf] by (simp add: buf_ok_def)
  show ?case
  proof (cases "e < q")
    case True
    then have "\<not> (p \<in> set (q # ps) \<and> p \<le> e)" for p using Cons.prems(2) by auto
    then have "(\<lambda>p. if p \<in> set (q # ps) \<and> p \<le> e then map_option invalidated (bufs bc p) else bufs bc p) = bufs bc"
      by (intro ext) (simp only: if_False)
    then show ?thesis using True buf lba Cons.prems(1) by simp
  next
    case False
    obtain bc1 where bc1: "ext4_bcache_invalidate_buf bc q = Some bc1" "bcache_wf bc1"
        "bufs bc1 = (bufs bc)(q \<mapsto> invalidated buf)"
      using ext4_bcache_invalidate_buf_eq [OF Cons.prems(1) buf] by metis
    have "set ps \<subseteq> dom (bufs bc1)" "q \<notin> set ps" using Cons.prems bc1(3) by auto
    with Cons.IH [OF bc1(2)] Cons.prems(2) obtain bc' where bc': "invalidate_from bc1 e ps = Some bc'"
        "bcache_wf bc'" "bufs bc' = (\<lambda>p. if p \<in> set ps \<and> p \<le> e then map_option invalidated (bufs bc1 p) else bufs bc1 p)"
      by auto
    have "bufs bc' = (\<lambda>p. if p \<in> set (q # ps) \<and> p \<le> e then map_option invalidated (bufs bc p) else bufs bc p)"
      using bc'(3) bc1(3) buf False \<open>q \<notin> set ps\<close> by (auto intro!: ext)
    then show ?thesis using bc' bc1 buf lba False by auto
  qed
qed auto

lemma set_dropWhile_sorted:
  "sorted_wrt (<) xs \<Longrightarrow> p \<in> set xs \<Longrightarrow> set (dropWhile (\<lambda>q. q \<noteq> p) xs) = {q \<in> set xs. (p::'a::linorder) \<le> q}"
  by (induction xs) (auto simp: less_imp_le)

text \<open>\<open>ext4_bcache_invalidate_lba\<close> keeps the cache well-formed and, when the first block of the range is
  cached, invalidates exactly the cached buffers of the range. When that block is not cached, nothing
  is invalidated, whatever other blocks of the range the cache holds.
\<close>

theorem ext4_bcache_invalidate_lba_correct:
  assumes "bcache_wf bc"
  shows "\<exists>bc'. ext4_bcache_invalidate_lba bc from_lba cnt = Some bc' \<and> bcache_wf bc' \<and>
    bufs bc' = (\<lambda>p. if bufs bc from_lba \<noteq> None \<and> from_lba \<le> p \<and> p \<le> from_lba + ucast cnt - 1
                    then map_option invalidated (bufs bc p) else bufs bc p)"
proof (cases "bufs bc from_lba")
  case None
  then show ?thesis using assms by (simp add: ext4_bcache_invalidate_lba_def bcache_wf_lookup domIff Let_def)
next
  case (Some buf)
  let ?ps = "dropWhile (\<lambda>q. q \<noteq> from_lba) (lba_root bc)" and ?e = "from_lba + ucast cnt - 1"
  note D = bcache_wfD [OF assms]
  have in_root: "from_lba \<in> set (lba_root bc)" using D(2) Some by blast
  have sorted: "sorted_wrt (<) ?ps"
    by (metis D(1) dropWhile_eq_drop sorted_wrt_drop)
  have set: "set ?ps = {q \<in> dom (bufs bc). from_lba \<le> q}"
    using set_dropWhile_sorted [OF D(1) in_root] D(2) by simp
  obtain bc' where bc': "invalidate_from bc ?e ?ps = Some bc'" "bcache_wf bc'"
      "bufs bc' = (\<lambda>p. if p \<in> set ?ps \<and> p \<le> ?e then map_option invalidated (bufs bc p) else bufs bc p)"
    using invalidate_from_eq [OF assms sorted, of ?e] set by auto
  have "bufs bc' = (\<lambda>p. if bufs bc from_lba \<noteq> None \<and> from_lba \<le> p \<and> p \<le> ?e
                    then map_option invalidated (bufs bc p) else bufs bc p)"
    unfolding bc'(3) set using Some by (auto intro!: ext simp: domIff)
  with bc'(1,2) show ?thesis
    using Some by (simp add: ext4_bcache_invalidate_lba_def bcache_wf_lookup [OF assms] domIff Let_def)
qed

text \<open>An empty cache, and one with two clean buffers.\<close>

definition sample_bc :: "u32 \<Rightarrow> u32 \<Rightarrow> ext4_bcache" where
  "sample_bc cnt sz =
     \<lparr>bc_cnt = cnt, itemsize = sz, lru_ctr = 0, ref_blocks = 0, max_ref_blocks = 0, dont_shake = False,
      bufs = Map.empty, lba_root = [], lru_root = [], dirty_list = [],
      malloc_oracle = (\<lambda>_. Some (\<lambda>_. 0)), mallocs = 0\<rparr>"

lemma sample_bc_wf: "bcache_wf (sample_bc cnt sz)"
  by (simp add: sample_bc_def bcache_wf_def wf_lba_def wf_lru_def wf_dirty_def)

lemma sample_bc_two_wf: "bcache_wf (bcache_inserted (bcache_inserted (sample_bc 8 4) 5 (\<lambda>_. 0)) 6 (\<lambda>_. 0))"
proof -
  have 1: "bcache_wf (bcache_inserted (sample_bc 8 4) 5 (\<lambda>_. 0))"
    by (rule bcache_wf_inserted [OF sample_bc_wf]) (simp_all add: sample_bc_def lru_left_def)
  show ?thesis
    by (rule bcache_wf_inserted [OF 1]) (simp_all add: bcache_inserted_def sample_bc_def lru_left_def)
qed

theorem ext4_bcache_invalidate_lba_correct_witness:
  "\<exists>bc'. ext4_bcache_invalidate_lba
      (bcache_inserted (bcache_inserted (sample_bc 8 4) 5 (\<lambda>_. 0)) 6 (\<lambda>_. 0)) 4 3 = Some bc' \<and>
    bufs bc' 5 \<noteq> None"
  using ext4_bcache_invalidate_lba_correct [OF sample_bc_two_wf, of 4 3]
  by (auto simp: bcache_inserted_def sample_bc_def)

end
