(* ===== verification/Blockdev.thy ===== *)
theory Blockdev
  imports Bcache
begin

text \<open>
  The block device layer, \<open>src/ext4_blockdev.c\<close>, with the cache operations that write to the device
  (\<open>ext4_bcache_free\<close>, \<open>ext4_bcache_cleanup\<close> of \<open>src/ext4_bcache.c\<close>).

  The driver behind the function pointers of \<open>struct ext4_blockdev_iface\<close> is the functions of that
  record on a driver state \<open>'d\<close> (what \<open>p_user\<close> points to). \<open>bread\<close> returns the bytes it stores at the
  given buffer, \<open>bwrite\<close> gets the bytes from the given pointer to the end of its buffer. The callback
  that a buffer may carry (\<open>end_write\<close>) is the function \<open>bc_end_write\<close> of the device record, applied to
  the argument in the buffer. The loops of \<open>ext4_block_cache_shake\<close> and \<open>ext4_block_cache_flush\<close> have no
  bound of their own and are partial functions: not ending is \<open>None\<close>.

  What these operations guarantee for a driver that keeps its promises is in theory \<open>Blockdev_Contract\<close>.
\<close>

section \<open>State\<close>

record 'd ext4_blockdev_iface =
  bd_open :: "'d \<Rightarrow> (errno \<times> 'd) option"
  bd_bread :: "'d \<Rightarrow> u64 \<Rightarrow> u32 \<Rightarrow> (errno \<times> u8 list \<times> 'd) option"
  bd_bwrite :: "'d \<Rightarrow> u8 list \<Rightarrow> u64 \<Rightarrow> u32 \<Rightarrow> (errno \<times> 'd) option"
  bd_close :: "'d \<Rightarrow> (errno \<times> 'd) option"
  bd_lock :: "('d \<Rightarrow> (errno \<times> 'd) option) option"
  bd_unlock :: "('d \<Rightarrow> (errno \<times> 'd) option) option"
  ph_bsize :: u32
  ph_bcnt :: u64
  ph_bbuf :: "u8 list"
  ph_refctr :: u32
  bread_ctr :: u32
  bwrite_ctr :: u32
  p_user :: 'd

record 'd ext4_blockdev =
  bdif :: "'d ext4_blockdev_iface"
  part_offset :: u64
  part_size :: u64
  bcache :: ext4_bcache
  lg_bsize :: u32
  lg_bcnt :: u64
  cache_write_back :: u32
  bc_end_write :: "ext4_bcache \<Rightarrow> u64 \<Rightarrow> errno \<Rightarrow> u64 \<Rightarrow> ext4_bcache option"

section \<open>Driver calls\<close>

definition ext4_bdif_lock :: "'d ext4_blockdev \<Rightarrow> 'd ext4_blockdev option" where
  "ext4_bdif_lock bdev =
     (case bd_lock (bdif bdev) of
        None \<Rightarrow> Some bdev
      | Some lock \<Rightarrow> do {
          (r, d) \<leftarrow> lock (p_user (bdif bdev));
          _ \<leftarrow> ext4_assert (r = EOK);
          Some (bdev\<lparr>bdif := (bdif bdev)\<lparr>p_user := d\<rparr>\<rparr>) })"

definition ext4_bdif_unlock :: "'d ext4_blockdev \<Rightarrow> 'd ext4_blockdev option" where
  "ext4_bdif_unlock bdev =
     (case bd_unlock (bdif bdev) of
        None \<Rightarrow> Some bdev
      | Some unlock \<Rightarrow> do {
          (r, d) \<leftarrow> unlock (p_user (bdif bdev));
          _ \<leftarrow> ext4_assert (r = EOK);
          Some (bdev\<lparr>bdif := (bdif bdev)\<lparr>p_user := d\<rparr>\<rparr>) })"

definition ext4_bdif_bread :: "'d ext4_blockdev \<Rightarrow> u64 \<Rightarrow> u32 \<Rightarrow> (errno \<times> u8 list \<times> 'd ext4_blockdev) option" where
  "ext4_bdif_bread bdev blk_id blk_cnt = do {
     bdev \<leftarrow> ext4_bdif_lock bdev;
     (r, bytes, d) \<leftarrow> bd_bread (bdif bdev) (p_user (bdif bdev)) blk_id blk_cnt;
     let bdev = bdev\<lparr>bdif := (bdif bdev)\<lparr>p_user := d, bread_ctr := bread_ctr (bdif bdev) + 1\<rparr>\<rparr>;
     bdev \<leftarrow> ext4_bdif_unlock bdev;
     Some (r, bytes, bdev) }"

definition ext4_bdif_bwrite :: "'d ext4_blockdev \<Rightarrow> u8 list \<Rightarrow> u64 \<Rightarrow> u32 \<Rightarrow> (errno \<times> 'd ext4_blockdev) option" where
  "ext4_bdif_bwrite bdev buf blk_id blk_cnt = do {
     bdev \<leftarrow> ext4_bdif_lock bdev;
     (r, d) \<leftarrow> bd_bwrite (bdif bdev) (p_user (bdif bdev)) buf blk_id blk_cnt;
     let bdev = bdev\<lparr>bdif := (bdif bdev)\<lparr>p_user := d, bwrite_ctr := bwrite_ctr (bdif bdev) + 1\<rparr>\<rparr>;
     bdev \<leftarrow> ext4_bdif_unlock bdev;
     Some (r, bdev) }"

definition ext4_block_init :: "'d ext4_blockdev \<Rightarrow> (errno \<times> 'd ext4_blockdev) option" where
  "ext4_block_init bdev =
     (if ph_refctr (bdif bdev) \<noteq> 0
      then Some (EOK, bdev\<lparr>bdif := (bdif bdev)\<lparr>ph_refctr := ph_refctr (bdif bdev) + 1\<rparr>\<rparr>)
      else do {
        (rc, d) \<leftarrow> bd_open (bdif bdev) (p_user (bdif bdev));
        let bdev = bdev\<lparr>bdif := (bdif bdev)\<lparr>p_user := d\<rparr>\<rparr>;
        if rc \<noteq> EOK then Some (rc, bdev)
        else Some (EOK, bdev\<lparr>bdif := (bdif bdev)\<lparr>ph_refctr := 1\<rparr>\<rparr>) })"

definition ext4_block_bind_bcache :: "'d ext4_blockdev \<Rightarrow> ext4_bcache \<Rightarrow> errno \<times> 'd ext4_blockdev" where
  "ext4_block_bind_bcache bdev bc = (EOK, bdev\<lparr>bcache := bc\<rparr>)"

definition ext4_block_set_lb_size :: "'d ext4_blockdev \<Rightarrow> u32 \<Rightarrow> 'd ext4_blockdev option" where
  "ext4_block_set_lb_size bdev lb_bsize = do {
     m \<leftarrow> mod_checked lb_bsize (ph_bsize (bdif bdev));
     _ \<leftarrow> ext4_assert (m = 0);
     n \<leftarrow> div_checked (part_size bdev) (ucast lb_bsize);
     Some (bdev\<lparr>lg_bsize := lb_bsize, lg_bcnt := n\<rparr>) }"

definition ext4_block_fini :: "'d ext4_blockdev \<Rightarrow> (errno \<times> 'd ext4_blockdev) option" where
  "ext4_block_fini bdev =
     (if ph_refctr (bdif bdev) = 0 then Some (EOK, bdev)
      else let bdev = bdev\<lparr>bdif := (bdif bdev)\<lparr>ph_refctr := ph_refctr (bdif bdev) - 1\<rparr>\<rparr>
           in if ph_refctr (bdif bdev) \<noteq> 0 then Some (EOK, bdev)
              else do {
                (r, d) \<leftarrow> bd_close (bdif bdev) (p_user (bdif bdev));
                Some (r, bdev\<lparr>bdif := (bdif bdev)\<lparr>p_user := d\<rparr>\<rparr>) })"

definition ext4_blocks_get_direct ::
  "'d ext4_blockdev \<Rightarrow> u64 \<Rightarrow> u32 \<Rightarrow> (errno \<times> u8 list \<times> 'd ext4_blockdev) option" where
  "ext4_blocks_get_direct bdev lba cnt = do {
     pba \<leftarrow> div_checked (lba * ucast (lg_bsize bdev) + part_offset bdev) (ucast (ph_bsize (bdif bdev)));
     pb_cnt \<leftarrow> div_checked (lg_bsize bdev) (ph_bsize (bdif bdev));
     ext4_bdif_bread bdev pba (pb_cnt * cnt) }"

definition ext4_blocks_set_direct ::
  "'d ext4_blockdev \<Rightarrow> u8 list \<Rightarrow> u64 \<Rightarrow> u32 \<Rightarrow> (errno \<times> 'd ext4_blockdev) option" where
  "ext4_blocks_set_direct bdev buf lba cnt = do {
     pba \<leftarrow> div_checked (lba * ucast (lg_bsize bdev) + part_offset bdev) (ucast (ph_bsize (bdif bdev)));
     pb_cnt \<leftarrow> div_checked (lg_bsize bdev) (ph_bsize (bdif bdev));
     ext4_bdif_bwrite bdev buf pba (pb_cnt * cnt) }"

section \<open>Flushing\<close>

definition call_end_write :: "'d ext4_blockdev \<Rightarrow> u64 \<Rightarrow> errno \<Rightarrow> 'd ext4_blockdev option" where
  "call_end_write bdev p r = do {
     buf \<leftarrow> bufs (bcache bdev) p;
     case end_write buf of
       None \<Rightarrow> Some bdev
     | Some arg \<Rightarrow> do {
         bc \<leftarrow> bc_end_write bdev ((bcache bdev)\<lparr>dont_shake := True\<rparr>) p r arg;
         Some (bdev\<lparr>bcache := bc\<lparr>dont_shake := False\<rparr>\<rparr>) }}"

definition ext4_block_flush_buf :: "'d ext4_blockdev \<Rightarrow> u64 \<Rightarrow> (errno \<times> 'd ext4_blockdev) option" where
  "ext4_block_flush_buf bdev p = do {
     buf \<leftarrow> bufs (bcache bdev) p;
     if ext4_bcache_test_flag buf BC_DIRTY \<and> ext4_bcache_test_flag buf BC_UPTODATE
     then do {
       (r, bdev) \<leftarrow> ext4_blocks_set_direct bdev (buf_data buf) (buf_lba buf) 1;
       if r \<noteq> EOK then do {
         bdev \<leftarrow> call_end_write bdev p r;
         Some (r, bdev) }
       else do {
         bc \<leftarrow> ext4_bcache_remove_dirty_node (bcache bdev) p;
         buf \<leftarrow> bufs bc p;
         let bdev = bdev\<lparr>bcache := put_buf bc p (ext4_bcache_clear_flag buf BC_DIRTY)\<rparr>;
         bdev \<leftarrow> call_end_write bdev p r;
         Some (EOK, bdev) }}
     else Some (EOK, bdev) }"

definition ext4_bcache_free ::
  "'d ext4_blockdev \<Rightarrow> ext4_block \<Rightarrow> (errno \<times> ext4_block \<times> 'd ext4_blockdev) option" where
  "ext4_bcache_free bdev b = do {
     _ \<leftarrow> ext4_assert (lb_id b \<noteq> 0);
     p \<leftarrow> blk_buf b;
     buf \<leftarrow> bufs (bcache bdev) p;
     _ \<leftarrow> ext4_assert (refctr buf \<noteq> 0);
     let buf = ext4_bcache_dec_ref buf;
     let bdev = bdev\<lparr>bcache := put_buf (bcache bdev) p buf\<rparr>;
     bdev \<leftarrow>
       (if refctr buf = 0 then do {
          let bc = bcache bdev;
          let bdev = bdev\<lparr>bcache := bc\<lparr>lru_root := rb_insert (lru_key bc) p (lru_root bc)\<rparr>\<rparr>;
          bdev \<leftarrow>
            (if ext4_bcache_test_flag buf BC_DIRTY \<and> ext4_bcache_test_flag buf BC_UPTODATE
             then if cache_write_back bdev \<noteq> 0 \<and> \<not> ext4_bcache_test_flag buf BC_FLUSH
                       \<and> \<not> ext4_bcache_test_flag buf BC_TMP
                  then do {
                    bc \<leftarrow> ext4_bcache_insert_dirty_node (bcache bdev) p;
                    Some (bdev\<lparr>bcache := bc\<rparr>) }
                  else do {
                    (r, bdev) \<leftarrow> ext4_block_flush_buf bdev p;
                    buf \<leftarrow> bufs (bcache bdev) p;
                    Some (bdev\<lparr>bcache := put_buf (bcache bdev) p (ext4_bcache_clear_flag buf BC_FLUSH)\<rparr>) }
             else Some bdev);
          buf \<leftarrow> bufs (bcache bdev) p;
          if \<not> ext4_bcache_test_flag buf BC_UPTODATE \<or> ext4_bcache_test_flag buf BC_TMP
          then do {
            bc \<leftarrow> ext4_bcache_drop_buf (bcache bdev) p;
            Some (bdev\<lparr>bcache := bc\<rparr>) }
          else Some bdev }
        else Some bdev);
     Some (EOK, b\<lparr>lb_id := 0, blk_data := None\<rparr>, bdev) }"

text \<open>\<open>RB_FOREACH_SAFE\<close> over the LBA tree, flushing (whatever the result) and dropping each buffer.\<close>

fun cleanup_bufs :: "'d ext4_blockdev \<Rightarrow> u64 list \<Rightarrow> 'd ext4_blockdev option" where
  "cleanup_bufs bdev [] = Some bdev"
| "cleanup_bufs bdev (p # ps) = do {
     (r, bdev) \<leftarrow> ext4_block_flush_buf bdev p;
     bc \<leftarrow> ext4_bcache_drop_buf (bcache bdev) p;
     cleanup_bufs (bdev\<lparr>bcache := bc\<rparr>) ps }"

definition ext4_bcache_cleanup :: "'d ext4_blockdev \<Rightarrow> 'd ext4_blockdev option" where
  "ext4_bcache_cleanup bdev = cleanup_bufs bdev (lba_root (bcache bdev))"

text \<open>The local \<open>struct ext4_block\<close> is uninitialised, but \<open>ext4_bcache_find_get\<close> fills it on a hit.\<close>

definition ext4_block_flush_lba :: "'d ext4_blockdev \<Rightarrow> u64 \<Rightarrow> (errno \<times> 'd ext4_blockdev) option" where
  "ext4_block_flush_lba bdev lba = do {
     (found, b, bc) \<leftarrow> ext4_bcache_find_get (bcache bdev) \<lparr>lb_id = 0, blk_buf = None, blk_data = None\<rparr> lba;
     let bdev = bdev\<lparr>bcache := bc\<rparr>;
     case found of
       None \<Rightarrow> Some (EOK, bdev)
     | Some p \<Rightarrow> do {
         (r, bdev) \<leftarrow> ext4_block_flush_buf bdev p;
         (_, _, bdev) \<leftarrow> ext4_bcache_free bdev b;
         Some (r, bdev) }}"

partial_function (option) shake_loop :: "'d ext4_blockdev \<Rightarrow> (errno \<times> 'd ext4_blockdev) option" where
  "shake_loop bdev =
     (if lru_root (bcache bdev) \<noteq> [] \<and> ext4_bcache_is_full (bcache bdev)
      then do {
        p \<leftarrow> ext4_buf_lowest_lru (bcache bdev);
        buf \<leftarrow> bufs (bcache bdev) p;
        (r, bdev) \<leftarrow> (if ext4_bcache_test_flag buf BC_DIRTY then ext4_block_flush_buf bdev p
                      else Some (EOK, bdev));
        if r \<noteq> EOK then Some (r, bdev)
        else do {
          bc \<leftarrow> ext4_bcache_drop_buf (bcache bdev) p;
          shake_loop (bdev\<lparr>bcache := bc\<rparr>) }}
      else Some (EOK, bdev))"

definition ext4_block_cache_shake :: "'d ext4_blockdev \<Rightarrow> (errno \<times> 'd ext4_blockdev) option" where
  "ext4_block_cache_shake bdev =
     (if dont_shake (bcache bdev) then Some (EOK, bdev)
      else do {
        (r, bdev) \<leftarrow> shake_loop (bdev\<lparr>bcache := (bcache bdev)\<lparr>dont_shake := True\<rparr>\<rparr>);
        Some (r, bdev\<lparr>bcache := (bcache bdev)\<lparr>dont_shake := False\<rparr>\<rparr>) })"

partial_function (option) ext4_block_cache_flush :: "'d ext4_blockdev \<Rightarrow> (errno \<times> 'd ext4_blockdev) option" where
  "ext4_block_cache_flush bdev =
     (case dirty_list (bcache bdev) of
        [] \<Rightarrow> Some (EOK, bdev)
      | p # _ \<Rightarrow> do {
          (r, bdev) \<leftarrow> ext4_block_flush_buf bdev p;
          if r \<noteq> EOK then Some (r, bdev) else ext4_block_cache_flush bdev })"

definition ext4_block_cache_write_back :: "'d ext4_blockdev \<Rightarrow> u8 \<Rightarrow> (errno \<times> 'd ext4_blockdev) option" where
  "ext4_block_cache_write_back bdev on_off =
     (let bdev = (if on_off \<noteq> 0 then bdev\<lparr>cache_write_back := cache_write_back bdev + 1\<rparr> else bdev);
          bdev = (if on_off = 0 \<and> cache_write_back bdev \<noteq> 0
                  then bdev\<lparr>cache_write_back := cache_write_back bdev - 1\<rparr> else bdev)
      in if cache_write_back bdev \<noteq> 0 then Some (EOK, bdev) else ext4_block_cache_flush bdev)"

section \<open>Getting and giving back blocks\<close>

definition ext4_block_get_noread ::
  "'d ext4_blockdev \<Rightarrow> ext4_block \<Rightarrow> u64 \<Rightarrow> (errno \<times> ext4_block \<times> 'd ext4_blockdev) option" where
  "ext4_block_get_noread bdev b lba =
     (if ph_refctr (bdif bdev) = 0 then Some (EIO, b, bdev)
      else if \<not> lba < lg_bcnt bdev then Some (ENXIO, b, bdev)
      else do {
        let b = b\<lparr>lb_id := lba\<rparr>;
        (r, bdev) \<leftarrow> ext4_block_cache_shake bdev;
        if r \<noteq> EOK then Some (r, b, bdev)
        else do {
          (r, is_new, b, bc) \<leftarrow> ext4_bcache_alloc (bcache bdev) b;
          let bdev = bdev\<lparr>bcache := bc\<rparr>;
          if r \<noteq> EOK then Some (r, b, bdev)
          else if blk_data b = None then Some (ENOMEM, b, bdev)
          else Some (EOK, b, bdev) }})"

definition ext4_block_get ::
  "'d ext4_blockdev \<Rightarrow> ext4_block \<Rightarrow> u64 \<Rightarrow> (errno \<times> ext4_block \<times> 'd ext4_blockdev) option" where
  "ext4_block_get bdev b lba = do {
     (r, b, bdev) \<leftarrow> ext4_block_get_noread bdev b lba;
     if r \<noteq> EOK then Some (r, b, bdev)
     else do {
       p \<leftarrow> blk_buf b;
       buf \<leftarrow> bufs (bcache bdev) p;
       if ext4_bcache_test_flag buf BC_UPTODATE then Some (EOK, b, bdev)
       else do {
         (r, bytes, bdev) \<leftarrow> ext4_blocks_get_direct bdev lba 1;
         dat \<leftarrow> memcpy_at (buf_data buf) 0 bytes;
         let buf = buf\<lparr>buf_data := dat\<rparr>;
         let bdev = bdev\<lparr>bcache := put_buf (bcache bdev) p buf\<rparr>;
         if r \<noteq> EOK then do {
           (_, b, bdev) \<leftarrow> ext4_bcache_free bdev b;
           Some (r, b\<lparr>lb_id := 0\<rparr>, bdev) }
         else Some (EOK, b, bdev\<lparr>bcache := put_buf (bcache bdev) p (ext4_bcache_set_flag buf BC_UPTODATE)\<rparr>) }}}"

definition ext4_block_set ::
  "'d ext4_blockdev \<Rightarrow> ext4_block \<Rightarrow> (errno \<times> ext4_block \<times> 'd ext4_blockdev) option" where
  "ext4_block_set bdev b = do {
     _ \<leftarrow> ext4_assert (blk_buf b \<noteq> None);
     if ph_refctr (bdif bdev) = 0 then Some (EIO, b, bdev) else ext4_bcache_free bdev b }"

section \<open>Byte-granular access\<close>

text \<open>
  \<open>ext4_block_writebytes\<close> deals with a first unaligned block by reading it, changing it and writing it
  (\<open>ph_rmw\<close>, through \<open>ph_bbuf\<close>), then with the whole blocks and the rest (\<open>writebytes_aligned\<close>); \<open>p\<close> is the
  bytes from the moving pointer on, \<open>len\<close> how many are still to write.
\<close>

definition ph_rmw :: "'d ext4_blockdev \<Rightarrow> u64 \<Rightarrow> nat \<Rightarrow> u8 list \<Rightarrow> (errno \<times> 'd ext4_blockdev) option" where
  "ph_rmw bdev block_idx at src = do {
     (r, bytes, bdev) \<leftarrow> ext4_bdif_bread bdev block_idx 1;
     bbuf \<leftarrow> memcpy_at (ph_bbuf (bdif bdev)) 0 bytes;
     let bdev = bdev\<lparr>bdif := (bdif bdev)\<lparr>ph_bbuf := bbuf\<rparr>\<rparr>;
     if r \<noteq> EOK then Some (r, bdev)
     else do {
       bbuf \<leftarrow> memcpy_at bbuf at src;
       let bdev = bdev\<lparr>bdif := (bdif bdev)\<lparr>ph_bbuf := bbuf\<rparr>\<rparr>;
       ext4_bdif_bwrite bdev bbuf block_idx 1 }}"

definition writebytes_aligned ::
  "'d ext4_blockdev \<Rightarrow> u8 list \<Rightarrow> u32 \<Rightarrow> u64 \<Rightarrow> (errno \<times> 'd ext4_blockdev) option" where
  "writebytes_aligned bdev p len block_idx = do {
     blen \<leftarrow> div_checked len (ph_bsize (bdif bdev));
     (r, p, len, block_idx, bdev) \<leftarrow>
       (if blen \<noteq> 0 then do {
          (r, bdev) \<leftarrow> ext4_bdif_bwrite bdev p block_idx blen;
          let n = ph_bsize (bdif bdev) * blen;
          Some (r, drop (unat n) p, len - n, block_idx + ucast blen, bdev) }
        else Some (EOK, p, len, block_idx, bdev));
     if r \<noteq> EOK then Some (r, bdev)
     else if len \<noteq> 0 then do {
       src \<leftarrow> slice_checked 0 (unat len) p;
       ph_rmw bdev block_idx 0 src }
     else Some (EOK, bdev) }"

definition ext4_block_writebytes ::
  "'d ext4_blockdev \<Rightarrow> u64 \<Rightarrow> u8 list \<Rightarrow> u32 \<Rightarrow> (errno \<times> 'd ext4_blockdev) option" where
  "ext4_block_writebytes bdev off buf len =
     (if ph_refctr (bdif bdev) = 0 then Some (EIO, bdev)
      else if off + ucast len > part_size bdev then Some (EINVAL, bdev)
      else do {
        block_idx \<leftarrow> div_checked (off + part_offset bdev) (ucast (ph_bsize (bdif bdev)));
        let unalg = (ucast (off AND ucast (ph_bsize (bdif bdev) - 1)) :: u32);
        if unalg \<noteq> 0 then do {
          let wlen = (if ph_bsize (bdif bdev) - unalg > len then len else ph_bsize (bdif bdev) - unalg);
          src \<leftarrow> slice_checked 0 (unat wlen) buf;
          (r, bdev) \<leftarrow> ph_rmw bdev block_idx (unat unalg) src;
          if r \<noteq> EOK then Some (r, bdev)
          else writebytes_aligned bdev (drop (unat wlen) buf) (len - wlen) (block_idx + 1) }
        else writebytes_aligned bdev buf len block_idx })"

text \<open>\<open>ph_fill\<close> is the read of one physical block into \<open>ph_bbuf\<close>; in \<open>ext4_block_readbytes\<close> \<open>buf\<close> is the
  output buffer and \<open>p\<close> the offset in it of the moving pointer.\<close>

definition ph_fill :: "'d ext4_blockdev \<Rightarrow> u64 \<Rightarrow> (errno \<times> 'd ext4_blockdev) option" where
  "ph_fill bdev block_idx = do {
     (r, bytes, bdev) \<leftarrow> ext4_bdif_bread bdev block_idx 1;
     bbuf \<leftarrow> memcpy_at (ph_bbuf (bdif bdev)) 0 bytes;
     Some (r, bdev\<lparr>bdif := (bdif bdev)\<lparr>ph_bbuf := bbuf\<rparr>\<rparr>) }"

definition readbytes_aligned ::
  "'d ext4_blockdev \<Rightarrow> u8 list \<Rightarrow> nat \<Rightarrow> u32 \<Rightarrow> u64 \<Rightarrow> (errno \<times> u8 list \<times> 'd ext4_blockdev) option" where
  "readbytes_aligned bdev buf p len block_idx = do {
     blen \<leftarrow> div_checked len (ph_bsize (bdif bdev));
     (r, buf, p, len, block_idx, bdev) \<leftarrow>
       (if blen \<noteq> 0 then do {
          (r, bytes, bdev) \<leftarrow> ext4_bdif_bread bdev block_idx blen;
          buf \<leftarrow> memcpy_at buf p bytes;
          let n = ph_bsize (bdif bdev) * blen;
          Some (r, buf, p + unat n, len - n, block_idx + ucast blen, bdev) }
        else Some (EOK, buf, p, len, block_idx, bdev));
     if r \<noteq> EOK then Some (r, buf, bdev)
     else if len \<noteq> 0 then do {
       (r, bdev) \<leftarrow> ph_fill bdev block_idx;
       if r \<noteq> EOK then Some (r, buf, bdev)
       else do {
         src \<leftarrow> slice_checked 0 (unat len) (ph_bbuf (bdif bdev));
         buf \<leftarrow> memcpy_at buf p src;
         Some (EOK, buf, bdev) }}
     else Some (EOK, buf, bdev) }"

definition ext4_block_readbytes ::
  "'d ext4_blockdev \<Rightarrow> u64 \<Rightarrow> u8 list \<Rightarrow> u32 \<Rightarrow> (errno \<times> u8 list \<times> 'd ext4_blockdev) option" where
  "ext4_block_readbytes bdev off buf len =
     (if ph_refctr (bdif bdev) = 0 then Some (EIO, buf, bdev)
      else if off + ucast len > part_size bdev then Some (EINVAL, buf, bdev)
      else do {
        block_idx \<leftarrow> div_checked (off + part_offset bdev) (ucast (ph_bsize (bdif bdev)));
        let unalg = (ucast (off AND ucast (ph_bsize (bdif bdev) - 1)) :: u32);
        if unalg \<noteq> 0 then do {
          let rlen = (if ph_bsize (bdif bdev) - unalg > len then len else ph_bsize (bdif bdev) - unalg);
          (r, bdev) \<leftarrow> ph_fill bdev block_idx;
          if r \<noteq> EOK then Some (r, buf, bdev)
          else do {
            src \<leftarrow> slice_checked (unat unalg) (unat rlen) (ph_bbuf (bdif bdev));
            buf \<leftarrow> memcpy_at buf 0 src;
            readbytes_aligned bdev buf (unat rlen) (len - rlen) (block_idx + 1) }}
        else readbytes_aligned bdev buf 0 len block_idx })"

end
