(* ===== verification/Blockdev_Contract.thy ===== *)
theory Blockdev_Contract
  imports Blockdev
begin

text \<open>
  What a block device driver promises, as the locale \<open>block_driver\<close> (and \<open>reliable_driver\<close> for one that
  does not fail), and what the layer above it guarantees for every such driver: the buffer cache is
  transparent (\<open>view\<close>), its invariant \<open>cache_ok\<close> is kept by every operation, its loops end, and byte-
  granular reads and writes touch exactly their range. Theory \<open>Ram_Device\<close> gives a driver of the
  repository and interprets both locales.
\<close>

section \<open>The driver contract\<close>

text \<open>The bytes of the physical range \<open>cnt\<close> blocks from \<open>blk\<close> on, and whether the range is on the device.\<close>

definition ph_in_range :: "u32 \<Rightarrow> nat \<Rightarrow> u64 \<Rightarrow> u32 \<Rightarrow> bool" where
  "ph_in_range bsize len blk cnt = ((unat blk + unat cnt) * unat bsize \<le> len)"

text \<open>
  \<open>content d\<close> is the image of the device, \<open>dev_ok\<close> the driver's own invariant. A call in range returns;
  a read leaves the image alone and on success delivers the range; a write changes nothing outside its
  range, keeps the size, and on success stores the range. Either may fail.
\<close>

locale block_driver =
  fixes iface :: "'d ext4_blockdev_iface"
    and content :: "'d \<Rightarrow> u8 list"
    and dev_ok :: "'d \<Rightarrow> bool"
  assumes bsize_pos: "ph_bsize iface \<noteq> 0"
    and unlocked: "bd_lock iface = None" "bd_unlock iface = None"
    and read_law: "dev_ok d \<Longrightarrow> ph_in_range (ph_bsize iface) (length (content d)) blk cnt \<Longrightarrow>
      \<exists>r bytes d'. bd_bread iface d blk cnt = Some (r, bytes, d') \<and> dev_ok d' \<and> content d' = content d \<and>
        length bytes \<le> unat cnt * unat (ph_bsize iface) \<and>
        (r = EOK \<longrightarrow> bytes = slice (unat blk * unat (ph_bsize iface)) (unat cnt * unat (ph_bsize iface)) (content d))"
    and write_law: "dev_ok d \<Longrightarrow> ph_in_range (ph_bsize iface) (length (content d)) blk cnt \<Longrightarrow>
      unat cnt * unat (ph_bsize iface) \<le> length buf \<Longrightarrow>
      \<exists>r d'. bd_bwrite iface d buf blk cnt = Some (r, d') \<and> dev_ok d' \<and>
        length (content d') = length (content d) \<and>
        (r = EOK \<longrightarrow> content d' =
           splice (unat blk * unat (ph_bsize iface)) (take (unat cnt * unat (ph_bsize iface)) buf) (content d)) \<and>
        (\<forall>i < length (content d). (i < unat blk * unat (ph_bsize iface) \<or>
             (unat blk + unat cnt) * unat (ph_bsize iface) \<le> i) \<longrightarrow> content d' ! i = content d ! i)"

text \<open>A driver that never fails in range.\<close>

locale reliable_driver = block_driver +
  assumes read_ok: "dev_ok d \<Longrightarrow> ph_in_range (ph_bsize iface) (length (content d)) blk cnt \<Longrightarrow>
      bd_bread iface d blk cnt = Some (r, bytes, d') \<Longrightarrow> r = EOK"
    and write_ok: "dev_ok d \<Longrightarrow> ph_in_range (ph_bsize iface) (length (content d)) blk cnt \<Longrightarrow>
      unat cnt * unat (ph_bsize iface) \<le> length buf \<Longrightarrow>
      bd_bwrite iface d buf blk cnt = Some (r, d') \<Longrightarrow> r = EOK"

section \<open>What the cache shows of the device\<close>

definition dev_image :: "('d \<Rightarrow> u8 list) \<Rightarrow> 'd ext4_blockdev \<Rightarrow> u8 list" where
  "dev_image content bdev = content (p_user (bdif bdev))"

definition lg_offset :: "'d ext4_blockdev \<Rightarrow> u64 \<Rightarrow> nat" where
  "lg_offset bdev lba = unat (part_offset bdev) + unat lba * unat (lg_bsize bdev)"

definition dev_block :: "('d \<Rightarrow> u8 list) \<Rightarrow> 'd ext4_blockdev \<Rightarrow> u64 \<Rightarrow> u8 list" where
  "dev_block content bdev lba = slice (lg_offset bdev lba) (unat (lg_bsize bdev)) (dev_image content bdev)"

definition view :: "('d \<Rightarrow> u8 list) \<Rightarrow> 'd ext4_blockdev \<Rightarrow> u64 \<Rightarrow> u8 list" where
  "view content bdev lba =
     (case bufs (bcache bdev) lba of
        Some buf \<Rightarrow> if ext4_bcache_test_flag buf BC_UPTODATE then buf_data buf else dev_block content bdev lba
      | None \<Rightarrow> dev_block content bdev lba)"

text \<open>The parts of a device record that no operation here changes.\<close>

definition same_device :: "'d ext4_blockdev \<Rightarrow> 'd ext4_blockdev \<Rightarrow> bool" where
  "same_device bdev bdev' =
     (part_offset bdev' = part_offset bdev \<and> part_size bdev' = part_size bdev \<and> lg_bsize bdev' = lg_bsize bdev \<and>
      lg_bcnt bdev' = lg_bcnt bdev \<and> cache_write_back bdev' = cache_write_back bdev \<and>
      ph_refctr (bdif bdev') = ph_refctr (bdif bdev) \<and> bc_end_write bdev' = bc_end_write bdev)"

definition bound_driver :: "'d ext4_blockdev_iface \<Rightarrow> 'd ext4_blockdev_iface \<Rightarrow> bool" where
  "bound_driver iface bi =
     (bd_bread bi = bd_bread iface \<and> bd_bwrite bi = bd_bwrite iface \<and> bd_lock bi = bd_lock iface \<and>
      bd_unlock bi = bd_unlock iface \<and> ph_bsize bi = ph_bsize iface \<and>
      length (ph_bbuf bi) = unat (ph_bsize iface))"

definition geometry_ok :: "'d ext4_blockdev \<Rightarrow> nat \<Rightarrow> bool" where
  "geometry_ok bdev len =
     (unat (part_offset bdev) + unat (part_size bdev) \<le> len \<and> len < 2 ^ 64 \<and> lg_bsize bdev \<noteq> 0 \<and>
      unat (ph_bsize (bdif bdev)) dvd unat (part_offset bdev) \<and> unat (ph_bsize (bdif bdev)) dvd unat (lg_bsize bdev) \<and>
      unat (lg_bcnt bdev) * unat (lg_bsize bdev) \<le> unat (part_size bdev))"

definition bdev_ok :: "'d ext4_blockdev_iface \<Rightarrow> ('d \<Rightarrow> u8 list) \<Rightarrow> ('d \<Rightarrow> bool) \<Rightarrow> 'd ext4_blockdev \<Rightarrow> bool" where
  "bdev_ok iface content dev_ok bdev =
     (bound_driver iface (bdif bdev) \<and> dev_ok (p_user (bdif bdev)) \<and>
      geometry_ok bdev (length (dev_image content bdev)))"

text \<open>The cache invariant relative to the device: clean valid buffers agree with the device.\<close>

definition cache_ok :: "('d \<Rightarrow> u8 list) \<Rightarrow> 'd ext4_blockdev \<Rightarrow> bool" where
  "cache_ok content bdev =
     (bcache_wf (bcache bdev) \<and> itemsize (bcache bdev) = lg_bsize bdev \<and>
      (\<forall>lba buf. bufs (bcache bdev) lba = Some buf \<longrightarrow>
         lba < lg_bcnt bdev \<and> end_write buf = None \<and>
         (ext4_bcache_test_flag buf BC_DIRTY \<longrightarrow> ext4_bcache_test_flag buf BC_UPTODATE) \<and>
         (ext4_bcache_test_flag buf BC_UPTODATE \<and> \<not> ext4_bcache_test_flag buf BC_DIRTY \<longrightarrow>
            buf_data buf = dev_block content bdev lba)))"

lemma cache_okD:
  assumes "cache_ok content bdev" "bufs (bcache bdev) lba = Some buf"
  shows "lba < lg_bcnt bdev" "end_write buf = None"
    "ext4_bcache_test_flag buf BC_DIRTY \<Longrightarrow> ext4_bcache_test_flag buf BC_UPTODATE"
    "ext4_bcache_test_flag buf BC_UPTODATE \<Longrightarrow> \<not> ext4_bcache_test_flag buf BC_DIRTY \<Longrightarrow>
       buf_data buf = dev_block content bdev lba"
    "bcache_wf (bcache bdev)" "buf_lba buf = lba" "length (buf_data buf) = unat (lg_bsize bdev)"
  using assms bcache_wfD(8) [of "bcache bdev" lba buf] by (auto simp: cache_ok_def buf_ok_def)

lemma same_device_refl [simp]: "same_device bdev bdev"
  and same_device_trans: "same_device a b \<Longrightarrow> same_device b c \<Longrightarrow> same_device a c"
  by (simp_all add: same_device_def)

lemma lg_offset_same: "same_device bdev bdev' \<Longrightarrow> lg_offset bdev' = lg_offset bdev"
  by (rule ext) (simp add: lg_offset_def same_device_def)

lemma geometry_block:
  assumes "geometry_ok bdev len" "lba < lg_bcnt bdev"
  shows "lg_offset bdev lba + unat (lg_bsize bdev) \<le> len"
    "unat (ph_bsize (bdif bdev)) dvd lg_offset bdev lba"
    "unat (lba * ucast (lg_bsize bdev) + part_offset bdev) = lg_offset bdev lba"
proof -
  have "Suc (unat lba) * unat (lg_bsize bdev) \<le> unat (lg_bcnt bdev) * unat (lg_bsize bdev)"
    using assms(2) by (intro mult_right_mono) (simp_all add: word_less_nat_alt Suc_le_eq)
  then have le: "unat lba * unat (lg_bsize bdev) + unat (lg_bsize bdev) + unat (part_offset bdev) \<le> len"
    using assms(1) by (simp add: geometry_ok_def)
  then show "lg_offset bdev lba + unat (lg_bsize bdev) \<le> len" by (simp add: lg_offset_def)
  show "unat (ph_bsize (bdif bdev)) dvd lg_offset bdev lba"
    using assms(1) by (simp add: lg_offset_def geometry_ok_def)
  have lt: "unat lba * unat (lg_bsize bdev) + unat (part_offset bdev) < 2 ^ LENGTH(64)"
    using le assms(1) unfolding geometry_ok_def by (elim conjE) simp
  then have "unat lba * unat (ucast (lg_bsize bdev) :: u64) < 2 ^ LENGTH(64)"
    by (simp only: ucast_u32_u64_unat)
  then have m: "unat (lba * ucast (lg_bsize bdev)) = unat lba * unat (lg_bsize bdev)"
    by (simp only: unat_mult_nowrap ucast_u32_u64_unat)
  have "unat (lba * ucast (lg_bsize bdev) + part_offset bdev) =
      unat (lba * ucast (lg_bsize bdev)) + unat (part_offset bdev)"
    by (rule unat_plus_nowrap) (use lt m in linarith)
  then show "unat (lba * ucast (lg_bsize bdev) + part_offset bdev) = lg_offset bdev lba"
    using m by (simp only: lg_offset_def add.commute)
qed

text \<open>What a driver call keeps: everything but the driver state and the counters.\<close>

definition io_frame :: "'d ext4_blockdev \<Rightarrow> 'd ext4_blockdev \<Rightarrow> bool" where
  "io_frame bdev bdev' =
     (same_device bdev bdev' \<and> bcache bdev' = bcache bdev \<and> ph_bbuf (bdif bdev') = ph_bbuf (bdif bdev))"

lemma view_cong:
  assumes "bcache bdev' = bcache bdev" "\<And>l. l \<in> S \<Longrightarrow> dev_block content bdev' l = dev_block content bdev l" "l \<in> S"
  shows "view content bdev' l = view content bdev l"
  using assms by (simp add: view_def split: option.splits)

lemma dev_block_same:
  assumes "same_device bdev bdev'" "dev_image content bdev' = dev_image content bdev"
  shows "dev_block content bdev' = dev_block content bdev"
proof -
  have "lg_bsize bdev' = lg_bsize bdev" using assms(1) by (simp add: same_device_def)
  then show ?thesis by (intro ext) (simp only: dev_block_def lg_offset_same [OF assms(1)] assms(2))
qed

lemma geometry_ok_same:
  "same_device bdev bdev' \<Longrightarrow> ph_bsize (bdif bdev') = ph_bsize (bdif bdev) \<Longrightarrow>
     geometry_ok bdev' len = geometry_ok bdev len"
  by (simp add: geometry_ok_def same_device_def)

lemma bdev_ok_frame:
  assumes "bdev_ok iface content dev_ok bdev" "same_device bdev bdev'" "bound_driver iface (bdif bdev')"
    "dev_ok (p_user (bdif bdev'))" "length (dev_image content bdev') = length (dev_image content bdev)"
  shows "bdev_ok iface content dev_ok bdev'"
proof -
  have "ph_bsize (bdif bdev') = ph_bsize (bdif bdev)"
    using assms(1,3) by (simp add: bdev_ok_def bound_driver_def)
  then show ?thesis
    using assms geometry_ok_same [OF assms(2)] by (simp only: bdev_ok_def)
qed

context block_driver
begin

lemma bdif_bread:
  assumes "bound_driver iface (bdif bdev)" "dev_ok (p_user (bdif bdev))"
    and range: "ph_in_range (ph_bsize iface) (length (dev_image content bdev)) blk cnt"
  obtains r bytes bdev' where "ext4_bdif_bread bdev blk cnt = Some (r, bytes, bdev')" "io_frame bdev bdev'"
    "bound_driver iface (bdif bdev')" "dev_ok (p_user (bdif bdev'))"
    "dev_image content bdev' = dev_image content bdev" "length bytes \<le> unat cnt * unat (ph_bsize iface)"
    "r = EOK \<longrightarrow> bytes = slice (unat blk * unat (ph_bsize iface)) (unat cnt * unat (ph_bsize iface)) (dev_image content bdev)"
proof -
  from read_law [OF assms(2) range [unfolded dev_image_def]] obtain r bytes d' where
    d: "bd_bread iface (p_user (bdif bdev)) blk cnt = Some (r, bytes, d')" "dev_ok d'"
      "content d' = content (p_user (bdif bdev))" "length bytes \<le> unat cnt * unat (ph_bsize iface)"
      "r = EOK \<longrightarrow> bytes = slice (unat blk * unat (ph_bsize iface)) (unat cnt * unat (ph_bsize iface))
         (content (p_user (bdif bdev)))"
    by blast
  let ?bdev = "bdev\<lparr>bdif := (bdif bdev)\<lparr>p_user := d', bread_ctr := bread_ctr (bdif bdev) + 1\<rparr>\<rparr>"
  have "ext4_bdif_bread bdev blk cnt = Some (r, bytes, ?bdev)"
    using assms(1) unlocked d(1)
    by (simp add: ext4_bdif_bread_def ext4_bdif_lock_def ext4_bdif_unlock_def bound_driver_def)
  then show thesis
    by (rule that) (use assms(1) d in \<open>simp_all add: io_frame_def same_device_def bound_driver_def dev_image_def\<close>)
qed

lemma bdif_bwrite:
  assumes "bound_driver iface (bdif bdev)" "dev_ok (p_user (bdif bdev))"
    and range: "ph_in_range (ph_bsize iface) (length (dev_image content bdev)) blk cnt"
    and buf: "unat cnt * unat (ph_bsize iface) \<le> length buf"
  obtains r bdev' where "ext4_bdif_bwrite bdev buf blk cnt = Some (r, bdev')" "io_frame bdev bdev'"
    "bound_driver iface (bdif bdev')" "dev_ok (p_user (bdif bdev'))"
    "length (dev_image content bdev') = length (dev_image content bdev)"
    "r = EOK \<longrightarrow> dev_image content bdev' = splice (unat blk * unat (ph_bsize iface))
       (take (unat cnt * unat (ph_bsize iface)) buf) (dev_image content bdev)"
    "\<forall>i < length (dev_image content bdev). i < unat blk * unat (ph_bsize iface) \<or>
       (unat blk + unat cnt) * unat (ph_bsize iface) \<le> i \<longrightarrow> dev_image content bdev' ! i = dev_image content bdev ! i"
proof -
  from write_law [OF assms(2) range [unfolded dev_image_def] buf] obtain r d' where
    d: "bd_bwrite iface (p_user (bdif bdev)) buf blk cnt = Some (r, d')" "dev_ok d'"
      "length (content d') = length (content (p_user (bdif bdev)))"
      "r = EOK \<longrightarrow> content d' = splice (unat blk * unat (ph_bsize iface))
         (take (unat cnt * unat (ph_bsize iface)) buf) (content (p_user (bdif bdev)))"
      "\<forall>i < length (content (p_user (bdif bdev))). (i < unat blk * unat (ph_bsize iface) \<or>
         (unat blk + unat cnt) * unat (ph_bsize iface) \<le> i) \<longrightarrow> content d' ! i = content (p_user (bdif bdev)) ! i"
    by blast
  let ?bdev = "bdev\<lparr>bdif := (bdif bdev)\<lparr>p_user := d', bwrite_ctr := bwrite_ctr (bdif bdev) + 1\<rparr>\<rparr>"
  have "ext4_bdif_bwrite bdev buf blk cnt = Some (r, ?bdev)"
    using assms(1) unlocked d(1)
    by (simp add: ext4_bdif_bwrite_def ext4_bdif_lock_def ext4_bdif_unlock_def bound_driver_def)
  then show thesis
    by (rule that) (use assms(1) d in \<open>simp_all add: io_frame_def same_device_def bound_driver_def dev_image_def\<close>)
qed

text \<open>Whole logical blocks.\<close>

lemma lg_phys:
  assumes ok: "bdev_ok iface content dev_ok bdev" and lba: "lba < lg_bcnt bdev"
  obtains pba n where "div_checked (lba * ucast (lg_bsize bdev) + part_offset bdev) (ucast (ph_bsize (bdif bdev))) = Some pba"
    "div_checked (lg_bsize bdev) (ph_bsize (bdif bdev)) = Some n"
    "unat pba * unat (ph_bsize iface) = lg_offset bdev lba" "unat n * unat (ph_bsize iface) = unat (lg_bsize bdev)"
    "ph_in_range (ph_bsize iface) (length (dev_image content bdev)) pba n"
proof -
  have b: "ph_bsize (bdif bdev) = ph_bsize iface" using ok by (simp add: bdev_ok_def bound_driver_def)
  have g: "geometry_ok bdev (length (dev_image content bdev))" using ok by (simp add: bdev_ok_def)
  note G = geometry_block [OF g lba, unfolded b]
  let ?pba = "(lba * ucast (lg_bsize bdev) + part_offset bdev) div ucast (ph_bsize iface)"
  let ?n = "lg_bsize bdev div ph_bsize iface"
  have p: "unat ?pba * unat (ph_bsize iface) = lg_offset bdev lba"
    using G(2,3) by (simp add: unat_div)
  have n: "unat ?n * unat (ph_bsize iface) = unat (lg_bsize bdev)"
    using g b by (simp add: geometry_ok_def unat_div)
  have "ph_in_range (ph_bsize iface) (length (dev_image content bdev)) ?pba ?n"
    using G(1) p n by (simp add: ph_in_range_def add_mult_distrib)
  with p n show thesis by (intro that [of ?pba ?n]) (use bsize_pos in \<open>simp_all add: b\<close>)
qed

lemma blocks_get_direct:
  assumes ok: "bdev_ok iface content dev_ok bdev" and lba: "lba < lg_bcnt bdev"
  obtains r bytes bdev' where "ext4_blocks_get_direct bdev lba 1 = Some (r, bytes, bdev')" "io_frame bdev bdev'"
    "bdev_ok iface content dev_ok bdev'" "dev_image content bdev' = dev_image content bdev"
    "length bytes \<le> unat (lg_bsize bdev)" "r = EOK \<longrightarrow> bytes = dev_block content bdev lba"
proof -
  obtain pba n where pba: "div_checked (lba * ucast (lg_bsize bdev) + part_offset bdev) (ucast (ph_bsize (bdif bdev))) = Some pba"
    "div_checked (lg_bsize bdev) (ph_bsize (bdif bdev)) = Some n"
    "unat pba * unat (ph_bsize iface) = lg_offset bdev lba" "unat n * unat (ph_bsize iface) = unat (lg_bsize bdev)"
    "ph_in_range (ph_bsize iface) (length (dev_image content bdev)) pba n"
    by (rule lg_phys [OF ok lba])
  have bd: "bound_driver iface (bdif bdev)" "dev_ok (p_user (bdif bdev))" using ok by (simp_all add: bdev_ok_def)
  obtain r bytes bdev' where r: "ext4_bdif_bread bdev pba n = Some (r, bytes, bdev')" "io_frame bdev bdev'"
    "bound_driver iface (bdif bdev')" "dev_ok (p_user (bdif bdev'))"
    "dev_image content bdev' = dev_image content bdev" "length bytes \<le> unat n * unat (ph_bsize iface)"
    "r = EOK \<longrightarrow> bytes = slice (unat pba * unat (ph_bsize iface)) (unat n * unat (ph_bsize iface)) (dev_image content bdev)"
    by (rule bdif_bread [OF bd pba(5)])
  have "bdev_ok iface content dev_ok bdev'"
    using r(2-5) by (intro bdev_ok_frame [OF ok]) (simp_all add: io_frame_def)
  moreover have "ext4_blocks_get_direct bdev lba 1 = Some (r, bytes, bdev')"
    using r(1) pba(1,2) by (simp add: ext4_blocks_get_direct_def)
  ultimately show thesis
    by (intro that [of r bytes bdev'] r(2,5) r(6,7) [unfolded pba(3,4), folded dev_block_def])
qed

end

text \<open>Blocks do not overlap.\<close>

lemma lg_offset_disjoint:
  assumes "l \<noteq> lba"
  shows "lg_offset bdev l + unat (lg_bsize bdev) \<le> lg_offset bdev lba \<or>
    lg_offset bdev lba + unat (lg_bsize bdev) \<le> lg_offset bdev l"
proof -
  have "unat l \<noteq> unat lba" using assms by (simp add: word_unat_eq_iff)
  then consider "unat l + 1 \<le> unat lba" | "unat lba + 1 \<le> unat l" by linarith
  then show ?thesis
  proof cases
    case 1
    then have "(unat l + 1) * unat (lg_bsize bdev) \<le> unat lba * unat (lg_bsize bdev)" by (rule mult_right_mono) simp
    then show ?thesis by (simp add: lg_offset_def)
  next
    case 2
    then have "(unat lba + 1) * unat (lg_bsize bdev) \<le> unat l * unat (lg_bsize bdev)" by (rule mult_right_mono) simp
    then show ?thesis by (simp add: lg_offset_def)
  qed
qed

lemma dev_block_elsewhere:
  assumes g: "geometry_ok bdev (length (dev_image content bdev))" and l: "l < lg_bcnt bdev" "l \<noteq> lba"
    and sd: "same_device bdev bdev'" and len: "length (dev_image content bdev') = length (dev_image content bdev)"
    and same: "\<forall>i < length (dev_image content bdev). i < lg_offset bdev lba \<or>
      lg_offset bdev lba + unat (lg_bsize bdev) \<le> i \<longrightarrow> dev_image content bdev' ! i = dev_image content bdev ! i"
  shows "dev_block content bdev' l = dev_block content bdev l"
proof -
  have bs: "lg_bsize bdev' = lg_bsize bdev" using sd by (simp add: same_device_def)
  note b = geometry_block(1) [OF g l(1)]
  show ?thesis
    unfolding dev_block_def bs lg_offset_same [OF sd]
  proof (rule nth_equalityI)
    show "length (slice (lg_offset bdev l) (unat (lg_bsize bdev)) (dev_image content bdev')) =
        length (slice (lg_offset bdev l) (unat (lg_bsize bdev)) (dev_image content bdev))"
      using b len by simp
    fix i assume "i < length (slice (lg_offset bdev l) (unat (lg_bsize bdev)) (dev_image content bdev'))"
    then have i: "i < unat (lg_bsize bdev)" using b len by simp
    then have "lg_offset bdev l + i < lg_offset bdev lba \<or>
        lg_offset bdev lba + unat (lg_bsize bdev) \<le> lg_offset bdev l + i"
      using lg_offset_disjoint [OF l(2), of bdev] by linarith
    moreover have lt: "lg_offset bdev l + i < length (dev_image content bdev)" using b i by linarith
    ultimately have "dev_image content bdev' ! (lg_offset bdev l + i) = dev_image content bdev ! (lg_offset bdev l + i)"
      using same [rule_format, OF lt] by blast
    then show "slice (lg_offset bdev l) (unat (lg_bsize bdev)) (dev_image content bdev') ! i =
        slice (lg_offset bdev l) (unat (lg_bsize bdev)) (dev_image content bdev) ! i"
      using b i len by simp
  qed
qed

context block_driver
begin

lemma blocks_set_direct:
  assumes ok: "bdev_ok iface content dev_ok bdev" and lba: "lba < lg_bcnt bdev"
    and buf: "length buf = unat (lg_bsize bdev)"
  obtains r bdev' where "ext4_blocks_set_direct bdev buf lba 1 = Some (r, bdev')" "io_frame bdev bdev'"
    "bdev_ok iface content dev_ok bdev'"
    "r = EOK \<longrightarrow> dev_block content bdev' lba = buf"
    "\<forall>l. l < lg_bcnt bdev \<and> l \<noteq> lba \<longrightarrow> dev_block content bdev' l = dev_block content bdev l"
proof -
  obtain pba n where pba: "div_checked (lba * ucast (lg_bsize bdev) + part_offset bdev) (ucast (ph_bsize (bdif bdev))) = Some pba"
    "div_checked (lg_bsize bdev) (ph_bsize (bdif bdev)) = Some n"
    "unat pba * unat (ph_bsize iface) = lg_offset bdev lba" "unat n * unat (ph_bsize iface) = unat (lg_bsize bdev)"
    "ph_in_range (ph_bsize iface) (length (dev_image content bdev)) pba n"
    by (rule lg_phys [OF ok lba])
  have bd: "bound_driver iface (bdif bdev)" "dev_ok (p_user (bdif bdev))"
    and g: "geometry_ok bdev (length (dev_image content bdev))" using ok by (simp_all add: bdev_ok_def)
  have end_off: "(unat pba + unat n) * unat (ph_bsize iface) = lg_offset bdev lba + unat (lg_bsize bdev)"
    using pba(3,4) by (simp add: add_mult_distrib)
  have len: "unat n * unat (ph_bsize iface) \<le> length buf" using pba(4) buf by simp
  obtain r bdev' where r: "ext4_bdif_bwrite bdev buf pba n = Some (r, bdev')" "io_frame bdev bdev'"
    "bound_driver iface (bdif bdev')" "dev_ok (p_user (bdif bdev'))"
    "length (dev_image content bdev') = length (dev_image content bdev)"
    "r = EOK \<longrightarrow> dev_image content bdev' = splice (unat pba * unat (ph_bsize iface))
       (take (unat n * unat (ph_bsize iface)) buf) (dev_image content bdev)"
    "\<forall>i < length (dev_image content bdev). i < unat pba * unat (ph_bsize iface) \<or>
       (unat pba + unat n) * unat (ph_bsize iface) \<le> i \<longrightarrow> dev_image content bdev' ! i = dev_image content bdev ! i"
    by (rule bdif_bwrite [OF bd pba(5) len])
  have sd: "same_device bdev bdev'" using r(2) by (simp add: io_frame_def)
  have bs: "lg_bsize bdev' = lg_bsize bdev" using sd by (simp add: same_device_def)
  have "bdev_ok iface content dev_ok bdev'" by (rule bdev_ok_frame [OF ok sd r(3,4,5)])
  moreover have "ext4_blocks_set_direct bdev buf lba 1 = Some (r, bdev')"
    using r(1) pba(1,2) by (simp add: ext4_blocks_set_direct_def)
  moreover have "r = EOK \<longrightarrow> dev_block content bdev' lba = buf"
    using r(6) geometry_block(1) [OF g lba] buf
    unfolding pba(3,4) dev_block_def bs lg_offset_same [OF sd] by simp
  moreover have "\<forall>l. l < lg_bcnt bdev \<and> l \<noteq> lba \<longrightarrow> dev_block content bdev' l = dev_block content bdev l"
    using dev_block_elsewhere [OF g _ _ sd r(5) r(7) [unfolded pba(3) end_off]] by blast
  ultimately show thesis by (intro that [of r bdev'] r(2))
qed

end

section \<open>Flushing one buffer\<close>

definition flushed :: "ext4_buf \<Rightarrow> ext4_buf" where
  "flushed buf =
     (if ext4_bcache_test_flag buf BC_DIRTY
      then ext4_bcache_clear_flag (buf\<lparr>on_dirty_list := False\<rparr>) BC_DIRTY else buf)"

lemma flushed_simps [simp]:
  "refctr (flushed buf) = refctr buf" "buf_data (flushed buf) = buf_data buf" "buf_lba (flushed buf) = buf_lba buf"
  "lru_id (flushed buf) = lru_id buf" "end_write (flushed buf) = end_write buf"
  "\<not> ext4_bcache_test_flag (flushed buf) (Suc 0)"
  "ext4_bcache_test_flag (flushed buf) BC_UPTODATE = ext4_bcache_test_flag buf BC_UPTODATE"
  "ext4_bcache_test_flag (flushed buf) BC_TMP = ext4_bcache_test_flag buf BC_TMP"
  by (auto simp: flushed_def)

text \<open>The fields of a cache that flushing leaves alone.\<close>

definition same_cache :: "ext4_bcache \<Rightarrow> ext4_bcache \<Rightarrow> bool" where
  "same_cache bc bc' =
     (lba_root bc' = lba_root bc \<and> lru_root bc' = lru_root bc \<and> lru_ctr bc' = lru_ctr bc \<and>
      dont_shake bc' = dont_shake bc \<and> bc_cnt bc' = bc_cnt bc \<and> ref_blocks bc' = ref_blocks bc \<and>
      itemsize bc' = itemsize bc \<and> malloc_oracle bc' = malloc_oracle bc \<and> mallocs bc' = mallocs bc)"

lemma same_cache_refl [simp]: "same_cache bc bc"
  by (simp add: same_cache_def)

lemma cache_ok_wf: "cache_ok content bdev \<Longrightarrow> bcache_wf (bcache bdev)"
  by (simp add: cache_ok_def)

lemma cache_ok_clean_block:
  assumes ok: "cache_ok content bdev" and buf: "bufs (bcache bdev) p = Some buf"
    and sd: "same_device bdev bdev'" and bc: "bcache bdev' = bcache bdev"
    and dirty: "ext4_bcache_test_flag buf BC_DIRTY"
    and other: "\<forall>l. l < lg_bcnt bdev \<and> l \<noteq> p \<longrightarrow> dev_block content bdev' l = dev_block content bdev l"
  shows "cache_ok content bdev'"
    and "\<forall>l < lg_bcnt bdev. view content bdev' l = view content bdev l"
proof -
  have up: "ext4_bcache_test_flag buf BC_UPTODATE" by (rule cache_okD(3) [OF ok buf dirty])
  have "lba < lg_bcnt bdev \<and> end_write b = None \<and>
      (ext4_bcache_test_flag b BC_DIRTY \<longrightarrow> ext4_bcache_test_flag b BC_UPTODATE) \<and>
      (ext4_bcache_test_flag b BC_UPTODATE \<and> \<not> ext4_bcache_test_flag b BC_DIRTY \<longrightarrow>
         buf_data b = dev_block content bdev' lba)" if b: "bufs (bcache bdev) lba = Some b" for lba b
    using cache_okD(1-4) [OF ok b] other dirty buf b by (cases "lba = p") auto
  then show "cache_ok content bdev'"
    using ok sd unfolding cache_ok_def bc same_device_def by auto
  have "view content bdev' l = view content bdev l" if "l < lg_bcnt bdev" for l
    using other that buf up by (cases "l = p") (auto simp: view_def bc split: option.splits)
  then show "\<forall>l < lg_bcnt bdev. view content bdev' l = view content bdev l" by blast
qed

context block_driver
begin

lemma flush_buf:
  assumes ok: "bdev_ok iface content dev_ok bdev" and c: "cache_ok content bdev"
    and buf: "bufs (bcache bdev) p = Some buf"
  obtains r bdev' where "ext4_block_flush_buf bdev p = Some (r, bdev')" "bdev_ok iface content dev_ok bdev'"
    "cache_ok content bdev'" "same_device bdev bdev'" "same_cache (bcache bdev) (bcache bdev')"
    "\<forall>l < lg_bcnt bdev. view content bdev' l = view content bdev l"
    "r \<noteq> EOK \<longrightarrow> bcache bdev' = bcache bdev"
    "r = EOK \<longrightarrow> bufs (bcache bdev') = (bufs (bcache bdev))(p \<mapsto> flushed buf) \<and>
       set (dirty_list (bcache bdev')) = set (dirty_list (bcache bdev)) - {p}"
proof (cases "ext4_bcache_test_flag buf BC_DIRTY")
  case False
  then have "\<not> on_dirty_list buf"
    using bcache_wfD(8) [OF cache_ok_wf [OF c] buf] by (auto simp: buf_ok_def)
  then have "p \<notin> set (dirty_list (bcache bdev))" using bcache_wfD(7) [OF cache_ok_wf [OF c]] buf by simp
  moreover have "flushed buf = buf" using False by (simp add: flushed_def)
  moreover have "ext4_block_flush_buf bdev p = Some (EOK, bdev)"
    using False buf by (simp add: ext4_block_flush_buf_def)
  ultimately show thesis
    by (intro that [of EOK bdev]) (use ok c buf in \<open>simp_all add: fun_upd_idem\<close>)
next
  case True
  note C = cache_okD [OF c buf]
  obtain r bdev1 where w: "ext4_blocks_set_direct bdev (buf_data buf) p 1 = Some (r, bdev1)" "io_frame bdev bdev1"
    "bdev_ok iface content dev_ok bdev1" "r = EOK \<longrightarrow> dev_block content bdev1 p = buf_data buf"
    "\<forall>l. l < lg_bcnt bdev \<and> l \<noteq> p \<longrightarrow> dev_block content bdev1 l = dev_block content bdev l"
    by (rule blocks_set_direct [OF ok C(1,7)])
  have sd: "same_device bdev bdev1" and bc1: "bcache bdev1 = bcache bdev" using w(2) by (simp_all add: io_frame_def)
  note clean = cache_ok_clean_block [OF c buf sd bc1 True w(5)]
  have start: "ext4_block_flush_buf bdev p =
      (if r \<noteq> EOK then Option.bind (call_end_write bdev1 p r) (\<lambda>bdev. Some (r, bdev))
       else do {
         bc \<leftarrow> ext4_bcache_remove_dirty_node (bcache bdev1) p;
         buf \<leftarrow> bufs bc p;
         let bdev = bdev1\<lparr>bcache := put_buf bc p (ext4_bcache_clear_flag buf BC_DIRTY)\<rparr>;
         bdev \<leftarrow> call_end_write bdev p r;
         Some (EOK, bdev) })"
    using buf True C(3,6) w(1) by (simp add: ext4_block_flush_buf_def)
  show thesis
  proof (cases "r = EOK")
    case False
    then have "ext4_block_flush_buf bdev p = Some (r, bdev1)"
      unfolding start using buf C(2) by (simp add: call_end_write_def bc1)
    then show thesis
      by (rule that) (use w(3) clean sd bc1 False in simp_all)
  next
    case eok: True
    let ?bc = "(bcache bdev)\<lparr>dirty_list := remove1 p (dirty_list (bcache bdev)),
             bufs := (bufs (bcache bdev))(p \<mapsto> buf\<lparr>on_dirty_list := False\<rparr>)\<rparr>"
    let ?bc' = "put_buf ?bc p (flushed buf)"
    let ?bdev = "bdev1\<lparr>bcache := ?bc'\<rparr>"
    have fl: "flushed buf = ext4_bcache_clear_flag (buf\<lparr>on_dirty_list := False\<rparr>) BC_DIRTY"
      using True by (simp add: flushed_def)
    have wf: "bcache_wf ?bc'"
      by (rule bcache_wf_update [OF bcache_wf_clear_dirty_node [OF C(5) buf], of _ "buf\<lparr>on_dirty_list := False\<rparr>"])
        (simp_all add: fl)
    have res: "ext4_block_flush_buf bdev p = Some (EOK, ?bdev)"
      unfolding start using eok C(2) ext4_bcache_remove_dirty_node_eq [OF C(5) buf]
      by (simp add: bc1 fl call_end_write_def)
    have db: "dev_block content ?bdev = dev_block content bdev1"
      by (rule dev_block_same) (simp_all add: same_device_def dev_image_def)
    have sd': "same_device bdev ?bdev" using sd by (simp add: same_device_def)
    have ok': "bdev_ok iface content dev_ok ?bdev"
      using w(3) by (simp add: bdev_ok_def geometry_ok_def dev_image_def)
    have "lba < lg_bcnt bdev \<and> end_write b = None \<and>
      (ext4_bcache_test_flag b BC_DIRTY \<longrightarrow> ext4_bcache_test_flag b BC_UPTODATE) \<and>
      (ext4_bcache_test_flag b BC_UPTODATE \<and> \<not> ext4_bcache_test_flag b BC_DIRTY \<longrightarrow>
         buf_data b = dev_block content bdev1 lba)" if b: "bufs ?bc' lba = Some b" for lba b
    proof (cases "lba = p")
      case True
      then have "b = flushed buf" using b by simp
      then show ?thesis using C(1,2) w(4) eok True by simp
    next
      case False
      then have b': "bufs (bcache bdev) lba = Some b" using b by simp
      show ?thesis using cache_okD(1-4) [OF c b'] w(5) False by auto
    qed
    then have c': "cache_ok content ?bdev"
      using wf c sd unfolding cache_ok_def db same_device_def by auto
    have v: "\<forall>l < lg_bcnt bdev. view content ?bdev l = view content bdev l"
      using clean(2) C(3) [OF True] buf unfolding view_def db by (auto simp: bc1)
    show thesis
      by (rule that [OF res ok' c' sd' _ v])
        (use bcache_wfD(6) [OF C(5)] in \<open>simp_all add: same_cache_def set_remove1_eq\<close>)
  qed
qed

end

section \<open>Making room: the shake loop\<close>

lemma set_bcache_facts:
  assumes "same_device bdev bdev'" "bdif bdev' = bdif bdev"
  shows "dev_block content bdev' = dev_block content bdev" "dev_image content bdev' = dev_image content bdev"
    "bdev_ok iface content dev_ok bdev' = bdev_ok iface content dev_ok bdev"
proof -
  show i: "dev_image content bdev' = dev_image content bdev" using assms(2) by (simp add: dev_image_def)
  show "dev_block content bdev' = dev_block content bdev" by (rule dev_block_same [OF assms(1) i])
  show "bdev_ok iface content dev_ok bdev' = bdev_ok iface content dev_ok bdev"
    using geometry_ok_same [OF assms(1)] i by (simp only: bdev_ok_def assms(2))
qed

lemma drop_clean_buf:
  assumes c: "cache_ok content bdev" and buf: "bufs (bcache bdev) p = Some buf"
    and clean: "\<not> ext4_bcache_test_flag buf BC_DIRTY"
  defines "bdev' \<equiv> bdev\<lparr>bcache := bcache_dropped (bcache bdev) p\<rparr>"
  shows "cache_ok content bdev'" "same_device bdev bdev'" "\<And>l. view content bdev' l = view content bdev l"
proof -
  show sd: "same_device bdev bdev'" by (simp add: bdev'_def same_device_def)
  have db: "dev_block content bdev' = dev_block content bdev"
    by (rule set_bcache_facts(1) [OF sd]) (simp add: bdev'_def)
  have wf: "bcache_wf (bcache bdev')"
    using bcache_wf_dropped [OF cache_ok_wf [OF c] buf] by (simp add: bdev'_def)
  have bufs: "bufs (bcache bdev') = (bufs (bcache bdev))(p := None)"
    by (simp add: bdev'_def bcache_dropped_def)
  show "cache_ok content bdev'"
    using wf c unfolding cache_ok_def db bufs by (auto simp: bdev'_def bcache_dropped_def)
  show "view content bdev' l = view content bdev l" for l
    using cache_okD(4) [OF c buf] clean buf unfolding view_def db bufs by (simp split: option.splits)
qed

text \<open>What shaking may do to a cache: drop or clean unreferenced buffers, nothing else.\<close>

definition shaken :: "ext4_bcache \<Rightarrow> ext4_bcache \<Rightarrow> bool" where
  "shaken bc bc' =
     (lru_ctr bc' = lru_ctr bc \<and> bc_cnt bc' = bc_cnt bc \<and> itemsize bc' = itemsize bc \<and>
      dont_shake bc' = dont_shake bc \<and> malloc_oracle bc' = malloc_oracle bc \<and> mallocs bc' = mallocs bc \<and>
      (\<forall>p buf. bufs bc p = Some buf \<and> refctr buf \<noteq> 0 \<longrightarrow> bufs bc' p = Some buf) \<and>
      (\<forall>p buf'. bufs bc' p = Some buf' \<longrightarrow>
         (\<exists>buf. bufs bc p = Some buf \<and> refctr buf' = refctr buf \<and>
            (refctr buf \<noteq> 0 \<longrightarrow> buf' = buf))))"

lemma shaken_refl [simp]: "shaken bc bc"
  by (simp add: shaken_def)

lemma shaken_trans:
  assumes "shaken a b" "shaken b c"
  shows "shaken a c"
proof -
  have ref: "bufs c p = Some buf" if "bufs a p = Some buf" "refctr buf \<noteq> 0" for p buf
    using that assms by (simp add: shaken_def)
  have old: "\<exists>buf. bufs a p = Some buf \<and> refctr buf' = refctr buf \<and> (refctr buf \<noteq> 0 \<longrightarrow> buf' = buf)"
    if p: "bufs c p = Some buf'" for p buf'
  proof -
    obtain b2 where b2: "bufs b p = Some b2" "refctr buf' = refctr b2" "refctr b2 \<noteq> 0 \<longrightarrow> buf' = b2"
      using assms(2) p unfolding shaken_def by blast
    obtain b1 where "bufs a p = Some b1" "refctr b2 = refctr b1" "refctr b1 \<noteq> 0 \<longrightarrow> b2 = b1"
      using assms(1) b2(1) unfolding shaken_def by blast
    with b2 show ?thesis by simp
  qed
  show ?thesis
    unfolding shaken_def
  proof (intro conjI)
    show "\<forall>p buf. bufs a p = Some buf \<and> refctr buf \<noteq> 0 \<longrightarrow> bufs c p = Some buf" using ref by blast
    show "\<forall>p buf'. bufs c p = Some buf' \<longrightarrow>
        (\<exists>buf. bufs a p = Some buf \<and> refctr buf' = refctr buf \<and> (refctr buf \<noteq> 0 \<longrightarrow> buf' = buf))"
      using old by blast
  qed (use assms in \<open>simp_all add: shaken_def\<close>)
qed

context block_driver
begin

lemma shake_step:
  assumes ok: "bdev_ok iface content dev_ok bdev" and c: "cache_ok content bdev"
    and buf: "bufs (bcache bdev) p = Some buf" "refctr buf = 0"
  obtains (fail) r bdev' where "r \<noteq> EOK" "(if ext4_bcache_test_flag buf BC_DIRTY then ext4_block_flush_buf bdev p
        else Some (EOK, bdev)) = Some (r, bdev')" "bdev_ok iface content dev_ok bdev'" "cache_ok content bdev'"
      "same_device bdev bdev'" "\<forall>l < lg_bcnt bdev. view content bdev' l = view content bdev l"
      "bcache bdev' = bcache bdev"
  | (go) bdev' bdev'' where "(if ext4_bcache_test_flag buf BC_DIRTY then ext4_block_flush_buf bdev p
        else Some (EOK, bdev)) = Some (EOK, bdev')" "ext4_bcache_drop_buf (bcache bdev') p = Some (bcache bdev'')"
      "bdev'' = bdev'\<lparr>bcache := bcache bdev''\<rparr>"
      "bdev_ok iface content dev_ok bdev''" "cache_ok content bdev''" "same_device bdev bdev''"
      "\<forall>l < lg_bcnt bdev. view content bdev'' l = view content bdev l"
      "shaken (bcache bdev) (bcache bdev'')" "lru_root (bcache bdev'') = remove1 p (lru_root (bcache bdev))"
      "bufs (bcache bdev'') = (bufs (bcache bdev))(p := None)"
proof -
  obtain r bdev' where f: "ext4_block_flush_buf bdev p = Some (r, bdev')" "bdev_ok iface content dev_ok bdev'"
    "cache_ok content bdev'" "same_device bdev bdev'" "same_cache (bcache bdev) (bcache bdev')"
    "\<forall>l < lg_bcnt bdev. view content bdev' l = view content bdev l"
    "r \<noteq> EOK \<longrightarrow> bcache bdev' = bcache bdev"
    "r = EOK \<longrightarrow> bufs (bcache bdev') = (bufs (bcache bdev))(p \<mapsto> flushed buf) \<and>
       set (dirty_list (bcache bdev')) = set (dirty_list (bcache bdev)) - {p}"
    by (rule flush_buf [OF ok c buf(1)])
  have clean: "\<not> ext4_bcache_test_flag buf BC_DIRTY \<Longrightarrow> ext4_block_flush_buf bdev p = Some (EOK, bdev)"
    using buf(1) by (simp add: ext4_block_flush_buf_def)
  then have guard: "(if ext4_bcache_test_flag buf BC_DIRTY then ext4_block_flush_buf bdev p
      else Some (EOK, bdev)) = Some (r, bdev')" using f(1) by simp
  show thesis
  proof (cases "r = EOK")
    case False
    then show thesis using fail [OF False guard f(2,3,4,6)] f(7) by blast
  next
    case True
    have buf': "bufs (bcache bdev') p = Some (flushed buf)" using f(8) True by simp
    let ?bdev = "bdev'\<lparr>bcache := bcache_dropped (bcache bdev') p\<rparr>"
    have cl: "\<not> ext4_bcache_test_flag (flushed buf) BC_DIRTY" by simp
    note d = drop_clean_buf [OF f(3) buf' cl]
    have drop: "ext4_bcache_drop_buf (bcache bdev') p = Some (bcache ?bdev)"
      using ext4_bcache_drop_buf_eq [OF cache_ok_wf [OF f(3)] buf'] by simp
    have ok': "bdev_ok iface content dev_ok ?bdev"
      using f(2) set_bcache_facts(3) [OF d(2), where iface = iface and dev_ok = dev_ok and content = content]
      by simp
    have bufs: "bufs (bcache ?bdev) = (bufs (bcache bdev))(p := None)"
      using f(8) True by (simp add: bcache_dropped_def)
    have sh: "shaken (bcache bdev) (bcache ?bdev)"
      unfolding shaken_def bufs using f(5) buf by (auto simp: same_cache_def bcache_dropped_def)
    show thesis
      by (rule go [OF guard [unfolded True] drop _ ok' d(1) same_device_trans [OF f(4) d(2)] _ sh _ bufs])
        (use f(5,6) d(3) in \<open>simp_all add: same_cache_def bcache_dropped_def\<close>)
  qed
qed

end

section \<open>Transparency\<close>

text \<open>An operation is transparent when it keeps both invariants and what every block reads as.\<close>

definition transparent ::
  "'d ext4_blockdev_iface \<Rightarrow> ('d \<Rightarrow> u8 list) \<Rightarrow> ('d \<Rightarrow> bool) \<Rightarrow> 'd ext4_blockdev \<Rightarrow> 'd ext4_blockdev \<Rightarrow> bool" where
  "transparent iface content dev_ok bdev bdev' =
     (bdev_ok iface content dev_ok bdev' \<and> cache_ok content bdev' \<and> same_device bdev bdev' \<and>
      (\<forall>l < lg_bcnt bdev. view content bdev' l = view content bdev l))"

lemma transparent_refl:
  "bdev_ok iface content dev_ok bdev \<Longrightarrow> cache_ok content bdev \<Longrightarrow> transparent iface content dev_ok bdev bdev"
  by (simp add: transparent_def)

lemma transparent_trans:
  assumes "transparent iface content dev_ok a b" "transparent iface content dev_ok b c"
  shows "transparent iface content dev_ok a c"
proof -
  have "lg_bcnt b = lg_bcnt a" using assms(1) by (simp add: transparent_def same_device_def)
  then show ?thesis
    using assms same_device_trans [of a b c] by (simp add: transparent_def)
qed

text \<open>Changes to one buffer that keep its flags and data, with the trees rearranged, are transparent.\<close>

lemma transparent_cache:
  assumes ok: "bdev_ok iface content dev_ok bdev" and c: "cache_ok content bdev"
    and wf: "bcache_wf bc" and itemsize: "itemsize bc = lg_bsize bdev"
    and bufs: "\<And>l b. bufs bc l = Some b \<Longrightarrow>
      (\<exists>a. bufs (bcache bdev) l = Some a \<and> end_write b = end_write a \<and> buf_data b = buf_data a \<and>
         ext4_bcache_test_flag b BC_DIRTY = ext4_bcache_test_flag a BC_DIRTY \<and>
         ext4_bcache_test_flag b BC_UPTODATE = ext4_bcache_test_flag a BC_UPTODATE) \<or>
      bufs (bcache bdev) l = None \<and> l < lg_bcnt bdev \<and> end_write b = None \<and>
         \<not> ext4_bcache_test_flag b BC_DIRTY \<and> \<not> ext4_bcache_test_flag b BC_UPTODATE"
    and gone: "\<And>l a. bufs (bcache bdev) l = Some a \<Longrightarrow> bufs bc l = None \<Longrightarrow>
      \<not> ext4_bcache_test_flag a BC_UPTODATE"
  shows "transparent iface content dev_ok bdev (bdev\<lparr>bcache := bc\<rparr>)"
proof -
  let ?bdev = "bdev\<lparr>bcache := bc\<rparr>"
  have sd: "same_device bdev ?bdev" by (simp add: same_device_def)
  have bd: "bdif ?bdev = bdif bdev" by simp
  note F = set_bcache_facts [OF sd bd]
  have each: "l < lg_bcnt bdev \<and> end_write b = None \<and>
      (ext4_bcache_test_flag b BC_DIRTY \<longrightarrow> ext4_bcache_test_flag b BC_UPTODATE) \<and>
      (ext4_bcache_test_flag b BC_UPTODATE \<and> \<not> ext4_bcache_test_flag b BC_DIRTY \<longrightarrow>
         buf_data b = dev_block content bdev l)" if b: "bufs bc l = Some b" for l b
    using bufs [OF b] cache_okD(1-4) [OF c, of l] by (elim disjE exE conjE) simp_all
  have c': "cache_ok content ?bdev"
    unfolding cache_ok_def F(1) using each wf itemsize by simp
  have "view content ?bdev l = view content bdev l" for l
  proof (cases "bufs bc l")
    case None
    then show ?thesis using gone [of l] by (cases "bufs (bcache bdev) l") (simp_all add: view_def F(1))
  next
    case (Some b)
    then show ?thesis using bufs [OF Some] by (auto simp: view_def F(1))
  qed
  then show ?thesis using c' ok F(3) sd by (simp add: transparent_def)
qed

lemma transparent_touched:
  assumes ok: "bdev_ok iface content dev_ok bdev" and c: "cache_ok content bdev"
    and buf: "bufs (bcache bdev) p = Some buf" and left: "lru_left (bcache bdev)" "refctr buf + 1 \<noteq> 0"
  shows "transparent iface content dev_ok bdev (bdev\<lparr>bcache := bcache_touched (bcache bdev) p buf\<rparr>)"
proof (rule transparent_cache [OF ok c bcache_wf_touched [OF cache_ok_wf [OF c] buf left]])
  show "itemsize (bcache_touched (bcache bdev) p buf) = lg_bsize bdev"
    using c by (simp add: cache_ok_def bcache_touched_def)
qed (use buf in \<open>auto simp: bcache_touched_def split: if_splits\<close>)

lemma transparent_inserted:
  assumes ok: "bdev_ok iface content dev_ok bdev" and c: "cache_ok content bdev"
    and none: "bufs (bcache bdev) p = None" and p: "p < lg_bcnt bdev" and left: "lru_left (bcache bdev)"
  shows "transparent iface content dev_ok bdev (bdev\<lparr>bcache := bcache_inserted (bcache bdev) p junk\<rparr>)"
proof (rule transparent_cache [OF ok c bcache_wf_inserted [OF cache_ok_wf [OF c] none left]])
  show "itemsize (bcache_inserted (bcache bdev) p junk) = lg_bsize bdev"
    using c by (simp add: cache_ok_def bcache_inserted_def)
  show "(\<exists>a. bufs (bcache bdev) l = Some a \<and> end_write b = end_write a \<and> buf_data b = buf_data a \<and>
         ext4_bcache_test_flag b BC_DIRTY = ext4_bcache_test_flag a BC_DIRTY \<and>
         ext4_bcache_test_flag b BC_UPTODATE = ext4_bcache_test_flag a BC_UPTODATE) \<or>
      bufs (bcache bdev) l = None \<and> l < lg_bcnt bdev \<and> end_write b = None \<and>
         \<not> ext4_bcache_test_flag b BC_DIRTY \<and> \<not> ext4_bcache_test_flag b BC_UPTODATE"
    if "bufs (bcache_inserted (bcache bdev) p junk) l = Some b" for l b
    using that none p
    by (cases "l = p") (auto simp: bcache_inserted_def fresh_buf_def ext4_bcache_test_flag_def)
  show "\<not> ext4_bcache_test_flag a BC_UPTODATE"
    if "bufs (bcache bdev) l = Some a" "bufs (bcache_inserted (bcache bdev) p junk) l = None" for l a
    using that by (simp add: bcache_inserted_def split: if_splits)
qed

context block_driver
begin

lemma shake_loop_ok:
  assumes "bdev_ok iface content dev_ok bdev" "cache_ok content bdev"
  shows "\<exists>r bdev'. shake_loop bdev = Some (r, bdev') \<and> transparent iface content dev_ok bdev bdev' \<and>
    shaken (bcache bdev) (bcache bdev')"
  using assms
proof (induction "length (lru_root (bcache bdev))" arbitrary: bdev rule: less_induct)
  case less
  note wf = cache_ok_wf [OF less.prems(2)]
  show ?case
  proof (cases "lru_root (bcache bdev) \<noteq> [] \<and> ext4_bcache_is_full (bcache bdev)")
    case False
    then have "shake_loop bdev = Some (EOK, bdev)" by (subst shake_loop.simps) (simp only: if_False)
    then show ?thesis using transparent_refl [OF less.prems] by auto
  next
    case True
    then obtain p ps where lru: "lru_root (bcache bdev) = p # ps" by (cases "lru_root (bcache bdev)") auto
    then have "p \<in> set (lru_root (bcache bdev))" by simp
    then obtain buf where buf: "bufs (bcache bdev) p = Some buf" "refctr buf = 0"
      using bcache_wfD(5) [OF wf] by auto
    have low: "ext4_buf_lowest_lru (bcache bdev) = Some p" by (simp add: ext4_buf_lowest_lru_def lru)
    have full: "ext4_bcache_is_full (bcache bdev)" using True by simp
    note unfold = shake_loop.simps [of bdev]
    show ?thesis
    proof (cases rule: shake_step [OF less.prems buf, consumes 0, case_names fail go])
      case (fail r bdev')
      have "shake_loop bdev = Some (r, bdev')"
        using fail(1,2) lru low full buf(1) by (simp add: unfold)
      then show ?thesis using fail by (auto simp: transparent_def)
    next
      case (go bdev1 bdev2)
      have shorter: "length (lru_root (bcache bdev2)) < length (lru_root (bcache bdev))"
        using go(9) lru by simp
      obtain r bdev' where IH: "shake_loop bdev2 = Some (r, bdev')" "transparent iface content dev_ok bdev2 bdev'"
          "shaken (bcache bdev2) (bcache bdev')"
        using less.hyps [OF shorter go(4,5)] by blast
      have "bdev1\<lparr>bcache := bcache bdev2\<rparr> = bdev2" using go(3) by simp
      then have "shake_loop bdev = Some (r, bdev')"
        using go(1,2) IH(1) lru low full buf(1) by (simp add: unfold)
      moreover have "transparent iface content dev_ok bdev bdev2"
        using go(4-7) by (simp add: transparent_def)
      ultimately show ?thesis
        using transparent_trans IH(2) shaken_trans [OF go(8) IH(3)] by blast
    qed
  qed
qed

end

section \<open>Getting a block\<close>

lemma transparent_dont_shake:
  assumes "bdev_ok iface content dev_ok bdev" "cache_ok content bdev"
  shows "transparent iface content dev_ok bdev (bdev\<lparr>bcache := (bcache bdev)\<lparr>dont_shake := b\<rparr>\<rparr>)"
proof (rule transparent_cache [OF assms])
  show "bcache_wf ((bcache bdev)\<lparr>dont_shake := b\<rparr>)" using cache_ok_wf [OF assms(2)] by simp
  show "itemsize ((bcache bdev)\<lparr>dont_shake := b\<rparr>) = lg_bsize bdev" using assms(2) by (simp add: cache_ok_def)
qed auto

lemma transparent_ok:
  assumes "transparent iface content dev_ok bdev bdev'"
  shows "bdev_ok iface content dev_ok bdev'" "cache_ok content bdev'" "same_device bdev bdev'"
    "lg_bcnt bdev' = lg_bcnt bdev" "lg_bsize bdev' = lg_bsize bdev" "cache_write_back bdev' = cache_write_back bdev"
    "ph_refctr (bdif bdev') = ph_refctr (bdif bdev)"
    "l < lg_bcnt bdev \<Longrightarrow> view content bdev' l = view content bdev l"
  using assms by (simp_all add: transparent_def same_device_def)

text \<open>There is room for one more reference and one more LRU id.\<close>

definition refs_left :: "ext4_bcache \<Rightarrow> u64 \<Rightarrow> bool" where
  "refs_left bc lba =
     (lru_left bc \<and> (\<forall>buf. bufs bc lba = Some buf \<longrightarrow> refctr buf + 1 \<noteq> 0))"

lemma refs_left_shaken: "refs_left bc lba \<Longrightarrow> shaken bc bc' \<Longrightarrow> refs_left bc' lba"
  unfolding refs_left_def shaken_def lru_left_def by metis

text \<open>Other blocks that are in use stay as they are.\<close>

definition others_kept :: "u64 \<Rightarrow> ext4_bcache \<Rightarrow> ext4_bcache \<Rightarrow> bool" where
  "others_kept lba bc bc' =
     (\<forall>p buf. p \<noteq> lba \<and> bufs bc p = Some buf \<and> refctr buf \<noteq> 0 \<longrightarrow> bufs bc' p = Some buf)"

lemma others_kept_shaken: "shaken bc bc' \<Longrightarrow> others_kept lba bc' bc'' \<Longrightarrow> others_kept lba bc bc''"
  by (simp add: others_kept_def shaken_def)

definition holds_block :: "'d ext4_blockdev \<Rightarrow> ext4_block \<Rightarrow> u64 \<Rightarrow> bool" where
  "holds_block bdev b lba =
     (lb_id b = lba \<and> blk_buf b = Some lba \<and> blk_data b = Some lba \<and>
      (\<exists>buf. bufs (bcache bdev) lba = Some buf \<and> refctr buf \<noteq> 0))"

context block_driver
begin

lemma cache_shake_ok:
  assumes "bdev_ok iface content dev_ok bdev" "cache_ok content bdev"
  obtains r bdev' where "ext4_block_cache_shake bdev = Some (r, bdev')"
    "transparent iface content dev_ok bdev bdev'" "shaken (bcache bdev) (bcache bdev')"
proof (cases "dont_shake (bcache bdev)")
  case True
  then have "ext4_block_cache_shake bdev = Some (EOK, bdev)" by (simp add: ext4_block_cache_shake_def)
  then show thesis by (rule that) (simp_all add: transparent_refl assms)
next
  case False
  let ?b1 = "bdev\<lparr>bcache := (bcache bdev)\<lparr>dont_shake := True\<rparr>\<rparr>"
  have t1: "transparent iface content dev_ok bdev ?b1" by (rule transparent_dont_shake [OF assms])
  obtain r b2 where s: "shake_loop ?b1 = Some (r, b2)" "transparent iface content dev_ok ?b1 b2"
      "shaken (bcache ?b1) (bcache b2)"
    using shake_loop_ok [OF transparent_ok(1,2) [OF t1]] by blast
  let ?b3 = "b2\<lparr>bcache := (bcache b2)\<lparr>dont_shake := False\<rparr>\<rparr>"
  have t3: "transparent iface content dev_ok b2 ?b3"
    by (rule transparent_dont_shake [OF transparent_ok(1,2) [OF s(2)]])
  have "ext4_block_cache_shake bdev = Some (r, ?b3)" using False s(1) by (simp add: ext4_block_cache_shake_def)
  then show thesis
  proof (rule that)
    show "transparent iface content dev_ok bdev ?b3"
      by (rule transparent_trans [OF transparent_trans [OF t1 s(2)] t3])
    show "shaken (bcache bdev) (bcache ?b3)" using s(3) False by (simp add: shaken_def)
  qed
qed

lemma get_noread_ok:
  assumes ok: "bdev_ok iface content dev_ok bdev" and c: "cache_ok content bdev"
    and lba: "lba < lg_bcnt bdev" and ph: "ph_refctr (bdif bdev) \<noteq> 0" and left: "refs_left (bcache bdev) lba"
  obtains r b' bdev' where "ext4_block_get_noread bdev b lba = Some (r, b', bdev')"
    "transparent iface content dev_ok bdev bdev'" "others_kept lba (bcache bdev) (bcache bdev')"
    "r = EOK \<longrightarrow> holds_block bdev' b' lba"
proof -
  obtain r bdev1 where s: "ext4_block_cache_shake bdev = Some (r, bdev1)"
    "transparent iface content dev_ok bdev bdev1" "shaken (bcache bdev) (bcache bdev1)"
    by (rule cache_shake_ok [OF ok c])
  note T = transparent_ok [OF s(2)] and left1 = refs_left_shaken [OF left s(3)]
  note wf = cache_ok_wf [OF T(2)]
  let ?b = "b\<lparr>lb_id := lba\<rparr>" and ?b' = "b\<lparr>lb_id := lba, blk_buf := Some lba, blk_data := Some lba\<rparr>"
  show thesis
  proof (cases "r = EOK")
    case False
    then have "ext4_block_get_noread bdev b lba = Some (r, ?b, bdev1)"
      using s(1) lba ph by (simp add: ext4_block_get_noread_def)
    then show thesis
      by (rule that) (use s(2,3) False in \<open>simp_all add: others_kept_def shaken_def\<close>)
  next
    case True
    have start: "ext4_block_get_noread bdev b lba = do {
        (r, is_new, b, bc) \<leftarrow> ext4_bcache_alloc (bcache bdev1) ?b;
        let bdev = bdev1\<lparr>bcache := bc\<rparr>;
        if r \<noteq> EOK then Some (r, b, bdev)
        else if blk_data b = None then Some (ENOMEM, b, bdev) else Some (EOK, b, bdev) }"
      using s(1) lba ph True by (simp add: ext4_block_get_noread_def)
    show thesis
    proof (cases "bufs (bcache bdev1) lba")
      case (Some buf)
      let ?bdev = "bdev1\<lparr>bcache := bcache_touched (bcache bdev1) lba buf\<rparr>"
      have l: "lru_left (bcache bdev1)" "refctr buf + 1 \<noteq> 0" using left1 Some by (simp_all add: refs_left_def)
      have "ext4_block_get_noread bdev b lba = Some (EOK, ?b', ?bdev)"
        unfolding start using ext4_bcache_alloc_hit [OF wf, of ?b buf] Some by simp
      then show thesis
      proof (rule that)
        show "transparent iface content dev_ok bdev ?bdev"
          by (rule transparent_trans [OF s(2) transparent_touched [OF T(1,2) Some l]])
        show "others_kept lba (bcache bdev) (bcache ?bdev)"
          by (rule others_kept_shaken [OF s(3)]) (simp add: others_kept_def bcache_touched_def)
        show "EOK = EOK \<longrightarrow> holds_block ?bdev ?b' lba"
          using l(2) by (simp add: holds_block_def bcache_touched_def)
      qed
    next
      case None
      have l: "lru_left (bcache bdev1)" using left1 by (simp add: refs_left_def)
      show thesis
      proof (cases "malloc_oracle (bcache bdev1) (mallocs (bcache bdev1)) = None \<or>
            malloc_oracle (bcache bdev1) (mallocs (bcache bdev1) + 1) = None")
        case True
        obtain n where a: "ext4_bcache_alloc (bcache bdev1) ?b = Some (ENOMEM, False, ?b, (bcache bdev1)\<lparr>mallocs := n\<rparr>)"
          by (rule ext4_bcache_alloc_nomem [OF wf, of ?b]) (use None True in simp_all)
        let ?bdev = "bdev1\<lparr>bcache := (bcache bdev1)\<lparr>mallocs := n\<rparr>\<rparr>"
        have "ext4_block_get_noread bdev b lba = Some (ENOMEM, ?b, ?bdev)" unfolding start a by simp
        then show thesis
        proof (rule that)
          have "transparent iface content dev_ok bdev1 ?bdev"
          proof (rule transparent_cache [OF T(1,2)])
            show "bcache_wf ((bcache bdev1)\<lparr>mallocs := n\<rparr>)" using wf by simp
            show "itemsize ((bcache bdev1)\<lparr>mallocs := n\<rparr>) = lg_bsize bdev1"
              using T(2) by (simp add: cache_ok_def)
          qed auto
          then show "transparent iface content dev_ok bdev ?bdev" by (rule transparent_trans [OF s(2)])
          show "others_kept lba (bcache bdev) (bcache ?bdev)"
            by (rule others_kept_shaken [OF s(3)]) (simp add: others_kept_def)
        qed simp
      next
        case False
        then obtain junk where j: "malloc_oracle (bcache bdev1) (mallocs (bcache bdev1)) = Some junk"
          "malloc_oracle (bcache bdev1) (mallocs (bcache bdev1) + 1) \<noteq> None" by auto
        let ?bdev = "bdev1\<lparr>bcache := bcache_inserted (bcache bdev1) lba junk\<rparr>"
        have "ext4_block_get_noread bdev b lba = Some (EOK, ?b', ?bdev)"
          unfolding start using ext4_bcache_alloc_new [OF wf, of ?b junk] None j by simp
        then show thesis
        proof (rule that)
          show "transparent iface content dev_ok bdev ?bdev"
            by (rule transparent_trans [OF s(2) transparent_inserted [OF T(1,2) None _ l]]) (simp add: T lba)
          show "others_kept lba (bcache bdev) (bcache ?bdev)"
            by (rule others_kept_shaken [OF s(3)]) (simp add: others_kept_def bcache_inserted_def)
          show "EOK = EOK \<longrightarrow> holds_block ?bdev ?b' lba"
            by (simp add: holds_block_def bcache_inserted_def fresh_buf_def)
        qed
      qed
    qed
  qed
qed

end

section \<open>Giving a block back\<close>

lemma transparent_update:
  assumes ok: "bdev_ok iface content dev_ok bdev" and c: "cache_ok content bdev"
    and buf: "bufs (bcache bdev) p = Some buf" and wf: "bcache_wf bc" and bufs: "bufs bc = (bufs (bcache bdev))(p \<mapsto> buf')"
    and size: "itemsize bc = lg_bsize bdev" and keep: "end_write buf' = end_write buf" "buf_data buf' = buf_data buf"
      "ext4_bcache_test_flag buf' BC_DIRTY = ext4_bcache_test_flag buf BC_DIRTY"
      "ext4_bcache_test_flag buf' BC_UPTODATE = ext4_bcache_test_flag buf BC_UPTODATE"
  shows "transparent iface content dev_ok bdev (bdev\<lparr>bcache := bc\<rparr>)"
proof (rule transparent_cache [OF ok c wf size])
  show "(\<exists>a. bufs (bcache bdev) l = Some a \<and> end_write b = end_write a \<and> buf_data b = buf_data a \<and>
         ext4_bcache_test_flag b BC_DIRTY = ext4_bcache_test_flag a BC_DIRTY \<and>
         ext4_bcache_test_flag b BC_UPTODATE = ext4_bcache_test_flag a BC_UPTODATE) \<or>
      bufs (bcache bdev) l = None \<and> l < lg_bcnt bdev \<and> end_write b = None \<and>
         \<not> ext4_bcache_test_flag b BC_DIRTY \<and> \<not> ext4_bcache_test_flag b BC_UPTODATE"
    if "bufs bc l = Some b" for l b
    using that keep buf unfolding bufs by (cases "l = p") auto
  show "\<not> ext4_bcache_test_flag a BC_UPTODATE"
    if "bufs (bcache bdev) l = Some a" "bufs bc l = None" for l a
    using that unfolding bufs by (simp split: if_splits)
qed

lemma lru_key_put_same:
  "bufs bc p = Some buf \<Longrightarrow> lru_key (put_buf bc p (buf\<lparr>refctr := r\<rparr>)) = lru_key bc"
  by (rule lru_key_cong) simp

lemma unreferenced_eq:
  assumes "bufs bc p = Some buf"
  shows "(put_buf bc p (buf\<lparr>refctr := 0\<rparr>))\<lparr>lru_root :=
      rb_insert (lru_key (put_buf bc p (buf\<lparr>refctr := 0\<rparr>))) p (lru_root bc)\<rparr> =
    bcache_unreferenced bc p buf"
  unfolding lru_key_put_same [OF assms] by (simp add: bcache_unreferenced_def put_buf_def)

text \<open>What happens to a buffer on its last reference, before the decision to drop it.\<close>

definition release_dirty :: "'d ext4_blockdev \<Rightarrow> u64 \<Rightarrow> ext4_buf \<Rightarrow> 'd ext4_blockdev option" where
  "release_dirty bdev p buf =
     (if ext4_bcache_test_flag buf BC_DIRTY \<and> ext4_bcache_test_flag buf BC_UPTODATE
      then if cache_write_back bdev \<noteq> 0 \<and> \<not> ext4_bcache_test_flag buf BC_FLUSH \<and> \<not> ext4_bcache_test_flag buf BC_TMP
           then do {
             bc \<leftarrow> ext4_bcache_insert_dirty_node (bcache bdev) p;
             Some (bdev\<lparr>bcache := bc\<rparr>) }
           else do {
             (r, bdev) \<leftarrow> ext4_block_flush_buf bdev p;
             buf \<leftarrow> bufs (bcache bdev) p;
             Some (bdev\<lparr>bcache := put_buf (bcache bdev) p (ext4_bcache_clear_flag buf BC_FLUSH)\<rparr>) }
      else Some bdev)"

definition release_drop :: "'d ext4_blockdev \<Rightarrow> u64 \<Rightarrow> 'd ext4_blockdev option" where
  "release_drop bdev p = do {
     buf \<leftarrow> bufs (bcache bdev) p;
     if \<not> ext4_bcache_test_flag buf BC_UPTODATE \<or> ext4_bcache_test_flag buf BC_TMP
     then do {
       bc \<leftarrow> ext4_bcache_drop_buf (bcache bdev) p;
       Some (bdev\<lparr>bcache := bc\<rparr>) }
     else Some bdev }"

lemma ext4_bcache_free_eq:
  assumes "lb_id b \<noteq> 0" "blk_buf b = Some p" "bufs (bcache bdev) p = Some buf" "refctr buf \<noteq> 0"
  shows "ext4_bcache_free bdev b =
    (if refctr buf = 1
     then do {
       bdev \<leftarrow> release_dirty (bdev\<lparr>bcache := bcache_unreferenced (bcache bdev) p buf\<rparr>) p (buf\<lparr>refctr := 0\<rparr>);
       bdev \<leftarrow> release_drop bdev p;
       Some (EOK, b\<lparr>lb_id := 0, blk_data := None\<rparr>, bdev) }
     else Some (EOK, b\<lparr>lb_id := 0, blk_data := None\<rparr>,
                bdev\<lparr>bcache := put_buf (bcache bdev) p (buf\<lparr>refctr := refctr buf - 1\<rparr>)\<rparr>))"
proof (cases "refctr buf = 1")
  case True
  have "ext4_bcache_free bdev b = do {
       let bc = put_buf (bcache bdev) p (buf\<lparr>refctr := 0\<rparr>);
       bdev \<leftarrow> release_dirty (bdev\<lparr>bcache := bc\<lparr>lru_root := rb_insert (lru_key bc) p (lru_root bc)\<rparr>\<rparr>) p
         (buf\<lparr>refctr := 0\<rparr>);
       bdev \<leftarrow> release_drop bdev p;
       Some (EOK, b\<lparr>lb_id := 0, blk_data := None\<rparr>, bdev) }"
    using assms True
    by (simp add: ext4_bcache_free_def ext4_bcache_dec_ref_def release_dirty_def release_drop_def Let_def
        cong: if_cong)
  then show ?thesis using True by (simp add: unreferenced_eq [OF assms(3)] Let_def)
next
  case False
  then have "refctr buf - 1 \<noteq> 0" by simp
  then show ?thesis
    using assms False by (simp add: ext4_bcache_free_def ext4_bcache_dec_ref_def Let_def)
qed

lemma transparent_unreferenced:
  assumes ok: "bdev_ok iface content dev_ok bdev" and c: "cache_ok content bdev"
    and buf: "bufs (bcache bdev) p = Some buf" and ref: "refctr buf \<noteq> 0"
  shows "transparent iface content dev_ok bdev (bdev\<lparr>bcache := bcache_unreferenced (bcache bdev) p buf\<rparr>)"
  by (rule transparent_update [OF ok c buf bcache_wf_unreferenced [OF cache_ok_wf [OF c] buf ref],
        where buf' = "buf\<lparr>refctr := 0\<rparr>"])
    (use c in \<open>simp_all add: bcache_unreferenced_def cache_ok_def\<close>)

context block_driver
begin

lemma release_dirty_ok:
  assumes ok: "bdev_ok iface content dev_ok bdev" and c: "cache_ok content bdev"
    and buf: "bufs (bcache bdev) p = Some buf" "refctr buf = 0"
  obtains bdev' buf' where "release_dirty bdev p buf = Some bdev'" "transparent iface content dev_ok bdev bdev'"
    "bufs (bcache bdev') = (bufs (bcache bdev))(p \<mapsto> buf')"
    "ext4_bcache_test_flag buf' BC_TMP = ext4_bcache_test_flag buf BC_TMP"
    "ext4_bcache_test_flag buf' BC_UPTODATE = ext4_bcache_test_flag buf BC_UPTODATE"
    "\<not> ext4_bcache_test_flag buf BC_UPTODATE \<longrightarrow> \<not> ext4_bcache_test_flag buf' BC_DIRTY"
    "buf_data buf' = buf_data buf"
proof (cases "ext4_bcache_test_flag buf BC_DIRTY")
  case False
  then have "release_dirty bdev p buf = Some bdev" by (simp add: release_dirty_def)
  then show thesis
    by (rule that [of bdev buf]) (use False buf in \<open>simp_all add: transparent_refl [OF ok c] fun_upd_idem\<close>)
next
  case True
  have up: "ext4_bcache_test_flag buf BC_UPTODATE" by (rule cache_okD(3) [OF c buf(1) True])
  note wf = cache_ok_wf [OF c]
  show thesis
  proof (cases "cache_write_back bdev \<noteq> 0 \<and> \<not> ext4_bcache_test_flag buf BC_FLUSH \<and> \<not> ext4_bcache_test_flag buf BC_TMP")
    case wb: True
    obtain bc' where d: "ext4_bcache_insert_dirty_node (bcache bdev) p = Some bc'" "bcache_wf bc'"
      "bufs bc' = (bufs (bcache bdev))(p \<mapsto> buf\<lparr>on_dirty_list := True\<rparr>)" "lru_ctr bc' = lru_ctr (bcache bdev)"
      "itemsize bc' = itemsize (bcache bdev)" "set (dirty_list bc') = insert p (set (dirty_list (bcache bdev)))"
      by (rule ext4_bcache_insert_dirty_node_wf [OF wf buf True up])
    have "release_dirty bdev p buf = Some (bdev\<lparr>bcache := bc'\<rparr>)"
      using wb True up d(1) by (simp add: release_dirty_def)
    then show thesis
    proof (rule that)
      show "transparent iface content dev_ok bdev (bdev\<lparr>bcache := bc'\<rparr>)"
        by (rule transparent_update [OF ok c buf(1) d(2,3)]) (use d(5) c in \<open>simp_all add: cache_ok_def\<close>)
      show "bufs (bcache (bdev\<lparr>bcache := bc'\<rparr>)) = (bufs (bcache bdev))(p \<mapsto> buf\<lparr>on_dirty_list := True\<rparr>)"
        using d(3) by simp
    qed (use up in simp_all)
  next
    case wt: False
    obtain r bdev1 where f: "ext4_block_flush_buf bdev p = Some (r, bdev1)" "bdev_ok iface content dev_ok bdev1"
      "cache_ok content bdev1" "same_device bdev bdev1" "same_cache (bcache bdev) (bcache bdev1)"
      "\<forall>l < lg_bcnt bdev. view content bdev1 l = view content bdev l"
      "r \<noteq> EOK \<longrightarrow> bcache bdev1 = bcache bdev"
      "r = EOK \<longrightarrow> bufs (bcache bdev1) = (bufs (bcache bdev))(p \<mapsto> flushed buf) \<and>
         set (dirty_list (bcache bdev1)) = set (dirty_list (bcache bdev)) - {p}"
      by (rule flush_buf [OF ok c buf(1)])
    obtain b1 where b1: "bufs (bcache bdev1) = (bufs (bcache bdev))(p \<mapsto> b1)" "b1 = buf \<or> b1 = flushed buf"
      using f(7,8) buf(1) by (metis fun_upd_idem_iff)
    have b1': "bufs (bcache bdev1) p = Some b1" by (simp add: b1(1))
    let ?b2 = "ext4_bcache_clear_flag b1 BC_FLUSH"
    let ?bdev = "bdev1\<lparr>bcache := put_buf (bcache bdev1) p ?b2\<rparr>"
    have "release_dirty bdev p buf = Some ?bdev"
      using wt True up f(1) b1' by (auto simp: release_dirty_def)
    then show thesis
    proof (rule that)
      have "transparent iface content dev_ok bdev bdev1" using f by (simp add: transparent_def)
      moreover have "transparent iface content dev_ok bdev1 ?bdev"
      proof (rule transparent_update [OF f(2,3) b1', where buf' = ?b2])
        show "bcache_wf (put_buf (bcache bdev1) p ?b2)"
          by (rule bcache_wf_update [OF cache_ok_wf [OF f(3)] b1'])
            (use bcache_wfD(8) [OF cache_ok_wf [OF f(3)] b1'] in \<open>auto simp: buf_ok_def\<close>)
      qed (use f(3) in \<open>simp_all add: cache_ok_def\<close>)
      ultimately show "transparent iface content dev_ok bdev ?bdev" by (rule transparent_trans)
      show "bufs (bcache ?bdev) = (bufs (bcache bdev))(p \<mapsto> ?b2)" by (simp add: b1(1))
    qed (use b1(2) up in auto)
  qed
qed

text \<open>Giving back a buffer that holds no temporary data.\<close>

lemma bcache_free_ok:
  assumes ok: "bdev_ok iface content dev_ok bdev" and c: "cache_ok content bdev"
    and h: "holds_block bdev b lba" and lba: "lba \<noteq> 0"
    and tmp: "\<forall>buf. bufs (bcache bdev) lba = Some buf \<and> ext4_bcache_test_flag buf BC_UPTODATE \<longrightarrow>
      \<not> ext4_bcache_test_flag buf BC_TMP"
  obtains b' bdev' where "ext4_bcache_free bdev b = Some (EOK, b', bdev')" "lb_id b' = 0"
    "transparent iface content dev_ok bdev bdev'" "others_kept lba (bcache bdev) (bcache bdev')"
proof -
  obtain buf where buf: "bufs (bcache bdev) lba = Some buf" "refctr buf \<noteq> 0"
    using h by (auto simp: holds_block_def)
  note free = ext4_bcache_free_eq [of b lba bdev, OF _ _ buf]
  let ?b = "b\<lparr>lb_id := 0, blk_data := None\<rparr>"
  have b: "lb_id b \<noteq> 0" "blk_buf b = Some lba" using h lba by (simp_all add: holds_block_def)
  show thesis
  proof (cases "refctr buf = 1")
    case False
    then have ref: "(refctr buf - 1 = 0) = (refctr buf = 0)" using buf(2) by simp
    let ?bc = "put_buf (bcache bdev) lba (buf\<lparr>refctr := refctr buf - 1\<rparr>)"
    have wf: "bcache_wf ?bc"
      by (rule bcache_wf_update [OF cache_ok_wf [OF c] buf(1)])
        (use ref bcache_wfD(8) [OF cache_ok_wf [OF c] buf(1)] in \<open>auto simp: buf_ok_def\<close>)
    have "ext4_bcache_free bdev b = Some (EOK, ?b, bdev\<lparr>bcache := ?bc\<rparr>)"
      using free b False by simp
    then show thesis
    proof (rule that)
      show "transparent iface content dev_ok bdev (bdev\<lparr>bcache := ?bc\<rparr>)"
        by (rule transparent_update [OF ok c buf(1) wf, where buf' = "buf\<lparr>refctr := refctr buf - 1\<rparr>"]) (use c in \<open>simp_all add: cache_ok_def\<close>)
    qed (simp_all add: others_kept_def)
  next
    case True
    let ?bdev1 = "bdev\<lparr>bcache := bcache_unreferenced (bcache bdev) lba buf\<rparr>" and ?buf = "buf\<lparr>refctr := 0\<rparr>"
    have t1: "transparent iface content dev_ok bdev ?bdev1" by (rule transparent_unreferenced [OF ok c buf])
    have buf1: "bufs (bcache ?bdev1) lba = Some ?buf" "refctr ?buf = 0" by (simp_all add: bcache_unreferenced_def)
    obtain bdev2 buf2 where d: "release_dirty ?bdev1 lba ?buf = Some bdev2" "transparent iface content dev_ok ?bdev1 bdev2"
      "bufs (bcache bdev2) = (bufs (bcache ?bdev1))(lba \<mapsto> buf2)"
      "ext4_bcache_test_flag buf2 BC_TMP = ext4_bcache_test_flag ?buf BC_TMP"
      "ext4_bcache_test_flag buf2 BC_UPTODATE = ext4_bcache_test_flag ?buf BC_UPTODATE"
      "\<not> ext4_bcache_test_flag ?buf BC_UPTODATE \<longrightarrow> \<not> ext4_bcache_test_flag buf2 BC_DIRTY"
      "buf_data buf2 = buf_data ?buf"
      by (rule release_dirty_ok [OF transparent_ok(1,2) [OF t1] buf1])
    have buf2: "bufs (bcache bdev2) lba = Some buf2" by (simp add: d(3))
    have others: "p \<noteq> lba \<Longrightarrow> bufs (bcache bdev2) p = bufs (bcache bdev) p" for p
      by (simp add: d(3) bcache_unreferenced_def)
    have notmp: "ext4_bcache_test_flag buf2 BC_UPTODATE \<Longrightarrow> \<not> ext4_bcache_test_flag buf2 BC_TMP"
      using tmp buf(1) d(4,5) by simp
    note t2 = transparent_trans [OF t1 d(2)]
    show thesis
    proof (cases "ext4_bcache_test_flag buf2 BC_UPTODATE")
      case True
      then have "ext4_bcache_free bdev b = Some (EOK, ?b, bdev2)"
        using free b d(1) \<open>refctr buf = 1\<close> buf2 notmp by (simp add: release_drop_def)
      then show thesis by (rule that) (use t2 others in \<open>simp_all add: others_kept_def\<close>)
    next
      case False
      then have clean: "\<not> ext4_bcache_test_flag buf2 BC_DIRTY" using d(5,6) by simp
      let ?bdev3 = "bdev2\<lparr>bcache := bcache_dropped (bcache bdev2) lba\<rparr>"
      note D = drop_clean_buf [OF transparent_ok(2) [OF t2] buf2 clean]
      have "ext4_bcache_free bdev b = Some (EOK, ?b, ?bdev3)"
        using free b d(1) \<open>refctr buf = 1\<close> buf2 False
          ext4_bcache_drop_buf_eq [OF cache_ok_wf [OF transparent_ok(2) [OF t2]] buf2]
        by (simp add: release_drop_def)
      then show thesis
      proof (rule that)
        have "transparent iface content dev_ok bdev2 ?bdev3"
          using D transparent_ok(1) [OF t2] set_bcache_facts(3) [OF D(2), where iface = iface and dev_ok = dev_ok
              and content = content] by (simp add: transparent_def)
        then show "transparent iface content dev_ok bdev ?bdev3" by (rule transparent_trans [OF t2])
        show "others_kept lba (bcache bdev) (bcache ?bdev3)"
          using others by (simp add: others_kept_def bcache_dropped_def)
      qed simp
    qed
  qed
qed

end

lemma splice_whole [simp]: "length src = length b \<Longrightarrow> splice 0 src b = src"
  by (simp add: splice_def)

lemma length_dev_block:
  "bdev_ok iface content dev_ok bdev \<Longrightarrow> lba < lg_bcnt bdev \<Longrightarrow>
     length (dev_block content bdev lba) = unat (lg_bsize bdev)"
  using geometry_block(1) [of bdev "length (dev_image content bdev)" lba]
  by (simp add: dev_block_def bdev_ok_def)

context block_driver
begin

lemma block_get_ok:
  assumes ok: "bdev_ok iface content dev_ok bdev" and c: "cache_ok content bdev"
    and lba: "lba < lg_bcnt bdev" "lba \<noteq> 0" and ph: "ph_refctr (bdif bdev) \<noteq> 0"
    and left: "refs_left (bcache bdev) lba"
  obtains r b' bdev' where "ext4_block_get bdev b lba = Some (r, b', bdev')"
    "transparent iface content dev_ok bdev bdev'" "others_kept lba (bcache bdev) (bcache bdev')"
    "r = EOK \<longrightarrow> holds_block bdev' b' lba \<and> (\<exists>buf. bufs (bcache bdev') lba = Some buf \<and>
       ext4_bcache_test_flag buf BC_UPTODATE \<and> buf_data buf = view content bdev lba)"
proof -
  obtain r b1 bdev1 where g: "ext4_block_get_noread bdev b lba = Some (r, b1, bdev1)"
    "transparent iface content dev_ok bdev bdev1" "others_kept lba (bcache bdev) (bcache bdev1)"
    "r = EOK \<longrightarrow> holds_block bdev1 b1 lba"
    by (rule get_noread_ok [OF ok c lba(1) ph left])
  note T = transparent_ok [OF g(2)]
  show thesis
  proof (cases "r = EOK")
    case False
    then have "ext4_block_get bdev b lba = Some (r, b1, bdev1)" using g(1) by (simp add: ext4_block_get_def)
    then show thesis by (rule that) (use g False in simp_all)
  next
    case True
    then have h: "holds_block bdev1 b1 lba" using g(4) by simp
    then obtain buf where buf: "bufs (bcache bdev1) lba = Some buf" "refctr buf \<noteq> 0" "blk_buf b1 = Some lba"
      by (auto simp: holds_block_def)
    show thesis
    proof (cases "ext4_bcache_test_flag buf BC_UPTODATE")
      case up: True
      have "ext4_block_get bdev b lba = Some (EOK, b1, bdev1)"
        using g(1) True buf up by (simp add: ext4_block_get_def)
      then show thesis
      proof (rule that)
        have "buf_data buf = view content bdev1 lba" using buf(1) up by (simp add: view_def)
        then show "EOK = EOK \<longrightarrow> holds_block bdev1 b1 lba \<and> (\<exists>buf. bufs (bcache bdev1) lba = Some buf \<and>
            ext4_bcache_test_flag buf BC_UPTODATE \<and> buf_data buf = view content bdev lba)"
          using h buf(1) up T(8) [OF lba(1)] by simp
      qed (use g in simp_all)
    next
      case stale: False
      have lba1: "lba < lg_bcnt bdev1" using lba T(4) by simp
      have old: "view content bdev1 lba = dev_block content bdev1 lba" using buf(1) stale by (simp add: view_def)
      obtain r2 bytes bdev2 where rd: "ext4_blocks_get_direct bdev1 lba 1 = Some (r2, bytes, bdev2)"
        "io_frame bdev1 bdev2" "bdev_ok iface content dev_ok bdev2" "dev_image content bdev2 = dev_image content bdev1"
        "length bytes \<le> unat (lg_bsize bdev1)" "r2 = EOK \<longrightarrow> bytes = dev_block content bdev1 lba"
        by (rule blocks_get_direct [OF T(1) lba1])
      have sd: "same_device bdev1 bdev2" and bc2: "bcache bdev2 = bcache bdev1" using rd(2) by (simp_all add: io_frame_def)
      have db2: "dev_block content bdev2 = dev_block content bdev1" by (rule dev_block_same [OF sd rd(4)])
      note C1 = cache_okD [OF T(2) buf(1)]
      let ?dat = "splice 0 bytes (buf_data buf)"
      let ?buf = "buf\<lparr>buf_data := ?dat\<rparr>"
      let ?bdev3 = "bdev2\<lparr>bcache := put_buf (bcache bdev1) lba ?buf\<rparr>"
      have len: "length ?dat = unat (lg_bsize bdev1)" using rd(5) C1(7) by simp
      have dat: "memcpy_at (buf_data buf) 0 bytes = Some ?dat" using rd(5) C1(7) by simp
      have clean: "\<not> ext4_bcache_test_flag buf BC_DIRTY" using C1(3) stale by blast
      have start: "ext4_block_get bdev b lba =
          (if r2 \<noteq> EOK then do {
             (_, b, bdev) \<leftarrow> ext4_bcache_free ?bdev3 b1;
             Some (r2, b\<lparr>lb_id := 0\<rparr>, bdev) }
           else Some (EOK, b1, ?bdev3\<lparr>bcache := put_buf (bcache ?bdev3) lba (ext4_bcache_set_flag ?buf BC_UPTODATE)\<rparr>))"
        using g(1) True buf(1,3) stale rd(1) dat bc2 by (simp add: ext4_block_get_def Let_def)
      have wf: "bcache_wf (put_buf (bcache bdev1) lba buf')"
        if "buf_lba buf' = buf_lba buf" "lru_id buf' = lru_id buf" "refctr buf' = refctr buf"
          "on_dirty_list buf' = on_dirty_list buf" "length (buf_data buf') = length (buf_data buf)" for buf'
        by (rule bcache_wf_update [OF C1(5) buf(1)])
          (use that bcache_wfD(8) [OF C1(5) buf(1)] buf(2) in \<open>auto simp: buf_ok_def\<close>)
      \<comment> \<open>the state with the bytes read in, valid or not\<close>
      have t: "transparent iface content dev_ok bdev1 (bdev2\<lparr>bcache := put_buf (bcache bdev1) lba buf'\<rparr>)"
        if "buf' = ?buf \<or> r2 = EOK \<and> buf' = ext4_bcache_set_flag ?buf BC_UPTODATE" for buf'
      proof -
        let ?bdev = "bdev2\<lparr>bcache := put_buf (bcache bdev1) lba buf'\<rparr>"
        have sd': "same_device bdev1 ?bdev" using sd by (simp add: same_device_def)
        have db: "dev_block content ?bdev = dev_block content bdev1"
          using dev_block_same [of bdev2 ?bdev content] db2 by (simp add: same_device_def dev_image_def)
        have okb: "bdev_ok iface content dev_ok ?bdev"
          using rd(3) by (simp add: bdev_ok_def geometry_ok_def dev_image_def)
        have wf': "bcache_wf (bcache ?bdev)" using that len C1(7) by (auto intro!: wf)
        have full: "r2 = EOK \<Longrightarrow> ?dat = dev_block content bdev1 lba"
          using rd(6) C1(7) length_dev_block [OF T(1) lba1] by simp
        have "l < lg_bcnt bdev1 \<and> end_write b = None \<and>
            (ext4_bcache_test_flag b BC_DIRTY \<longrightarrow> ext4_bcache_test_flag b BC_UPTODATE) \<and>
            (ext4_bcache_test_flag b BC_UPTODATE \<and> \<not> ext4_bcache_test_flag b BC_DIRTY \<longrightarrow>
               buf_data b = dev_block content bdev1 l)" if b: "bufs (bcache ?bdev) l = Some b" for l b
        proof (cases "l = lba")
          case False
          then show ?thesis using b cache_okD(1-4) [OF T(2), of l b] by simp
        next
          case True
          then have "b = buf'" using b by simp
          then show ?thesis
            using \<open>buf' = ?buf \<or> _\<close> True C1(1,2) clean stale full by auto
        qed
        then have c': "cache_ok content ?bdev"
          using wf' T(2) sd' unfolding cache_ok_def db same_device_def by auto
        have "view content ?bdev l = view content bdev1 l" for l
          using that old buf(1) stale full unfolding view_def db by (cases "l = lba") auto
        then show ?thesis using okb c' sd' by (simp add: transparent_def)
      qed
      show thesis
      proof (cases "r2 = EOK")
        case True
        let ?buf' = "ext4_bcache_set_flag ?buf BC_UPTODATE"
        let ?bdev = "bdev2\<lparr>bcache := put_buf (bcache bdev1) lba ?buf'\<rparr>"
        have t': "transparent iface content dev_ok bdev1 ?bdev" using t [of ?buf'] True by simp
        have "put_buf (bcache ?bdev3) lba ?buf' = put_buf (bcache bdev1) lba ?buf'" by (simp add: put_buf_def)
        then have "ext4_block_get bdev b lba = Some (EOK, b1, ?bdev)" unfolding start using True by simp
        then show thesis
        proof (rule that)
          show "transparent iface content dev_ok bdev ?bdev" by (rule transparent_trans [OF g(2) t'])
          show "others_kept lba (bcache bdev) (bcache ?bdev)" using g(3) by (simp add: others_kept_def)
          have v: "view content ?bdev lba = view content bdev lba"
            using transparent_ok(8) [OF t' lba1] T(8) [OF lba(1)] by simp
          have "buf_data ?buf' = view content ?bdev lba" by (simp add: view_def)
          then show "EOK = EOK \<longrightarrow> holds_block ?bdev b1 lba \<and> (\<exists>buf. bufs (bcache ?bdev) lba = Some buf \<and>
              ext4_bcache_test_flag buf BC_UPTODATE \<and> buf_data buf = view content bdev lba)"
            using h buf(2) v by (simp add: holds_block_def)
        qed
      next
        case False
        have t3: "transparent iface content dev_ok bdev1 ?bdev3" using t [of ?buf] by simp
        have h3: "holds_block ?bdev3 b1 lba" using h buf(2) by (simp add: holds_block_def)
        have tmp3: "\<forall>buf. bufs (bcache ?bdev3) lba = Some buf \<and> ext4_bcache_test_flag buf BC_UPTODATE \<longrightarrow>
            \<not> ext4_bcache_test_flag buf BC_TMP" using stale by simp
        obtain b4 bdev4 where f: "ext4_bcache_free ?bdev3 b1 = Some (EOK, b4, bdev4)" "lb_id b4 = 0"
          "transparent iface content dev_ok ?bdev3 bdev4" "others_kept lba (bcache ?bdev3) (bcache bdev4)"
          by (rule bcache_free_ok [OF transparent_ok(1,2) [OF t3] h3 lba(2) tmp3])
        have "ext4_block_get bdev b lba = Some (r2, b4\<lparr>lb_id := 0\<rparr>, bdev4)"
          unfolding start using False f(1) by simp
        then show thesis
        proof (rule that)
          show "transparent iface content dev_ok bdev bdev4"
            by (rule transparent_trans [OF g(2) transparent_trans [OF t3 f(3)]])
          show "others_kept lba (bcache bdev) (bcache bdev4)"
            using g(3) f(4) by (simp add: others_kept_def)
        qed (use False in simp)
      qed
    qed
  qed
qed

end

section \<open>Writing to a held block, and giving it back\<close>

text \<open>What a client does with a block: store bytes through \<open>data\<close>, then mark the buffer dirty.\<close>

definition block_store :: "'d ext4_blockdev \<Rightarrow> u64 \<Rightarrow> u8 list \<Rightarrow> 'd ext4_blockdev" where
  "block_store bdev lba dat =
     (case bufs (bcache bdev) lba of
        None \<Rightarrow> bdev
      | Some buf \<Rightarrow> bdev\<lparr>bcache := put_buf (bcache bdev) lba (ext4_bcache_set_dirty (buf\<lparr>buf_data := dat\<rparr>))\<rparr>)"

lemma block_store_ok:
  assumes ok: "bdev_ok iface content dev_ok bdev" and c: "cache_ok content bdev"
    and buf: "bufs (bcache bdev) lba = Some buf" "refctr buf \<noteq> 0" and dat: "length dat = unat (lg_bsize bdev)"
  shows "bdev_ok iface content dev_ok (block_store bdev lba dat)" "cache_ok content (block_store bdev lba dat)"
    "same_device bdev (block_store bdev lba dat)"
    "view content (block_store bdev lba dat) l = (if l = lba then dat else view content bdev l)"
    "others_kept lba (bcache bdev) (bcache (block_store bdev lba dat))"
proof -
  let ?buf = "ext4_bcache_set_dirty (buf\<lparr>buf_data := dat\<rparr>)"
  let ?bdev = "bdev\<lparr>bcache := put_buf (bcache bdev) lba ?buf\<rparr>"
  have eq: "block_store bdev lba dat = ?bdev" using buf(1) by (simp add: block_store_def)
  have sd: "same_device bdev ?bdev" by (simp add: same_device_def)
  have bd: "bdif ?bdev = bdif bdev" by simp
  note F = set_bcache_facts [OF sd bd]
  note C = cache_okD [OF c buf(1)]
  have B: "buf_ok (bcache bdev) lba buf" by (rule bcache_wfD(8) [OF C(5) buf(1)])
  have f: "ext4_bcache_test_flag ?buf BC_DIRTY" "ext4_bcache_test_flag ?buf BC_UPTODATE" "end_write ?buf = end_write buf"
    "buf_data ?buf = dat" by (simp_all add: ext4_bcache_set_dirty_def)
  have wf: "bcache_wf (put_buf (bcache bdev) lba ?buf)"
    by (rule bcache_wf_update [OF C(5) buf(1)])
      (use B buf(2) dat C(7) in \<open>auto simp: buf_ok_def ext4_bcache_set_dirty_def\<close>)
  have each: "l < lg_bcnt bdev \<and> end_write b = None \<and>
      (ext4_bcache_test_flag b BC_DIRTY \<longrightarrow> ext4_bcache_test_flag b BC_UPTODATE) \<and>
      (ext4_bcache_test_flag b BC_UPTODATE \<and> \<not> ext4_bcache_test_flag b BC_DIRTY \<longrightarrow>
         buf_data b = dev_block content bdev l)" if b: "bufs (put_buf (bcache bdev) lba ?buf) l = Some b" for l b
    using b cache_okD(1-4) [OF c, of l b] C(1,2) f by (cases "l = lba") auto
  show "bdev_ok iface content dev_ok (block_store bdev lba dat)" unfolding eq using ok F(3) by blast
  show "cache_ok content (block_store bdev lba dat)"
    unfolding eq cache_ok_def F(1) using each wf c by (simp add: cache_ok_def)
  show "same_device bdev (block_store bdev lba dat)" unfolding eq by (rule sd)
  show "view content (block_store bdev lba dat) l = (if l = lba then dat else view content bdev l)"
    unfolding eq view_def F(1) using f by (simp split: option.splits)
  show "others_kept lba (bcache bdev) (bcache (block_store bdev lba dat))"
    unfolding eq by (simp add: others_kept_def)
qed

section \<open>Writing everything back\<close>

context block_driver
begin

lemma block_set_ok:
  assumes "bdev_ok iface content dev_ok bdev" "cache_ok content bdev" "holds_block bdev b lba" "lba \<noteq> 0"
    "ph_refctr (bdif bdev) \<noteq> 0"
    and "\<forall>buf. bufs (bcache bdev) lba = Some buf \<and> ext4_bcache_test_flag buf BC_UPTODATE \<longrightarrow>
      \<not> ext4_bcache_test_flag buf BC_TMP"
  obtains b' bdev' where "ext4_block_set bdev b = Some (EOK, b', bdev')" "lb_id b' = 0"
    "transparent iface content dev_ok bdev bdev'" "others_kept lba (bcache bdev) (bcache bdev')"
proof -
  obtain b' bdev' where f: "ext4_bcache_free bdev b = Some (EOK, b', bdev')" "lb_id b' = 0"
    "transparent iface content dev_ok bdev bdev'" "others_kept lba (bcache bdev) (bcache bdev')"
    by (rule bcache_free_ok [OF assms(1-4,6)])
  have "ext4_block_set bdev b = Some (EOK, b', bdev')"
    using f(1) assms(3,5) by (simp add: ext4_block_set_def holds_block_def)
  then show thesis by (rule that) (use f in simp_all)
qed

lemma cache_flush_ok:
  assumes "bdev_ok iface content dev_ok bdev" "cache_ok content bdev"
  shows "\<exists>r bdev'. ext4_block_cache_flush bdev = Some (r, bdev') \<and> transparent iface content dev_ok bdev bdev' \<and>
    (r = EOK \<longrightarrow> dirty_list (bcache bdev') = [])"
  using assms
proof (induction "card (set (dirty_list (bcache bdev)))" arbitrary: bdev rule: less_induct)
  case less
  note wf = cache_ok_wf [OF less.prems(2)]
  show ?case
  proof (cases "dirty_list (bcache bdev)")
    case Nil
    then have "ext4_block_cache_flush bdev = Some (EOK, bdev)" by (simp add: ext4_block_cache_flush.simps)
    then show ?thesis using transparent_refl [OF less.prems] Nil by auto
  next
    case (Cons p ps)
    then have p: "p \<in> set (dirty_list (bcache bdev))" by simp
    then obtain buf where buf: "bufs (bcache bdev) p = Some buf" using bcache_wfD(7) [OF wf] by auto
    obtain r bdev1 where f: "ext4_block_flush_buf bdev p = Some (r, bdev1)" "bdev_ok iface content dev_ok bdev1"
      "cache_ok content bdev1" "same_device bdev bdev1" "same_cache (bcache bdev) (bcache bdev1)"
      "\<forall>l < lg_bcnt bdev. view content bdev1 l = view content bdev l"
      "r \<noteq> EOK \<longrightarrow> bcache bdev1 = bcache bdev"
      "r = EOK \<longrightarrow> bufs (bcache bdev1) = (bufs (bcache bdev))(p \<mapsto> flushed buf) \<and>
         set (dirty_list (bcache bdev1)) = set (dirty_list (bcache bdev)) - {p}"
      by (rule flush_buf [OF less.prems buf])
    have t: "transparent iface content dev_ok bdev bdev1" using f by (simp add: transparent_def)
    have unfold: "ext4_block_cache_flush bdev =
        (if r \<noteq> EOK then Some (r, bdev1) else ext4_block_cache_flush bdev1)"
      using Cons f(1) by (subst ext4_block_cache_flush.simps) simp
    show ?thesis
    proof (cases "r = EOK")
      case True
      then have "card (set (dirty_list (bcache bdev1))) < card (set (dirty_list (bcache bdev)))"
        using f(8) card_Diff1_less [OF finite_set p] by (simp only: simp_thms)
      from less.hyps [OF this f(2,3)] show ?thesis unfolding unfold using True transparent_trans [OF t] by auto
    qed (use t unfold in simp)
  qed
qed

lemma cache_write_back_ok:
  assumes ok: "bdev_ok iface content dev_ok bdev" and c: "cache_ok content bdev"
  shows "\<exists>r bdev'. ext4_block_cache_write_back bdev on_off = Some (r, bdev') \<and>
    bdev_ok iface content dev_ok bdev' \<and> cache_ok content bdev' \<and>
    (\<forall>l < lg_bcnt bdev. view content bdev' l = view content bdev l)"
proof -
  have upd: "bdev_ok iface content dev_ok (bdev\<lparr>cache_write_back := n\<rparr>) \<and> cache_ok content (bdev\<lparr>cache_write_back := n\<rparr>) \<and>
      view content (bdev\<lparr>cache_write_back := n\<rparr>) l = view content bdev l \<and>
      lg_bcnt (bdev\<lparr>cache_write_back := n\<rparr>) = lg_bcnt bdev" for n l
  proof -
    have db: "dev_block content (bdev\<lparr>cache_write_back := n\<rparr>) = dev_block content bdev"
      by (rule ext) (simp add: dev_block_def dev_image_def lg_offset_def)
    show ?thesis
      using ok c by (simp add: bdev_ok_def cache_ok_def view_def db dev_image_def geometry_ok_def
          split: option.splits)
  qed
  obtain n where n: "ext4_block_cache_write_back bdev on_off =
      (if n \<noteq> 0 then Some (EOK, bdev\<lparr>cache_write_back := n\<rparr>)
       else ext4_block_cache_flush (bdev\<lparr>cache_write_back := n\<rparr>))"
  proof -
    let ?n = "if on_off \<noteq> 0 then cache_write_back bdev + 1
      else if cache_write_back bdev \<noteq> 0 then cache_write_back bdev - 1 else cache_write_back bdev"
    have id: "cache_write_back bdev = 0 \<Longrightarrow> bdev\<lparr>cache_write_back := 0\<rparr> = bdev" by (cases bdev) simp
    then show thesis by (intro that [of ?n]) (auto simp: ext4_block_cache_write_back_def Let_def id)
  qed
  obtain r bdev' where f: "ext4_block_cache_flush (bdev\<lparr>cache_write_back := n\<rparr>) = Some (r, bdev')"
      "transparent iface content dev_ok (bdev\<lparr>cache_write_back := n\<rparr>) bdev'"
    using cache_flush_ok [of "bdev\<lparr>cache_write_back := n\<rparr>"] upd by blast
  show ?thesis
  proof (cases "n = 0")
    case True
    then show ?thesis unfolding n using f upd transparent_ok [OF f(2)] by auto
  next
    case False
    then show ?thesis unfolding n using upd by auto
  qed
qed

end

section \<open>Durability on a driver that does not fail\<close>

context reliable_driver
begin

lemma set_direct_eok:
  assumes ok: "bdev_ok iface content dev_ok bdev" and lba: "lba < lg_bcnt bdev"
    and buf: "length buf = unat (lg_bsize bdev)" and res: "ext4_blocks_set_direct bdev buf lba 1 = Some (r, bdev')"
  shows "r = EOK"
proof -
  obtain pba n where pba: "div_checked (lba * ucast (lg_bsize bdev) + part_offset bdev) (ucast (ph_bsize (bdif bdev))) = Some pba"
    "div_checked (lg_bsize bdev) (ph_bsize (bdif bdev)) = Some n"
    "unat pba * unat (ph_bsize iface) = lg_offset bdev lba" "unat n * unat (ph_bsize iface) = unat (lg_bsize bdev)"
    "ph_in_range (ph_bsize iface) (length (dev_image content bdev)) pba n"
    by (rule lg_phys [OF ok lba])
  have bd: "bound_driver iface (bdif bdev)" "dev_ok (p_user (bdif bdev))" using ok by (simp_all add: bdev_ok_def)
  have "ext4_bdif_bwrite bdev buf pba n = Some (r, bdev')"
    using res pba(1,2) by (simp add: ext4_blocks_set_direct_def)
  then obtain d' where w: "bd_bwrite iface (p_user (bdif bdev)) buf pba n = Some (r, d')"
    using bd(1) unlocked
    by (auto simp: ext4_bdif_bwrite_def ext4_bdif_lock_def ext4_bdif_unlock_def bound_driver_def
        Option.bind_eq_Some_conv)
  show ?thesis
    by (rule write_ok [OF bd(2) pba(5) [unfolded dev_image_def] _ w]) (use pba(4) buf in simp)
qed

lemma flush_buf_eok:
  assumes ok: "bdev_ok iface content dev_ok bdev" and c: "cache_ok content bdev"
    and buf: "bufs (bcache bdev) p = Some buf" and res: "ext4_block_flush_buf bdev p = Some (r, bdev')"
  shows "r = EOK"
proof (cases "ext4_bcache_test_flag buf BC_DIRTY")
  case False
  then show ?thesis using res buf by (simp add: ext4_block_flush_buf_def)
next
  case True
  note C = cache_okD [OF c buf]
  obtain r1 bdev1 where w: "ext4_blocks_set_direct bdev (buf_data buf) p 1 = Some (r1, bdev1)"
    using blocks_set_direct [OF ok C(1,7)] by metis
  have "r1 = EOK" by (rule set_direct_eok [OF ok C(1,7) w])
  then show ?thesis
    using res buf True C(3,6) w by (auto simp: ext4_block_flush_buf_def Option.bind_eq_Some_conv)
qed

lemma cleanup_bufs_ok:
  assumes "bdev_ok iface content dev_ok bdev" "cache_ok content bdev" "distinct ps"
    "set ps \<subseteq> dom (bufs (bcache bdev))"
  shows "\<exists>bdev'. cleanup_bufs bdev ps = Some bdev' \<and> transparent iface content dev_ok bdev bdev' \<and>
    dom (bufs (bcache bdev')) = dom (bufs (bcache bdev)) - set ps"
  using assms
proof (induction ps arbitrary: bdev)
  case Nil
  then show ?case by (simp add: transparent_refl)
next
  case (Cons p ps)
  obtain buf where buf: "bufs (bcache bdev) p = Some buf" using Cons.prems(4) by auto
  obtain r bdev1 where f: "ext4_block_flush_buf bdev p = Some (r, bdev1)" "bdev_ok iface content dev_ok bdev1"
    "cache_ok content bdev1" "same_device bdev bdev1" "same_cache (bcache bdev) (bcache bdev1)"
    "\<forall>l < lg_bcnt bdev. view content bdev1 l = view content bdev l"
    "r \<noteq> EOK \<longrightarrow> bcache bdev1 = bcache bdev"
    "r = EOK \<longrightarrow> bufs (bcache bdev1) = (bufs (bcache bdev))(p \<mapsto> flushed buf) \<and>
       set (dirty_list (bcache bdev1)) = set (dirty_list (bcache bdev)) - {p}"
    by (rule flush_buf [OF Cons.prems(1,2) buf])
  have eok: "r = EOK" by (rule flush_buf_eok [OF Cons.prems(1,2) buf f(1)])
  have buf1: "bufs (bcache bdev1) p = Some (flushed buf)" using f(8) eok by simp
  have cl: "\<not> ext4_bcache_test_flag (flushed buf) BC_DIRTY" by simp
  let ?bdev2 = "bdev1\<lparr>bcache := bcache_dropped (bcache bdev1) p\<rparr>"
  note D = drop_clean_buf [OF f(3) buf1 cl]
  have ok2: "bdev_ok iface content dev_ok ?bdev2"
    using f(2) set_bcache_facts(3) [OF D(2), where iface = iface and dev_ok = dev_ok and content = content] by simp
  have t1: "transparent iface content dev_ok bdev bdev1" using f by (simp add: transparent_def)
  have t2: "transparent iface content dev_ok bdev1 ?bdev2" using D ok2 by (simp add: transparent_def)
  have dom: "dom (bufs (bcache ?bdev2)) = dom (bufs (bcache bdev)) - {p}"
    using f(8) eok by (auto simp: bcache_dropped_def split: if_splits)
  have "distinct ps" "set ps \<subseteq> dom (bufs (bcache ?bdev2))"
    using Cons.prems(3,4) unfolding dom by auto
  from Cons.IH [OF ok2 D(1) this] obtain bdev' where IH: "cleanup_bufs ?bdev2 ps = Some bdev'"
    "transparent iface content dev_ok ?bdev2 bdev'"
    "dom (bufs (bcache bdev')) = dom (bufs (bcache ?bdev2)) - set ps" by blast
  have "cleanup_bufs bdev (p # ps) = Some bdev'"
    using f(1) IH(1) ext4_bcache_drop_buf_eq [OF cache_ok_wf [OF f(3)] buf1] by simp
  moreover have "transparent iface content dev_ok bdev bdev'"
    by (rule transparent_trans [OF transparent_trans [OF t1 t2] IH(2)])
  moreover have "dom (bufs (bcache bdev')) = dom (bufs (bcache bdev)) - set (p # ps)"
    unfolding IH(3) dom by auto
  ultimately show ?case by blast
qed

lemma cleanup_ok:
  assumes ok: "bdev_ok iface content dev_ok bdev" and c: "cache_ok content bdev"
  shows "\<exists>bdev'. ext4_bcache_cleanup bdev = Some bdev' \<and> bdev_ok iface content dev_ok bdev' \<and>
    bufs (bcache bdev') = Map.empty \<and>
    (\<forall>l < lg_bcnt bdev. dev_block content bdev' l = view content bdev l)"
proof -
  note wf = cache_ok_wf [OF c]
  obtain bdev' where b: "cleanup_bufs bdev (lba_root (bcache bdev)) = Some bdev'"
    "transparent iface content dev_ok bdev bdev'" "dom (bufs (bcache bdev')) = {}"
    using cleanup_bufs_ok [OF ok c, of "lba_root (bcache bdev)"] bcache_wfD(2,9) [OF wf] by auto
  have e: "bufs (bcache bdev') = Map.empty" using b(3) by simp
  have "view content bdev' l = dev_block content bdev' l" for l by (simp add: view_def e)
  then show ?thesis
    using b(1) e transparent_ok(1,8) [OF b(2)] by (auto simp: ext4_bcache_cleanup_def)
qed

end

section \<open>Byte-granular writes\<close>

text \<open>A driver whose calls in range all succeed; every byte operation then succeeds.\<close>

definition never_fails :: "'d ext4_blockdev_iface \<Rightarrow> ('d \<Rightarrow> u8 list) \<Rightarrow> ('d \<Rightarrow> bool) \<Rightarrow> bool" where
  "never_fails iface content dev_ok =
     (\<forall>d blk cnt. dev_ok d \<and> ph_in_range (ph_bsize iface) (length (content d)) blk cnt \<longrightarrow>
        (\<forall>r bytes d'. bd_bread iface d blk cnt = Some (r, bytes, d') \<longrightarrow> r = EOK) \<and>
        (\<forall>buf r d'. unat cnt * unat (ph_bsize iface) \<le> length buf \<longrightarrow>
           bd_bwrite iface d buf blk cnt = Some (r, d') \<longrightarrow> r = EOK))"

lemma never_failsI:
  assumes "reliable_driver iface content dev_ok"
  shows "never_fails iface content dev_ok"
  unfolding never_fails_def
proof (intro allI impI, elim conjE, intro conjI allI impI)
  fix d blk cnt r bytes d'
  assume "dev_ok d" "ph_in_range (ph_bsize iface) (length (content d)) blk cnt"
  then show "bd_bread iface d blk cnt = Some (r, bytes, d') \<Longrightarrow> r = EOK"
    by (rule reliable_driver.read_ok [OF assms])
next
  fix d blk cnt buf r d'
  assume "dev_ok d" "ph_in_range (ph_bsize iface) (length (content d)) blk cnt"
    "unat cnt * unat (ph_bsize iface) \<le> length buf" "bd_bwrite iface d buf blk cnt = Some (r, d')"
  then show "r = EOK" by (rule reliable_driver.write_ok [OF assms])
qed

context block_driver
begin

lemma bdif_bread_eok:
  assumes bd: "bound_driver iface (bdif bdev)" "dev_ok (p_user (bdif bdev))"
    and range: "ph_in_range (ph_bsize iface) (length (dev_image content bdev)) blk cnt"
    and nf: "never_fails iface content dev_ok" and res: "ext4_bdif_bread bdev blk cnt = Some (r, bytes, bdev')"
  shows "r = EOK"
proof -
  obtain d' where "bd_bread iface (p_user (bdif bdev)) blk cnt = Some (r, bytes, d')"
    using bd(1) unlocked res
    by (auto simp: ext4_bdif_bread_def ext4_bdif_lock_def ext4_bdif_unlock_def bound_driver_def
        Option.bind_eq_Some_conv)
  then show ?thesis using nf bd(2) range unfolding never_fails_def dev_image_def by blast
qed

lemma bdif_bwrite_eok:
  assumes bd: "bound_driver iface (bdif bdev)" "dev_ok (p_user (bdif bdev))"
    and range: "ph_in_range (ph_bsize iface) (length (dev_image content bdev)) blk cnt"
    and buf: "unat cnt * unat (ph_bsize iface) \<le> length buf"
    and nf: "never_fails iface content dev_ok" and res: "ext4_bdif_bwrite bdev buf blk cnt = Some (r, bdev')"
  shows "r = EOK"
proof -
  obtain d' where "bd_bwrite iface (p_user (bdif bdev)) buf blk cnt = Some (r, d')"
    using bd(1) unlocked res
    by (auto simp: ext4_bdif_bwrite_def ext4_bdif_lock_def ext4_bdif_unlock_def bound_driver_def
        Option.bind_eq_Some_conv)
  then show ?thesis using nf bd(2) range buf unfolding never_fails_def dev_image_def by blast
qed

end

lemma splice_adjacent:
  "p + length x + length y \<le> length b \<Longrightarrow> splice (p + length x) y (splice p x b) = splice p (x @ y) b"
  by (rule nth_equalityI) (auto simp: nth_splice nth_append)

lemma splice_Nil [simp]: "splice p [] b = b"
  by (simp add: splice_def)

lemma splice_within_block:
  assumes "at + length src \<le> n" "p + n \<le> length b"
  shows "splice p (splice at src (slice p n b)) b = splice (p + at) src b"
  using assms by (intro nth_equalityI) (auto simp: nth_splice)

context block_driver
begin

lemma ph_rmw_ok:
  assumes ok: "bdev_ok iface content dev_ok bdev"
    and range: "ph_in_range (ph_bsize iface) (length (dev_image content bdev)) blk 1"
    and src: "at + length src \<le> unat (ph_bsize iface)"
  obtains r bdev' where "ph_rmw bdev blk at src = Some (r, bdev')" "bdev_ok iface content dev_ok bdev'"
    "same_device bdev bdev'" "bcache bdev' = bcache bdev"
    "length (dev_image content bdev') = length (dev_image content bdev)"
    "r = EOK \<longrightarrow> dev_image content bdev' = splice (unat blk * unat (ph_bsize iface) + at) src (dev_image content bdev)"
    "never_fails iface content dev_ok \<longrightarrow> r = EOK"
proof -
  let ?B = "unat (ph_bsize iface)"
  have bd: "bound_driver iface (bdif bdev)" "dev_ok (p_user (bdif bdev))" using ok by (simp_all add: bdev_ok_def)
  obtain r bytes b1 where rd: "ext4_bdif_bread bdev blk 1 = Some (r, bytes, b1)" "io_frame bdev b1"
    "bound_driver iface (bdif b1)" "dev_ok (p_user (bdif b1))" "dev_image content b1 = dev_image content bdev"
    "length bytes \<le> unat (1::u32) * ?B"
    "r = EOK \<longrightarrow> bytes = slice (unat blk * ?B) (unat (1::u32) * ?B) (dev_image content bdev)"
    by (rule bdif_bread [OF bd range])
  have eok: "never_fails iface content dev_ok \<longrightarrow> r = EOK" using bdif_bread_eok [OF bd range _ rd(1)] by simp
  have blen: "length (ph_bbuf (bdif b1)) = ?B" using rd(3) by (simp add: bound_driver_def)
  let ?bbuf = "splice 0 bytes (ph_bbuf (bdif b1))"
  let ?b2 = "b1\<lparr>bdif := (bdif b1)\<lparr>ph_bbuf := ?bbuf\<rparr>\<rparr>"
  have l2: "length ?bbuf = ?B" using blen rd(6) by simp
  have sd1: "same_device bdev b1" and bc1: "bcache b1 = bcache bdev" using rd(2) by (simp_all add: io_frame_def)
  have setb: "bdev_ok iface content dev_ok (b1\<lparr>bdif := (bdif b1)\<lparr>ph_bbuf := x\<rparr>\<rparr>) \<and>
      same_device bdev (b1\<lparr>bdif := (bdif b1)\<lparr>ph_bbuf := x\<rparr>\<rparr>) \<and>
      dev_image content (b1\<lparr>bdif := (bdif b1)\<lparr>ph_bbuf := x\<rparr>\<rparr>) = dev_image content bdev" if "length x = ?B" for x
  proof -
    let ?b = "b1\<lparr>bdif := (bdif b1)\<lparr>ph_bbuf := x\<rparr>\<rparr>"
    have sd: "same_device bdev ?b" using sd1 by (simp add: same_device_def)
    have img: "dev_image content ?b = dev_image content bdev" using rd(5) by (simp add: dev_image_def)
    have "bdev_ok iface content dev_ok ?b"
      by (rule bdev_ok_frame [OF ok sd]) (use rd(3,4) that img in \<open>simp_all add: bound_driver_def\<close>)
    then show ?thesis using sd img by blast
  qed
  have start: "ph_rmw bdev blk at src =
      (if r \<noteq> EOK then Some (r, ?b2)
       else do {
         bbuf \<leftarrow> memcpy_at ?bbuf at src;
         let bdev = ?b2\<lparr>bdif := (bdif ?b2)\<lparr>ph_bbuf := bbuf\<rparr>\<rparr>;
         ext4_bdif_bwrite bdev bbuf blk 1 })"
    using rd(1,6) blen by (simp add: ph_rmw_def Let_def)
  show thesis
  proof (cases "r = EOK")
    case False
    then have "ph_rmw bdev blk at src = Some (r, ?b2)" unfolding start by simp
    then show thesis by (rule that) (use setb [OF l2] bc1 False eok in simp_all)
  next
    case True
    let ?w = "splice at src ?bbuf"
    let ?b3 = "b1\<lparr>bdif := (bdif b1)\<lparr>ph_bbuf := ?w\<rparr>\<rparr>"
    have l3: "length ?w = ?B" using l2 src by simp
    note S3 = setb [OF l3]
    have bd3: "bound_driver iface (bdif ?b3)" "dev_ok (p_user (bdif ?b3))" using S3 by (simp_all add: bdev_ok_def)
    have range3: "ph_in_range (ph_bsize iface) (length (dev_image content ?b3)) blk 1" using range S3 by simp
    have len3: "unat (1::u32) * ?B \<le> length ?w" using l3 by simp
    obtain r' b4 where w: "ext4_bdif_bwrite ?b3 ?w blk 1 = Some (r', b4)" "io_frame ?b3 b4"
      "bound_driver iface (bdif b4)" "dev_ok (p_user (bdif b4))"
      "length (dev_image content b4) = length (dev_image content ?b3)"
      "r' = EOK \<longrightarrow> dev_image content b4 = splice (unat blk * ?B) (take (unat (1::u32) * ?B) ?w) (dev_image content ?b3)"
      "\<forall>i < length (dev_image content ?b3). i < unat blk * ?B \<or> (unat blk + unat (1::u32)) * ?B \<le> i \<longrightarrow>
         dev_image content b4 ! i = dev_image content ?b3 ! i"
      by (rule bdif_bwrite [OF bd3 range3 len3])
    have eok': "never_fails iface content dev_ok \<longrightarrow> r' = EOK"
      using bdif_bwrite_eok [OF bd3 range3 len3 _ w(1)] by simp
    have "ph_rmw bdev blk at src = Some (r', b4)"
      unfolding start using True w(1) l2 src by simp
    then show thesis
    proof (rule that)
      have sd4: "same_device ?b3 b4" using w(2) by (simp add: io_frame_def)
      show "bdev_ok iface content dev_ok b4"
        by (rule bdev_ok_frame [of iface content dev_ok ?b3]) (use S3 sd4 w(3-5) in simp_all)
      show "same_device bdev b4" using S3 sd4 same_device_trans by blast
      show "bcache b4 = bcache bdev" using w(2) bc1 by (simp add: io_frame_def)
      show "length (dev_image content b4) = length (dev_image content bdev)" using w(5) S3 by simp
      have img: "unat blk * ?B + ?B \<le> length (dev_image content bdev)"
        using range by (simp add: ph_in_range_def add_mult_distrib)
      then have "bytes = slice (unat blk * ?B) ?B (dev_image content bdev)" using rd(7) True by simp
      then have "?bbuf = slice (unat blk * ?B) ?B (dev_image content bdev)"
        using img blen by simp
      then have "r' = EOK \<longrightarrow> dev_image content b4 =
          splice (unat blk * ?B) (splice at src (slice (unat blk * ?B) ?B (dev_image content bdev))) (dev_image content bdev)"
        using w(6) S3 l3 by simp
      then show "r' = EOK \<longrightarrow> dev_image content b4 = splice (unat blk * ?B + at) src (dev_image content bdev)"
        using splice_within_block [OF src img] by simp
      show "never_fails iface content dev_ok \<longrightarrow> r' = EOK" by (rule eok')
    qed
  qed
qed

end

text \<open>The state after the first \<open>n\<close> bytes of \<open>buf\<close> went to the device from byte \<open>start\<close> on.\<close>

definition bytes_written :: "'d ext4_blockdev_iface \<Rightarrow> ('d \<Rightarrow> u8 list) \<Rightarrow> ('d \<Rightarrow> bool) \<Rightarrow> 'd ext4_blockdev \<Rightarrow>
    nat \<Rightarrow> u8 list \<Rightarrow> nat \<Rightarrow> 'd ext4_blockdev \<Rightarrow> bool" where
  "bytes_written iface content dev_ok bdev start buf n bdev' =
     (bdev_ok iface content dev_ok bdev' \<and> same_device bdev bdev' \<and> bcache bdev' = bcache bdev \<and>
      dev_image content bdev' = splice start (take n buf) (dev_image content bdev))"

lemma unalg_eq:
  assumes "unat (bs::u32) = 2 ^ k"
  shows "unat (ucast ((off::u64) AND ucast (bs - 1)) :: u32) = unat off mod unat bs"
proof -
  have "1 \<le> unat bs" using assms by simp
  then have "unat (bs - 1) = 2 ^ k - 1" using assms by (simp add: unat_sub word_le_nat_alt)
  then have m: "unat (ucast (bs - 1) :: u64) = mask k" by (simp add: mask_eq_exp_minus_1)
  have "unat (off AND ucast (bs - 1)) = unat off AND mask k"
    by (simp only: unsigned_and_eq m)
  also have "\<dots> = unat off mod unat bs" by (simp only: take_bit_eq_mask [symmetric] take_bit_eq_mod assms)
  finally have u: "unat (off AND ucast (bs - 1)) = unat off mod unat bs" .
  have "unat off mod unat bs < unat bs" by (rule mod_less_divisor) (simp add: assms)
  also have "\<dots> < 2 ^ 32" using unat_below [of bs] by simp
  finally have "unat off mod unat bs < 2 ^ 32" .
  then show ?thesis by (simp only: unsigned_ucast_eq u) (simp add: take_bit_nat_eq_self_iff)
qed

context block_driver
begin

lemma write_aligned_ok:
  assumes w: "bytes_written iface content dev_ok bdev start buf n b1"
    and len: "n \<le> length buf" "start + length buf \<le> length (dev_image content bdev)"
    and at: "unat idx * unat (ph_bsize iface) = start + n"
    and cnt: "unat cnt * unat (ph_bsize iface) \<le> length buf - n"
  obtains r b2 where "ext4_bdif_bwrite b1 (drop n buf) idx cnt = Some (r, b2)"
    "same_device bdev b2" "bcache b2 = bcache bdev"
    "r = EOK \<longrightarrow> bytes_written iface content dev_ok bdev start buf (n + unat cnt * unat (ph_bsize iface)) b2"
    "never_fails iface content dev_ok \<longrightarrow> r = EOK"
proof -
  let ?B = "unat (ph_bsize iface)"
  have ok: "bdev_ok iface content dev_ok b1" and sd: "same_device bdev b1" and bc: "bcache b1 = bcache bdev"
    and img: "dev_image content b1 = splice start (take n buf) (dev_image content bdev)"
    using w by (simp_all add: bytes_written_def)
  have li: "length (dev_image content b1) = length (dev_image content bdev)" using img len by simp
  have range: "ph_in_range (ph_bsize iface) (length (dev_image content b1)) idx cnt"
    using at cnt len li by (simp add: ph_in_range_def add_mult_distrib)
  have bd: "bound_driver iface (bdif b1)" "dev_ok (p_user (bdif b1))" using ok by (simp_all add: bdev_ok_def)
  have bl: "unat cnt * ?B \<le> length (drop n buf)" using cnt by simp
  obtain r b2 where o: "ext4_bdif_bwrite b1 (drop n buf) idx cnt = Some (r, b2)" "io_frame b1 b2"
    "bound_driver iface (bdif b2)" "dev_ok (p_user (bdif b2))"
    "length (dev_image content b2) = length (dev_image content b1)"
    "r = EOK \<longrightarrow> dev_image content b2 = splice (unat idx * ?B) (take (unat cnt * ?B) (drop n buf)) (dev_image content b1)"
    "\<forall>i < length (dev_image content b1). i < unat idx * ?B \<or> (unat idx + unat cnt) * ?B \<le> i \<longrightarrow>
       dev_image content b2 ! i = dev_image content b1 ! i"
    by (rule bdif_bwrite [OF bd range bl])
  have eok: "never_fails iface content dev_ok \<longrightarrow> r = EOK" using bdif_bwrite_eok [OF bd range bl _ o(1)] by simp
  have sd2: "same_device b1 b2" using o(2) by (simp add: io_frame_def)
  show thesis
  proof (rule that [OF o(1)])
    show "never_fails iface content dev_ok \<longrightarrow> r = EOK" by (rule eok)
    show sd': "same_device bdev b2" by (rule same_device_trans [OF sd sd2])
    show bc': "bcache b2 = bcache bdev" using o(2) bc by (simp add: io_frame_def)
    have ok2: "bdev_ok iface content dev_ok b2" by (rule bdev_ok_frame [OF ok sd2 o(3-5)])
    have l: "length (take n buf) = n" using len by simp
    have "splice (start + n) (take (unat cnt * ?B) (drop n buf)) (splice start (take n buf) (dev_image content bdev)) =
        splice start (take n buf @ take (unat cnt * ?B) (drop n buf)) (dev_image content bdev)"
      using splice_adjacent [of start "take n buf" "take (unat cnt * ?B) (drop n buf)"] l len cnt by simp
    then show "r = EOK \<longrightarrow> bytes_written iface content dev_ok bdev start buf (n + unat cnt * ?B) b2"
      using o(6) ok2 sd' bc' by (simp add: bytes_written_def img at take_add)
  qed
qed

lemma write_partial_ok:
  assumes w: "bytes_written iface content dev_ok bdev start buf n b1"
    and len: "n + m \<le> length buf" "start + length buf \<le> length (dev_image content bdev)"
    and dvd: "unat (ph_bsize iface) dvd length (dev_image content bdev)"
    and at: "unat idx * unat (ph_bsize iface) + at = start + n" "at + m \<le> unat (ph_bsize iface)"
    and in_dev: "unat idx * unat (ph_bsize iface) < length (dev_image content bdev)"
  obtains r b2 where "ph_rmw b1 idx at (take m (drop n buf)) = Some (r, b2)"
    "same_device bdev b2" "bcache b2 = bcache bdev"
    "r = EOK \<longrightarrow> bytes_written iface content dev_ok bdev start buf (n + m) b2"
    "never_fails iface content dev_ok \<longrightarrow> r = EOK"
proof -
  let ?B = "unat (ph_bsize iface)"
  have ok: "bdev_ok iface content dev_ok b1" and sd: "same_device bdev b1" and bc: "bcache b1 = bcache bdev"
    and img: "dev_image content b1 = splice start (take n buf) (dev_image content bdev)"
    using w by (simp_all add: bytes_written_def)
  have li: "length (dev_image content b1) = length (dev_image content bdev)" using img len by simp
  obtain c where c: "length (dev_image content bdev) = ?B * c" using dvd by (rule dvdE)
  have "unat idx < c" using in_dev unfolding c by (simp add: mult.commute)
  then have "(unat idx + 1) * ?B \<le> c * ?B" by (intro mult_right_mono) simp_all
  then have range: "ph_in_range (ph_bsize iface) (length (dev_image content b1)) idx 1"
    using c li by (simp add: ph_in_range_def mult.commute)
  have lsrc: "length (take m (drop n buf)) = m" using len by simp
  have fits: "at + length (take m (drop n buf)) \<le> ?B" using at(2) lsrc by simp
  obtain r b2 where o: "ph_rmw b1 idx at (take m (drop n buf)) = Some (r, b2)" "bdev_ok iface content dev_ok b2"
    "same_device b1 b2" "bcache b2 = bcache b1" "length (dev_image content b2) = length (dev_image content b1)"
    "r = EOK \<longrightarrow> dev_image content b2 = splice (unat idx * ?B + at) (take m (drop n buf)) (dev_image content b1)"
    "never_fails iface content dev_ok \<longrightarrow> r = EOK"
    by (rule ph_rmw_ok [OF ok range fits])
  note eok = o(7)
  show thesis
  proof (rule that [OF o(1)])
    show "never_fails iface content dev_ok \<longrightarrow> r = EOK" by (rule eok)
    show sd': "same_device bdev b2" by (rule same_device_trans [OF sd o(3)])
    show bc': "bcache b2 = bcache bdev" using o(4) bc by simp
    have l: "length (take n buf) = n" using len by simp
    have "splice (start + n) (take m (drop n buf)) (splice start (take n buf) (dev_image content bdev)) =
        splice start (take n buf @ take m (drop n buf)) (dev_image content bdev)"
      using splice_adjacent [of start "take n buf" "take m (drop n buf)"] l lsrc len by simp
    then show "r = EOK \<longrightarrow> bytes_written iface content dev_ok bdev start buf (n + m) b2"
      using o(2,6) sd' bc' by (simp add: bytes_written_def img at take_add)
  qed
qed

end

text \<open>The word arithmetic of the aligned part: whole blocks, the rest, and the index of the rest.\<close>

lemma aligned_split:
  assumes bs: "(bs::u32) \<noteq> 0" and idx: "unat (idx::u64) * unat bs + unat len \<le> N" "N < 2 ^ 64"
  shows "unat (len div bs) * unat bs \<le> unat len"
    "unat (bs * (len div bs)) = unat (len div bs) * unat bs"
    "unat (len - bs * (len div bs)) = unat len - unat (len div bs) * unat bs"
    "unat (len - bs * (len div bs)) < unat bs"
    "unat (idx + ucast (len div bs)) = unat idx + unat (len div bs)"
proof -
  let ?B = "unat bs" and ?q = "unat len div unat bs"
  have B: "0 < ?B" using bs by (simp add: unat_gt_0)
  have q: "unat (len div bs) = ?q" by (simp add: unat_div)
  have le: "?q * ?B \<le> unat len" by (rule div_times_less_eq_dividend)
  then show "unat (len div bs) * ?B \<le> unat len" by (simp only: q)
  have lt: "?B * unat (len div bs) < 2 ^ LENGTH(32)"
    using le unat_below [of len] by (simp only: q mult.commute)
  show m: "unat (bs * (len div bs)) = unat (len div bs) * ?B"
    using unat_mult_nowrap [OF lt] by (simp only: mult.commute)
  have "bs * (len div bs) \<le> len" unfolding word_le_nat_alt m using le q by simp
  then show s: "unat (len - bs * (len div bs)) = unat len - unat (len div bs) * ?B"
    by (simp only: unat_sub m)
  show "unat (len - bs * (len div bs)) < ?B"
    using B by (simp add: s q minus_div_mult_eq_mod)
  have "(unat idx + ?q) * 1 \<le> (unat idx + ?q) * ?B" using B by (intro mult_le_mono2) simp
  also have "\<dots> \<le> N" using idx(1) le unfolding add_mult_distrib by linarith
  finally have "unat idx + ?q < 2 ^ LENGTH(64)" using idx(2) by simp
  then have "unat idx + unat (ucast (len div bs) :: u64) < 2 ^ LENGTH(64)"
    by (simp only: ucast_u32_u64_unat q)
  then show "unat (idx + ucast (len div bs)) = unat idx + unat (len div bs)"
    by (simp only: unat_plus_nowrap ucast_u32_u64_unat)
qed

context block_driver
begin

lemma bytes_written_zero:
  "bdev_ok iface content dev_ok bdev \<Longrightarrow> start \<le> length (dev_image content bdev) \<Longrightarrow>
     bytes_written iface content dev_ok bdev start buf 0 bdev"
  by (simp add: bytes_written_def)

lemma writebytes_aligned_ok:
  assumes w: "bytes_written iface content dev_ok bdev start buf n b1"
    and len: "n + unat len = length buf" "start + length buf \<le> length (dev_image content bdev)"
      "length (dev_image content bdev) < 2 ^ 64"
    and dvd: "unat (ph_bsize iface) dvd length (dev_image content bdev)"
    and at: "unat idx * unat (ph_bsize iface) = start + n"
  obtains r b2 where "writebytes_aligned b1 (drop n buf) len idx = Some (r, b2)"
    "same_device bdev b2" "bcache b2 = bcache bdev"
    "r = EOK \<longrightarrow> bytes_written iface content dev_ok bdev start buf (length buf) b2"
    "never_fails iface content dev_ok \<longrightarrow> r = EOK"
proof -
  let ?bs = "ph_bsize iface" and ?q = "len div ph_bsize iface"
  let ?B = "unat ?bs" and ?m = "unat (len div ph_bsize iface) * unat (ph_bsize iface)"
  let ?n = "?bs * ?q"
  note result = that
  have bs: "ph_bsize (bdif b) = ?bs" if "bytes_written iface content dev_ok bdev start buf k b" for k b
    using that by (simp add: bytes_written_def bdev_ok_def bound_driver_def)
  have "unat idx * ?B + unat len \<le> length (dev_image content bdev)" using at len by simp
  note S = aligned_split [OF bsize_pos this len(3)]
  have rest: thesis
    if w': "bytes_written iface content dev_ok bdev start buf (n + ?m) b"
      and eq: "writebytes_aligned b1 (drop n buf) len idx =
        (if len - ?n \<noteq> 0 then do { src \<leftarrow> slice_checked 0 (unat (len - ?n)) (drop (n + ?m) buf);
           ph_rmw b (idx + ucast ?q) 0 src } else Some (EOK, b))" for b
  proof (cases "len - ?n = 0")
    case True
    then have "unat len = ?m" using S(1,3) by simp
    with len have "n + ?m = length buf" by simp
    with w' have "bytes_written iface content dev_ok bdev start buf (length buf) b" by simp
    with True eq show thesis by (intro result [of EOK b]) (simp_all add: bytes_written_def)
  next
    case False
    let ?k = "unat (len - ?n)"
    have k: "n + ?m + ?k = length buf" using S(1,3) len by simp
    have pos: "0 < ?k" using False by (simp add: unat_gt_0)
    have at': "unat (idx + ucast ?q) * ?B + 0 = start + (n + ?m)"
      using at by (simp add: S(5) add_mult_distrib)
    have in_dev: "unat (idx + ucast ?q) * ?B < length (dev_image content bdev)"
      using at' k pos len by linarith
    obtain r b2 where o: "ph_rmw b (idx + ucast ?q) 0 (take ?k (drop (n + ?m) buf)) = Some (r, b2)"
      "same_device bdev b2" "bcache b2 = bcache bdev"
      "r = EOK \<longrightarrow> bytes_written iface content dev_ok bdev start buf (n + ?m + ?k) b2"
      "never_fails iface content dev_ok \<longrightarrow> r = EOK"
    proof (rule write_partial_ok [OF w' _ len(2) dvd at' _ in_dev, of ?k])
      show "n + ?m + ?k \<le> length buf" using k by simp
      show "0 + ?k \<le> ?B" using S(4) by simp
    qed
    have "slice_checked 0 ?k (drop (n + ?m) buf) = Some (take ?k (drop (n + ?m) buf))"
      using k by (simp add: slice_checked_def slice_def)
    with o eq False k show thesis by (intro result [of r b2]) simp_all
  qed
  show thesis
  proof (cases "?q = 0")
    case True
    then have "unat (len div ph_bsize iface) = 0" by simp
    with w True bs [OF w] bsize_pos show thesis
      by (intro rest [of b1]) (simp_all add: writebytes_aligned_def)
  next
    case False
    have cnt: "unat ?q * ?B \<le> length buf - n" using S(1) len by simp
    have nle: "n \<le> length buf" using len by simp
    obtain r b2 where o: "ext4_bdif_bwrite b1 (drop n buf) idx ?q = Some (r, b2)"
      "same_device bdev b2" "bcache b2 = bcache bdev"
      "r = EOK \<longrightarrow> bytes_written iface content dev_ok bdev start buf (n + ?m) b2"
      "never_fails iface content dev_ok \<longrightarrow> r = EOK"
      by (rule write_aligned_ok [OF w nle len(2) at cnt])
    have b2: "ph_bsize (bdif b2) = ?bs"
      using o(1) w unlocked
      by (auto simp: ext4_bdif_bwrite_def ext4_bdif_lock_def ext4_bdif_unlock_def bytes_written_def
          bdev_ok_def bound_driver_def Let_def split: bind_splits)
    show thesis
    proof (cases "r = EOK")
      case True
      with o(4) have w2: "bytes_written iface content dev_ok bdev start buf (n + ?m) b2" by simp
      then show thesis
        by (rule rest) (use False True o(1) bs [OF w] b2 bsize_pos S(2) in
          \<open>simp add: writebytes_aligned_def Let_def add.commute\<close>)
    next
      case neq: False
      show thesis
        by (rule result [of r b2]) (use neq False o bs [OF w] b2 bsize_pos in
          \<open>simp_all add: writebytes_aligned_def Let_def\<close>)
    qed
  qed
qed

end

text \<open>Where a byte offset of the partition lies: its physical block and the offset in it.\<close>

lemma byte_position:
  assumes ok: "bdev_ok iface content dev_ok bdev" and bs: "unat (ph_bsize iface) = 2 ^ k"
    and off: "unat off + unat len \<le> unat (part_size bdev)"
  defines "start \<equiv> unat (part_offset bdev) + unat off"
    and "idx \<equiv> (off + part_offset bdev) div ucast (ph_bsize (bdif bdev))"
    and "unalg \<equiv> (ucast (off AND ucast (ph_bsize (bdif bdev) - 1)) :: u32)"
  shows "unat idx * unat (ph_bsize iface) + unat unalg = start" "unat unalg < unat (ph_bsize iface)"
    "start + unat len \<le> length (dev_image content bdev)" "length (dev_image content bdev) < 2 ^ 64"
    "\<not> off + ucast (len::u32) > part_size bdev" "div_checked (off + part_offset bdev) (ucast (ph_bsize (bdif bdev))) = Some idx"
    "ph_bsize (bdif bdev) = ph_bsize iface"
proof -
  let ?B = "unat (ph_bsize iface)"
  show b: "ph_bsize (bdif bdev) = ph_bsize iface" using ok by (simp add: bdev_ok_def bound_driver_def)
  have g: "unat (part_offset bdev) + unat (part_size bdev) \<le> length (dev_image content bdev)"
    "length (dev_image content bdev) < 2 ^ 64" "?B dvd unat (part_offset bdev)"
    using ok b by (simp_all add: bdev_ok_def geometry_ok_def)
  show "start + unat len \<le> length (dev_image content bdev)" using g(1) off by (simp add: start_def)
  show "length (dev_image content bdev) < 2 ^ 64" by (rule g(2))
  have "unat off + unat (part_offset bdev) < 2 ^ LENGTH(64)" using g off by simp
  then have s: "unat (off + part_offset bdev) = start" by (simp add: start_def)
  have Bpos: "0 < ?B" using bs by simp
  then have nz: "(ucast (ph_bsize (bdif bdev)) :: u64) \<noteq> 0" using b by (metis ucast_u32_u64_unat unsigned_0 less_not_refl)
  then show "div_checked (off + part_offset bdev) (ucast (ph_bsize (bdif bdev))) = Some idx"
    by (simp add: idx_def)
  have i: "unat idx = start div ?B" by (simp add: idx_def unat_div s b)
  have u: "unat unalg = unat off mod ?B" using unalg_eq [OF bs, of off] by (simp only: unalg_def b)
  have "start mod ?B = unat off mod ?B" using g(3) by (auto simp: start_def mod_add_left_eq [symmetric])
  then show "unat idx * ?B + unat unalg = start" by (simp only: i u [symmetric]) (metis div_mult_mod_eq u)
  show "unat unalg < ?B" using Bpos u by simp
  have "unat off + unat (ucast len :: u64) < 2 ^ LENGTH(64)"
    using off unat_below [of "part_size bdev"] by simp
  then have "unat (off + ucast len) = unat off + unat len" by (simp only: unat_plus_nowrap ucast_u32_u64_unat)
  then show "\<not> off + ucast len > part_size bdev" using off by (simp add: word_less_nat_alt)
qed

lemma first_part:
  assumes "unat (u::u32) < unat bs"
  shows "unat (if bs - u > len then len else bs - u) = min (unat len) (unat bs - unat u)"
proof -
  have "unat (bs - u) = unat bs - unat u" using assms by (simp add: unat_sub word_le_nat_alt)
  then show ?thesis by (auto simp: word_less_nat_alt min_def)
qed

context block_driver
begin

lemma writebytes_ok:
  assumes ok: "bdev_ok iface content dev_ok bdev" and bs: "unat (ph_bsize iface) = 2 ^ k"
    and open': "ph_refctr (bdif bdev) \<noteq> 0" and off: "unat off + unat len \<le> unat (part_size bdev)"
    and buf: "length buf = unat len" and dvd: "unat (ph_bsize iface) dvd length (dev_image content bdev)"
  obtains r b2 where "ext4_block_writebytes bdev off buf len = Some (r, b2)"
    "same_device bdev b2" "bcache b2 = bcache bdev"
    "r = EOK \<longrightarrow> bytes_written iface content dev_ok bdev (unat (part_offset bdev) + unat off) buf (unat len) b2"
    "never_fails iface content dev_ok \<longrightarrow> r = EOK"
proof -
  define start where "start = unat (part_offset bdev) + unat off"
  define idx where "idx = (off + part_offset bdev) div ucast (ph_bsize (bdif bdev))"
  define unalg :: u32 where "unalg = ucast (off AND ucast (ph_bsize (bdif bdev) - 1))"
  note P = byte_position [OF ok bs off, folded start_def idx_def unalg_def]
  let ?B = "unat (ph_bsize iface)"
  have len: "start + length buf \<le> length (dev_image content bdev)" using P(3) buf by simp
  have w0: "bytes_written iface content dev_ok bdev start buf 0 bdev"
    by (rule bytes_written_zero [OF ok]) (use P(3) in simp)
  show thesis
  proof (cases "unalg = 0")
    case True
    then have at: "unat idx * ?B = start + 0" using P(1) by simp
    obtain r b2 where o: "writebytes_aligned bdev (drop 0 buf) len idx = Some (r, b2)"
      "same_device bdev b2" "bcache b2 = bcache bdev"
      "r = EOK \<longrightarrow> bytes_written iface content dev_ok bdev start buf (length buf) b2"
      "never_fails iface content dev_ok \<longrightarrow> r = EOK"
      by (rule writebytes_aligned_ok [OF w0 _ len P(4) dvd at, of len]) (use buf in simp_all)
    have "ext4_block_writebytes bdev off buf len = Some (r, b2)"
      unfolding ext4_block_writebytes_def Let_def unalg_def [symmetric] using open' P(5,6) o(1) True by simp
    then show thesis by (rule that) (use o buf in \<open>simp_all add: start_def\<close>)
  next
    case False
    define wlen where "wlen = (if ph_bsize (bdif bdev) - unalg > len then len else ph_bsize (bdif bdev) - unalg)"
    have wl: "unat wlen = min (unat len) (?B - unat unalg)" unfolding wlen_def P(7) by (rule first_part [OF P(2)])
    have in_dev: "unat idx * ?B < length (dev_image content bdev)" if "0 < unat unalg"
      using P(1,3) that by linarith
    have upos: "0 < unat unalg" using False by (simp add: unat_gt_0)
    obtain r b1 where o: "ph_rmw bdev idx (unat unalg) (take (unat wlen) (drop 0 buf)) = Some (r, b1)"
      "same_device bdev b1" "bcache b1 = bcache bdev"
      "r = EOK \<longrightarrow> bytes_written iface content dev_ok bdev start buf (0 + unat wlen) b1"
      "never_fails iface content dev_ok \<longrightarrow> r = EOK"
    proof (rule write_partial_ok [OF w0 _ len dvd _ _ in_dev [OF upos], of "unat wlen" "unat unalg"])
      show "0 + unat wlen \<le> length buf" using wl buf by simp
      show "unat idx * ?B + unat unalg = start + 0" using P(1) by simp
      show "unat unalg + unat wlen \<le> ?B" using wl P(2) by simp
    qed
    have sl: "slice_checked 0 (unat wlen) buf = Some (take (unat wlen) buf)"
      using wl buf by (simp add: slice_checked_def slice_def)
    have eq: "ext4_block_writebytes bdev off buf len =
        (if r \<noteq> EOK then Some (r, b1) else writebytes_aligned b1 (drop (unat wlen) buf) (len - wlen) (idx + 1))"
      unfolding ext4_block_writebytes_def Let_def unalg_def [symmetric] wlen_def [symmetric]
      using open' P(5,6) o(1) False sl by simp
    show thesis
    proof (cases "r = EOK")
      case neq: False
      show thesis by (rule that [of r b1]) (use eq neq o in simp_all)
    next
      case True
      with o(4) have w1: "bytes_written iface content dev_ok bdev start buf (unat wlen) b1" by simp
      have rest: "unat (len - wlen) = unat len - unat wlen" using wl by (simp add: unat_sub word_le_nat_alt)
      show thesis
      proof (cases "unat wlen = unat len")
        case all: True
        then have "len - wlen = 0" by (metis right_minus_eq word_unat_eq_iff)
        then have "writebytes_aligned b1 (drop (unat wlen) buf) (len - wlen) (idx + 1) = Some (EOK, b1)"
          using w1 bsize_pos by (simp add: writebytes_aligned_def bytes_written_def bdev_ok_def bound_driver_def)
        with eq True all w1 o show thesis by (intro that [of EOK b1]) (simp_all add: start_def)
      next
        case more: False
        then have w: "unat wlen = ?B - unat unalg" "unat wlen < unat len" using wl by linarith+
        have B1: "1 \<le> ?B" using P(2) by linarith
        have "(unat idx + 1) * 1 \<le> (unat idx + 1) * ?B" using B1 by (intro mult_le_mono2)
        also have "\<dots> \<le> length (dev_image content bdev)" using P(1-3) w by (simp add: add_mult_distrib)
        finally have "unat idx + 1 < 2 ^ LENGTH(64)" using P(4) by simp
        then have i1: "unat (idx + 1) = unat idx + 1" by (rule unat_plus_one_nowrap)
        have at: "unat (idx + 1) * ?B = start + unat wlen" using P(1,2) w by (simp add: i1 add_mult_distrib)
        obtain r b2 where o2: "writebytes_aligned b1 (drop (unat wlen) buf) (len - wlen) (idx + 1) = Some (r, b2)"
          "same_device bdev b2" "bcache b2 = bcache bdev"
          "r = EOK \<longrightarrow> bytes_written iface content dev_ok bdev start buf (length buf) b2"
          "never_fails iface content dev_ok \<longrightarrow> r = EOK"
          by (rule writebytes_aligned_ok [OF w1 _ len P(4) dvd at, of "len - wlen"]) (use buf rest w in simp_all)
        show thesis by (rule that [of r b2]) (use eq True o2 buf in \<open>simp_all add: start_def\<close>)
      qed
    qed
  qed
qed

end

section \<open>Byte-granular reads\<close>

text \<open>The state after the first \<open>n\<close> bytes from \<open>start\<close> on were read into the output buffer.\<close>

definition bytes_read :: "'d ext4_blockdev_iface \<Rightarrow> ('d \<Rightarrow> u8 list) \<Rightarrow> ('d \<Rightarrow> bool) \<Rightarrow> 'd ext4_blockdev \<Rightarrow>
    nat \<Rightarrow> u8 list \<Rightarrow> nat \<Rightarrow> 'd ext4_blockdev \<Rightarrow> u8 list \<Rightarrow> bool" where
  "bytes_read iface content dev_ok bdev start buf n bdev' buf' =
     (bdev_ok iface content dev_ok bdev' \<and> same_device bdev bdev' \<and> bcache bdev' = bcache bdev \<and>
      dev_image content bdev' = dev_image content bdev \<and>
      buf' = splice 0 (slice start n (dev_image content bdev)) buf)"

lemma splice_next_slice:
  assumes "n + m \<le> length buf" "start + n + m \<le> length img"
  shows "splice n (slice (start + n) m img) (splice 0 (slice start n img) buf) =
    splice 0 (slice start (n + m) img) buf"
  using assms by (intro nth_equalityI) (auto simp: nth_splice add.assoc)

context block_driver
begin

lemma ph_fill_ok:
  assumes ok: "bdev_ok iface content dev_ok bdev"
    and range: "ph_in_range (ph_bsize iface) (length (dev_image content bdev)) blk 1"
  obtains r b1 where "ph_fill bdev blk = Some (r, b1)" "bdev_ok iface content dev_ok b1"
    "same_device bdev b1" "bcache b1 = bcache bdev" "dev_image content b1 = dev_image content bdev"
    "length (ph_bbuf (bdif b1)) = unat (ph_bsize iface)"
    "r = EOK \<longrightarrow> ph_bbuf (bdif b1) =
       slice (unat blk * unat (ph_bsize iface)) (unat (ph_bsize iface)) (dev_image content bdev)"
    "never_fails iface content dev_ok \<longrightarrow> r = EOK"
proof -
  let ?B = "unat (ph_bsize iface)"
  have bd: "bound_driver iface (bdif bdev)" "dev_ok (p_user (bdif bdev))" using ok by (simp_all add: bdev_ok_def)
  obtain r bytes b1 where rd: "ext4_bdif_bread bdev blk 1 = Some (r, bytes, b1)" "io_frame bdev b1"
    "bound_driver iface (bdif b1)" "dev_ok (p_user (bdif b1))" "dev_image content b1 = dev_image content bdev"
    "length bytes \<le> unat (1::u32) * ?B"
    "r = EOK \<longrightarrow> bytes = slice (unat blk * ?B) (unat (1::u32) * ?B) (dev_image content bdev)"
    by (rule bdif_bread [OF bd range])
  have eok: "never_fails iface content dev_ok \<longrightarrow> r = EOK" using bdif_bread_eok [OF bd range _ rd(1)] by simp
  have blen: "length (ph_bbuf (bdif b1)) = ?B" using rd(3) by (simp add: bound_driver_def)
  let ?x = "splice 0 bytes (ph_bbuf (bdif b1))"
  let ?b = "b1\<lparr>bdif := (bdif b1)\<lparr>ph_bbuf := ?x\<rparr>\<rparr>"
  have lx: "length ?x = ?B" using blen rd(6) by simp
  have sd: "same_device bdev ?b" using rd(2) by (simp add: io_frame_def same_device_def)
  have img: "dev_image content ?b = dev_image content bdev" using rd(5) by (simp add: dev_image_def)
  have range': "unat blk * ?B + ?B \<le> length (dev_image content bdev)"
    using range by (simp add: ph_in_range_def add_mult_distrib)
  show thesis
  proof (rule that [of r ?b])
    show "ph_fill bdev blk = Some (r, ?b)" using rd(1,6) blen by (simp add: ph_fill_def)
    show "bdev_ok iface content dev_ok ?b"
      by (rule bdev_ok_frame [OF ok sd]) (use rd(3,4) lx img in \<open>simp_all add: bound_driver_def\<close>)
    show "r = EOK \<longrightarrow> ph_bbuf (bdif ?b) = slice (unat blk * ?B) ?B (dev_image content bdev)"
      using rd(7) blen range' by (simp add: splice_def)
  qed (use sd img lx rd(2) eok in \<open>simp_all add: io_frame_def\<close>)
qed

lemma read_step:
  assumes w: "bytes_read iface content dev_ok bdev start buf n b1 buf1"
    and len: "n + m \<le> length buf" "start + n + m \<le> length (dev_image content bdev)"
    and dvd: "unat (ph_bsize iface) dvd length (dev_image content bdev)"
    and at: "unat idx * unat (ph_bsize iface) + at = start + n" "at + m \<le> unat (ph_bsize iface)"
    and in_dev: "unat idx * unat (ph_bsize iface) < length (dev_image content bdev)"
  obtains r b2 buf2 where "ph_fill b1 idx = Some (r, b2)" "same_device bdev b2" "bcache b2 = bcache bdev"
    "slice_checked at m (ph_bbuf (bdif b2)) = Some (slice at m (ph_bbuf (bdif b2)))"
    "memcpy_at buf1 n (slice at m (ph_bbuf (bdif b2))) = Some buf2"
    "r = EOK \<longrightarrow> bytes_read iface content dev_ok bdev start buf (n + m) b2 buf2"
    "never_fails iface content dev_ok \<longrightarrow> r = EOK"
proof -
  let ?B = "unat (ph_bsize iface)"
  have ok: "bdev_ok iface content dev_ok b1" and sd: "same_device bdev b1" and bc: "bcache b1 = bcache bdev"
    and img: "dev_image content b1 = dev_image content bdev"
    and b: "buf1 = splice 0 (slice start n (dev_image content bdev)) buf"
    using w by (simp_all add: bytes_read_def)
  obtain c where c: "length (dev_image content bdev) = ?B * c" using dvd by (rule dvdE)
  have "unat idx < c" using in_dev unfolding c by (simp add: mult.commute)
  then have le: "(unat idx + 1) * ?B \<le> c * ?B" by (intro mult_right_mono) simp_all
  then have range: "ph_in_range (ph_bsize iface) (length (dev_image content b1)) idx 1"
    using c img by (simp add: ph_in_range_def mult.commute)
  obtain r b2 where o: "ph_fill b1 idx = Some (r, b2)" "bdev_ok iface content dev_ok b2"
    "same_device b1 b2" "bcache b2 = bcache b1" "dev_image content b2 = dev_image content b1"
    "length (ph_bbuf (bdif b2)) = ?B"
    "r = EOK \<longrightarrow> ph_bbuf (bdif b2) = slice (unat idx * ?B) ?B (dev_image content b1)"
    "never_fails iface content dev_ok \<longrightarrow> r = EOK"
    by (rule ph_fill_ok [OF ok range])
  note eok = o(8)
  have l1: "length buf1 = length buf" using b len by simp
  have ls: "length (slice at m (ph_bbuf (bdif b2))) = m" using at(2) o(6) by simp
  have blk: "unat idx * ?B + ?B \<le> length (dev_image content bdev)"
    using le c by (simp add: mult.commute add_mult_distrib)
  have sl: "slice at m (slice (unat idx * ?B) ?B (dev_image content bdev)) = slice (start + n) m (dev_image content bdev)"
    using at blk len by (intro nth_equalityI) (simp_all add: add.assoc [symmetric])
  show thesis
  proof (rule that [OF o(1)])
    show "never_fails iface content dev_ok \<longrightarrow> r = EOK" by (rule eok)
    show "same_device bdev b2" by (rule same_device_trans [OF sd o(3)])
    show "bcache b2 = bcache bdev" using o(4) bc by simp
    show "slice_checked at m (ph_bbuf (bdif b2)) = Some (slice at m (ph_bbuf (bdif b2)))" using at(2) o(6) by simp
    show "memcpy_at buf1 n (slice at m (ph_bbuf (bdif b2))) = Some (splice n (slice at m (ph_bbuf (bdif b2))) buf1)"
      using l1 ls len by simp
    show "r = EOK \<longrightarrow> bytes_read iface content dev_ok bdev start buf (n + m) b2
        (splice n (slice at m (ph_bbuf (bdif b2))) buf1)"
      using o(2-5,7) same_device_trans [OF sd o(3)] bc img b sl splice_next_slice [OF len]
      by (simp add: bytes_read_def)
  qed
qed

lemma read_blocks_ok:
  assumes w: "bytes_read iface content dev_ok bdev start buf n b1 buf1"
    and m: "m = unat cnt * unat (ph_bsize iface)"
    and len: "n + m \<le> length buf" "start + n + m \<le> length (dev_image content bdev)"
    and at: "unat idx * unat (ph_bsize iface) = start + n"
  obtains r bytes b2 buf2 where "ext4_bdif_bread b1 idx cnt = Some (r, bytes, b2)" "memcpy_at buf1 n bytes = Some buf2"
    "same_device bdev b2" "bcache b2 = bcache bdev"
    "r = EOK \<longrightarrow> bytes_read iface content dev_ok bdev start buf (n + m) b2 buf2"
    "never_fails iface content dev_ok \<longrightarrow> r = EOK"
    "ph_bsize (bdif b2) = ph_bsize iface"
proof -
  let ?B = "unat (ph_bsize iface)"
  have ok: "bdev_ok iface content dev_ok b1" and sd: "same_device bdev b1" and bc: "bcache b1 = bcache bdev"
    and img: "dev_image content b1 = dev_image content bdev"
    and b: "buf1 = splice 0 (slice start n (dev_image content bdev)) buf"
    using w by (simp_all add: bytes_read_def)
  have bd: "bound_driver iface (bdif b1)" "dev_ok (p_user (bdif b1))" using ok by (simp_all add: bdev_ok_def)
  have range: "ph_in_range (ph_bsize iface) (length (dev_image content b1)) idx cnt"
    using at len m img by (simp add: ph_in_range_def add_mult_distrib)
  obtain r bytes b2 where o: "ext4_bdif_bread b1 idx cnt = Some (r, bytes, b2)" "io_frame b1 b2"
    "bound_driver iface (bdif b2)" "dev_ok (p_user (bdif b2))" "dev_image content b2 = dev_image content b1"
    "length bytes \<le> unat cnt * ?B" "r = EOK \<longrightarrow> bytes = slice (unat idx * ?B) (unat cnt * ?B) (dev_image content b1)"
    by (rule bdif_bread [OF bd range])
  have eok: "never_fails iface content dev_ok \<longrightarrow> r = EOK" using bdif_bread_eok [OF bd range _ o(1)] by simp
  have l1: "length buf1 = length buf" using b len by simp
  have sd2: "same_device b1 b2" using o(2) by (simp add: io_frame_def)
  show thesis
  proof (rule that [OF o(1)])
    show "never_fails iface content dev_ok \<longrightarrow> r = EOK" by (rule eok)
    show "memcpy_at buf1 n bytes = Some (splice n bytes buf1)" using l1 o(6) m len by simp
    show "same_device bdev b2" by (rule same_device_trans [OF sd sd2])
    show "bcache b2 = bcache bdev" using o(2) bc by (simp add: io_frame_def)
    show "ph_bsize (bdif b2) = ph_bsize iface" using o(3) by (simp add: bound_driver_def)
    have "bdev_ok iface content dev_ok b2" by (rule bdev_ok_frame [OF ok sd2 o(3,4)]) (simp add: o(5))
    then show "r = EOK \<longrightarrow> bytes_read iface content dev_ok bdev start buf (n + m) b2 (splice n bytes buf1)"
      using o(2,5,7) same_device_trans [OF sd sd2] bc img b splice_next_slice [OF len] at m
      by (simp add: bytes_read_def io_frame_def)
  qed
qed

end

context block_driver
begin

lemma readbytes_aligned_ok:
  assumes w: "bytes_read iface content dev_ok bdev start buf n b1 buf1"
    and len: "n + unat len \<le> length buf" "start + n + unat len \<le> length (dev_image content bdev)"
      "length (dev_image content bdev) < 2 ^ 64"
    and dvd: "unat (ph_bsize iface) dvd length (dev_image content bdev)"
    and at: "unat idx * unat (ph_bsize iface) = start + n"
  obtains r b2 buf2 where "readbytes_aligned b1 buf1 n len idx = Some (r, buf2, b2)"
    "same_device bdev b2" "bcache b2 = bcache bdev"
    "r = EOK \<longrightarrow> bytes_read iface content dev_ok bdev start buf (n + unat len) b2 buf2"
    "never_fails iface content dev_ok \<longrightarrow> r = EOK"
proof -
  note result = that
  let ?bs = "ph_bsize iface" and ?q = "len div ph_bsize iface"
  let ?B = "unat ?bs" and ?m = "unat (len div ph_bsize iface) * unat (ph_bsize iface)"
  let ?n = "?bs * ?q"
  have bs: "ph_bsize (bdif b1) = ?bs"
    using w by (simp add: bytes_read_def bdev_ok_def bound_driver_def)
  have "unat idx * ?B + unat len \<le> length (dev_image content bdev)" using at len by simp
  note S = aligned_split [OF bsize_pos this len(3)]
  have rest: thesis
    if w': "bytes_read iface content dev_ok bdev start buf (n + ?m) b bufx"
      and eq: "readbytes_aligned b1 buf1 n len idx =
        (if len - ?n \<noteq> 0 then do { (r, bdev) \<leftarrow> ph_fill b (idx + ucast ?q);
           if r \<noteq> EOK then Some (r, bufx, bdev)
           else do { src \<leftarrow> slice_checked 0 (unat (len - ?n)) (ph_bbuf (bdif bdev));
             buf \<leftarrow> memcpy_at bufx (n + ?m) src; Some (EOK, buf, bdev) }} else Some (EOK, bufx, b))" for b bufx
  proof (cases "len - ?n = 0")
    case True
    then have "unat len = ?m" using S(1,3) by simp
    with w' have "bytes_read iface content dev_ok bdev start buf (n + unat len) b bufx" by simp
    with True eq show thesis by (intro result [of EOK bufx b]) (simp_all add: bytes_read_def)
  next
    case False
    let ?k = "unat (len - ?n)"
    have k: "n + ?m + ?k = n + unat len" using S(1,3) len by simp
    have pos: "0 < ?k" using False by (simp add: unat_gt_0)
    have at': "unat (idx + ucast ?q) * ?B + 0 = start + (n + ?m)"
      using at by (simp add: S(5) add_mult_distrib)
    have in_dev: "unat (idx + ucast ?q) * ?B < length (dev_image content bdev)"
      using at' k pos len by linarith
    obtain r b2 buf2 where o: "ph_fill b (idx + ucast ?q) = Some (r, b2)" "same_device bdev b2" "bcache b2 = bcache bdev"
      "slice_checked 0 ?k (ph_bbuf (bdif b2)) = Some (slice 0 ?k (ph_bbuf (bdif b2)))"
      "memcpy_at bufx (n + ?m) (slice 0 ?k (ph_bbuf (bdif b2))) = Some buf2"
      "r = EOK \<longrightarrow> bytes_read iface content dev_ok bdev start buf (n + ?m + ?k) b2 buf2"
      "never_fails iface content dev_ok \<longrightarrow> r = EOK"
    proof (rule read_step [OF w' _ _ dvd at' _ in_dev, of ?k])
      show "n + ?m + ?k \<le> length buf" using k len by simp
      show "start + (n + ?m) + ?k \<le> length (dev_image content bdev)" using k len by linarith
      show "0 + ?k \<le> ?B" using S(4) by simp
    qed
    show thesis
    proof (cases "r = EOK")
      case True
      with o eq False k show thesis by (intro result [of EOK buf2 b2]) simp_all
    next
      case neq: False
      with o eq False show thesis by (intro result [of r bufx b2]) simp_all
    qed
  qed
  show thesis
  proof (cases "?q = 0")
    case True
    then have "unat (len div ph_bsize iface) = 0" by simp
    with w True bs bsize_pos show thesis
      by (intro rest [of b1 buf1]) (simp_all add: readbytes_aligned_def cong: if_cong)
  next
    case False
    have fit: "n + ?m \<le> length buf" "start + n + ?m \<le> length (dev_image content bdev)" using S(1) len by linarith+
    obtain r bytes b2 buf2 where o: "ext4_bdif_bread b1 idx ?q = Some (r, bytes, b2)" "memcpy_at buf1 n bytes = Some buf2"
      "same_device bdev b2" "bcache b2 = bcache bdev"
      "r = EOK \<longrightarrow> bytes_read iface content dev_ok bdev start buf (n + ?m) b2 buf2"
      "never_fails iface content dev_ok \<longrightarrow> r = EOK"
      "ph_bsize (bdif b2) = ?bs"
      by (rule read_blocks_ok [OF w refl fit at])
    show thesis
    proof (cases "r = EOK")
      case True
      with o(5) have w2: "bytes_read iface content dev_ok bdev start buf (n + ?m) b2 buf2" by simp
      then show thesis
        by (rule rest) (use False True o(1,2,7) bs bsize_pos S(2) in
          \<open>simp add: readbytes_aligned_def Let_def add.commute cong: if_cong\<close>)
    next
      case neq: False
      show thesis
        by (rule result [of r buf2 b2]) (use neq False o bs bsize_pos in
          \<open>simp_all add: readbytes_aligned_def Let_def\<close>)
    qed
  qed
qed

lemma readbytes_ok:
  assumes ok: "bdev_ok iface content dev_ok bdev" and bs: "unat (ph_bsize iface) = 2 ^ k"
    and open': "ph_refctr (bdif bdev) \<noteq> 0" and off: "unat off + unat len \<le> unat (part_size bdev)"
    and buf: "length buf = unat len" and dvd: "unat (ph_bsize iface) dvd length (dev_image content bdev)"
  obtains r b2 buf2 where "ext4_block_readbytes bdev off buf len = Some (r, buf2, b2)"
    "same_device bdev b2" "bcache b2 = bcache bdev"
    "r = EOK \<longrightarrow> bytes_read iface content dev_ok bdev (unat (part_offset bdev) + unat off) buf (unat len) b2 buf2"
    "never_fails iface content dev_ok \<longrightarrow> r = EOK"
proof -
  define start where "start = unat (part_offset bdev) + unat off"
  define idx where "idx = (off + part_offset bdev) div ucast (ph_bsize (bdif bdev))"
  define unalg :: u32 where "unalg = ucast (off AND ucast (ph_bsize (bdif bdev) - 1))"
  note P = byte_position [OF ok bs off, folded start_def idx_def unalg_def]
  let ?B = "unat (ph_bsize iface)"
  have w0: "bytes_read iface content dev_ok bdev start buf 0 bdev buf"
    using ok by (simp add: bytes_read_def slice_def splice_def)
  show thesis
  proof (cases "unalg = 0")
    case True
    then have at: "unat idx * ?B = start + 0" using P(1) by simp
    obtain r b2 buf2 where o: "readbytes_aligned bdev buf 0 len idx = Some (r, buf2, b2)"
      "same_device bdev b2" "bcache b2 = bcache bdev"
      "r = EOK \<longrightarrow> bytes_read iface content dev_ok bdev start buf (0 + unat len) b2 buf2"
      "never_fails iface content dev_ok \<longrightarrow> r = EOK"
      by (rule readbytes_aligned_ok [OF w0 _ _ P(4) dvd at, of len]) (use buf P(3) in simp_all)
    have "ext4_block_readbytes bdev off buf len = Some (r, buf2, b2)"
      unfolding ext4_block_readbytes_def Let_def unalg_def [symmetric] using open' P(5,6) o(1) True by simp
    then show thesis by (rule that) (use o buf in \<open>simp_all add: start_def\<close>)
  next
    case False
    define rlen where "rlen = (if ph_bsize (bdif bdev) - unalg > len then len else ph_bsize (bdif bdev) - unalg)"
    have wl: "unat rlen = min (unat len) (?B - unat unalg)" unfolding rlen_def P(7) by (rule first_part [OF P(2)])
    have upos: "0 < unat unalg" using False by (simp add: unat_gt_0)
    have in_dev: "unat idx * ?B < length (dev_image content bdev)" using P(1,3) upos by linarith
    obtain r b1 buf1 where o: "ph_fill bdev idx = Some (r, b1)" "same_device bdev b1" "bcache b1 = bcache bdev"
      "slice_checked (unat unalg) (unat rlen) (ph_bbuf (bdif b1)) = Some (slice (unat unalg) (unat rlen) (ph_bbuf (bdif b1)))"
      "memcpy_at buf 0 (slice (unat unalg) (unat rlen) (ph_bbuf (bdif b1))) = Some buf1"
      "r = EOK \<longrightarrow> bytes_read iface content dev_ok bdev start buf (0 + unat rlen) b1 buf1"
      "never_fails iface content dev_ok \<longrightarrow> r = EOK"
    proof (rule read_step [OF w0 _ _ dvd _ _ in_dev, of "unat rlen" "unat unalg"])
      show "0 + unat rlen \<le> length buf" using wl buf by simp
      show "start + 0 + unat rlen \<le> length (dev_image content bdev)" using wl P(3) by linarith
      show "unat idx * ?B + unat unalg = start + 0" using P(1) by simp
      show "unat unalg + unat rlen \<le> ?B" using wl P(2) by simp
    qed
    have eq: "ext4_block_readbytes bdev off buf len =
        (if r \<noteq> EOK then Some (r, buf, b1) else readbytes_aligned b1 buf1 (unat rlen) (len - rlen) (idx + 1))"
      unfolding ext4_block_readbytes_def Let_def unalg_def [symmetric] rlen_def [symmetric]
      using open' P(5,6) o(1,4,5) False by simp
    show thesis
    proof (cases "r = EOK")
      case neq: False
      show thesis by (rule that [of r buf b1]) (use eq neq o in simp_all)
    next
      case True
      with o(6) have w1: "bytes_read iface content dev_ok bdev start buf (unat rlen) b1 buf1" by simp
      have rest: "unat (len - rlen) = unat len - unat rlen" using wl by (simp add: unat_sub word_le_nat_alt)
      show thesis
      proof (cases "unat rlen = unat len")
        case all: True
        then have "len - rlen = 0" by (metis right_minus_eq word_unat_eq_iff)
        then have "readbytes_aligned b1 buf1 (unat rlen) (len - rlen) (idx + 1) = Some (EOK, buf1, b1)"
          using w1 bsize_pos by (simp add: readbytes_aligned_def bytes_read_def bdev_ok_def bound_driver_def)
        with eq True all w1 o show thesis by (intro that [of EOK buf1 b1]) (simp_all add: start_def)
      next
        case more: False
        then have w: "unat rlen = ?B - unat unalg" "unat rlen < unat len" using wl by linarith+
        have B1: "1 \<le> ?B" using P(2) by linarith
        have "(unat idx + 1) * 1 \<le> (unat idx + 1) * ?B" using B1 by (intro mult_le_mono2)
        also have "\<dots> \<le> length (dev_image content bdev)" using P(1-3) w by (simp add: add_mult_distrib)
        finally have "unat idx + 1 < 2 ^ LENGTH(64)" using P(4) by simp
        then have i1: "unat (idx + 1) = unat idx + 1" by (rule unat_plus_one_nowrap)
        have at: "unat (idx + 1) * ?B = start + unat rlen" using P(1,2) w by (simp add: i1 add_mult_distrib)
        obtain r b2 buf2 where o2: "readbytes_aligned b1 buf1 (unat rlen) (len - rlen) (idx + 1) = Some (r, buf2, b2)"
          "same_device bdev b2" "bcache b2 = bcache bdev"
          "r = EOK \<longrightarrow> bytes_read iface content dev_ok bdev start buf (unat rlen + unat (len - rlen)) b2 buf2"
          "never_fails iface content dev_ok \<longrightarrow> r = EOK"
          by (rule readbytes_aligned_ok [OF w1 _ _ P(4) dvd at, of "len - rlen"]) (use buf rest w P(3) in simp_all)
        show thesis by (rule that [of r buf2 b2]) (use eq True o2 rest w in \<open>simp_all add: start_def\<close>)
      qed
    qed
  qed
qed

end

section \<open>Operations on a driver that does not fail\<close>

text \<open>With memory to allocate from, getting a block then succeeds.\<close>

definition mallocs_succeed :: "ext4_bcache \<Rightarrow> bool" where
  "mallocs_succeed bc = (\<forall>n. malloc_oracle bc n \<noteq> None)"

context reliable_driver
begin

lemma shake_loop_eok:
  assumes "bdev_ok iface content dev_ok bdev" "cache_ok content bdev" "shake_loop bdev = Some (r, bdev')"
  shows "r = EOK"
  using assms
proof (induction "length (lru_root (bcache bdev))" arbitrary: bdev rule: less_induct)
  case less
  note wf = cache_ok_wf [OF less.prems(2)]
  show ?case
  proof (cases "lru_root (bcache bdev) \<noteq> [] \<and> ext4_bcache_is_full (bcache bdev)")
    case False
    then have "shake_loop bdev = Some (EOK, bdev)" by (subst shake_loop.simps) (simp only: if_False)
    then show ?thesis using less.prems(3) by simp
  next
    case True
    then obtain p ps where lru: "lru_root (bcache bdev) = p # ps" by (cases "lru_root (bcache bdev)") auto
    then have "p \<in> set (lru_root (bcache bdev))" by simp
    then obtain buf where buf: "bufs (bcache bdev) p = Some buf" "refctr buf = 0"
      using bcache_wfD(5) [OF wf] by auto
    have low: "ext4_buf_lowest_lru (bcache bdev) = Some p" by (simp add: ext4_buf_lowest_lru_def lru)
    have full: "ext4_bcache_is_full (bcache bdev)" using True by simp
    show ?thesis
    proof (cases rule: shake_step [OF less.prems(1,2) buf, consumes 0, case_names fail go])
      case (fail r' bdev')
      then have "ext4_block_flush_buf bdev p = Some (r', bdev')" by (auto split: if_splits)
      then have "r' = EOK" by (rule flush_buf_eok [OF less.prems(1,2) buf(1)])
      with fail(1) show ?thesis by simp
    next
      case (go bdev1 bdev2)
      have shorter: "length (lru_root (bcache bdev2)) < length (lru_root (bcache bdev))"
        using go(9) lru by simp
      have "bdev1\<lparr>bcache := bcache bdev2\<rparr> = bdev2" using go(3) by simp
      then have "shake_loop bdev2 = Some (r, bdev')"
        using go(1,2) less.prems(3) lru low full buf(1) by (simp add: shake_loop.simps [of bdev])
      then show ?thesis by (rule less.hyps [OF shorter go(4,5)])
    qed
  qed
qed

lemma cache_shake_eok:
  assumes "bdev_ok iface content dev_ok bdev" "cache_ok content bdev" "ext4_block_cache_shake bdev = Some (r, bdev')"
  shows "r = EOK"
proof (cases "dont_shake (bcache bdev)")
  case True
  then show ?thesis using assms(3) by (simp add: ext4_block_cache_shake_def)
next
  case False
  let ?b1 = "bdev\<lparr>bcache := (bcache bdev)\<lparr>dont_shake := True\<rparr>\<rparr>"
  have t1: "transparent iface content dev_ok bdev ?b1" by (rule transparent_dont_shake [OF assms(1,2)])
  obtain b2 where "shake_loop ?b1 = Some (r, b2)"
    using assms(3) False by (auto simp: ext4_block_cache_shake_def Option.bind_eq_Some_conv)
  then show ?thesis by (rule shake_loop_eok [OF transparent_ok(1,2) [OF t1]])
qed

lemma get_noread_eok:
  assumes ok: "bdev_ok iface content dev_ok bdev" and c: "cache_ok content bdev"
    and lba: "lba < lg_bcnt bdev" and ph: "ph_refctr (bdif bdev) \<noteq> 0" and mem: "mallocs_succeed (bcache bdev)"
    and g: "ext4_block_get_noread bdev b lba = Some (r, b', bdev')"
  shows "r = EOK"
proof -
  obtain r1 bdev1 where s: "ext4_block_cache_shake bdev = Some (r1, bdev1)"
    "transparent iface content dev_ok bdev bdev1" "shaken (bcache bdev) (bcache bdev1)"
    by (rule cache_shake_ok [OF ok c])
  have r1: "r1 = EOK" by (rule cache_shake_eok [OF ok c s(1)])
  note wf = cache_ok_wf [OF transparent_ok(2) [OF s(2)]]
  have mem1: "malloc_oracle (bcache bdev1) n \<noteq> None" for n
    using mem s(3) by (simp add: mallocs_succeed_def shaken_def)
  let ?b = "b\<lparr>lb_id := lba\<rparr>"
  show ?thesis
  proof (cases "bufs (bcache bdev1) lba")
    case (Some buf)
    then show ?thesis
      using g s(1) r1 lba ph ext4_bcache_alloc_hit [OF wf, of ?b buf] by (simp add: ext4_block_get_noread_def)
  next
    case None
    obtain junk where "malloc_oracle (bcache bdev1) (mallocs (bcache bdev1)) = Some junk" using mem1 by blast
    then show ?thesis
      using g s(1) r1 lba ph None mem1 ext4_bcache_alloc_new [OF wf, of ?b junk] by (simp add: ext4_block_get_noread_def)
  qed
qed

lemma get_direct_eok:
  assumes ok: "bdev_ok iface content dev_ok bdev" and lba: "lba < lg_bcnt bdev"
    and res: "ext4_blocks_get_direct bdev lba 1 = Some (r, bytes, bdev')"
  shows "r = EOK"
proof -
  obtain pba n where pba: "div_checked (lba * ucast (lg_bsize bdev) + part_offset bdev) (ucast (ph_bsize (bdif bdev))) = Some pba"
    "div_checked (lg_bsize bdev) (ph_bsize (bdif bdev)) = Some n"
    "unat pba * unat (ph_bsize iface) = lg_offset bdev lba" "unat n * unat (ph_bsize iface) = unat (lg_bsize bdev)"
    "ph_in_range (ph_bsize iface) (length (dev_image content bdev)) pba n"
    by (rule lg_phys [OF ok lba])
  have bd: "bound_driver iface (bdif bdev)" "dev_ok (p_user (bdif bdev))" using ok by (simp_all add: bdev_ok_def)
  have nf: "never_fails iface content dev_ok" by (rule never_failsI) unfold_locales
  have "ext4_bdif_bread bdev pba n = Some (r, bytes, bdev')"
    using res pba(1,2) by (simp add: ext4_blocks_get_direct_def)
  then show ?thesis by (rule bdif_bread_eok [OF bd pba(5) nf])
qed

lemma block_get_eok:
  assumes ok: "bdev_ok iface content dev_ok bdev" and c: "cache_ok content bdev"
    and lba: "lba < lg_bcnt bdev" and ph: "ph_refctr (bdif bdev) \<noteq> 0"
    and left: "refs_left (bcache bdev) lba" and mem: "mallocs_succeed (bcache bdev)"
    and g: "ext4_block_get bdev b lba = Some (r, b', bdev')"
  shows "r = EOK"
proof -
  obtain r1 b1 bdev1 where n: "ext4_block_get_noread bdev b lba = Some (r1, b1, bdev1)"
    "transparent iface content dev_ok bdev bdev1" "others_kept lba (bcache bdev) (bcache bdev1)"
    "r1 = EOK \<longrightarrow> holds_block bdev1 b1 lba"
    by (rule get_noread_ok [OF ok c lba ph left])
  have r1: "r1 = EOK" by (rule get_noread_eok [OF ok c lba ph mem n(1)])
  note T = transparent_ok [OF n(2)]
  obtain buf where buf: "blk_buf b1 = Some lba" "bufs (bcache bdev1) lba = Some buf"
    using n(4) r1 by (auto simp: holds_block_def)
  show ?thesis
  proof (cases "ext4_bcache_test_flag buf BC_UPTODATE")
    case True
    then show ?thesis using g n(1) r1 buf by (simp add: ext4_block_get_def)
  next
    case False
    have lba1: "lba < lg_bcnt bdev1" using lba T(4) by simp
    obtain r2 bytes bdev2 where rd: "ext4_blocks_get_direct bdev1 lba 1 = Some (r2, bytes, bdev2)"
      by (rule blocks_get_direct [OF T(1) lba1])
    have "r2 = EOK" by (rule get_direct_eok [OF T(1) lba1 rd])
    then show ?thesis
      using g n(1) r1 buf False rd by (auto simp: ext4_block_get_def Let_def Option.bind_eq_Some_conv)
  qed
qed

lemma cache_flush_eok:
  assumes "bdev_ok iface content dev_ok bdev" "cache_ok content bdev" "ext4_block_cache_flush bdev = Some (r, bdev')"
  shows "r = EOK"
  using assms
proof (induction "card (set (dirty_list (bcache bdev)))" arbitrary: bdev rule: less_induct)
  case less
  note wf = cache_ok_wf [OF less.prems(2)]
  show ?case
  proof (cases "dirty_list (bcache bdev)")
    case Nil
    then show ?thesis using less.prems(3) by (simp add: ext4_block_cache_flush.simps)
  next
    case (Cons p ps)
    then have p: "p \<in> set (dirty_list (bcache bdev))" by simp
    then obtain buf where buf: "bufs (bcache bdev) p = Some buf" using bcache_wfD(7) [OF wf] by auto
    obtain r1 bdev1 where f: "ext4_block_flush_buf bdev p = Some (r1, bdev1)" "bdev_ok iface content dev_ok bdev1"
      "cache_ok content bdev1" "same_device bdev bdev1" "same_cache (bcache bdev) (bcache bdev1)"
      "\<forall>l < lg_bcnt bdev. view content bdev1 l = view content bdev l"
      "r1 \<noteq> EOK \<longrightarrow> bcache bdev1 = bcache bdev"
      "r1 = EOK \<longrightarrow> bufs (bcache bdev1) = (bufs (bcache bdev))(p \<mapsto> flushed buf) \<and>
         set (dirty_list (bcache bdev1)) = set (dirty_list (bcache bdev)) - {p}"
      by (rule flush_buf [OF less.prems(1,2) buf])
    have r1: "r1 = EOK" by (rule flush_buf_eok [OF less.prems(1,2) buf f(1)])
    have small: "card (set (dirty_list (bcache bdev1))) < card (set (dirty_list (bcache bdev)))"
      using f(8) r1 card_Diff1_less [OF finite_set p] by (simp only: simp_thms)
    have "ext4_block_cache_flush bdev1 = Some (r, bdev')"
      using less.prems(3) Cons f(1) r1 by (simp add: ext4_block_cache_flush.simps [of bdev])
    then show ?thesis by (rule less.hyps [OF small f(2,3)])
  qed
qed

end

end
