(* ===== verification/Block_Device.thy ===== *)
theory Block_Device
  imports Blockdev_Contract
begin

text \<open>
  The block devices of the VFS library: the interface \<open>BlockDevice\<close> (\<open>lib/api/vfs/blockdev.hpp\<close>), the
  RAM device of the test bench (\<open>test/common/ram_blkdev.cpp\<close>), \<open>Partition\<close> and the device operations of
  \<open>Disk\<close> (\<open>lib/common/partition.cpp\<close>, \<open>disk.cpp\<close>), and \<open>lwext4_handle\<close>
  (\<open>lib/fstypes/handle/lwext4_handle.cpp\<close>), which makes any of them the driver of an \<open>ext4_blockdev\<close>.

  The virtual functions are the fields of the record \<open>BlockDevice\<close> on a device state \<open>'d\<close>. Their
  contract is the locale \<open>sector_device\<close>; a partition of a device that meets it meets it again, and the
  handle over it meets the driver contract \<open>block_driver\<close> of the ext4 library. The RAM device interprets
  all of them, and the properties at the end state what the buffer cache and the byte-granular
  operations guarantee on it. The mutex of \<open>Disk\<close> orders calls of different threads; the model is of
  one call after the other.
\<close>

section \<open>The interface and its implementations\<close>

record 'd BlockDevice =
  dev_probe :: "'d \<Rightarrow> (errno \<times> 'd) option"
  dev_flush :: "'d \<Rightarrow> (errno \<times> 'd) option"
  dev_write :: "'d \<Rightarrow> u8 list \<Rightarrow> u64 \<Rightarrow> u64 \<Rightarrow> (errno \<times> 'd) option"
  dev_read :: "'d \<Rightarrow> u64 \<Rightarrow> u64 \<Rightarrow> (errno \<times> u8 list \<times> 'd) option"
  get_sector_size :: "'d \<Rightarrow> errno + u64"
  get_sector_count :: "'d \<Rightarrow> errno + u64"
  get_name :: "'d \<Rightarrow> string"

record RAMBlockDevice =
  total_size :: u64
  initialized :: bool
  memory :: "u8 list"

definition RAMBlockDevice_new :: "u64 \<Rightarrow> RAMBlockDevice" where
  "RAMBlockDevice_new n = \<lparr>total_size = n, initialized = False, memory = replicate (unat n) 0\<rparr>"

definition RAM_probe :: "RAMBlockDevice \<Rightarrow> (errno \<times> RAMBlockDevice) option" where
  "RAM_probe ram = Some (EOK, ram\<lparr>initialized := True\<rparr>)"

definition RAM_flush :: "RAMBlockDevice \<Rightarrow> (errno \<times> RAMBlockDevice) option" where
  "RAM_flush ram = Some (EOK, ram)"

text \<open>The assertion compares pointers into \<open>memory\<close>; the products are of type \<open>size_t\<close> and wrap.\<close>

definition RAM_write :: "RAMBlockDevice \<Rightarrow> u8 list \<Rightarrow> u64 \<Rightarrow> u64 \<Rightarrow> (errno \<times> RAMBlockDevice) option" where
  "RAM_write ram buf lba count = do {
     let dst = unat (lba * 512);
     let to_write = unat (count * 512);
     _ \<leftarrow> ext4_assert (dst + to_write \<le> unat (total_size ram));
     src \<leftarrow> slice_checked 0 to_write buf;
     mem \<leftarrow> memcpy_at (memory ram) dst src;
     Some (EOK, ram\<lparr>memory := mem\<rparr>) }"

definition RAM_read :: "RAMBlockDevice \<Rightarrow> u64 \<Rightarrow> u64 \<Rightarrow> (errno \<times> u8 list \<times> RAMBlockDevice) option" where
  "RAM_read ram lba count = do {
     let src = unat (lba * 512);
     let to_read = unat (count * 512);
     _ \<leftarrow> ext4_assert (src + to_read \<le> unat (total_size ram));
     bytes \<leftarrow> slice_checked src to_read (memory ram);
     Some (EOK, bytes, ram) }"

definition RAM_device :: "RAMBlockDevice BlockDevice" where
  "RAM_device = \<lparr>dev_probe = RAM_probe, dev_flush = RAM_flush, dev_write = RAM_write, dev_read = RAM_read,
     get_sector_size = (\<lambda>ram. Inr 512), get_sector_count = (\<lambda>ram. Inr (total_size ram div 512)),
     get_name = (\<lambda>ram. ''ram0'')\<rparr>"

text \<open>\<open>MBRPartition\<close> (\<open>lib/api/vfs/tools/mbr_partition.hpp\<close>) and \<open>Partition\<close>, which only moves the sectors.\<close>

record MBRPartition =
  physical_number :: u8
  start_sector :: u64
  num_sectors :: u64
  bootable :: bool
  part_type :: u8

fun to_string :: "nat \<Rightarrow> string" where
  "to_string n = (if n < 10 then [char_of (48 + n)]
     else to_string (n div 10) @ to_string (n mod 10))"

declare to_string.simps [simp del]

definition create_partition_name :: "string \<Rightarrow> nat \<Rightarrow> string" where
  "create_partition_name disk index = disk @ ''p'' @ to_string index"

definition translate_sector :: "MBRPartition \<Rightarrow> u64 \<Rightarrow> u64" where
  "translate_sector info sector = sector + start_sector info"

definition Partition_write ::
  "'d BlockDevice \<Rightarrow> MBRPartition \<Rightarrow> 'd \<Rightarrow> u8 list \<Rightarrow> u64 \<Rightarrow> u64 \<Rightarrow> (errno \<times> 'd) option" where
  "Partition_write disk info d buf lba count = dev_write disk d buf (translate_sector info lba) count"

definition Partition_read ::
  "'d BlockDevice \<Rightarrow> MBRPartition \<Rightarrow> 'd \<Rightarrow> u64 \<Rightarrow> u64 \<Rightarrow> (errno \<times> u8 list \<times> 'd) option" where
  "Partition_read disk info d lba count = dev_read disk d (translate_sector info lba) count"

definition Partition_device :: "'d BlockDevice \<Rightarrow> MBRPartition \<Rightarrow> 'd BlockDevice" where
  "Partition_device disk info =
     \<lparr>dev_probe = dev_probe disk, dev_flush = dev_flush disk, dev_write = Partition_write disk info,
      dev_read = Partition_read disk info, get_sector_size = get_sector_size disk,
      get_sector_count = (\<lambda>d. Inr (num_sectors info)),
      get_name = (\<lambda>d. create_partition_name (get_name disk d) (unat (physical_number info)))\<rparr>"

text \<open>\<open>lwext4_handle\<close>: the callbacks pass the sectors on; the constructor dereferences both results.\<close>

definition handle_write :: "'d BlockDevice \<Rightarrow> 'd \<Rightarrow> u8 list \<Rightarrow> u64 \<Rightarrow> u32 \<Rightarrow> (errno \<times> 'd) option" where
  "handle_write device d buf blk_id blk_cnt = dev_write device d buf blk_id (ucast blk_cnt)"

definition handle_read :: "'d BlockDevice \<Rightarrow> 'd \<Rightarrow> u64 \<Rightarrow> u32 \<Rightarrow> (errno \<times> u8 list \<times> 'd) option" where
  "handle_read device d blk_id blk_cnt = dev_read device d blk_id (ucast blk_cnt)"

definition handle_open :: "'d \<Rightarrow> (errno \<times> 'd) option" where
  "handle_open d = Some (EOK, d)"

definition handle_close :: "'d \<Rightarrow> (errno \<times> 'd) option" where
  "handle_close d = Some (EOK, d)"

definition handle_iface :: "'d BlockDevice \<Rightarrow> u64 \<Rightarrow> u64 \<Rightarrow> 'd \<Rightarrow> 'd ext4_blockdev_iface" where
  "handle_iface device sect_size sect_count d =
     \<lparr>bd_open = handle_open, bd_bread = handle_read device, bd_bwrite = handle_write device, bd_close = handle_close,
      bd_lock = None, bd_unlock = None, ph_bsize = ucast sect_size, ph_bcnt = sect_count,
      ph_bbuf = replicate (unat sect_size) 0, ph_refctr = 0, bread_ctr = 0, bwrite_ctr = 0, p_user = d\<rparr>"

text \<open>The zeroed \<open>ext4_blockdev\<close> has no cache yet; \<open>bc\<close> and \<open>ew\<close> stand for what \<open>ext4_block_bind_bcache\<close>
  and the buffers' callbacks are going to be.\<close>

definition lwext4_handle_new :: "'d BlockDevice \<Rightarrow> ext4_bcache \<Rightarrow>
    (ext4_bcache \<Rightarrow> u64 \<Rightarrow> errno \<Rightarrow> u64 \<Rightarrow> ext4_bcache option) \<Rightarrow> 'd \<Rightarrow> 'd ext4_blockdev option" where
  "lwext4_handle_new device bc ew d =
     (case (get_sector_size device d, get_sector_count device d) of
        (Inr sect_size, Inr sect_count) \<Rightarrow>
          Some \<lparr>bdif = handle_iface device sect_size sect_count d, part_offset = 0,
            part_size = sect_size * sect_count, bcache = bc, lg_bsize = 0, lg_bcnt = 0,
            cache_write_back = 0, bc_end_write = ew\<rparr>
      | _ \<Rightarrow> None)"

section \<open>The contract of a sector device\<close>

definition sectors_in_range :: "u64 \<Rightarrow> nat \<Rightarrow> u64 \<Rightarrow> u64 \<Rightarrow> bool" where
  "sectors_in_range ss len lba count = ((unat lba + unat count) * unat ss \<le> len)"

locale sector_device =
  fixes device :: "'d BlockDevice"
    and content :: "'d \<Rightarrow> u8 list"
    and dev_ok :: "'d \<Rightarrow> bool"
    and ss :: u64
  assumes ss_pos: "0 < unat ss" "unat ss < 2 ^ 32"
    and sector_size: "dev_ok d \<Longrightarrow> get_sector_size device d = Inr ss"
    and addressable: "dev_ok d \<Longrightarrow> length (content d) < 2 ^ 64"
    and sector_read: "dev_ok d \<Longrightarrow> sectors_in_range ss (length (content d)) lba count \<Longrightarrow>
      \<exists>r bytes d'. dev_read device d lba count = Some (r, bytes, d') \<and> dev_ok d' \<and> content d' = content d \<and>
        length bytes \<le> unat count * unat ss \<and>
        (r = EOK \<longrightarrow> bytes = slice (unat lba * unat ss) (unat count * unat ss) (content d))"
    and sector_write: "dev_ok d \<Longrightarrow> sectors_in_range ss (length (content d)) lba count \<Longrightarrow>
      unat count * unat ss \<le> length buf \<Longrightarrow>
      \<exists>r d'. dev_write device d buf lba count = Some (r, d') \<and> dev_ok d' \<and> length (content d') = length (content d) \<and>
        (r = EOK \<longrightarrow> content d' = splice (unat lba * unat ss) (take (unat count * unat ss) buf) (content d)) \<and>
        (\<forall>i < length (content d). (i < unat lba * unat ss \<or> (unat lba + unat count) * unat ss \<le> i) \<longrightarrow>
           content d' ! i = content d ! i)"

locale reliable_sector_device = sector_device +
  assumes read_succeeds: "dev_ok d \<Longrightarrow> sectors_in_range ss (length (content d)) lba count \<Longrightarrow>
      dev_read device d lba count = Some (r, bytes, d') \<Longrightarrow> r = EOK"
    and write_succeeds: "dev_ok d \<Longrightarrow> sectors_in_range ss (length (content d)) lba count \<Longrightarrow>
      unat count * unat ss \<le> length buf \<Longrightarrow> dev_write device d buf lba count = Some (r, d') \<Longrightarrow> r = EOK"

lemma handle_bsize: "unat ss < 2 ^ 32 \<Longrightarrow> unat (ucast (ss::u64) :: u32) = unat ss"
  by (simp add: unsigned_ucast_eq take_bit_nat_eq_self_iff)

lemma handle_iface_simps [simp]:
  "bd_bread (handle_iface device ss cnt d) = handle_read device"
  "bd_bwrite (handle_iface device ss cnt d) = handle_write device"
  "bd_lock (handle_iface device ss cnt d) = None" "bd_unlock (handle_iface device ss cnt d) = None"
  "ph_bsize (handle_iface device ss cnt d) = ucast ss" "p_user (handle_iface device ss cnt d) = d"
  by (simp_all add: handle_iface_def)

text \<open>The handle over a sector device is a block driver.\<close>

sublocale sector_device \<subseteq> handle: block_driver "handle_iface device ss cnt d0" content dev_ok for cnt d0
proof
  have pos: "0 < unat (ucast ss :: u32)" using ss_pos by (simp only: handle_bsize)
  then show "ph_bsize (handle_iface device ss cnt d0) \<noteq> 0" by (simp add: unat_gt_0)
  fix d blk and c :: u32
  assume d: "dev_ok d" and "ph_in_range (ph_bsize (handle_iface device ss cnt d0)) (length (content d)) blk c"
  then have rg: "sectors_in_range ss (length (content d)) blk (ucast c)"
    by (simp add: ph_in_range_def sectors_in_range_def handle_bsize [OF ss_pos(2)])
  from sector_read [OF d rg]
  show "\<exists>r bytes d'. bd_bread (handle_iface device ss cnt d0) d blk c = Some (r, bytes, d') \<and> dev_ok d' \<and>
      content d' = content d \<and> length bytes \<le> unat c * unat (ph_bsize (handle_iface device ss cnt d0)) \<and>
      (r = EOK \<longrightarrow> bytes = slice (unat blk * unat (ph_bsize (handle_iface device ss cnt d0)))
         (unat c * unat (ph_bsize (handle_iface device ss cnt d0))) (content d))"
    by (simp add: handle_read_def handle_bsize [OF ss_pos(2)])
  fix buf :: "u8 list"
  assume "unat c * unat (ph_bsize (handle_iface device ss cnt d0)) \<le> length buf"
  then have "unat (ucast c :: u64) * unat ss \<le> length buf" by (simp add: handle_bsize [OF ss_pos(2)])
  from sector_write [OF d rg this]
  show "\<exists>r d'. bd_bwrite (handle_iface device ss cnt d0) d buf blk c = Some (r, d') \<and> dev_ok d' \<and>
      length (content d') = length (content d) \<and>
      (r = EOK \<longrightarrow> content d' = splice (unat blk * unat (ph_bsize (handle_iface device ss cnt d0)))
         (take (unat c * unat (ph_bsize (handle_iface device ss cnt d0))) buf) (content d)) \<and>
      (\<forall>i < length (content d). (i < unat blk * unat (ph_bsize (handle_iface device ss cnt d0)) \<or>
         (unat blk + unat c) * unat (ph_bsize (handle_iface device ss cnt d0)) \<le> i) \<longrightarrow> content d' ! i = content d ! i)"
    by (simp add: handle_write_def handle_bsize [OF ss_pos(2)])
qed simp_all

sublocale reliable_sector_device \<subseteq> handle: reliable_driver "handle_iface device ss cnt d0" content dev_ok for cnt d0
proof
  fix d blk r and c :: u32
  assume d: "dev_ok d" and "ph_in_range (ph_bsize (handle_iface device ss cnt d0)) (length (content d)) blk c"
  then have rg: "sectors_in_range ss (length (content d)) blk (ucast c)"
    by (simp add: ph_in_range_def sectors_in_range_def handle_bsize [OF ss_pos(2)])
  show "r = EOK" if "bd_bread (handle_iface device ss cnt d0) d blk c = Some (r, bytes, d')" for bytes d'
    using read_succeeds [OF d rg] that by (simp add: handle_read_def)
  show "r = EOK" if "unat c * unat (ph_bsize (handle_iface device ss cnt d0)) \<le> length buf"
      "bd_bwrite (handle_iface device ss cnt d0) d buf blk c = Some (r, d')" for buf d'
    using write_succeeds [OF d rg] that by (simp add: handle_write_def handle_bsize [OF ss_pos(2)])
qed

section \<open>Partitions\<close>

definition part_image :: "u64 \<Rightarrow> MBRPartition \<Rightarrow> u8 list \<Rightarrow> u8 list" where
  "part_image ss info img = slice (unat (start_sector info) * unat ss) (unat (num_sectors info) * unat ss) img"

definition part_fits :: "u64 \<Rightarrow> MBRPartition \<Rightarrow> nat \<Rightarrow> bool" where
  "part_fits ss info len = ((unat (start_sector info) + unat (num_sectors info)) * unat ss \<le> len)"

lemma part_translate:
  assumes ss: "0 < unat ss" and fits: "part_fits ss info (length img)" and len: "length img < 2 ^ 64"
    and range: "sectors_in_range ss (length (part_image ss info img)) lba count"
  shows "unat (translate_sector info lba) = unat (start_sector info) + unat lba"
    "unat lba + unat count \<le> unat (num_sectors info)"
    "sectors_in_range ss (length img) (translate_sector info lba) count"
    "length (part_image ss info img) = unat (num_sectors info) * unat ss"
proof -
  show l: "length (part_image ss info img) = unat (num_sectors info) * unat ss"
    using fits by (simp add: part_image_def part_fits_def add_mult_distrib)
  then show c: "unat lba + unat count \<le> unat (num_sectors info)"
    using range ss by (simp add: sectors_in_range_def)
  have "unat (start_sector info) + unat (num_sectors info) \<le>
      (unat (start_sector info) + unat (num_sectors info)) * unat ss"
    using ss mult_le_mono2 [of 1 "unat ss"] by (metis Suc_leI One_nat_def mult_1_right)
  also have "\<dots> \<le> length img" using fits by (simp only: part_fits_def)
  finally have "unat lba + unat (start_sector info) < 2 ^ LENGTH(64)"
    using len c by simp
  then show t: "unat (translate_sector info lba) = unat (start_sector info) + unat lba"
    by (simp add: translate_sector_def)
  have "(unat (start_sector info) + unat lba + unat count) * unat ss \<le>
      (unat (start_sector info) + unat (num_sectors info)) * unat ss"
    using c by (intro mult_le_mono1) simp
  also have "\<dots> \<le> length img" using fits by (simp only: part_fits_def)
  finally show "sectors_in_range ss (length img) (translate_sector info lba) count"
    by (simp only: sectors_in_range_def t)
qed

text \<open>A slice of a buffer after a write inside it, or after changes only inside another range.\<close>

lemma slice_of_splice:
  assumes "p + n \<le> length b" "q + length src \<le> n"
  shows "slice p n (splice (p + q) src b) = splice q src (slice p n b)"
  using assms by (intro nth_equalityI) (auto simp: nth_splice)

lemma slice_unchanged:
  assumes "p + n \<le> length b" "length b' = length b"
    and "\<forall>i < length b. p \<le> i \<and> i < p + n \<longrightarrow> b' ! i = b ! i"
  shows "slice p n b' = slice p n b"
  using assms by (intro nth_equalityI) simp_all

locale partition_on = sector_device +
  fixes info :: MBRPartition

sublocale partition_on \<subseteq> part: sector_device "Partition_device device info" "\<lambda>d. part_image ss info (content d)"
    "\<lambda>d. dev_ok d \<and> part_fits ss info (length (content d))" ss
proof
  show "0 < unat ss" "unat ss < 2 ^ 32" by (rule ss_pos)+
  fix d assume "dev_ok d \<and> part_fits ss info (length (content d))"
  then have d: "dev_ok d" and fits: "part_fits ss info (length (content d))" by simp_all
  show "get_sector_size (Partition_device device info) d = Inr ss"
    using sector_size [OF d] by (simp add: Partition_device_def)
  let ?p = "unat (start_sector info) * unat ss" and ?n = "unat (num_sectors info) * unat ss"
  have pn: "?p + ?n \<le> length (content d)" using fits by (simp add: part_fits_def add_mult_distrib)
  then show "length (part_image ss info (content d)) < 2 ^ 64"
    using addressable [OF d] by (simp add: part_image_def)
  fix lba count
  assume rg: "sectors_in_range ss (length (part_image ss info (content d))) lba count"
  note T = part_translate [OF ss_pos(1) fits addressable [OF d] rg]
  let ?q = "unat lba * unat ss" and ?m = "unat count * unat ss"
  have qm: "?q + ?m \<le> ?n" using T(2) by (simp only: add_mult_distrib [symmetric] mult_le_mono1)
  have tq: "unat (translate_sector info lba) * unat ss = ?p + ?q" by (simp only: T(1) add_mult_distrib)
  obtain r bytes d' where o: "dev_read device d (translate_sector info lba) count = Some (r, bytes, d')" "dev_ok d'"
    "content d' = content d" "length bytes \<le> ?m" "r = EOK \<longrightarrow> bytes = slice (?p + ?q) ?m (content d)"
    using sector_read [OF d T(3)] by (auto simp: tq)
  have sl: "slice (?p + ?q) ?m (content d) = slice ?q ?m (slice ?p ?n (content d))"
    using pn qm by (intro nth_equalityI) (simp_all add: add.assoc)
  show "\<exists>r bytes d'. dev_read (Partition_device device info) d lba count = Some (r, bytes, d') \<and>
      (dev_ok d' \<and> part_fits ss info (length (content d'))) \<and> part_image ss info (content d') = part_image ss info (content d) \<and>
      length bytes \<le> ?m \<and> (r = EOK \<longrightarrow> bytes = slice ?q ?m (part_image ss info (content d)))"
    using o fits by (simp add: Partition_device_def Partition_read_def part_image_def sl)
  fix buf :: "u8 list" assume buf: "?m \<le> length buf"
  obtain r d' where w: "dev_write device d buf (translate_sector info lba) count = Some (r, d')" "dev_ok d'"
    "length (content d') = length (content d)" "r = EOK \<longrightarrow> content d' = splice (?p + ?q) (take ?m buf) (content d)"
    "\<forall>i < length (content d). (i < ?p + ?q \<or> ?p + ?q + ?m \<le> i) \<longrightarrow> content d' ! i = content d ! i"
    using sector_write [OF d T(3) buf] by (auto simp: tq add_mult_distrib)
  have sp: "slice ?p ?n (splice (?p + ?q) (take ?m buf) (content d)) = splice ?q (take ?m buf) (slice ?p ?n (content d))"
    by (rule slice_of_splice) (use pn qm buf in simp_all)
  have el: "part_image ss info (content d') ! i = part_image ss info (content d) ! i"
    if "i < length (part_image ss info (content d))" "i < ?q \<or> ?q + ?m \<le> i" for i
    using that w(3,5) pn T(4) by (auto simp: part_image_def)
  show "\<exists>r d'. dev_write (Partition_device device info) d buf lba count = Some (r, d') \<and>
      (dev_ok d' \<and> part_fits ss info (length (content d'))) \<and>
      length (part_image ss info (content d')) = length (part_image ss info (content d)) \<and>
      (r = EOK \<longrightarrow> part_image ss info (content d') = splice ?q (take ?m buf) (part_image ss info (content d))) \<and>
      (\<forall>i < length (part_image ss info (content d)). (i < ?q \<or> (unat lba + unat count) * unat ss \<le> i) \<longrightarrow>
         part_image ss info (content d') ! i = part_image ss info (content d) ! i)"
    by (intro exI [of _ r] exI [of _ d'])
      (use w fits el pn sp in \<open>auto simp: Partition_device_def Partition_write_def part_image_def add_mult_distrib\<close>)
qed

context partition_on
begin

text \<open>A write through a partition reaches no sector outside it.\<close>

lemma partition_write_inside:
  assumes d: "dev_ok d" and fits: "part_fits ss info (length (content d))"
    and rg: "sectors_in_range ss (length (part_image ss info (content d))) lba count"
    and buf: "unat count * unat ss \<le> length buf"
    and other: "part_fits ss other (length (content d))"
      "unat (start_sector other) + unat (num_sectors other) \<le> unat (start_sector info) \<or>
       unat (start_sector info) + unat (num_sectors info) \<le> unat (start_sector other)"
    and w: "Partition_write device info d buf lba count = Some (r, d')"
  shows "part_image ss other (content d') = part_image ss other (content d)"
proof -
  note T = part_translate [OF ss_pos(1) fits addressable [OF d] rg]
  have w': "dev_write device d buf (translate_sector info lba) count = Some (r, d')"
    using w by (simp add: Partition_write_def)
  have W: "length (content d') = length (content d)"
    "\<forall>i < length (content d). (i < (unat (start_sector info) + unat lba) * unat ss \<or>
       (unat (start_sector info) + unat lba + unat count) * unat ss \<le> i) \<longrightarrow> content d' ! i = content d ! i"
    using sector_write [OF d T(3) buf] w' by (auto simp: T(1))
  show ?thesis unfolding part_image_def
  proof (rule slice_unchanged)
    show "unat (start_sector other) * unat ss + unat (num_sectors other) * unat ss \<le> length (content d)"
      using other(1) by (simp add: part_fits_def add_mult_distrib)
    show "length (content d') = length (content d)" by (rule W(1))
    have lo: "i < (unat (start_sector info) + unat lba) * unat ss"
      if "unat (start_sector other) + unat (num_sectors other) \<le> unat (start_sector info)"
        "i < (unat (start_sector other) + unat (num_sectors other)) * unat ss" for i
      using that(2) mult_le_mono1 [of "unat (start_sector other) + unat (num_sectors other)"
        "unat (start_sector info) + unat lba" "unat ss"] that(1) by linarith
    have hi: "(unat (start_sector info) + unat lba + unat count) * unat ss \<le> i"
      if "unat (start_sector info) + unat (num_sectors info) \<le> unat (start_sector other)"
        "unat (start_sector other) * unat ss \<le> i" for i
      using that(2) mult_le_mono1 [of "unat (start_sector info) + unat lba + unat count"
        "unat (start_sector other)" "unat ss"] that(1) T(2) by linarith
    show "\<forall>i < length (content d). unat (start_sector other) * unat ss \<le> i \<and>
        i < unat (start_sector other) * unat ss + unat (num_sectors other) * unat ss \<longrightarrow> content d' ! i = content d ! i"
      using other(2) lo hi W(2) by (metis add_mult_distrib)
  qed
qed

end

section \<open>The RAM device\<close>

definition ram_ok :: "RAMBlockDevice \<Rightarrow> bool" where
  "ram_ok ram = (length (memory ram) = unat (total_size ram))"

lemma ram_byte_offset:
  assumes "sectors_in_range 512 len lba count" "len < 2 ^ 64"
  shows "unat (lba * 512) = unat lba * 512" "unat (count * 512) = unat count * 512"
    "unat lba * 512 + unat count * 512 \<le> len"
proof -
  show "unat lba * 512 + unat count * 512 \<le> len" using assms(1) by (simp add: sectors_in_range_def add_mult_distrib)
  then have "unat lba * unat (512::u64) < 2 ^ LENGTH(64)" "unat count * unat (512::u64) < 2 ^ LENGTH(64)"
    using assms(2) by simp_all
  from this [THEN unat_mult_nowrap]
  show "unat (lba * 512) = unat lba * 512" "unat (count * 512) = unat count * 512" by simp_all
qed

interpretation ram: reliable_sector_device RAM_device memory ram_ok 512
proof
  fix d assume d: "ram_ok d"
  show "get_sector_size RAM_device d = Inr 512" by (simp add: RAM_device_def)
  show l: "length (memory d) < 2 ^ 64" using d unat_below [of "total_size d"] by (simp add: ram_ok_def)
  fix lba count assume rg: "sectors_in_range 512 (length (memory d)) lba count"
  note O = ram_byte_offset [OF rg l]
  have rd: "dev_read RAM_device d lba count = Some (EOK, slice (unat lba * 512) (unat count * 512) (memory d), d)"
    using d O by (simp add: RAM_device_def RAM_read_def ram_ok_def)
  then show "\<exists>r bytes d'. dev_read RAM_device d lba count = Some (r, bytes, d') \<and> ram_ok d' \<and> memory d' = memory d \<and>
      length bytes \<le> unat count * unat (512::u64) \<and>
      (r = EOK \<longrightarrow> bytes = slice (unat lba * unat (512::u64)) (unat count * unat (512::u64)) (memory d))"
    using d O(3) by simp
  show "r = EOK" if "dev_read RAM_device d lba count = Some (r, bytes, d')" for r bytes d'
    using that rd by simp
  fix buf :: "u8 list" assume buf: "unat count * unat (512::u64) \<le> length buf"
  let ?d = "d\<lparr>memory := splice (unat lba * 512) (take (unat count * 512) buf) (memory d)\<rparr>"
  have wr: "dev_write RAM_device d buf lba count = Some (EOK, ?d)"
    using d O buf by (simp add: RAM_device_def RAM_write_def ram_ok_def slice_def)
  then show "\<exists>r d'. dev_write RAM_device d buf lba count = Some (r, d') \<and> ram_ok d' \<and>
      length (memory d') = length (memory d) \<and>
      (r = EOK \<longrightarrow> memory d' = splice (unat lba * unat (512::u64)) (take (unat count * unat (512::u64)) buf) (memory d)) \<and>
      (\<forall>i < length (memory d). (i < unat lba * unat (512::u64) \<or> (unat lba + unat count) * unat (512::u64) \<le> i) \<longrightarrow>
         memory d' ! i = memory d ! i)"
    using d O(3) buf by (auto simp: ram_ok_def nth_splice)
  show "r = EOK" if "dev_write RAM_device d buf lba count = Some (r, d')" for r d'
    using that wr by simp
qed simp_all

interpretation ram_part: partition_on RAM_device memory ram_ok 512 info for info
  by (unfold_locales)

section \<open>What the block layer guarantees on the RAM device\<close>

abbreviation (input) ram_iface :: "RAMBlockDevice ext4_blockdev_iface" where
  "ram_iface \<equiv> handle_iface RAM_device 512 0 (RAMBlockDevice_new 0)"

lemma ram_bsize: "unat (ph_bsize ram_iface) = 512" "unat (ph_bsize ram_iface) = 2 ^ 9"
  by simp_all

text \<open>The calls that bring a device up: the handle, \<open>ext4_block_init\<close>, the cache and its block size.\<close>

definition ram_bring_up :: "u64 \<Rightarrow> u32 \<Rightarrow> u32 \<Rightarrow> ext4_bcache \<Rightarrow>
    (ext4_bcache \<Rightarrow> u64 \<Rightarrow> errno \<Rightarrow> u64 \<Rightarrow> ext4_bcache option) \<Rightarrow> RAMBlockDevice ext4_blockdev option" where
  "ram_bring_up nbytes lb_size cnt bc ew = do {
     bdev \<leftarrow> lwext4_handle_new RAM_device bc ew (RAMBlockDevice_new nbytes);
     (r, bdev) \<leftarrow> ext4_block_init bdev;
     bdev \<leftarrow> ext4_block_set_lb_size bdev lb_size;
     (r, bc) \<leftarrow> ext4_bcache_init_dynamic bc cnt lb_size;
     let (r, bdev) = ext4_block_bind_bcache bdev bc;
     Some bdev }"

lemma ram_bring_up_eq:
  assumes "lb_size \<noteq> 0" "lb_size mod 512 = 0" "cnt \<noteq> 0"
  shows "ram_bring_up nbytes lb_size cnt bc ew = Some
    \<lparr>bdif = (handle_iface RAM_device 512 (nbytes div 512) (RAMBlockDevice_new nbytes))\<lparr>ph_refctr := 1\<rparr>, part_offset = 0,
     part_size = 512 * (nbytes div 512),
     bcache = bc\<lparr>bc_cnt := cnt, itemsize := lb_size, lru_ctr := 0, ref_blocks := 0, max_ref_blocks := 0,
       dont_shake := False, bufs := Map.empty, lba_root := [], lru_root := [], dirty_list := []\<rparr>,
     lg_bsize = lb_size, lg_bcnt = (512 * (nbytes div 512)) div ucast lb_size, cache_write_back = 0, bc_end_write = ew\<rparr>"
  using assms
  by (simp add: ram_bring_up_def lwext4_handle_new_def RAM_device_def RAMBlockDevice_new_def ext4_block_init_def
      handle_iface_def handle_open_def ext4_block_set_lb_size_def ext4_bcache_init_dynamic_def ext4_block_bind_bcache_def)

text \<open>Bringing up a RAM disk of any size, with any block size that is a multiple of the sector size,
  succeeds and establishes the invariants of device and cache that every block operation relies on:
  the geometry fits the disk, the driver is the disk, and the cache is empty and agrees with it.\<close>

theorem ram_bring_up_establishes:
  assumes "lb_size \<noteq> 0" "lb_size mod 512 = 0" "cnt \<noteq> 0"
  shows "\<exists>bdev. ram_bring_up nbytes lb_size cnt bc ew = Some bdev \<and>
    bdev_ok ram_iface memory ram_ok bdev \<and> cache_ok memory bdev \<and> ph_refctr (bdif bdev) \<noteq> 0 \<and>
    lg_bsize bdev = lb_size \<and> (\<forall>lba. refs_left (bcache bdev) lba)"
proof -
  have "unat lb_size mod unat (512::u32) = 0" using assms(2) by (metis unat_mod unsigned_0)
  then have dvd: "512 dvd unat lb_size" by (simp add: dvd_eq_mod_eq_0)
  have "unat (512 * (nbytes div 512)) = 512 * (unat nbytes div 512)"
  proof -
    have "512 * (unat nbytes div 512) \<le> unat nbytes" by simp
    then have "unat (512::u64) * unat (nbytes div 512) < 2 ^ LENGTH(64)"
      using unat_below [of nbytes] by (simp add: unat_div)
    from unat_mult_nowrap [OF this] show ?thesis by (simp add: unat_div)
  qed
  moreover have "(unat (512 * (nbytes div 512)) div unat lb_size) * unat lb_size \<le> unat (512 * (nbytes div 512))"
    by (rule div_times_less_eq_dividend)
  moreover have "unat nbytes < 2 ^ 64" using unat_below [of nbytes] by simp
  moreover have "512 * (unat nbytes div 512) \<le> unat nbytes" by simp
  ultimately show ?thesis
    unfolding ram_bring_up_eq [OF assms]
    using assms dvd
    by (simp add: bdev_ok_def bound_driver_def handle_iface_def ram_ok_def RAMBlockDevice_new_def geometry_ok_def
        dev_image_def cache_ok_def bcache_wf_def wf_lba_def wf_lru_def wf_dirty_def unat_div refs_left_def lru_left_def)
qed

theorem ram_bring_up_establishes_witness:
  "\<exists>bdev. ram_bring_up 8192 1024 8 (sample_bc 0 0) (\<lambda>_ _ _ _. None) = Some bdev \<and>
    bdev_ok ram_iface memory ram_ok bdev \<and> cache_ok memory bdev"
  using ram_bring_up_establishes [of 1024 8 8192 "sample_bc 0 0" "\<lambda>_ _ _ _. None"] by auto

text \<open>A small brought-up disk for the witnesses: 8 blocks of 1024 bytes.\<close>

definition sample_bdev :: "RAMBlockDevice ext4_blockdev" where
  "sample_bdev = \<lparr>bdif = (handle_iface RAM_device 512 16 (RAMBlockDevice_new 8192))\<lparr>ph_refctr := 1\<rparr>,
     part_offset = 0, part_size = 8192, bcache = sample_bc 8 1024, lg_bsize = 1024, lg_bcnt = 8,
     cache_write_back = 0, bc_end_write = \<lambda>_ _ _ _. None\<rparr>"

lemma sample_bdev_ok:
  "bdev_ok ram_iface memory ram_ok sample_bdev" "cache_ok memory sample_bdev"
  "ph_refctr (bdif sample_bdev) \<noteq> 0" "refs_left (bcache sample_bdev) lba" "mallocs_succeed (bcache sample_bdev)"
  "lg_bcnt sample_bdev = 8" "lg_bsize sample_bdev = 1024" "part_size sample_bdev = 8192" "part_offset sample_bdev = 0"
  "length (dev_image memory sample_bdev) = 8192"
  by (simp_all add: sample_bdev_def bdev_ok_def bound_driver_def handle_iface_def ram_ok_def RAMBlockDevice_new_def
      geometry_ok_def dev_image_def cache_ok_def bcache_wf_def wf_lba_def wf_lru_def wf_dirty_def sample_bc_def
      refs_left_def lru_left_def mallocs_succeed_def)

text \<open>Getting a block of a RAM disk succeeds and hands out a referenced, valid buffer whose bytes are
  what the block reads as (the cached copy where there is one, the disk otherwise). The operation is
  transparent: whatever it evicts to make room, no block reads differently afterwards, and no block
  another caller holds is touched.\<close>

theorem ram_block_get:
  assumes "bdev_ok ram_iface memory ram_ok bdev" "cache_ok memory bdev" "ph_refctr (bdif bdev) \<noteq> 0"
    and "lba < lg_bcnt bdev" "lba \<noteq> 0" "refs_left (bcache bdev) lba" "mallocs_succeed (bcache bdev)"
  shows "\<exists>b' bdev' buf. ext4_block_get bdev b lba = Some (EOK, b', bdev') \<and>
    transparent ram_iface memory ram_ok bdev bdev' \<and> others_kept lba (bcache bdev) (bcache bdev') \<and>
    holds_block bdev' b' lba \<and> bufs (bcache bdev') lba = Some buf \<and>
    ext4_bcache_test_flag buf BC_UPTODATE \<and> buf_data buf = view memory bdev lba"
proof -
  obtain r b' bdev' where g: "ext4_block_get bdev b lba = Some (r, b', bdev')"
    "transparent ram_iface memory ram_ok bdev bdev'" "others_kept lba (bcache bdev) (bcache bdev')"
    "r = EOK \<longrightarrow> holds_block bdev' b' lba \<and> (\<exists>buf. bufs (bcache bdev') lba = Some buf \<and>
       ext4_bcache_test_flag buf BC_UPTODATE \<and> buf_data buf = view memory bdev lba)"
    by (rule ram.handle.block_get_ok [OF assms(1,2,4,5,3,6)])
  have "r = EOK" by (rule ram.handle.block_get_eok [OF assms(1,2,4,3,6,7) g(1)])
  with g show ?thesis by blast
qed

theorem ram_block_get_witness:
  "\<exists>b' bdev' buf. ext4_block_get sample_bdev \<lparr>lb_id = 0, blk_buf = None, blk_data = None\<rparr> 5 = Some (EOK, b', bdev') \<and>
    bufs (bcache bdev') 5 = Some buf \<and> buf_data buf = view memory sample_bdev 5"
  using ram_block_get [OF sample_bdev_ok(1-3) _ _ sample_bdev_ok(4,5), of 5 "\<lparr>lb_id = 0, blk_buf = None, blk_data = None\<rparr>"]
  by (auto simp: sample_bdev_ok)

text \<open>C37: Data stored into a held block of a RAM disk is durable: after the block is given back
  (\<open>ext4_block_set\<close>) and the cache is cleaned up, the disk itself holds the stored bytes, every other block of
  the disk is what it read as before, and the cache is empty. This holds in write-back mode as in write-through
  mode, for every block but block 0 whose buffer is not temporary (\<open>BC_TMP\<close>), in a cache of an open device in
  which no buffer has an end-of-write callback.\<close>

theorem ram_store_durable:
  assumes ok: "bdev_ok ram_iface memory ram_ok bdev" and c: "cache_ok memory bdev"
    and ph: "ph_refctr (bdif bdev) \<noteq> 0" and h: "holds_block bdev b lba" and lba: "lba \<noteq> 0"
    and tmp: "\<forall>buf. bufs (bcache bdev) lba = Some buf \<longrightarrow> \<not> ext4_bcache_test_flag buf BC_TMP"
    and dat: "length dat = unat (lg_bsize bdev)"
  shows "\<exists>b' bdev1 bdev'. ext4_block_set (block_store bdev lba dat) b = Some (EOK, b', bdev1) \<and>
    ext4_bcache_cleanup bdev1 = Some bdev' \<and> bufs (bcache bdev') = Map.empty \<and>
    (\<forall>l < lg_bcnt bdev. dev_block memory bdev' l = (if l = lba then dat else view memory bdev l))"
proof -
  obtain buf where buf: "bufs (bcache bdev) lba = Some buf" "refctr buf \<noteq> 0" using h by (auto simp: holds_block_def)
  let ?s = "block_store bdev lba dat"
  note S = block_store_ok [OF ok c buf dat]
  have s: "bufs (bcache ?s) lba = Some (ext4_bcache_set_dirty (buf\<lparr>buf_data := dat\<rparr>))"
    using buf(1) by (simp add: block_store_def)
  have h': "holds_block ?s b lba"
    using h buf s by (simp add: holds_block_def ext4_bcache_set_dirty_def)
  have ph': "ph_refctr (bdif ?s) \<noteq> 0" and n: "lg_bcnt ?s = lg_bcnt bdev" using ph S(3) by (simp_all add: same_device_def)
  have tmp': "\<forall>buf. bufs (bcache ?s) lba = Some buf \<and> ext4_bcache_test_flag buf BC_UPTODATE \<longrightarrow>
      \<not> ext4_bcache_test_flag buf BC_TMP"
    using tmp buf(1) s by (auto simp: ext4_bcache_set_dirty_def)
  obtain b' bdev1 where f: "ext4_block_set ?s b = Some (EOK, b', bdev1)" "lb_id b' = 0"
    "transparent ram_iface memory ram_ok ?s bdev1" "others_kept lba (bcache ?s) (bcache bdev1)"
    by (rule ram.handle.block_set_ok [OF S(1,2) h' lba ph' tmp'])
  note T = transparent_ok [OF f(3)]
  obtain bdev' where c': "ext4_bcache_cleanup bdev1 = Some bdev'" "bufs (bcache bdev') = Map.empty"
    "\<forall>l < lg_bcnt bdev1. dev_block memory bdev' l = view memory bdev1 l"
    using ram.handle.cleanup_ok [OF T(1,2)] by blast
  have "dev_block memory bdev' l = (if l = lba then dat else view memory bdev l)" if "l < lg_bcnt bdev" for l
    using c'(3) T(4,8) n that S(4) [of l] by simp
  with f(1) c'(1,2) show ?thesis by blast
qed

text \<open>Flushing the cache ends and, on a RAM disk, succeeds: no block waits to be written any more, and
  nothing reads differently.\<close>

theorem ram_cache_flush:
  assumes "bdev_ok ram_iface memory ram_ok bdev" "cache_ok memory bdev"
  shows "\<exists>bdev'. ext4_block_cache_flush bdev = Some (EOK, bdev') \<and> dirty_list (bcache bdev') = [] \<and>
    transparent ram_iface memory ram_ok bdev bdev'"
  using ram.handle.cache_flush_ok [OF assms] ram.handle.cache_flush_eok [OF assms] by blast

theorem ram_cache_flush_witness:
  "\<exists>bdev'. ext4_block_cache_flush sample_bdev = Some (EOK, bdev') \<and> dirty_list (bcache bdev') = []"
  using ram_cache_flush [OF sample_bdev_ok(1,2)] by blast

text \<open>A byte-granular write succeeds for every offset and length in the partition, aligned or not, and
  changes exactly the addressed bytes of the disk; a range beyond the partition is refused with
  \<open>EINVAL\<close> and changes nothing.\<close>

theorem ram_writebytes:
  assumes ok: "bdev_ok ram_iface memory ram_ok bdev" and ph: "ph_refctr (bdif bdev) \<noteq> 0"
    and dvd: "512 dvd length (dev_image memory bdev)" and buf: "length buf = unat len"
  shows "(unat off + unat len \<le> unat (part_size bdev) \<longrightarrow>
      (\<exists>bdev'. ext4_block_writebytes bdev off buf len = Some (EOK, bdev') \<and>
        bdev_ok ram_iface memory ram_ok bdev' \<and> bcache bdev' = bcache bdev \<and>
        dev_image memory bdev' = splice (unat (part_offset bdev) + unat off) buf (dev_image memory bdev))) \<and>
    (part_size bdev < off + ucast len \<longrightarrow> ext4_block_writebytes bdev off buf len = Some (EINVAL, bdev))"
proof (intro conjI impI)
  assume off: "unat off + unat len \<le> unat (part_size bdev)"
  have d: "unat (ph_bsize ram_iface) dvd length (dev_image memory bdev)" using dvd by (simp only: ram_bsize(1))
  obtain r bdev' where w: "ext4_block_writebytes bdev off buf len = Some (r, bdev')"
    "same_device bdev bdev'" "bcache bdev' = bcache bdev"
    "r = EOK \<longrightarrow> bytes_written ram_iface memory ram_ok bdev (unat (part_offset bdev) + unat off) buf (unat len) bdev'"
    "never_fails ram_iface memory ram_ok \<longrightarrow> r = EOK"
    by (rule ram.handle.writebytes_ok [OF ok ram_bsize(2) ph off buf d])
  have "never_fails ram_iface memory ram_ok" by (rule never_failsI) unfold_locales
  with w show "\<exists>bdev'. ext4_block_writebytes bdev off buf len = Some (EOK, bdev') \<and>
        bdev_ok ram_iface memory ram_ok bdev' \<and> bcache bdev' = bcache bdev \<and>
        dev_image memory bdev' = splice (unat (part_offset bdev) + unat off) buf (dev_image memory bdev)"
    using buf by (simp add: bytes_written_def)
next
  assume "part_size bdev < off + ucast len"
  then show "ext4_block_writebytes bdev off buf len = Some (EINVAL, bdev)"
    using ph by (simp add: ext4_block_writebytes_def)
qed

theorem ram_writebytes_witness:
  "\<exists>bdev'. ext4_block_writebytes sample_bdev 1000 (replicate 1100 7) 1100 = Some (EOK, bdev') \<and>
    dev_image memory bdev' = splice 1000 (replicate 1100 7) (dev_image memory sample_bdev)"
  using ram_writebytes [OF sample_bdev_ok(1,3), of "replicate 1100 7" 1100 1000] by (auto simp: sample_bdev_ok)

text \<open>What a byte-granular write stored, a read of the same range delivers, whatever the alignment and
  length, and without changing the disk.\<close>

theorem ram_write_then_read:
  assumes ok: "bdev_ok ram_iface memory ram_ok bdev" and ph: "ph_refctr (bdif bdev) \<noteq> 0"
    and dvd: "512 dvd length (dev_image memory bdev)" and buf: "length buf = unat len" "length out = unat len"
    and off: "unat off + unat len \<le> unat (part_size bdev)"
  shows "\<exists>bdev1 bdev2. ext4_block_writebytes bdev off buf len = Some (EOK, bdev1) \<and>
    ext4_block_readbytes bdev1 off out len = Some (EOK, buf, bdev2) \<and>
    dev_image memory bdev2 = dev_image memory bdev1"
proof -
  have d: "unat (ph_bsize ram_iface) dvd length (dev_image memory bdev)" using dvd by (simp only: ram_bsize(1))
  have nf: "never_fails ram_iface memory ram_ok" by (rule never_failsI) unfold_locales
  obtain r1 bdev1 where w: "ext4_block_writebytes bdev off buf len = Some (r1, bdev1)"
    "same_device bdev bdev1" "bcache bdev1 = bcache bdev"
    "r1 = EOK \<longrightarrow> bytes_written ram_iface memory ram_ok bdev (unat (part_offset bdev) + unat off) buf (unat len) bdev1"
    "never_fails ram_iface memory ram_ok \<longrightarrow> r1 = EOK"
    by (rule ram.handle.writebytes_ok [OF ok ram_bsize(2) ph off buf(1) d])
  have r1: "r1 = EOK" using w(5) nf by simp
  let ?start = "unat (part_offset bdev) + unat off"
  have b1: "bdev_ok ram_iface memory ram_ok bdev1" "dev_image memory bdev1 = splice ?start buf (dev_image memory bdev)"
    using w(4) r1 buf(1) by (simp_all add: bytes_written_def)
  have fit: "?start + length buf \<le> length (dev_image memory bdev)"
    using ok off buf(1) by (simp add: bdev_ok_def geometry_ok_def)
  have sd: "part_offset bdev1 = part_offset bdev" "part_size bdev1 = part_size bdev" "ph_refctr (bdif bdev1) \<noteq> 0"
    using w(2) ph by (simp_all add: same_device_def)
  have d1: "unat (ph_bsize ram_iface) dvd length (dev_image memory bdev1)" using d fit b1(2) by simp
  have off1: "unat off + unat len \<le> unat (part_size bdev1)" using off sd(2) by simp
  obtain r2 bdev2 out2 where rd: "ext4_block_readbytes bdev1 off out len = Some (r2, out2, bdev2)"
    "same_device bdev1 bdev2" "bcache bdev2 = bcache bdev1"
    "r2 = EOK \<longrightarrow> bytes_read ram_iface memory ram_ok bdev1 (unat (part_offset bdev1) + unat off) out (unat len) bdev2 out2"
    "never_fails ram_iface memory ram_ok \<longrightarrow> r2 = EOK"
    by (rule ram.handle.readbytes_ok [OF b1(1) ram_bsize(2) sd(3) off1 buf(2) d1])
  have r2: "r2 = EOK" using rd(5) nf by simp
  have "out2 = splice 0 (slice ?start (unat len) (splice ?start buf (dev_image memory bdev))) out"
    "dev_image memory bdev2 = dev_image memory bdev1"
    using rd(4) r2 b1(2) sd(1) by (simp_all add: bytes_read_def)
  moreover have "slice ?start (unat len) (splice ?start buf (dev_image memory bdev)) = buf"
    by (rule slice_splice_same [OF fit]) (simp add: buf(1))
  ultimately show ?thesis using w(1) r1 rd(1) r2 buf by simp
qed

theorem ram_write_then_read_witness:
  "\<exists>bdev1 bdev2. ext4_block_writebytes sample_bdev 700 (replicate 1500 9) 1500 = Some (EOK, bdev1) \<and>
    ext4_block_readbytes bdev1 700 (replicate 1500 0) 1500 = Some (EOK, replicate 1500 9, bdev2)"
  using ram_write_then_read [OF sample_bdev_ok(1,3), of "replicate 1500 9" 1500 "replicate 1500 0" 700]
  by (auto simp: sample_bdev_ok)

text \<open>A block of the sample disk held by its only user.\<close>

definition sample_held :: "RAMBlockDevice ext4_blockdev" where
  "sample_held = sample_bdev\<lparr>bcache := bcache_inserted (sample_bc 8 1024) 5 (\<lambda>_. 0)\<rparr>"

definition sample_block :: ext4_block where
  "sample_block = \<lparr>lb_id = 5, blk_buf = Some 5, blk_data = Some 5\<rparr>"

lemma sample_held_ok:
  "bdev_ok ram_iface memory ram_ok sample_held" "cache_ok memory sample_held"
  "holds_block sample_held sample_block 5" "ph_refctr (bdif sample_held) \<noteq> 0"
  "\<forall>buf. bufs (bcache sample_held) 5 = Some buf \<longrightarrow> \<not> ext4_bcache_test_flag buf BC_TMP"
proof -
  have l: "bufs (bcache sample_bdev) 5 = None" "5 < lg_bcnt sample_bdev" "lru_left (bcache sample_bdev)"
    by (simp_all add: sample_bdev_def sample_bc_def lru_left_def)
  have e: "sample_held = sample_bdev\<lparr>bcache := bcache_inserted (bcache sample_bdev) 5 (\<lambda>_. 0)\<rparr>"
    by (simp add: sample_held_def sample_bdev_def)
  note t = transparent_inserted [OF sample_bdev_ok(1,2) l, where junk = "\<lambda>_. 0", folded e]
  show "bdev_ok ram_iface memory ram_ok sample_held" "cache_ok memory sample_held" using transparent_ok(1,2) [OF t] by simp_all
  show "holds_block sample_held sample_block 5" "ph_refctr (bdif sample_held) \<noteq> 0"
    by (simp_all add: sample_held_def sample_bdev_def sample_block_def holds_block_def bcache_inserted_def fresh_buf_def)
  show "\<forall>buf. bufs (bcache sample_held) 5 = Some buf \<longrightarrow> \<not> ext4_bcache_test_flag buf BC_TMP"
    by (simp add: sample_held_def bcache_inserted_def fresh_buf_def ext4_bcache_test_flag_def)
qed

theorem ram_store_durable_witness:
  "\<exists>b' bdev1 bdev'. ext4_block_set (block_store sample_held 5 (replicate 1024 3)) sample_block = Some (EOK, b', bdev1) \<and>
    ext4_bcache_cleanup bdev1 = Some bdev' \<and> dev_block memory bdev' 5 = replicate 1024 3"
proof -
  have "lg_bsize sample_held = 1024" "lg_bcnt sample_held = 8" by (simp_all add: sample_held_def sample_bdev_def)
  then show ?thesis
    using ram_store_durable [OF sample_held_ok(1,2,4,3) _ sample_held_ok(5), of "replicate 1024 3"] by auto
qed

text \<open>A driver error at the last release of a dirty block is lost. With a driver whose writes fail,
  \<open>ext4_block_set\<close> (through \<open>ext4_bcache_free\<close>, which ignores the result of \<open>ext4_block_flush_buf\<close>) still
  returns \<open>EOK\<close>, the buffer stays dirty without being queued as dirty, and a later flush of the whole
  cache reports success too, with the data still not on the device.\<close>

theorem ext4_block_set_hides_write_error:
  assumes wf: "bcache_wf (bcache bdev)" and buf: "bufs (bcache bdev) lba = Some buf" "refctr buf = 1"
    "ext4_bcache_test_flag buf BC_DIRTY" "ext4_bcache_test_flag buf BC_UPTODATE"
    "\<not> ext4_bcache_test_flag buf BC_TMP" "end_write buf = None"
    and b: "lb_id b = lba" "blk_buf b = Some lba" "lba \<noteq> 0" and empty: "dirty_list (bcache bdev) = []"
    and mode: "cache_write_back bdev = 0" "ph_refctr (bdif bdev) \<noteq> 0" "ph_bsize (bdif bdev) \<noteq> 0"
    and driver: "bd_lock (bdif bdev) = None" "bd_unlock (bdif bdev) = None"
      "bd_bwrite (bdif bdev) = (\<lambda>d dat blk cnt. Some (EIO, d))"
  shows "\<exists>b' bdev' buf'. ext4_block_set bdev b = Some (EOK, b', bdev') \<and>
    p_user (bdif bdev') = p_user (bdif bdev) \<and> bufs (bcache bdev') lba = Some buf' \<and>
    refctr buf' = 0 \<and> ext4_bcache_test_flag buf' BC_DIRTY \<and> ext4_block_cache_flush bdev' = Some (EOK, bdev')"
proof -
  let ?b1 = "bdev\<lparr>bcache := bcache_unreferenced (bcache bdev) lba buf\<rparr>"
  let ?b2 = "?b1\<lparr>bdif := (bdif bdev)\<lparr>bwrite_ctr := bwrite_ctr (bdif bdev) + 1\<rparr>\<rparr>"
  let ?buf = "ext4_bcache_clear_flag (buf\<lparr>refctr := 0\<rparr>) BC_FLUSH"
  let ?b3 = "?b2\<lparr>bcache := put_buf (bcache ?b2) lba ?buf\<rparr>"
  have u: "bufs (bcache ?b1) lba = Some (buf\<lparr>refctr := 0\<rparr>)" "dirty_list (bcache ?b1) = []"
    using empty by (simp_all add: bcache_unreferenced_def)
  have id: "(bdif bdev)\<lparr>p_user := p_user (bdif bdev), bwrite_ctr := c\<rparr> = (bdif bdev)\<lparr>bwrite_ctr := c\<rparr>" for c by simp
  have fl: "ext4_block_flush_buf ?b1 lba = Some (EIO, ?b2)"
    using u(1) buf mode(3) driver
    by (simp add: ext4_block_flush_buf_def ext4_blocks_set_direct_def ext4_bdif_bwrite_def ext4_bdif_lock_def
        ext4_bdif_unlock_def call_end_write_def Let_def)
  have rel: "release_dirty ?b1 lba (buf\<lparr>refctr := 0\<rparr>) = Some ?b3"
    using buf mode(1) fl u(1) by (simp add: release_dirty_def)
  have drp: "release_drop ?b3 lba = Some ?b3" using buf by (simp add: release_drop_def)
  have set: "ext4_block_set bdev b = Some (EOK, b\<lparr>lb_id := 0, blk_data := None\<rparr>, ?b3)"
    using b mode(2) buf rel drp
    by (simp add: ext4_block_set_def ext4_bcache_free_eq [of b lba bdev buf])
  have "ext4_block_cache_flush ?b3 = Some (EOK, ?b3)"
    using u(2) by (simp add: ext4_block_cache_flush.simps)
  with set buf show ?thesis
    by (intro exI [of _ "b\<lparr>lb_id := 0, blk_data := None\<rparr>"] exI [of _ ?b3] exI [of _ ?buf]) simp
qed

definition sample_failing :: "RAMBlockDevice ext4_blockdev" where
  "sample_failing = (block_store sample_held 5 (replicate 1024 3))
     \<lparr>bdif := (bdif sample_held)\<lparr>bd_bwrite := \<lambda>d dat blk cnt. Some (EIO, d)\<rparr>\<rparr>"

theorem ext4_block_set_hides_write_error_witness:
  "\<exists>b' bdev'. ext4_block_set sample_failing sample_block = Some (EOK, b', bdev') \<and>
    p_user (bdif bdev') = p_user (bdif sample_failing) \<and> ext4_block_cache_flush bdev' = Some (EOK, bdev')"
proof -
  let ?buf = "ext4_bcache_set_dirty ((fresh_buf (sample_bc 8 1024) 5 (\<lambda>_. 0))\<lparr>buf_data := replicate 1024 3\<rparr>)"
  have b: "bufs (bcache sample_failing) 5 = Some ?buf"
    by (simp add: sample_failing_def block_store_def sample_held_def bcache_inserted_def)
  have "bcache_wf (bcache (block_store sample_held 5 (replicate 1024 3)))"
  proof -
    obtain buf where h: "bufs (bcache sample_held) 5 = Some buf" "refctr buf \<noteq> 0"
      using sample_held_ok(3) by (auto simp: holds_block_def)
    have "length (replicate 1024 (3::u8)) = unat (lg_bsize sample_held)" by (simp add: sample_held_def sample_bdev_def)
    from block_store_ok(2) [OF sample_held_ok(1,2) h this] show ?thesis by (rule cache_ok_wf)
  qed
  then have wf: "bcache_wf (bcache sample_failing)" by (simp add: sample_failing_def)
  show ?thesis
    using ext4_block_set_hides_write_error [OF wf b, of sample_block]
    by (auto simp: fresh_buf_def ext4_bcache_set_dirty_def sample_block_def sample_failing_def block_store_def
        sample_held_def sample_bdev_def bcache_inserted_def sample_bc_def handle_iface_def ext4_bcache_test_flag_def
        ext4_bcache_set_flag_def)
qed

text \<open>C34: Partitions of a disk are isolated: a write in range through one partition returns success, leaves every
  partition with a disjoint sector range as it was, and changes exactly the addressed sectors of its own.\<close>

theorem ram_partition_isolation:
  assumes d: "ram_ok ram" and fits: "part_fits 512 info (length (memory ram))"
    and range: "unat lba + unat count \<le> unat (num_sectors info)" and buf: "length buf = unat count * 512"
    and other: "part_fits 512 other (length (memory ram))"
      "unat (start_sector other) + unat (num_sectors other) \<le> unat (start_sector info) \<or>
       unat (start_sector info) + unat (num_sectors info) \<le> unat (start_sector other)"
  shows "\<exists>ram'. dev_write (Partition_device RAM_device info) ram buf lba count = Some (EOK, ram') \<and>
    part_image 512 other (memory ram') = part_image 512 other (memory ram) \<and>
    part_image 512 info (memory ram') = splice (unat lba * 512) buf (part_image 512 info (memory ram))"
proof -
  have l: "length (part_image 512 info (memory ram)) = unat (num_sectors info) * 512"
    using fits by (simp add: part_image_def part_fits_def add_mult_distrib)
  have rg: "sectors_in_range 512 (length (part_image 512 info (memory ram))) lba count"
    using range by (simp add: sectors_in_range_def l)
  have buf': "unat count * unat (512::u64) \<le> length buf" using buf by simp
  obtain r ram' where w: "dev_write (Partition_device RAM_device info) ram buf lba count = Some (r, ram')"
    "ram_ok ram'" "part_fits 512 info (length (memory ram'))"
    "r = EOK \<longrightarrow> part_image 512 info (memory ram') =
       splice (unat lba * 512) (take (unat count * 512) buf) (part_image 512 info (memory ram))"
    using ram_part.part.sector_write [where info = info, OF conjI [OF d fits] rg buf'] by auto
  have w': "Partition_write RAM_device info ram buf lba count = Some (r, ram')"
    using w(1) by (simp add: Partition_device_def)
  have rg': "sectors_in_range 512 (length (memory ram)) (translate_sector info lba) count"
    using part_translate(3) [of "512::u64", OF _ fits _ rg] d unat_below [of "total_size ram"] by (simp add: ram_ok_def)
  have "r = EOK" using ram.write_succeeds [OF d rg' buf'] w' by (simp add: Partition_write_def)
  moreover have "part_image 512 other (memory ram') = part_image 512 other (memory ram)"
    by (rule ram_part.partition_write_inside [OF d fits rg buf' other w'])
  ultimately show ?thesis using w(1,4) buf by simp
qed

theorem ram_partition_isolation_witness:
  "\<exists>ram'. dev_write (Partition_device RAM_device \<lparr>physical_number = 0, start_sector = 1, num_sectors = 4, bootable = False, part_type = 0x83\<rparr>)
      (RAMBlockDevice_new 8192) (replicate 1024 7) 2 2 = Some (EOK, ram') \<and>
    part_image 512 \<lparr>physical_number = 1, start_sector = 5, num_sectors = 3, bootable = False, part_type = 0x83\<rparr> (memory ram') =
    part_image 512 \<lparr>physical_number = 1, start_sector = 5, num_sectors = 3, bootable = False, part_type = 0x83\<rparr>
      (memory (RAMBlockDevice_new 8192))"
  using ram_partition_isolation [of "RAMBlockDevice_new 8192"
      "\<lparr>physical_number = 0, start_sector = 1, num_sectors = 4, bootable = False, part_type = 0x83\<rparr>" 2 2 "replicate 1024 7"
      "\<lparr>physical_number = 1, start_sector = 5, num_sectors = 3, bootable = False, part_type = 0x83\<rparr>"]
  by (auto simp: ram_ok_def RAMBlockDevice_new_def part_fits_def)

end
