(* ===== verification/Superblock_Io.thy ===== *)
theory Superblock_Io
  imports Superblock Block_Device
begin

text \<open>
  Reading and writing the superblock through the block device layer (\<open>ext4_sb_write\<close> and \<open>ext4_sb_read\<close>
  of \<open>src/ext4_super.c\<close>). The structure the caller passes is written in place: \<open>ext4_sb_write\<close> hands it
  back with the checksum set.
\<close>

definition ext4_sb_write :: "'d ext4_blockdev \<Rightarrow> u8 list \<Rightarrow> (errno \<times> u8 list \<times> 'd ext4_blockdev) option" where
  "ext4_sb_write bdev s = do {
     let s = ext4_sb_set_csum s;
     (r, bdev) \<leftarrow> ext4_block_writebytes bdev EXT4_SUPERBLOCK_OFFSET s (of_nat EXT4_SUPERBLOCK_SIZE);
     Some (r, s, bdev) }"

definition ext4_sb_read :: "'d ext4_blockdev \<Rightarrow> u8 list \<Rightarrow> (errno \<times> u8 list \<times> 'd ext4_blockdev) option" where
  "ext4_sb_read bdev s = ext4_block_readbytes bdev EXT4_SUPERBLOCK_OFFSET s (of_nat EXT4_SUPERBLOCK_SIZE)"

text \<open>C38: A superblock that is written to a RAM disk is read back as it was written: the caller's structure with
  the checksum set, whatever the read buffer held. A superblock whose checksum type is known passes the
  checksum verification after the way through the disk.\<close>

theorem superblock_write_read:
  assumes ok: "bdev_ok ram_iface memory ram_ok bdev" "ph_refctr (bdif bdev) \<noteq> 0"
    "512 dvd length (dev_image memory bdev)" "2048 \<le> unat (part_size bdev)"
    and len: "length s = 1024" "length out = 1024"
  shows "\<exists>bdev1 bdev2. ext4_sb_write bdev s = Some (EOK, ext4_sb_set_csum s, bdev1) \<and>
    ext4_sb_read bdev1 out = Some (EOK, ext4_sb_set_csum s, bdev2) \<and>
    dev_image memory bdev2 = dev_image memory bdev1 \<and>
    (get8 s sbf_checksum_type = EXT4_CHECKSUM_CRC32C \<longrightarrow> ext4_sb_verify_csum (ext4_sb_set_csum s))"
proof -
  have "length (ext4_sb_set_csum s) = unat (of_nat EXT4_SUPERBLOCK_SIZE :: u32)" "length out = unat (of_nat EXT4_SUPERBLOCK_SIZE :: u32)"
    "unat EXT4_SUPERBLOCK_OFFSET + unat (of_nat EXT4_SUPERBLOCK_SIZE :: u32) \<le> unat (part_size bdev)"
    using len ok(4) by simp_all
  from ram_write_then_read [OF ok(1-3) this]
  show ?thesis using len(1) by (auto simp: ext4_sb_write_def ext4_sb_read_def ext4_sb_set_csum_verify)
qed

theorem superblock_write_read_witness:
  "\<exists>bdev1 bdev2. ext4_sb_write sample_bdev sample_sb = Some (EOK, ext4_sb_set_csum sample_sb, bdev1) \<and>
    ext4_sb_read bdev1 (replicate 1024 0) = Some (EOK, ext4_sb_set_csum sample_sb, bdev2)"
  using superblock_write_read [OF sample_bdev_ok(1,3), of sample_sb "replicate 1024 0"]
  by (auto simp: sample_bdev_ok sample_sb_facts)

end
