(* ===== verification/Filesystem.thy ===== *)
theory Filesystem
  imports Prelude
begin

text \<open>
  The file system interface of evfs: the constants of \<open>lib/api/vfs/defs.hpp\<close>, the virtual methods of the
  class \<open>Filesystem\<close> of \<open>lib/api/vfs/filesystem.hpp\<close> with the default bodies of
  \<open>lib/fstypes/filesystem.cpp\<close>, and the classes \<open>FileHandle\<close> and \<open>DirectoryHandle\<close>.

  A file system object is the record of its methods (its vtable) with its private fields, of type
  \<open>'f\<close>. A method takes the fields and the state \<open>'w\<close> of everything outside the object (devices and
  libraries) and returns its result with both. \<open>'h\<close> and \<open>'d\<close> are the raw handles
  (\<open>RawHandle<Type>\<close>) of an open file and of an open directory; a method on a handle returns it as it
  leaves it. \<open>std::error_code\<close> is the errno value (0 is success), \<open>result<T>\<close> a sum with the error on
  the left. A reference parameter that a method fills (\<open>struct stat&\<close>, a buffer) is passed in and
  returned.

  The locale \<open>rooted_filesystem\<close> is what the virtual file system layer relies on: the object knows the
  directory it is mounted on, and the handles it opens carry it.
\<close>

section \<open>Flags and records\<close>

type_synonym Flags = u32

abbreviation (input) read_only :: nat where "read_only \<equiv> 0"
abbreviation (input) remount :: nat where "remount \<equiv> 5"

definition flags_test :: "Flags \<Rightarrow> nat \<Rightarrow> bool" where
  "flags_test flags n = bit flags n"

definition root_base :: string where
  "root_base = ''/volume''"

type_synonym 'a result = "errno + 'a"

record stat =
  st_dev :: int
  st_ino :: int
  st_mode :: int
  st_nlink :: int
  st_uid :: int
  st_gid :: int
  st_size :: int
  st_blksize :: int
  st_blocks :: int
  st_atime :: int
  st_mtime :: int
  st_ctime :: int

definition stat_zero :: stat where
  "stat_zero = \<lparr>st_dev = 0, st_ino = 0, st_mode = 0, st_nlink = 0, st_uid = 0, st_gid = 0, st_size = 0,
    st_blksize = 0, st_blocks = 0, st_atime = 0, st_mtime = 0, st_ctime = 0\<rparr>"

record statvfs =
  f_bsize :: u64
  f_frsize :: u64
  f_blocks :: u64
  f_bfree :: u64
  f_bavail :: u64
  f_files :: u64
  f_ffree :: u64
  f_favail :: u64
  f_fsid :: u64
  f_flag :: u64
  f_namemax :: u64

definition statvfs_zero :: statvfs where
  "statvfs_zero = \<lparr>f_bsize = 0, f_frsize = 0, f_blocks = 0, f_bfree = 0, f_bavail = 0, f_files = 0,
    f_ffree = 0, f_favail = 0, f_fsid = 0, f_flag = 0, f_namemax = 0\<rparr>"

section \<open>Handles\<close>

record 'h FileHandle =
  file_abspath :: string
  file_root :: string
  file_raw :: 'h

record 'd DirectoryHandle =
  dir_root :: string
  dir_raw :: 'd

definition FileHandle_get_path :: "'h FileHandle \<Rightarrow> string" where
  "FileHandle_get_path h = file_abspath h"

definition FileHandle_get_root :: "'h FileHandle \<Rightarrow> string" where
  "FileHandle_get_root h = file_root h"

definition DirectoryHandle_get_root :: "'d DirectoryHandle \<Rightarrow> string" where
  "DirectoryHandle_get_root h = dir_root h"

section \<open>The methods\<close>

type_synonym ('f, 'w, 'r) fs_method = "'f \<Rightarrow> 'w \<Rightarrow> 'r \<times> 'f \<times> 'w"

record ('f, 'h, 'd, 'w) Filesystem =
  fs_mount :: "string \<Rightarrow> Flags \<Rightarrow> ('f, 'w, errno) fs_method"
  fs_unmount :: "('f, 'w, errno) fs_method"
  fs_stat_vfs :: "string \<Rightarrow> statvfs \<Rightarrow> ('f, 'w, errno \<times> statvfs) fs_method"
  fs_open :: "string \<Rightarrow> Flags \<Rightarrow> int \<Rightarrow> ('f, 'w, 'h FileHandle result) fs_method"
  fs_close :: "'h FileHandle \<Rightarrow> ('f, 'w, errno \<times> 'h FileHandle) fs_method"
  fs_write :: "u8 list \<Rightarrow> 'h FileHandle \<Rightarrow> ('f, 'w, nat result \<times> 'h FileHandle) fs_method"
  fs_read :: "u8 list \<Rightarrow> 'h FileHandle \<Rightarrow> ('f, 'w, (nat result \<times> u8 list) \<times> 'h FileHandle) fs_method"
  fs_lseek :: "int \<Rightarrow> int \<Rightarrow> 'h FileHandle \<Rightarrow> ('f, 'w, int result \<times> 'h FileHandle) fs_method"
  fs_fstat :: "stat \<Rightarrow> 'h FileHandle \<Rightarrow> ('f, 'w, (errno \<times> stat) \<times> 'h FileHandle) fs_method"
  fs_stat :: "stat \<Rightarrow> string \<Rightarrow> ('f, 'w, errno \<times> stat) fs_method"
  fs_link :: "string \<Rightarrow> string \<Rightarrow> ('f, 'w, errno) fs_method"
  fs_symlink :: "string \<Rightarrow> string \<Rightarrow> ('f, 'w, errno) fs_method"
  fs_unlink :: "string \<Rightarrow> ('f, 'w, errno) fs_method"
  fs_rmdir :: "string \<Rightarrow> ('f, 'w, errno) fs_method"
  fs_rename :: "string \<Rightarrow> string \<Rightarrow> ('f, 'w, errno) fs_method"
  fs_mkdir :: "int \<Rightarrow> string \<Rightarrow> ('f, 'w, errno) fs_method"
  fs_diropen :: "string \<Rightarrow> ('f, 'w, 'd DirectoryHandle result) fs_method"
  fs_dirreset :: "'d DirectoryHandle \<Rightarrow> ('f, 'w, errno \<times> 'd DirectoryHandle) fs_method"
  fs_dirnext :: "string \<times> stat \<Rightarrow> 'd DirectoryHandle \<Rightarrow>
    ('f, 'w, (errno \<times> string \<times> stat) \<times> 'd DirectoryHandle) fs_method"
  fs_dirclose :: "'d DirectoryHandle \<Rightarrow> ('f, 'w, errno \<times> 'd DirectoryHandle) fs_method"
  fs_ftruncate :: "int \<Rightarrow> 'h FileHandle \<Rightarrow> ('f, 'w, errno \<times> 'h FileHandle) fs_method"
  fs_fsync :: "'h FileHandle \<Rightarrow> ('f, 'w, errno \<times> 'h FileHandle) fs_method"
  fs_ioctl :: "int \<Rightarrow> u8 list \<Rightarrow> string \<Rightarrow> ('f, 'w, errno \<times> u8 list) fs_method"
  fs_utimens :: "int list \<Rightarrow> string \<Rightarrow> ('f, 'w, errno \<times> int list) fs_method"
  fs_flock :: "int \<Rightarrow> 'h FileHandle \<Rightarrow> ('f, 'w, errno \<times> 'h FileHandle) fs_method"
  fs_isatty :: "'h FileHandle \<Rightarrow> ('f, 'w, bool result \<times> 'h FileHandle) fs_method"
  fs_chmod :: "int \<Rightarrow> string \<Rightarrow> ('f, 'w, errno) fs_method"
  fs_fchmod :: "int \<Rightarrow> 'h FileHandle \<Rightarrow> ('f, 'w, errno \<times> 'h FileHandle) fs_method"
  fs_get_label :: "('f, 'w, string result) fs_method"

section \<open>Default bodies\<close>

text \<open>A method a file system does not override reports \<open>ENOTSUP\<close> and touches nothing.\<close>

definition Filesystem_stat_vfs :: "string \<Rightarrow> statvfs \<Rightarrow> ('f, 'w, errno \<times> statvfs) fs_method" where
  "Filesystem_stat_vfs path st self w = ((ENOTSUP, st), self, w)"

definition Filesystem_lseek :: "int \<Rightarrow> int \<Rightarrow> 'h FileHandle \<Rightarrow> ('f, 'w, int result \<times> 'h FileHandle) fs_method" where
  "Filesystem_lseek pos dir h self w = ((Inl ENOTSUP, h), self, w)"

definition Filesystem_fstat :: "stat \<Rightarrow> 'h FileHandle \<Rightarrow> ('f, 'w, (errno \<times> stat) \<times> 'h FileHandle) fs_method" where
  "Filesystem_fstat st h self w = (((ENOTSUP, st), h), self, w)"

definition Filesystem_stat :: "stat \<Rightarrow> string \<Rightarrow> ('f, 'w, errno \<times> stat) fs_method" where
  "Filesystem_stat st path self w = ((ENOTSUP, st), self, w)"

definition Filesystem_link :: "string \<Rightarrow> string \<Rightarrow> ('f, 'w, errno) fs_method" where
  "Filesystem_link existing newlink self w = (ENOTSUP, self, w)"

definition Filesystem_symlink :: "string \<Rightarrow> string \<Rightarrow> ('f, 'w, errno) fs_method" where
  "Filesystem_symlink existing newlink self w = (ENOTSUP, self, w)"

definition Filesystem_unlink :: "string \<Rightarrow> ('f, 'w, errno) fs_method" where
  "Filesystem_unlink path self w = (ENOTSUP, self, w)"

definition Filesystem_rmdir :: "string \<Rightarrow> ('f, 'w, errno) fs_method" where
  "Filesystem_rmdir path self w = (ENOTSUP, self, w)"

definition Filesystem_rename :: "string \<Rightarrow> string \<Rightarrow> ('f, 'w, errno) fs_method" where
  "Filesystem_rename oldname newname self w = (ENOTSUP, self, w)"

definition Filesystem_mkdir :: "int \<Rightarrow> string \<Rightarrow> ('f, 'w, errno) fs_method" where
  "Filesystem_mkdir mode path self w = (ENOTSUP, self, w)"

definition Filesystem_diropen :: "string \<Rightarrow> ('f, 'w, 'd DirectoryHandle result) fs_method" where
  "Filesystem_diropen path self w = (Inl ENOTSUP, self, w)"

definition Filesystem_dirreset :: "'d DirectoryHandle \<Rightarrow> ('f, 'w, errno \<times> 'd DirectoryHandle) fs_method" where
  "Filesystem_dirreset h self w = ((ENOTSUP, h), self, w)"

definition Filesystem_dirnext :: "string \<times> stat \<Rightarrow> 'd DirectoryHandle \<Rightarrow>
    ('f, 'w, (errno \<times> string \<times> stat) \<times> 'd DirectoryHandle) fs_method" where
  "Filesystem_dirnext out h self w = (((ENOTSUP, out), h), self, w)"

definition Filesystem_dirclose :: "'d DirectoryHandle \<Rightarrow> ('f, 'w, errno \<times> 'd DirectoryHandle) fs_method" where
  "Filesystem_dirclose h self w = ((ENOTSUP, h), self, w)"

definition Filesystem_ftruncate :: "int \<Rightarrow> 'h FileHandle \<Rightarrow> ('f, 'w, errno \<times> 'h FileHandle) fs_method" where
  "Filesystem_ftruncate len h self w = ((ENOTSUP, h), self, w)"

definition Filesystem_fsync :: "'h FileHandle \<Rightarrow> ('f, 'w, errno \<times> 'h FileHandle) fs_method" where
  "Filesystem_fsync h self w = ((ENOTSUP, h), self, w)"

definition Filesystem_ioctl :: "int \<Rightarrow> u8 list \<Rightarrow> string \<Rightarrow> ('f, 'w, errno \<times> u8 list) fs_method" where
  "Filesystem_ioctl cmd arg path self w = ((ENOTSUP, arg), self, w)"

definition Filesystem_utimens :: "int list \<Rightarrow> string \<Rightarrow> ('f, 'w, errno \<times> int list) fs_method" where
  "Filesystem_utimens tv path self w = ((ENOTSUP, tv), self, w)"

definition Filesystem_flock :: "int \<Rightarrow> 'h FileHandle \<Rightarrow> ('f, 'w, errno \<times> 'h FileHandle) fs_method" where
  "Filesystem_flock cmd h self w = ((ENOTSUP, h), self, w)"

definition Filesystem_isatty :: "'h FileHandle \<Rightarrow> ('f, 'w, bool result \<times> 'h FileHandle) fs_method" where
  "Filesystem_isatty h self w = ((Inl ENOTSUP, h), self, w)"

definition Filesystem_chmod :: "int \<Rightarrow> string \<Rightarrow> ('f, 'w, errno) fs_method" where
  "Filesystem_chmod mode path self w = (ENOTSUP, self, w)"

definition Filesystem_fchmod :: "int \<Rightarrow> 'h FileHandle \<Rightarrow> ('f, 'w, errno \<times> 'h FileHandle) fs_method" where
  "Filesystem_fchmod mode h self w = ((ENOTSUP, h), self, w)"

definition Filesystem_get_label :: "('f, 'w, string result) fs_method" where
  "Filesystem_get_label self w = (Inl ENOTSUP, self, w)"

lemmas Filesystem_defaults =
  Filesystem_stat_vfs_def Filesystem_lseek_def Filesystem_fstat_def Filesystem_stat_def
  Filesystem_link_def Filesystem_symlink_def Filesystem_unlink_def Filesystem_rmdir_def
  Filesystem_rename_def Filesystem_mkdir_def Filesystem_diropen_def Filesystem_dirreset_def
  Filesystem_dirnext_def Filesystem_dirclose_def Filesystem_ftruncate_def Filesystem_fsync_def
  Filesystem_ioctl_def Filesystem_utimens_def Filesystem_flock_def Filesystem_isatty_def
  Filesystem_chmod_def Filesystem_fchmod_def Filesystem_get_label_def

section \<open>The contract with the layer above\<close>

text \<open>A method leaves the directory of the object alone, and the root of the handle it works on.\<close>

definition keeps_root :: "('f \<Rightarrow> string) \<Rightarrow> ('f, 'w, 'r) fs_method \<Rightarrow> bool" where
  "keeps_root root_of m = (\<forall>f w. root_of (fst (snd (m f w))) = root_of f)"

definition keeps_handle :: "('x \<Rightarrow> string) \<Rightarrow> ('f \<Rightarrow> string) \<Rightarrow> ('x \<Rightarrow> ('f, 'w, 'r \<times> 'x) fs_method) \<Rightarrow> bool" where
  "keeps_handle root_of_handle root_of m =
     (\<forall>h. keeps_root root_of (m h) \<and> (\<forall>f w. root_of_handle (snd (fst (m h f w))) = root_of_handle h))"

lemma keeps_rootD: "keeps_root root_of m \<Longrightarrow> m f w = (r, f', w') \<Longrightarrow> root_of f' = root_of f"
  unfolding keeps_root_def by (metis fst_conv snd_conv)

lemma keeps_handleD:
  "keeps_handle rh root_of m \<Longrightarrow> m h f w = ((r, h'), f', w') \<Longrightarrow> root_of f' = root_of f \<and> rh h' = rh h"
  unfolding keeps_handle_def keeps_root_def by (metis fst_conv snd_conv)

lemma keeps_handle_root: "keeps_handle rh root_of m \<Longrightarrow> keeps_root root_of (m h)"
  by (simp add: keeps_handle_def)

locale rooted_filesystem =
  fixes ops :: "('f, 'h, 'd, 'w) Filesystem"
    and root_of :: "'f \<Rightarrow> string"
  assumes mount_root: "fs_mount ops r flags f w = (0, f', w') \<Longrightarrow> root_of f' = r"
    and open_root: "fs_open ops path flags mode f w = (Inr h, f', w') \<Longrightarrow> file_root h = root_of f"
    and open_keeps: "keeps_root root_of (fs_open ops path flags mode)"
    and diropen_root: "fs_diropen ops path f w = (Inr d, f', w') \<Longrightarrow> dir_root d = root_of f"
    and diropen_keeps: "keeps_root root_of (fs_diropen ops path)"
    and unmount_keeps: "keeps_root root_of (fs_unmount ops)"
    and label_keeps: "keeps_root root_of (fs_get_label ops)"
    and path_keeps:
      "keeps_root root_of (fs_stat_vfs ops path sv)"
      "keeps_root root_of (fs_stat ops st path)"
      "keeps_root root_of (fs_link ops path path')"
      "keeps_root root_of (fs_symlink ops path path')"
      "keeps_root root_of (fs_unlink ops path)"
      "keeps_root root_of (fs_rmdir ops path)"
      "keeps_root root_of (fs_rename ops path path')"
      "keeps_root root_of (fs_mkdir ops mode path)"
      "keeps_root root_of (fs_ioctl ops cmd arg path)"
      "keeps_root root_of (fs_utimens ops tv path)"
      "keeps_root root_of (fs_chmod ops mode path)"
    and handle_keeps:
      "keeps_handle file_root root_of (fs_close ops)"
      "keeps_handle file_root root_of (fs_write ops buf)"
      "keeps_handle file_root root_of (fs_read ops buf)"
      "keeps_handle file_root root_of (fs_lseek ops pos dir)"
      "keeps_handle file_root root_of (fs_fstat ops st)"
      "keeps_handle file_root root_of (fs_ftruncate ops len)"
      "keeps_handle file_root root_of (fs_fsync ops)"
      "keeps_handle file_root root_of (fs_flock ops cmd)"
      "keeps_handle file_root root_of (fs_isatty ops)"
      "keeps_handle file_root root_of (fs_fchmod ops mode)"
    and dir_keeps:
      "keeps_handle dir_root root_of (fs_dirreset ops)"
      "keeps_handle dir_root root_of (fs_dirnext ops out)"
      "keeps_handle dir_root root_of (fs_dirclose ops)"

end
