(* ===== verification/Fd_Container.thy ===== *)
theory Fd_Container
  imports Unordered_Map Path Filesystem
begin

text \<open>
  The table of open files: \<open>file_descriptor\<close> (\<open>lib/common/file_descriptor.hpp\<close>), the list of the
  descriptor numbers open on one path with its mark for a delayed unlink, and
  \<open>file_descriptor_container\<close> (\<open>lib/common/file_descriptor_container.hpp\<close>), the two maps from paths
  to descriptor lists and from numbers to handles with the counter of fresh numbers. The counter is a
  static member of the class; one container is modelled, so it is a field here. The results are the
  invariant of the two maps and a refinement: the container implements the abstract map from a path to
  the set of its open descriptors and its mark.
\<close>

section \<open>The descriptors of one path\<close>

record file_descriptor =
  indexes :: "int list"
  marked_for_unlink :: bool

definition file_descriptor_new :: file_descriptor where
  "file_descriptor_new = \<lparr>indexes = [], marked_for_unlink = False\<rparr>"

definition file_descriptor_add :: "int \<Rightarrow> file_descriptor \<Rightarrow> file_descriptor" where
  "file_descriptor_add n fd = fd\<lparr>indexes := indexes fd @ [n]\<rparr>"

definition file_descriptor_is_empty :: "file_descriptor \<Rightarrow> bool" where
  "file_descriptor_is_empty fd = (indexes fd = [])"

definition file_descriptor_remove :: "int \<Rightarrow> file_descriptor \<Rightarrow> bool \<times> file_descriptor" where
  "file_descriptor_remove n fd =
     (let fd' = (if n \<in> set (indexes fd) then fd\<lparr>indexes := remove1 n (indexes fd)\<rparr> else fd)
      in (file_descriptor_is_empty fd', fd'))"

definition mark_for_unlink :: "file_descriptor \<Rightarrow> file_descriptor" where
  "mark_for_unlink fd = fd\<lparr>marked_for_unlink := True\<rparr>"

section \<open>The container\<close>

record 'h file_descriptor_container =
  by_path :: "(string, file_descriptor) unordered_map"
  by_id :: "(int, 'h FileHandle) unordered_map"
  fd_idx :: int

definition file_descriptor_container_new :: "'h file_descriptor_container" where
  "file_descriptor_container_new = \<lparr>by_path = [], by_id = [], fd_idx = 3\<rparr>"

definition fd_exist :: "int \<Rightarrow> 'h file_descriptor_container \<Rightarrow> bool" where
  "fd_exist index c = umap_contains index (by_id c)"

definition path_exist :: "string \<Rightarrow> 'h file_descriptor_container \<Rightarrow> bool" where
  "path_exist path c = umap_contains path (by_path c)"

text \<open>\<open>operator[](int)\<close> dereferences the stored pointer, which is null for a number that is not there.\<close>

definition fd_handle :: "int \<Rightarrow> 'h file_descriptor_container \<Rightarrow> 'h FileHandle option" where
  "fd_handle index c = map_of (by_id c) index"

definition fd_handle_update :: "int \<Rightarrow> 'h FileHandle \<Rightarrow> 'h file_descriptor_container \<Rightarrow> 'h file_descriptor_container" where
  "fd_handle_update index h c = c\<lparr>by_id := umap_modify index (\<lambda>_. h) (by_id c)\<rparr>"

text \<open>\<open>operator[](path).mark_for_unlink()\<close>: a missing entry is created first.\<close>

definition fd_mark_for_unlink :: "string \<Rightarrow> 'h file_descriptor_container \<Rightarrow> 'h file_descriptor_container" where
  "fd_mark_for_unlink path c =
     c\<lparr>by_path := umap_modify path mark_for_unlink (umap_insert path file_descriptor_new (by_path c))\<rparr>"

text \<open>\<open>insert\<close> returns the counter and increments it; the increment of the largest \<open>int\<close> is undefined.\<close>

definition INT_MAX :: int where "INT_MAX = 2147483647"

definition fd_insert :: "string \<Rightarrow> 'h FileHandle \<Rightarrow> 'h file_descriptor_container \<Rightarrow>
    (int \<times> 'h file_descriptor_container) option" where
  "fd_insert path handle c =
     (let key = lexically_normal path;
          bp = umap_modify key (file_descriptor_add (fd_idx c)) (umap_insert key file_descriptor_new (by_path c));
          bi = umap_insert (fd_idx c) handle (by_id c)
      in if fd_idx c = INT_MAX then None
         else Some (fd_idx c, c\<lparr>by_path := bp, by_id := bi, fd_idx := fd_idx c + 1\<rparr>))"

text \<open>The loop of \<open>remove\<close> takes the number out of each entry until one is empty; it returns the
  entries as left and the path and mark of the empty one.\<close>

fun remove_scan :: "int \<Rightarrow> (string, file_descriptor) unordered_map \<Rightarrow>
    (string, file_descriptor) unordered_map \<times> (string \<times> bool) option" where
  "remove_scan index [] = ([], None)"
| "remove_scan index ((path, value) # m) =
     (case file_descriptor_remove index value of (is_empty, value') \<Rightarrow>
        if is_empty then ((path, value') # m, Some (path, marked_for_unlink value'))
        else case remove_scan index m of (m', r) \<Rightarrow> ((path, value') # m', r))"

definition fd_remove :: "int \<Rightarrow> 'h file_descriptor_container \<Rightarrow>
    string option \<times> 'h file_descriptor_container" where
  "fd_remove index c =
     (if fd_exist index c then
        let c' = c\<lparr>by_id := umap_erase index (by_id c)\<rparr> in
        case remove_scan index (by_path c') of
          (m, None) \<Rightarrow> (None, c'\<lparr>by_path := m\<rparr>)
        | (m, Some (path, marked)) \<Rightarrow>
            (if marked then Some path else None, c'\<lparr>by_path := umap_erase path m\<rparr>)
      else (None, c))"

section \<open>Invariant\<close>

text \<open>Every number is open on exactly one path, no path has an empty list, and the numbers in use lie
  between the three standard streams and the counter.\<close>

definition open_on :: "'h file_descriptor_container \<Rightarrow> string \<Rightarrow> int \<Rightarrow> bool" where
  "open_on c p n = (\<exists>e. map_of (by_path c) p = Some e \<and> n \<in> set (indexes e))"

definition container_ok :: "'h file_descriptor_container \<Rightarrow> bool" where
  "container_ok c \<longleftrightarrow>
     umap_wf (by_path c) \<and> umap_wf (by_id c) \<and> 3 \<le> fd_idx c \<and> fd_idx c \<le> INT_MAX \<and>
     (\<forall>p e. map_of (by_path c) p = Some e \<longrightarrow> indexes e \<noteq> [] \<and> distinct (indexes e)) \<and>
     (\<forall>n. fd_exist n c \<longleftrightarrow> (\<exists>p. open_on c p n)) \<and>
     (\<forall>n p q. open_on c p n \<longrightarrow> open_on c q n \<longrightarrow> p = q) \<and>
     (\<forall>n. fd_exist n c \<longrightarrow> 3 \<le> n \<and> n < fd_idx c)"

text \<open>The abstract table of open files.\<close>

definition open_files :: "'h file_descriptor_container \<Rightarrow> string \<Rightarrow> (int set \<times> bool) option" where
  "open_files c p = map_option (\<lambda>e. (set (indexes e), marked_for_unlink e)) (map_of (by_path c) p)"

lemma container_okD:
  assumes "container_ok c"
  shows "umap_wf (by_path c)" "umap_wf (by_id c)" "3 \<le> fd_idx c" "fd_idx c \<le> INT_MAX"
    "map_of (by_path c) p = Some e \<Longrightarrow> indexes e \<noteq> []"
    "map_of (by_path c) p = Some e \<Longrightarrow> distinct (indexes e)"
    "fd_exist n c \<longleftrightarrow> (\<exists>p. open_on c p n)"
    "open_on c p n \<Longrightarrow> open_on c q n \<Longrightarrow> p = q"
    "fd_exist n c \<Longrightarrow> 3 \<le> n" "fd_exist n c \<Longrightarrow> n < fd_idx c"
  using assms unfolding container_ok_def by blast+

lemma container_ok_new [simp]: "container_ok file_descriptor_container_new"
  by (simp add: container_ok_def file_descriptor_container_new_def fd_exist_def open_on_def
      umap_contains_def INT_MAX_def)

lemma open_on_exist: "container_ok c \<Longrightarrow> open_on c p n \<Longrightarrow> fd_exist n c"
  using container_okD(7) by blast

lemma open_on_files: "open_on c p n \<longleftrightarrow> (\<exists>s b. open_files c p = Some (s, b) \<and> n \<in> s)"
  by (auto simp: open_on_def open_files_def)

lemma fd_exist_handle: "fd_exist n c \<longleftrightarrow> (\<exists>h. fd_handle n c = Some h)"
  by (auto simp: fd_exist_def fd_handle_def umap_contains_def)

lemma fresh_not_open: "container_ok c \<Longrightarrow> \<not> fd_exist (fd_idx c) c"
  using container_okD(10) by blast

section \<open>Insertion\<close>

lemma open_files_insert:
  assumes "fd_insert path h c = Some (n, c')"
  shows "n = fd_idx c"
    and "open_files c' = (open_files c)(lexically_normal path \<mapsto>
      (case open_files c (lexically_normal path) of None \<Rightarrow> ({n}, False)
       | Some (s, b) \<Rightarrow> (insert n s, b)))"
    and "fd_idx c' = fd_idx c + 1"
    and "by_id c' = umap_insert n h (by_id c)"
  using assms
  by (auto simp: fd_insert_def Let_def open_files_def umap_simps umap_contains_def
      file_descriptor_add_def file_descriptor_new_def fun_eq_iff split: if_splits option.splits)

lemma fd_insert_ok:
  assumes ok: "container_ok c" and result: "fd_insert path h c = Some (n, c')"
  shows "container_ok c'"
proof -
  note ins = open_files_insert [OF result]
  let ?k = "lexically_normal path"
  have fresh: "\<not> fd_exist n c" using fresh_not_open [OF ok] ins(1) by simp
  then have fresh_e: "map_of (by_path c) p = Some e \<Longrightarrow> n \<notin> set (indexes e)" for p e
    using open_on_exist [OF ok] by (auto simp: open_on_def)
  have id: "fd_exist m c' \<longleftrightarrow> m = n \<or> fd_exist m c" for m
    using ins(4) by (auto simp: fd_exist_def umap_simps)
  have on: "open_on c' p m \<longleftrightarrow> (p = ?k \<and> m = n) \<or> open_on c p m" for p m
    by (auto simp: open_on_files ins(2) split: option.splits if_splits)
  have bp: "by_path c' = umap_modify ?k (file_descriptor_add n) (umap_insert ?k file_descriptor_new (by_path c))"
    and max: "fd_idx c \<noteq> INT_MAX"
    using result ins(1) by (auto simp: fd_insert_def Let_def split: if_splits)
  have entries: "indexes e \<noteq> [] \<and> distinct (indexes e)" if "map_of (by_path c') p = Some e" for p e
    using that container_okD(5,6) [OF ok] fresh_e
    by (auto simp: bp umap_simps umap_contains_def file_descriptor_add_def file_descriptor_new_def
        split: if_splits)
  show ?thesis
    unfolding container_ok_def
  proof (intro conjI allI impI)
    show "umap_wf (by_path c')" using container_okD(1) [OF ok] by (simp add: bp)
    show "umap_wf (by_id c')" using container_okD(2) [OF ok] by (simp add: ins)
    show "3 \<le> fd_idx c'" "fd_idx c' \<le> INT_MAX"
      using container_okD(3,4) [OF ok] max by (auto simp: ins)
    show "fd_exist m c' = (\<exists>p. open_on c' p m)" for m
      using container_okD(7) [OF ok] by (auto simp: id on)
    show "p = q" if "open_on c' p m" "open_on c' q m" for m p q
      using that container_okD(8) [OF ok] fresh open_on_exist [OF ok] by (auto simp: on)
    show "3 \<le> m" "m < fd_idx c'" if "fd_exist m c'" for m
      using that container_okD(3) [OF ok] container_okD(9,10) [OF ok, of m] by (auto simp: id ins(1,3))
  qed (use entries in blast)+
qed

section \<open>Removal\<close>

text \<open>A number that is in the entry of exactly one path, where no entry is empty: the loop changes
  that entry and finds it iff nothing is left in it.\<close>

lemma file_descriptor_remove_simps:
  "fst (file_descriptor_remove n e) = (remove1 n (indexes e) = [])"
  "indexes (snd (file_descriptor_remove n e)) = remove1 n (indexes e)"
  "marked_for_unlink (snd (file_descriptor_remove n e)) = marked_for_unlink e"
  by (auto simp: file_descriptor_remove_def file_descriptor_is_empty_def Let_def remove1_idem)

lemma file_descriptor_remove_absent:
  "n \<notin> set (indexes e) \<Longrightarrow> file_descriptor_remove n e = (indexes e = [], e)"
  by (simp add: file_descriptor_remove_def file_descriptor_is_empty_def)

lemma remove_scan_absent:
  "\<forall>(p, e) \<in> set m. indexes e \<noteq> [] \<and> n \<notin> set (indexes e) \<Longrightarrow> remove_scan n m = (m, None)"
  by (induction m) (auto simp: file_descriptor_remove_absent)

lemma remove_scan_spec:
  assumes "umap_wf m" and "map_of m p = Some e" and "n \<in> set (indexes e)"
    and "\<forall>q e'. map_of m q = Some e' \<longrightarrow> indexes e' \<noteq> []"
    and "\<forall>q e'. map_of m q = Some e' \<longrightarrow> q \<noteq> p \<longrightarrow> n \<notin> set (indexes e')"
  shows "remove_scan n m =
    (umap_modify p (\<lambda>_. snd (file_descriptor_remove n e)) m,
     if remove1 n (indexes e) = [] then Some (p, marked_for_unlink e) else None)"
  using assms
proof (induction m)
  case (Cons x m)
  obtain q v where x: "x = (q, v)" by (cases x)
  have wf: "umap_wf m" and q: "q \<notin> set (umap_keys m)"
    using Cons.prems(1) by (auto simp: umap_wf_def umap_simps x)
  then have not_in: "map_of m q = None" by (simp add: umap_contains_keys [symmetric] umap_contains_def)
  have frame: "umap_modify q f m = m" for f
    using q by (induction m) (auto simp: umap_modify_def umap_keys_def)
  have rest: "map_of m r = Some v' \<Longrightarrow> map_of (x # m) r = Some v'" for r v'
    using not_in by (auto simp: x)
  have tail: "\<forall>q e'. map_of m q = Some e' \<longrightarrow> indexes e' \<noteq> []"
      "\<forall>q e'. map_of m q = Some e' \<longrightarrow> q \<noteq> p \<longrightarrow> n \<notin> set (indexes e')"
    using Cons.prems(4,5) rest by blast+
  show ?case
  proof (cases "q = p")
    case True
    then have v: "v = e" using Cons.prems(2) by (simp add: x)
    have "remove_scan n m = (m, None)"
      using tail not_in True by (intro remove_scan_absent) (fastforce simp: umap_in_set [OF wf])
    then show ?thesis
      using True v frame file_descriptor_remove_simps [of n e]
      by (cases "file_descriptor_remove n e") (simp add: x umap_modify_def)
  next
    case False
    have v: "indexes v \<noteq> []" "n \<notin> set (indexes v)"
      using Cons.prems(4,5) [rule_format, of q v] False by (simp_all add: x)
    have "remove_scan n m =
      (umap_modify p (\<lambda>_. snd (file_descriptor_remove n e)) m,
       if remove1 n (indexes e) = [] then Some (p, marked_for_unlink e) else None)"
      using Cons.prems(2,3) False by (intro Cons.IH wf tail) (simp_all add: x)
    then show ?thesis
      using v False by (simp add: x file_descriptor_remove_absent umap_modify_def)
  qed
qed simp

lemma fd_remove_absent: "\<not> fd_exist n c \<Longrightarrow> fd_remove n c = (None, c)"
  by (simp add: fd_remove_def)

text \<open>What \<open>remove\<close> does to the container, in terms of the entry that holds the number.\<close>

lemma fd_remove_spec:
  assumes ok: "container_ok c" and on: "map_of (by_path c) p = Some e" "n \<in> set (indexes e)"
  shows "fd_remove n c =
    (if indexes e = [n] \<and> marked_for_unlink e then Some p else None,
     c\<lparr>by_id := umap_erase n (by_id c),
       by_path := (if indexes e = [n] then umap_erase p (by_path c)
         else umap_modify p (\<lambda>_. snd (file_descriptor_remove n e)) (by_path c))\<rparr>)"
proof -
  have ex: "fd_exist n c" using open_on_exist [OF ok] on by (auto simp: open_on_def)
  have single: "remove1 n (indexes e) = [] \<longleftrightarrow> indexes e = [n]"
    using on(2) by (cases "indexes e") auto
  have scan: "remove_scan n (by_path c) =
    (umap_modify p (\<lambda>_. snd (file_descriptor_remove n e)) (by_path c),
     if indexes e = [n] then Some (p, marked_for_unlink e) else None)"
    unfolding single [symmetric]
  proof (rule remove_scan_spec [OF container_okD(1) [OF ok] on])
    show "\<forall>q e'. map_of (by_path c) q = Some e' \<longrightarrow> indexes e' \<noteq> []"
      using container_okD(5) [OF ok] by blast
    show "\<forall>q e'. map_of (by_path c) q = Some e' \<longrightarrow> q \<noteq> p \<longrightarrow> n \<notin> set (indexes e')"
      using container_okD(8) [OF ok, of p n] on by (auto simp: open_on_def)
  qed
  have erase: "umap_erase p (umap_modify p f m) = umap_erase p m" for f and m :: "(string, file_descriptor) unordered_map"
    by (induction m) (auto simp: umap_erase_def umap_modify_def)
  show ?thesis
    using ex by (simp add: fd_remove_def scan erase)
qed

lemma fd_remove_files:
  assumes ok: "container_ok c" and on: "open_files c p = Some (s, b)" "n \<in> s"
  shows "fst (fd_remove n c) = (if s = {n} \<and> b then Some p else None)"
    and "open_files (snd (fd_remove n c)) = (open_files c)(p := if s = {n} then None else Some (s - {n}, b))"
    and "by_id (snd (fd_remove n c)) = umap_erase n (by_id c)"
    and "fd_idx (snd (fd_remove n c)) = fd_idx c"
proof -
  obtain e where e: "map_of (by_path c) p = Some e" "s = set (indexes e)" "b = marked_for_unlink e"
    using on by (auto simp: open_files_def)
  have dist: "distinct (indexes e)" using container_okD(6) [OF ok e(1)] .
  then have single: "indexes e = [n] \<longleftrightarrow> s = {n}"
    using e(2) on(2) by (metis distinct_card card_1_singleton_iff length_Suc_conv length_0_conv
        list.simps(15) list.set(1) One_nat_def insertI1 singletonD)
  note spec = fd_remove_spec [OF ok e(1)] 
  have n: "n \<in> set (indexes e)" using e(2) on(2) by simp
  show "fst (fd_remove n c) = (if s = {n} \<and> b then Some p else None)"
    using spec [OF n] e(3) by (simp add: single)
  show "open_files (snd (fd_remove n c)) = (open_files c)(p := if s = {n} then None else Some (s - {n}, b))"
    using dist by (auto simp: spec [OF n] open_files_def fun_eq_iff umap_simps e single
        file_descriptor_remove_simps)
  show "by_id (snd (fd_remove n c)) = umap_erase n (by_id c)" "fd_idx (snd (fd_remove n c)) = fd_idx c"
    by (simp_all add: spec [OF n])
qed

lemma fd_remove_ok:
  assumes ok: "container_ok c" and on: "open_files c p = Some (s, b)" "n \<in> s"
  shows "container_ok (snd (fd_remove n c))"
proof -
  let ?c = "snd (fd_remove n c)"
  note rem = fd_remove_files [OF ok on]
  have on_p: "open_on c p n" using on by (auto simp: open_on_files)
  have id: "fd_exist m ?c \<longleftrightarrow> m \<noteq> n \<and> fd_exist m c" for m
    by (auto simp: fd_exist_def rem(3) umap_simps)
  have open_c: "open_on ?c q m \<longleftrightarrow> m \<noteq> n \<and> open_on c q m" for q m
    using on container_okD(8) [OF ok on_p]
    by (auto simp: open_on_files rem(2) split: if_splits)
  obtain e where e: "map_of (by_path c) p = Some e" "n \<in> set (indexes e)"
    using on by (auto simp: open_files_def)
  have bp: "by_path ?c = (if indexes e = [n] then umap_erase p (by_path c)
      else umap_modify p (\<lambda>_. snd (file_descriptor_remove n e)) (by_path c))"
    using fd_remove_spec [OF ok e] by simp
  have left: "remove1 n (indexes e) \<noteq> [] \<and> distinct (remove1 n (indexes e))" if "indexes e \<noteq> [n]"
    using that e(2) container_okD(6) [OF ok e(1)] by (cases "indexes e") auto
  have entries: "indexes e' \<noteq> [] \<and> distinct (indexes e')" if "map_of (by_path ?c) q = Some e'" for q e'
    using that left e(1) container_okD(5,6) [OF ok]
    by (auto simp: bp umap_simps file_descriptor_remove_simps split: if_splits)
  show ?thesis
    unfolding container_ok_def
  proof (intro conjI allI impI)
    show "umap_wf (by_path ?c)" using container_okD(1) [OF ok] by (simp add: bp)
    show "umap_wf (by_id ?c)" using container_okD(2) [OF ok] by (simp add: rem(3))
    show "3 \<le> fd_idx ?c" "fd_idx ?c \<le> INT_MAX"
      using container_okD(3,4) [OF ok] by (auto simp: rem(4))
    show "fd_exist m ?c = (\<exists>q. open_on ?c q m)" for m
      using container_okD(7) [OF ok] by (auto simp: id open_c)
    show "q = q'" if "open_on ?c q m" "open_on ?c q' m" for m q q'
      using that container_okD(8) [OF ok] by (auto simp: open_c)
    show "3 \<le> m" "m < fd_idx ?c" if "fd_exist m ?c" for m
      using that container_okD(9,10) [OF ok, of m] by (auto simp: id rem(4))
  qed (use entries in blast)+
qed

section \<open>Marking and writing through a handle\<close>

lemma fd_mark_files:
  "path_exist p c \<Longrightarrow> open_files (fd_mark_for_unlink p c) =
    (open_files c)(p := map_option (\<lambda>(s, b). (s, True)) (open_files c p))"
  by (auto simp: fd_mark_for_unlink_def open_files_def umap_simps path_exist_def umap_contains_def
      mark_for_unlink_def fun_eq_iff)

lemma fd_mark_simps [simp]:
  "by_id (fd_mark_for_unlink p c) = by_id c"
  "fd_idx (fd_mark_for_unlink p c) = fd_idx c"
  "fd_exist n (fd_mark_for_unlink p c) = fd_exist n c"
  "fd_handle n (fd_mark_for_unlink p c) = fd_handle n c"
  by (simp_all add: fd_mark_for_unlink_def fd_exist_def fd_handle_def)

lemma fd_mark_ok:
  assumes ok: "container_ok c" and ex: "path_exist p c"
  shows "container_ok (fd_mark_for_unlink p c)"
proof -
  have open_c: "open_on (fd_mark_for_unlink p c) q m = open_on c q m" for q m
    by (auto simp: open_on_files fd_mark_files [OF ex] split: if_splits)
  have bp: "map_of (by_path (fd_mark_for_unlink p c)) =
      (map_of (by_path c))(p := map_option mark_for_unlink (map_of (by_path c) p))"
    using ex by (auto simp: fd_mark_for_unlink_def umap_simps path_exist_def)
  have entries: "indexes e \<noteq> [] \<and> distinct (indexes e)"
    if "map_of (by_path (fd_mark_for_unlink p c)) q = Some e" for q e
    using that container_okD(5,6) [OF ok] by (auto simp: bp mark_for_unlink_def split: if_splits)
  have "umap_wf (by_path (fd_mark_for_unlink p c))"
    using container_okD(1) [OF ok] by (simp add: fd_mark_for_unlink_def)
  then show ?thesis
    using ok entries unfolding container_ok_def by (simp add: open_c)
qed

lemma fd_handle_update_simps [simp]:
  "by_path (fd_handle_update n h c) = by_path c"
  "fd_idx (fd_handle_update n h c) = fd_idx c"
  "fd_exist m (fd_handle_update n h c) = fd_exist m c"
  "path_exist p (fd_handle_update n h c) = path_exist p c"
  "open_files (fd_handle_update n h c) = open_files c"
  "open_on (fd_handle_update n h c) = open_on c"
  by (auto simp: fd_handle_update_def fd_exist_def path_exist_def open_files_def open_on_def umap_simps fun_eq_iff)

lemma fd_handle_update_handle:
  "fd_handle m (fd_handle_update n h c) = (if m = n \<and> fd_exist n c then Some h else fd_handle m c)"
  by (auto simp: fd_handle_update_def fd_handle_def umap_simps fd_exist_def umap_contains_def)

lemma fd_handle_update_ok: "container_ok (fd_handle_update n h c) = container_ok c"
  by (auto simp: container_ok_def) (auto simp: fd_handle_update_def)

section \<open>Properties\<close>

text \<open>Inserting a handle gives it a number that no open file has, keeps every other number and the
  invariant of the two maps, and adds the number to the open descriptors of the normalised path.\<close>

theorem fd_insert_correct:
  assumes "container_ok c" "fd_insert path h c = Some (n, c')"
  shows "container_ok c' \<and> \<not> fd_exist n c \<and> 3 \<le> n \<and> fd_handle n c' = Some h \<and>
    (\<forall>m. m \<noteq> n \<longrightarrow> fd_handle m c' = fd_handle m c) \<and>
    open_files c' = (open_files c)(lexically_normal path \<mapsto>
      (case open_files c (lexically_normal path) of None \<Rightarrow> ({n}, False) | Some (s, b) \<Rightarrow> (insert n s, b)))"
  using fd_insert_ok [OF assms] open_files_insert [OF assms(2)] fresh_not_open [OF assms(1)]
    container_okD(3) [OF assms(1)]
  by (auto simp: fd_handle_def umap_simps fd_exist_def)

definition sample_handle :: "unit FileHandle" where
  "sample_handle = \<lparr>file_abspath = ''/vol/a'', file_root = ''/vol'', file_raw = ()\<rparr>"

definition sample_table :: "unit file_descriptor_container" where
  "sample_table = \<lparr>by_path = [(''/vol/a'', \<lparr>indexes = [3, 5], marked_for_unlink = True\<rparr>),
      (''/vol/b'', \<lparr>indexes = [4], marked_for_unlink = False\<rparr>)],
    by_id = [(5, sample_handle), (4, sample_handle), (3, sample_handle)], fd_idx = 6\<rparr>"

lemma sample_table_ok: "container_ok sample_table"
proof -
  have on: "open_on sample_table p n \<longleftrightarrow> (p = ''/vol/a'' \<and> n \<in> {3, 5}) \<or> (p = ''/vol/b'' \<and> n = 4)" for p n
    by (auto simp: open_on_def sample_table_def split: if_splits)
  have id: "fd_exist n sample_table \<longleftrightarrow> n \<in> {3, 4, 5}" for n
    by (auto simp: fd_exist_def umap_contains_def sample_table_def)
  show ?thesis
    unfolding container_ok_def on id
    by (auto simp: sample_table_def umap_wf_def umap_keys_def INT_MAX_def)
qed

theorem fd_insert_correct_witness:
  "\<not> fd_exist 6 sample_table \<and>
   fd_handle 6 (snd (the (fd_insert ''/vol/./a'' sample_handle sample_table))) = Some sample_handle"
proof -
  obtain c' where "fd_insert ''/vol/./a'' sample_handle sample_table = Some (6, c')"
    by (simp add: fd_insert_def sample_table_def INT_MAX_def Let_def)
  then show ?thesis
    using fd_insert_correct [OF sample_table_ok, of "''/vol/./a''" sample_handle 6] by simp
qed

text \<open>C21: Removing an open number keeps the invariant, forgets exactly that number, and reports the path
  for unlinking iff the number was the last one open on a path marked for unlinking.\<close>

theorem fd_remove_correct:
  assumes "container_ok c" "fd_exist n c" "fd_remove n c = (r, c')"
  shows "container_ok c' \<and> \<not> fd_exist n c' \<and> (\<forall>m. m \<noteq> n \<longrightarrow> fd_handle m c' = fd_handle m c) \<and>
    (\<exists>p s b. open_files c p = Some (s, b) \<and> n \<in> s \<and>
      open_files c' = (open_files c)(p := if s = {n} then None else Some (s - {n}, b)) \<and>
      r = (if s = {n} \<and> b then Some p else None))"
proof -
  obtain p s b where on: "open_files c p = Some (s, b)" "n \<in> s"
    using container_okD(7) [OF assms(1)] assms(2) by (auto simp: open_on_files)
  have id: "by_id c' = umap_erase n (by_id c)"
    using fd_remove_files(3) [OF assms(1) on] assms(3) by simp
  have gone: "\<not> fd_exist n c'" by (simp add: id fd_exist_def umap_simps)
  have kept: "\<forall>m. m \<noteq> n \<longrightarrow> fd_handle m c' = fd_handle m c"
    by (simp add: id fd_handle_def umap_simps)
  have "open_files c' = (open_files c)(p := if s = {n} then None else Some (s - {n}, b)) \<and>
      r = (if s = {n} \<and> b then Some p else None)"
    using fd_remove_files(1,2) [OF assms(1) on] unfolding assms(3) by simp
  moreover have "container_ok c'" using fd_remove_ok [OF assms(1) on] assms(3) by simp
  ultimately show ?thesis
    using gone kept on by blast
qed

theorem fd_remove_correct_witness:
  "fst (fd_remove 4 sample_table) = None \<and> \<not> fd_exist 4 (snd (fd_remove 4 sample_table))"
proof -
  have "fd_exist 4 sample_table" by (simp add: fd_exist_def umap_contains_def sample_table_def)
  moreover have "fd_remove 4 sample_table = (None, snd (fd_remove 4 sample_table))" by code_simp
  ultimately show ?thesis
    using fd_remove_correct [OF sample_table_ok, of 4 None "snd (fd_remove 4 sample_table)"]
    by (metis fst_conv)
qed

text \<open>Removing several numbers one after the other, with the answers.\<close>

fun fd_remove_list :: "int list \<Rightarrow> 'h file_descriptor_container \<Rightarrow>
    string option list \<times> 'h file_descriptor_container" where
  "fd_remove_list [] c = ([], c)"
| "fd_remove_list (n # ns) c =
     (case fd_remove n c of (r, c') \<Rightarrow> case fd_remove_list ns c' of (rs, c'') \<Rightarrow> (r # rs, c''))"

text \<open>C20: Whatever the order in which the descriptors of a path are removed, the delayed unlink of a
  marked path is reported exactly once, by the last removal.\<close>

theorem delayed_unlink_once:
  assumes "container_ok c" "open_files c p = Some (set ns, True)" "distinct ns" "ns \<noteq> []"
  shows "fst (fd_remove_list ns c) = replicate (length ns - 1) None @ [Some p] \<and>
    \<not> path_exist p (snd (fd_remove_list ns c)) \<and> container_ok (snd (fd_remove_list ns c))"
  using assms
proof (induction ns arbitrary: c)
  case (Cons n ns)
  obtain r c' where step: "fd_remove n c = (r, c')" by fastforce
  have n: "n \<in> set (n # ns)" by simp
  note rem = fd_remove_files [OF Cons.prems(1,2) n, unfolded step, simplified]
  have ok: "container_ok c'" using fd_remove_ok [OF Cons.prems(1,2) n] by (simp add: step)
  show ?case
  proof (cases "ns = []")
    case True
    then have "open_files c' p = None" using rem(2) by simp
    then show ?thesis
      using True rem(1) ok by (simp add: step open_files_def path_exist_def umap_contains_def)
  next
    case False
    then have several: "insert n (set ns) \<noteq> {n}" using Cons.prems(3) by (cases ns) auto
    then have "r = None" "open_files c' p = Some (set ns, True)"
      using rem(1,2) Cons.prems(3) by simp_all
    then show ?thesis
      using Cons.IH [OF ok, of] Cons.prems(3) False
      by (cases "fd_remove_list ns c'"; cases ns) (auto simp: step)
  qed
qed simp

theorem delayed_unlink_once_witness:
  "fst (fd_remove_list [5, 3] sample_table) = [None, Some ''/vol/a'']"
  using delayed_unlink_once [OF sample_table_ok, of "''/vol/a''" "[5, 3]"]
  by (simp add: open_files_def sample_table_def insert_commute)

end
