(* ===== verification/Fdisk.thy ===== *)
theory Fdisk
  imports Block_Device
begin

text \<open>
  The partition table tool (\<open>lib/tools/fdisk.cpp\<close>): reading the four entries of a master boot record,
  keeping the usable ones, writing an entry with its cylinder-head-sector fields, and creating, checking
  and erasing the record. A \<open>std::vector<std::byte>\<close> is a byte list, an access outside it is the
  outcome \<open>None\<close>; the first sector is read into a buffer of the sector size (\<open>get_partition_entries\<close>)
  or of 512 bytes (the other operations).
\<close>

section \<open>Constants\<close>

definition mbr_signature :: nat where "mbr_signature = 0x1FE"
definition ptbl_start :: nat where "ptbl_start = 0x1BE"
definition ptbl_active :: nat where "ptbl_active = 0x000"
definition ptbl_type :: nat where "ptbl_type = 0x004"
definition ptbl_sect_cnt :: nat where "ptbl_sect_cnt = 0x00C"
definition ptbl_lba :: nat where "ptbl_lba = 0x008"
definition ptbl_start_head :: nat where "ptbl_start_head = 0x01"
definition ptbl_start_sec :: nat where "ptbl_start_sec = 0x02"
definition ptbl_start_cyl :: nat where "ptbl_start_cyl = 0x03"
definition ptbl_end_head :: nat where "ptbl_end_head = 0x05"
definition ptbl_end_sec :: nat where "ptbl_end_sec = 0x06"
definition ptbl_end_cyl :: nat where "ptbl_end_cyl = 0x07"
definition mbr_signature_lo :: u8 where "mbr_signature_lo = 0x55"
definition mbr_signature_hi :: u8 where "mbr_signature_hi = 0xAA"
definition mbr_size :: nat where "mbr_size = 512"
definition ptbl_size :: nat where "ptbl_size = 16"
definition num_parts :: nat where "num_parts = 4"
definition ext_part :: u8 where "ext_part = 0x05"
definition ext_linux_part :: u8 where "ext_linux_part = 0x85"
definition ext_win98_part :: u8 where "ext_win98_part = 0x0F"

lemmas mbr_layout = mbr_signature_def ptbl_start_def ptbl_active_def ptbl_type_def ptbl_sect_cnt_def
  ptbl_lba_def ptbl_start_head_def ptbl_start_sec_def ptbl_start_cyl_def ptbl_end_head_def
  ptbl_end_sec_def ptbl_end_cyl_def mbr_size_def ptbl_size_def

section \<open>Reading the table\<close>

definition to_word :: "u8 list \<Rightarrow> nat \<Rightarrow> u32 option" where
  "to_word vec offs = do {
     b0 \<leftarrow> rd8 vec offs;
     b1 \<leftarrow> rd8 vec (offs + 1);
     b2 \<leftarrow> rd8 vec (offs + 2);
     b3 \<leftarrow> rd8 vec (offs + 3);
     Some (ucast b0 OR push_bit 8 (ucast b1) OR push_bit 16 (ucast b2) OR push_bit 24 (ucast b3)) }"

definition is_extended :: "u8 \<Rightarrow> bool" where
  "is_extended t = (t = ext_linux_part \<or> t = ext_part \<or> t = ext_win98_part)"

definition read_partition :: "u8 list \<Rightarrow> nat \<Rightarrow> MBRPartition option" where
  "read_partition buffer offs = do {
     a \<leftarrow> rd8 buffer (ptbl_active + offs);
     t \<leftarrow> rd8 buffer (ptbl_type + offs);
     n \<leftarrow> to_word buffer (ptbl_sect_cnt + offs);
     s \<leftarrow> to_word buffer (ptbl_lba + offs);
     Some \<lparr>physical_number = 0, start_sector = ucast s, num_sectors = ucast n,
       bootable = (a AND 0x80 \<noteq> 0), part_type = t\<rparr> }"

fun read_partitions_from :: "u8 list \<Rightarrow> nat \<Rightarrow> nat \<Rightarrow> MBRPartition list option" where
  "read_partitions_from buffer offs 0 = Some []"
| "read_partitions_from buffer offs (Suc k) = do {
     p \<leftarrow> read_partition buffer offs;
     ps \<leftarrow> read_partitions_from buffer (offs + ptbl_size) k;
     Some (p # ps) }"

definition read_partitions :: "u8 list \<Rightarrow> MBRPartition list option" where
  "read_partitions buffer = read_partitions_from buffer ptbl_start num_parts"

text \<open>The 64-bit products and sums wrap. \<open>pnext\<close> is the code's, twice the offset of the partition.\<close>

definition validate_partition :: "MBRPartition \<Rightarrow> u64 \<Rightarrow> u64 \<Rightarrow> bool" where
  "validate_partition part sector_size sector_count =
     (let this_size = sector_count * sector_size;
          poffset = start_sector part * sector_size;
          psize = num_sectors part * sector_size;
          pnext = start_sector part * sector_size + poffset
      in \<not> (poffset + psize > this_size \<or> pnext < start_sector part * sector_size))"

text \<open>The loop numbers the entries that are not extended and valid, empty ones included, and keeps those
  that have sectors.\<close>

fun keep_partitions :: "u64 \<Rightarrow> u64 \<Rightarrow> int \<Rightarrow> MBRPartition list \<Rightarrow> MBRPartition list" where
  "keep_partitions ss cnt part_no [] = []"
| "keep_partitions ss cnt part_no (part # parts) =
     (if is_extended (part_type part) then keep_partitions ss cnt part_no parts
      else if \<not> validate_partition part ss cnt then keep_partitions ss cnt part_no parts
      else if num_sectors part \<noteq> 0 then
        part\<lparr>physical_number := word_of_int part_no\<rparr> # keep_partitions ss cnt (part_no + 1) parts
      else keep_partitions ss cnt (part_no + 1) parts)"

definition signature_rejected :: "u8 list \<Rightarrow> bool option" where
  "signature_rejected mbr = do {
     lo \<leftarrow> rd8 mbr mbr_signature;
     hi \<leftarrow> rd8 mbr (mbr_signature + 1);
     Some (lo \<noteq> mbr_signature_lo \<and> hi \<noteq> mbr_signature_hi) }"

definition fetch_partitions :: "u64 \<Rightarrow> u64 \<Rightarrow> u8 list \<Rightarrow> MBRPartition list \<Rightarrow>
    (errno \<times> MBRPartition list) option" where
  "fetch_partitions ss cnt mbr entries = do {
     bad \<leftarrow> signature_rejected mbr;
     if bad then Some (ENXIO, entries)
     else do {
       parts \<leftarrow> read_partitions mbr;
       Some (EOK, entries @ keep_partitions ss cnt 0 parts) } }"

definition get_partition_entries :: "'d BlockDevice \<Rightarrow> 'd \<Rightarrow> MBRPartition list \<Rightarrow>
    (errno \<times> MBRPartition list \<times> 'd) option" where
  "get_partition_entries blkdev d entries =
     (case get_sector_size blkdev d of Inl e \<Rightarrow> Some (e, entries, d)
      | Inr ss \<Rightarrow>
        (case get_sector_count blkdev d of Inl e \<Rightarrow> Some (e, entries, d)
         | Inr cnt \<Rightarrow> do {
             (ret, bytes, d) \<leftarrow> dev_read blkdev d 0 1;
             mbr \<leftarrow> memcpy_at (replicate (unat ss) 0) 0 bytes;
             if ret \<noteq> EOK then Some (ret, entries, d)
             else do {
               (ret, entries) \<leftarrow> fetch_partitions ss cnt mbr entries;
               Some (ret, entries, d) } }))"

section \<open>Writing the table\<close>

record partition_conf =
  conf_physical_number :: u8
  conf_start_sector :: u64
  conf_num_sectors :: u64
  conf_type :: u8
  conf_bootable :: bool

definition store_word :: "u8 list \<Rightarrow> nat \<Rightarrow> u32 \<Rightarrow> u8 list option" where
  "store_word buf p val = do {
     buf \<leftarrow> wr8 buf p (ucast val);
     buf \<leftarrow> wr8 buf (p + 1) (ucast (drop_bit 8 val));
     buf \<leftarrow> wr8 buf (p + 2) (ucast (drop_bit 8 (drop_bit 8 val)));
     wr8 buf (p + 3) (ucast (drop_bit 8 (drop_bit 8 (drop_bit 8 val)))) }"

text \<open>The cylinder-head-sector form of a sector address, 63 sectors per track and 16 heads.\<close>

definition chs_cylinder :: "u64 \<Rightarrow> u32" where "chs_cylinder s = ucast (s div 63 div 16)"
definition chs_head :: "u64 \<Rightarrow> u8" where "chs_head s = ucast (s div 63 mod 16)"
definition chs_sector :: "u64 \<Rightarrow> u8" where "chs_sector s = ucast (s mod 63 + 1)"

definition store_chs :: "u8 list \<Rightarrow> nat \<Rightarrow> nat \<Rightarrow> nat \<Rightarrow> u64 \<Rightarrow> u8 list option" where
  "store_chs buf phd psc pcy s = do {
     let cy = chs_cylinder s;
     buf \<leftarrow> wr8 buf phd (chs_head s);
     buf \<leftarrow> wr8 buf psc (ucast ((drop_bit 2 cy AND 0xC0) OR ucast (chs_sector s)));
     wr8 buf pcy (ucast cy) }"

definition store_entry :: "u8 list \<Rightarrow> partition_conf \<Rightarrow> u8 list option" where
  "store_entry mbr part = do {
     let p = ptbl_start + unat (conf_physical_number part) * ptbl_size;
     mbr \<leftarrow> wr8 mbr (p + ptbl_active) (if conf_bootable part then 0x80 else 0x00);
     mbr \<leftarrow> wr8 mbr (p + ptbl_type) (conf_type part);
     mbr \<leftarrow> store_word mbr (p + ptbl_sect_cnt) (ucast (conf_num_sectors part));
     mbr \<leftarrow> store_word mbr (p + ptbl_lba) (ucast (conf_start_sector part));
     mbr \<leftarrow> store_chs mbr (p + ptbl_start_head) (p + ptbl_start_sec) (p + ptbl_start_cyl) (conf_start_sector part);
     store_chs mbr (p + ptbl_end_head) (p + ptbl_end_sec) (p + ptbl_end_cyl)
       (conf_start_sector part + conf_num_sectors part - 1) }"

definition write_partition_entry :: "'d BlockDevice \<Rightarrow> 'd \<Rightarrow> partition_conf \<Rightarrow> (errno \<times> 'd) option" where
  "write_partition_entry blkdev d part =
     (case get_sector_count blkdev d of Inl e \<Rightarrow> Some (e, d)
      | Inr cnt \<Rightarrow>
          if conf_num_sectors part = 0 then Some (EINVAL, d)
          else if cnt - conf_start_sector part < conf_num_sectors part then Some (EINVAL, d)
          else do {
            (ret, bytes, d) \<leftarrow> dev_read blkdev d 0 1;
            mbr \<leftarrow> memcpy_at (replicate mbr_size 0) 0 bytes;
            if ret \<noteq> EOK then Some (ret, d)
            else do {
              mbr \<leftarrow> store_entry mbr part;
              dev_write blkdev d mbr 0 1 } })"

fun write_partition_entries :: "'d BlockDevice \<Rightarrow> 'd \<Rightarrow> partition_conf list \<Rightarrow> (errno \<times> 'd) option" where
  "write_partition_entries blkdev d [] = Some (EOK, d)"
| "write_partition_entries blkdev d (entry # entries) = do {
     (ret, d) \<leftarrow> write_partition_entry blkdev d entry;
     if ret = EOK then write_partition_entries blkdev d entries else Some (ret, d) }"

section \<open>The record itself\<close>

definition validate_mbr :: "'d BlockDevice \<Rightarrow> 'd \<Rightarrow> (errno \<times> 'd) option" where
  "validate_mbr blkdev d = do {
     (ret, bytes, d) \<leftarrow> dev_read blkdev d 0 1;
     mbr \<leftarrow> memcpy_at (replicate mbr_size 0) 0 bytes;
     if ret \<noteq> EOK then Some (ret, d)
     else do {
       bad \<leftarrow> signature_rejected mbr;
       Some (if bad then ENXIO else EOK, d) } }"

definition erase_mbr :: "'d BlockDevice \<Rightarrow> 'd \<Rightarrow> (errno \<times> 'd) option" where
  "erase_mbr blkdev d = dev_write blkdev d (replicate mbr_size 0) 0 1"

definition create_mbr :: "'d BlockDevice \<Rightarrow> 'd \<Rightarrow> (errno \<times> 'd) option" where
  "create_mbr blkdev d =
     (let mbr = replicate mbr_size 0;
          mbr = mbr[mbr_signature := mbr_signature_lo];
          mbr = mbr[mbr_signature + 1 := mbr_signature_hi]
      in dev_write blkdev d mbr 0 1)"

section \<open>The table in a buffer\<close>

definition entry_at :: "u8 list \<Rightarrow> nat \<Rightarrow> MBRPartition" where
  "entry_at b p = \<lparr>physical_number = 0, start_sector = ucast (get32 b (p + 8)),
     num_sectors = ucast (get32 b (p + 12)), bootable = (get8 b p AND 0x80 \<noteq> 0), part_type = get8 b (p + 4)\<rparr>"

definition slot :: "nat \<Rightarrow> nat" where
  "slot k = ptbl_start + k * ptbl_size"

definition conf_entry :: "partition_conf \<Rightarrow> MBRPartition" where
  "conf_entry part = \<lparr>physical_number = 0, start_sector = ucast (ucast (conf_start_sector part) :: u32),
     num_sectors = ucast (ucast (conf_num_sectors part) :: u32), bootable = conf_bootable part,
     part_type = conf_type part\<rparr>"

lemma to_word_get32 [simp]: "p + 3 < length b \<Longrightarrow> to_word b p = Some (get32 b p)"
  by (simp add: to_word_def get32_def)

lemma wr8_set8: "p < length b \<Longrightarrow> wr8 b p v = Some (set8 b p v)"
  by (simp add: set8_def)

lemma store_word_set32: "p + 3 < length b \<Longrightarrow> store_word b p v = Some (set32 b p v)"
  by (simp add: store_word_def set32_def)

lemma rd8_get8: "p < length b \<Longrightarrow> rd8 b p = Some (get8 b p)"
  by (simp add: get8_def)

lemma read_partition_entry:
  "p + 15 < length b \<Longrightarrow> read_partition b p = Some (entry_at b p)"
  by (simp add: read_partition_def entry_at_def rd8_get8 mbr_layout add.commute del: rd8_Some)

lemma read_partitions_entries:
  "512 \<le> length b \<Longrightarrow> read_partitions b = Some [entry_at b (slot 0), entry_at b (slot 1), entry_at b (slot 2), entry_at b (slot 3)]"
  by (simp add: read_partitions_def num_parts_def numeral_eq_Suc read_partition_entry slot_def)
    (simp add: mbr_layout read_partition_entry)

text \<open>The buffer after an entry is stored.\<close>

definition stored_entry :: "u8 list \<Rightarrow> nat \<Rightarrow> partition_conf \<Rightarrow> u8 list" where
  "stored_entry mbr p part =
     (let s = conf_start_sector part; e = conf_start_sector part + conf_num_sectors part - 1;
        b = set8 mbr p (if conf_bootable part then 0x80 else 0);
        b = set8 b (p + 4) (conf_type part);
        b = set32 b (p + 12) (ucast (conf_num_sectors part));
        b = set32 b (p + 8) (ucast s);
        b = set8 b (p + 1) (chs_head s);
        b = set8 b (p + 2) (ucast ((drop_bit 2 (chs_cylinder s) AND 0xC0) OR ucast (chs_sector s)));
        b = set8 b (p + 3) (ucast (chs_cylinder s));
        b = set8 b (p + 5) (chs_head e);
        b = set8 b (p + 6) (ucast ((drop_bit 2 (chs_cylinder e) AND 0xC0) OR ucast (chs_sector e)))
      in set8 b (p + 7) (ucast (chs_cylinder e)))"

lemma store_entry_stored:
  assumes "slot (unat (conf_physical_number part)) + 15 < length mbr"
  shows "store_entry mbr part = Some (stored_entry mbr (slot (unat (conf_physical_number part))) part)"
  using assms
  by (simp add: store_entry_def stored_entry_def store_chs_def Let_def slot_def wr8_set8 store_word_set32
      mbr_layout del: wr8_Some)

lemma stored_entry_reads:
  assumes "p + 15 < length mbr"
  shows "length (stored_entry mbr p part) = length mbr"
    and "entry_at (stored_entry mbr p part) p = conf_entry part"
    and "q + 15 < p \<or> p + 15 < q \<Longrightarrow> entry_at (stored_entry mbr p part) q = entry_at mbr q"
    and "i < p \<or> p + 15 < i \<Longrightarrow> get8 (stored_entry mbr p part) i = get8 mbr i"
  using assms by (auto simp: stored_entry_def Let_def entry_at_def conf_entry_def)

text \<open>A partition number of 4 or more reaches past the buffer.\<close>

lemma store_entry_out_of_table:
  assumes "length mbr = 512" "4 \<le> unat (conf_physical_number part)"
  shows "store_entry mbr part = None"
proof -
  have "510 \<le> slot (unat (conf_physical_number part))" using assms by (simp add: slot_def mbr_layout)
  then have "wr8 b (slot (unat (conf_physical_number part)) + ptbl_type) (conf_type part) = None"
    if "length b = 512" for b using that by (simp add: wr8_def mbr_layout)
  then show ?thesis
    using assms(1) unfolding store_entry_def slot_def [symmetric] Let_def
    by (auto simp: bind_eq_None_conv wr8_eq_Some)
qed

lemma chs_wf:
  "unat (chs_head s) < 16" "1 \<le> unat (chs_sector s)" "unat (chs_sector s) \<le> 63"
proof -
  have "s div 63 mod 16 < 16" "s mod 63 < 63" by (simp_all add: word_mod_less_divisor)
  then have h: "unat (s div 63 mod 16) < 16" and c: "unat (s mod 63) < 63"
    by (simp_all add: word_less_nat_alt)
  then show "unat (chs_head s) < 16"
    by (simp add: chs_head_def unsigned_ucast_eq) (metis le_less_trans take_bit_nat_less_eq_self)
  have "unat (s mod 63 + 1) = unat (s mod 63) + 1" using c by (simp add: unat_plus_one_nowrap)
  then show "1 \<le> unat (chs_sector s)" "unat (chs_sector s) \<le> 63"
    using c take_bit_nat_eq_self [of "Suc (unat (s mod 63))" 8]
    by (simp_all add: chs_sector_def unsigned_ucast_eq)
qed

section \<open>Which entries are kept\<close>

lemma validate_partition_number [simp]:
  "validate_partition (part\<lparr>physical_number := n\<rparr>) ss cnt = validate_partition part ss cnt"
  by (simp add: validate_partition_def)

lemma keep_partitions_sub:
  "e \<in> set (keep_partitions ss cnt k parts) \<Longrightarrow>
    \<exists>part \<in> set parts. \<exists>n. e = part\<lparr>physical_number := n\<rparr> \<and> \<not> is_extended (part_type e) \<and>
      validate_partition e ss cnt \<and> num_sectors e \<noteq> 0"
proof (induction parts arbitrary: k)
  case (Cons part parts)
  have "e = part\<lparr>physical_number := word_of_int k\<rparr> \<and> \<not> is_extended (part_type part) \<and>
      validate_partition part ss cnt \<and> num_sectors part \<noteq> 0 \<or>
    (\<exists>j. e \<in> set (keep_partitions ss cnt j parts))"
    using Cons.prems by (auto split: if_splits)
  then show ?case
    using Cons.IH by (elim disjE exE) (auto intro!: exI [of _ "word_of_int k"])
qed simp

lemma keep_partitions_numbers:
  "0 \<le> k \<Longrightarrow> k + int (length parts) \<le> 256 \<Longrightarrow>
    sorted_wrt (<) (List.map (\<lambda>e. unat (physical_number e)) (keep_partitions ss cnt k parts)) \<and>
    (\<forall>e \<in> set (keep_partitions ss cnt k parts). k \<le> int (unat (physical_number e)) \<and>
       int (unat (physical_number e)) < k + int (length parts))"
proof (induction parts arbitrary: k)
  case (Cons part parts)
  have k: "int (unat (word_of_int k :: u8)) = k"
    using Cons.prems by (simp add: unat_eq_nat_uint uint_word_of_int)
  have same: "k + int (length parts) \<le> 256" and next_no: "0 \<le> k + 1" "k + 1 + int (length parts) \<le> 256"
    using Cons.prems by simp_all
  note here = Cons.IH [OF Cons.prems(1) same] and below = Cons.IH [OF next_no]
  consider (skip) "keep_partitions ss cnt k (part # parts) = keep_partitions ss cnt k parts"
    | (empty) "keep_partitions ss cnt k (part # parts) = keep_partitions ss cnt (k + 1) parts"
    | (kept) "keep_partitions ss cnt k (part # parts) =
        part\<lparr>physical_number := word_of_int k\<rparr> # keep_partitions ss cnt (k + 1) parts"
    by (cases "is_extended (part_type part)"; cases "validate_partition part ss cnt"; cases "num_sectors part = 0")
      (auto simp del: keep_partitions.simps simp: keep_partitions.simps(2))
  then show ?case
  proof cases
    case skip
    show ?thesis unfolding skip using here by fastforce
  next
    case empty
    show ?thesis unfolding empty using below by fastforce
  next
    case kept
    have "unat (word_of_int k :: u8) < unat (physical_number e)" if "e \<in> set (keep_partitions ss cnt (k + 1) parts)" for e
    proof -
      have "k + 1 \<le> int (unat (physical_number e))" using below that by blast
      then show ?thesis using k by linarith
    qed
    then show ?thesis unfolding kept using below k by fastforce
  qed
qed simp

text \<open>Without wrap-around the check of the code is that the partition ends inside the device.\<close>

lemma validate_partition_fits:
  assumes "unat cnt * unat ss < 2 ^ 64" "0 < unat ss" "unat ss < 2 ^ 31"
    and "unat (start_sector part) < 2 ^ 32" "unat (num_sectors part) < 2 ^ 32"
  shows "validate_partition part ss cnt \<longleftrightarrow>
    unat (start_sector part) + unat (num_sectors part) \<le> unat cnt"
proof -
  have bound: "unat (x::u64) * unat ss < 2 ^ 63" if "unat x < 2 ^ 32" for x
  proof -
    have "unat x * unat ss < 2 ^ 32 * 2 ^ 31"
      using that assms(2,3) by (intro mult_strict_mono) simp_all
    then show ?thesis by simp
  qed
  note b = bound [OF assms(4)] bound [OF assms(5)]
  have s: "unat (start_sector part * ss) = unat (start_sector part) * unat ss"
    and n: "unat (num_sectors part * ss) = unat (num_sectors part) * unat ss"
    and c: "unat (cnt * ss) = unat cnt * unat ss"
    using b assms(1) by (auto intro!: unat_mult_nowrap)
  have sn: "unat (start_sector part * ss + num_sectors part * ss) =
      unat (start_sector part) * unat ss + unat (num_sectors part) * unat ss"
    and ss2: "unat (start_sector part * ss + start_sector part * ss) =
      unat (start_sector part) * unat ss + unat (start_sector part) * unat ss"
    using b unat_plus_nowrap [of "start_sector part * ss" "num_sectors part * ss"]
      unat_plus_nowrap [of "start_sector part * ss" "start_sector part * ss"]
    by (simp_all only: s n len_of_numeral_defs) simp_all
  show ?thesis
    unfolding validate_partition_def Let_def word_less_nat_alt sn ss2 c s
    using assms(2) by (simp add: add_mult_distrib [symmetric] not_less)
qed

section \<open>On a device\<close>

context reliable_sector_device
begin

lemma first_sector_range: "unat ss \<le> len \<Longrightarrow> sectors_in_range ss len 0 1"
  by (simp add: sectors_in_range_def)

lemma first_sector_read:
  assumes "dev_ok d" "unat ss \<le> length (content d)"
  shows "\<exists>d'. dev_read device d 0 1 = Some (EOK, slice 0 (unat ss) (content d), d') \<and> dev_ok d' \<and> content d' = content d"
  using sector_read [OF assms(1) first_sector_range [OF assms(2)]]
    read_succeeds [OF assms(1) first_sector_range [OF assms(2)]] by fastforce

lemma first_sector_write:
  assumes "dev_ok d" "unat ss \<le> length (content d)" "length buf = unat ss"
  shows "\<exists>d'. dev_write device d buf 0 1 = Some (EOK, d') \<and> dev_ok d' \<and> content d' = splice 0 buf (content d)"
  using sector_write [OF assms(1) first_sector_range [OF assms(2)], of buf]
    write_succeeds [OF assms(1) first_sector_range [OF assms(2)], of buf] assms(3) by fastforce

text \<open>The buffer of the first sector, when a sector has 512 bytes.\<close>

lemma read_into_buffer:
  assumes "dev_ok d" "unat ss = 512" "512 \<le> length (content d)" "length buf = 512"
  shows "\<exists>d' bytes. dev_read device d 0 1 = Some (EOK, bytes, d') \<and> dev_ok d' \<and> content d' = content d \<and>
    memcpy_at buf 0 bytes = Some (take 512 (content d))"
  using first_sector_read [OF assms(1)] assms by (auto simp: slice_def splice_def)

lemma splice_front: "length buf = n \<Longrightarrow> n \<le> length b \<Longrightarrow> take n (splice 0 buf b) = buf"
  by (simp add: splice_def)

lemma write_partition_entry_ok:
  assumes d: "dev_ok d" "unat ss = 512" "512 \<le> length (content d)"
    and cnt: "get_sector_count device d = Inr cnt"
    and part: "unat (conf_physical_number part) < 4" "conf_num_sectors part \<noteq> 0"
      "unat (conf_start_sector part) + unat (conf_num_sectors part) \<le> unat cnt"
  shows "\<exists>d'. write_partition_entry device d part = Some (EOK, d') \<and> dev_ok d' \<and>
    content d' = splice 0 (stored_entry (take 512 (content d)) (slot (unat (conf_physical_number part))) part) (content d)"
proof -
  obtain d1 bytes where rd: "dev_read device d 0 1 = Some (EOK, bytes, d1)" "dev_ok d1" "content d1 = content d"
    "memcpy_at (replicate mbr_size 0) 0 bytes = Some (take 512 (content d))"
    using read_into_buffer [OF d, of "replicate mbr_size 0"] by (auto simp: mbr_size_def)
  have p: "slot (unat (conf_physical_number part)) + 15 < length (take 512 (content d))"
    using part(1) d(3) by (simp add: slot_def mbr_layout)
  obtain d2 where wr: "dev_write device d1 (stored_entry (take 512 (content d)) (slot (unat (conf_physical_number part))) part) 0 1 = Some (EOK, d2)"
    "dev_ok d2" "content d2 = splice 0 (stored_entry (take 512 (content d)) (slot (unat (conf_physical_number part))) part) (content d)"
    using first_sector_write [OF rd(2), of "stored_entry (take 512 (content d)) (slot (unat (conf_physical_number part))) part"]
      rd(3) d(2,3) stored_entry_reads(1) [OF p] by auto
  have "unat (cnt - conf_start_sector part) = unat cnt - unat (conf_start_sector part)"
    using part(3) by (simp add: unat_sub word_le_nat_alt)
  then have "\<not> cnt - conf_start_sector part < conf_num_sectors part"
    using part(3) by (simp add: word_less_nat_alt)
  then show ?thesis
    using rd wr part(2) cnt store_entry_stored [OF p] by (simp add: write_partition_entry_def)
qed

lemma create_mbr_ok:
  assumes d: "dev_ok d" "unat ss = 512" "512 \<le> length (content d)"
  shows "\<exists>d'. create_mbr device d = Some (EOK, d') \<and> dev_ok d' \<and>
    content d' = splice 0 ((replicate 512 0)[510 := 0x55, 511 := 0xAA]) (content d)"
  using first_sector_write [OF d(1), of "(replicate 512 0)[510 := 0x55, 511 := 0xAA]"] d
  by (simp add: create_mbr_def mbr_layout mbr_signature_lo_def mbr_signature_hi_def)

lemma erase_mbr_ok:
  assumes d: "dev_ok d" "unat ss = 512" "512 \<le> length (content d)"
  shows "\<exists>d'. erase_mbr device d = Some (EOK, d') \<and> dev_ok d' \<and> content d' = splice 0 (replicate 512 0) (content d)"
  using first_sector_write [OF d(1), of "replicate 512 0"] d by (simp add: erase_mbr_def mbr_size_def)

lemma validate_mbr_ok:
  assumes d: "dev_ok d" "unat ss = 512" "512 \<le> length (content d)"
  shows "\<exists>d'. validate_mbr device d = Some (if content d ! 510 \<noteq> 0x55 \<and> content d ! 511 \<noteq> 0xAA then ENXIO else EOK, d') \<and>
    dev_ok d' \<and> content d' = content d"
  using read_into_buffer [OF d, of "replicate mbr_size 0"] d(3)
  by (auto simp: validate_mbr_def signature_rejected_def mbr_layout mbr_signature_lo_def mbr_signature_hi_def)

text \<open>The partitions a device is found to have.\<close>

definition found_partitions :: "u64 \<Rightarrow> u8 list \<Rightarrow> MBRPartition list" where
  "found_partitions cnt b =
     keep_partitions ss cnt 0 [entry_at b (slot 0), entry_at b (slot 1), entry_at b (slot 2), entry_at b (slot 3)]"

lemma get_partition_entries_ok:
  assumes d: "dev_ok d" "unat ss = 512" "512 \<le> length (content d)"
    and cnt: "get_sector_count device d = Inr cnt"
  shows "\<exists>d'. get_partition_entries device d entries =
      Some (if content d ! 510 \<noteq> 0x55 \<and> content d ! 511 \<noteq> 0xAA then (ENXIO, entries, d')
        else (EOK, entries @ found_partitions cnt (take 512 (content d)), d')) \<and>
    dev_ok d' \<and> content d' = content d"
proof -
  obtain d1 bytes where rd: "dev_read device d 0 1 = Some (EOK, bytes, d1)" "dev_ok d1" "content d1 = content d"
    "memcpy_at (replicate (unat ss) 0) 0 bytes = Some (take 512 (content d))"
    using read_into_buffer [OF d, of "replicate (unat ss) 0"] d(2) by auto
  have sig: "signature_rejected (take 512 (content d)) = Some (content d ! 510 \<noteq> 0x55 \<and> content d ! 511 \<noteq> 0xAA)"
    using d(3) by (simp add: signature_rejected_def mbr_layout mbr_signature_lo_def mbr_signature_hi_def)
  show ?thesis
    using rd sector_size [OF d(1)] cnt d(3)
    by (simp add: get_partition_entries_def fetch_partitions_def sig read_partitions_entries found_partitions_def)
qed

end

lemma ram_sector_count: "get_sector_count RAM_device d = Inr (total_size d div 512)"
  by (simp add: RAM_device_def)

lemma ram_memory_limit: "ram_ok d \<Longrightarrow> unat (total_size d div 512) * 512 < 2 ^ 64"
  using unat_below [of "total_size d"] div_times_less_eq_dividend [of "unat (total_size d)" 512]
  by (simp add: unat_div ram_ok_def)

lemma ram_found_def:
  "ram.found_partitions cnt b =
     keep_partitions 512 cnt 0 [entry_at b (slot 0), entry_at b (slot 1), entry_at b (slot 2), entry_at b (slot 3)]"
  by (rule ram.found_partitions_def)

section \<open>Properties\<close>

text \<open>The configurations the tool is meant for: a slot of the table, and a non-empty range of the device
  that 32-bit fields can hold.\<close>

definition conf_ok :: "u64 \<Rightarrow> partition_conf \<Rightarrow> bool" where
  "conf_ok cnt part \<longleftrightarrow> unat (conf_physical_number part) < 4 \<and> conf_num_sectors part \<noteq> 0 \<and>
     unat (conf_start_sector part) + unat (conf_num_sectors part) \<le> unat cnt \<and>
     unat (conf_start_sector part) < 2 ^ 32 \<and> unat (conf_num_sectors part) < 2 ^ 32"

lemma ucast_low32: "unat (x::u64) < 2 ^ 32 \<Longrightarrow> ucast (ucast x :: u32) = x"
  using take_bit_nat_eq_self [of "unat x" 32]
  by (intro word_unat_eq_iff [THEN iffD2]) (simp add: unsigned_ucast_eq unsigned_take_bit_eq)

lemma conf_entry_exact:
  "conf_ok cnt part \<Longrightarrow> conf_entry part = \<lparr>physical_number = 0, start_sector = conf_start_sector part,
     num_sectors = conf_num_sectors part, bootable = conf_bootable part, part_type = conf_type part\<rparr>"
  by (simp add: conf_ok_def conf_entry_def ucast_low32)

lemma entry_at_take: "p + 15 < n \<Longrightarrow> entry_at (take n b) p = entry_at b p"
  by (simp add: entry_at_def get8_def get32_def)

lemma entry_at_splice: "p + 15 < length src \<Longrightarrow> entry_at (splice 0 src b) p = entry_at src p"
  by (simp add: entry_at_def get8_def get32_def splice_def nth_append)

lemma slot_below: "k < 4 \<Longrightarrow> slot k + 15 < 510"
  by (simp add: slot_def mbr_layout)

lemma slots_apart: "j \<noteq> k \<Longrightarrow> slot j + 15 < slot k \<or> slot k + 15 < slot j"
  by (simp add: slot_def mbr_layout) linarith

lemma slot_start: "446 \<le> slot k"
  by (simp add: slot_def mbr_layout)

text \<open>One entry written to the RAM disk.\<close>

lemma ram_write_entry:
  assumes d: "ram_ok d" "512 \<le> length (memory d)" and part: "conf_ok (total_size d div 512) part"
  shows "\<exists>d'. write_partition_entry RAM_device d part = Some (EOK, d') \<and> ram_ok d' \<and>
    total_size d' = total_size d \<and>
    entry_at (memory d') (slot (unat (conf_physical_number part))) = conf_entry part \<and>
    (\<forall>k < 4. k \<noteq> unat (conf_physical_number part) \<longrightarrow> entry_at (memory d') (slot k) = entry_at (memory d) (slot k)) \<and>
    (\<forall>i < length (memory d). i < 446 \<or> 510 \<le> i \<longrightarrow> memory d' ! i = memory d ! i)"
proof -
  let ?n = "unat (conf_physical_number part)"
  let ?new = "stored_entry (take 512 (memory d)) (slot ?n) part"
  have p: "slot ?n + 15 < length (take 512 (memory d))"
    using slot_below [of ?n] part d(2) by (simp add: conf_ok_def)
  note st = stored_entry_reads [OF p]
  obtain d' where w: "write_partition_entry RAM_device d part = Some (EOK, d')" "ram_ok d'"
    "memory d' = splice 0 ?new (memory d)"
    using ram.write_partition_entry_ok [OF d(1) _ d(2) ram_sector_count] part by (auto simp: conf_ok_def)
  have len: "length ?new = 512" using d(2) by (simp add: st(1))
  have size: "total_size d' = total_size d"
    using w(2,3) d len by (simp add: ram_ok_def word_unat_eq_iff)
  have at: "entry_at (memory d') (slot k) = entry_at ?new (slot k)" if "k < 4" for k
    using that slot_below [of k] len by (simp add: w(3) entry_at_splice)
  have old: "entry_at (take 512 (memory d)) (slot k) = entry_at (memory d) (slot k)" if "k < 4" for k
    using slot_below [OF that] by (simp add: entry_at_take)
  have rest: "memory d' ! i = memory d ! i" if "i < length (memory d)" "i < 446 \<or> 510 \<le> i" for i
  proof (cases "i < 512")
    case True
    then have "?new ! i = memory d ! i"
      using st(4) [of i] that(2) slot_start [of ?n] slot_below [of ?n] part
      by (auto simp: get8_def conf_ok_def)
    then show ?thesis using True len that(1) d(2) by (simp add: w(3) nth_splice)
  next
    case False
    then show ?thesis using len that(1) d(2) by (simp add: w(3) nth_splice)
  qed
  have other: "entry_at (memory d') (slot k) = entry_at (memory d) (slot k)" if "k < 4" "k \<noteq> ?n" for k
    using at old st(3) slots_apart that by metis
  show ?thesis
    using w(1,2) size at [of ?n] st(2) other rest part by (auto simp: conf_ok_def)
qed

text \<open>C18: Writing a valid partition entry (one of the four slots, not empty, inside the device, start and size
  below \<open>2 ^ 32\<close>) to a RAM disk stores exactly that entry: the table read back afterwards is the old table with
  the slot replaced by the configuration, and no byte outside the table changes.\<close>

theorem write_partition_entry_correct:
  assumes "ram_ok d" "512 \<le> length (memory d)" "conf_ok (total_size d div 512) part"
  shows "\<exists>d'. write_partition_entry RAM_device d part = Some (EOK, d') \<and> ram_ok d' \<and>
    read_partitions (take 512 (memory d')) = map_option (\<lambda>table. table[unat (conf_physical_number part) :=
      \<lparr>physical_number = 0, start_sector = conf_start_sector part, num_sectors = conf_num_sectors part,
       bootable = conf_bootable part, part_type = conf_type part\<rparr>]) (read_partitions (take 512 (memory d))) \<and>
    (\<forall>i < length (memory d). i < 446 \<or> 510 \<le> i \<longrightarrow> memory d' ! i = memory d ! i)"
proof -
  obtain d' where w: "write_partition_entry RAM_device d part = Some (EOK, d')" "ram_ok d'"
    "total_size d' = total_size d"
    "entry_at (memory d') (slot (unat (conf_physical_number part))) = conf_entry part"
    "\<forall>k < 4. k \<noteq> unat (conf_physical_number part) \<longrightarrow> entry_at (memory d') (slot k) = entry_at (memory d) (slot k)"
    "\<forall>i < length (memory d). i < 446 \<or> 510 \<le> i \<longrightarrow> memory d' ! i = memory d ! i"
    using ram_write_entry [OF assms] by blast
  have len: "512 \<le> length (memory d')" using w(2,3) assms by (simp add: ram_ok_def)
  have table: "read_partitions (take 512 b) = Some [entry_at b (slot 0), entry_at b (slot 1), entry_at b (slot 2), entry_at b (slot 3)]"
    if "512 \<le> length b" for b
    using that slot_below [of 0] slot_below [of 1] slot_below [of 2] slot_below [of 3]
    by (simp add: read_partitions_entries entry_at_take)
  have n: "unat (conf_physical_number part) \<in> {0, 1, 2, 3}" using assms(3) by (auto simp: conf_ok_def)
  have "[entry_at (memory d') (slot 0), entry_at (memory d') (slot 1), entry_at (memory d') (slot 2), entry_at (memory d') (slot 3)] =
      [entry_at (memory d) (slot 0), entry_at (memory d) (slot 1), entry_at (memory d) (slot 2), entry_at (memory d) (slot 3)]
        [unat (conf_physical_number part) := conf_entry part]"
    using n w(4,5) by auto
  then show ?thesis
    using w(1,2,6) table [OF len] table [OF assms(2)] conf_entry_exact [OF assms(3)] by simp
qed

definition sample_conf :: "nat \<Rightarrow> partition_conf" where
  "sample_conf k = \<lparr>conf_physical_number = of_nat k, conf_start_sector = of_nat (1 + k), conf_num_sectors = 1,
     conf_type = 0x83, conf_bootable = False\<rparr>"

lemma sample_conf_ok:
  "conf_ok 8 (sample_conf 0)" "conf_ok 8 (sample_conf 1)" "conf_ok 8 (sample_conf 2)" "conf_ok 8 (sample_conf 3)"
  by (simp_all add: conf_ok_def sample_conf_def)

lemma sample_ram_ok: "ram_ok (RAMBlockDevice_new 4096)" "512 \<le> length (memory (RAMBlockDevice_new 4096))"
  "total_size (RAMBlockDevice_new 4096) div 512 = 8"
  by (simp_all add: ram_ok_def RAMBlockDevice_new_def)

theorem write_partition_entry_correct_witness:
  "\<exists>d'. write_partition_entry RAM_device (RAMBlockDevice_new 4096) (sample_conf 2) = Some (EOK, d') \<and> ram_ok d'"
  using write_partition_entry_correct [OF sample_ram_ok(1,2), of "sample_conf 2"] sample_conf_ok
  by (auto simp: sample_ram_ok(3))

text \<open>Several entries with different numbers.\<close>

lemma ram_write_entries:
  assumes "ram_ok d" "512 \<le> length (memory d)" "\<forall>part \<in> set parts. conf_ok (total_size d div 512) part"
    and "distinct (List.map (\<lambda>part. unat (conf_physical_number part)) parts)"
  shows "\<exists>d'. write_partition_entries RAM_device d parts = Some (EOK, d') \<and> ram_ok d' \<and>
    total_size d' = total_size d \<and>
    (\<forall>part \<in> set parts. entry_at (memory d') (slot (unat (conf_physical_number part))) = conf_entry part) \<and>
    (\<forall>k < 4. k \<notin> (\<lambda>part. unat (conf_physical_number part)) ` set parts \<longrightarrow>
       entry_at (memory d') (slot k) = entry_at (memory d) (slot k)) \<and>
    (\<forall>i < length (memory d). i < 446 \<or> 510 \<le> i \<longrightarrow> memory d' ! i = memory d ! i)"
  using assms
proof (induction parts arbitrary: d)
  case (Cons part parts)
  have part: "conf_ok (total_size d div 512) part" using Cons.prems(3) by simp
  obtain d1 where w: "write_partition_entry RAM_device d part = Some (EOK, d1)" "ram_ok d1" "total_size d1 = total_size d"
    "entry_at (memory d1) (slot (unat (conf_physical_number part))) = conf_entry part"
    "\<forall>k < 4. k \<noteq> unat (conf_physical_number part) \<longrightarrow> entry_at (memory d1) (slot k) = entry_at (memory d) (slot k)"
    "\<forall>i < length (memory d). i < 446 \<or> 510 \<le> i \<longrightarrow> memory d1 ! i = memory d ! i"
    using ram_write_entry [OF Cons.prems(1,2) part] by blast
  have len: "length (memory d1) = length (memory d)" using w(2,3) Cons.prems(1) by (simp add: ram_ok_def)
  then have len1: "512 \<le> length (memory d1)" using Cons.prems(2) by simp
  have parts: "\<forall>part \<in> set parts. conf_ok (total_size d1 div 512) part"
    "distinct (List.map (\<lambda>part. unat (conf_physical_number part)) parts)"
    using Cons.prems(3,4) w(3) by auto
  obtain d2 where v: "write_partition_entries RAM_device d1 parts = Some (EOK, d2)" "ram_ok d2" "total_size d2 = total_size d1"
    "\<forall>part \<in> set parts. entry_at (memory d2) (slot (unat (conf_physical_number part))) = conf_entry part"
    "\<forall>k < 4. k \<notin> (\<lambda>part. unat (conf_physical_number part)) ` set parts \<longrightarrow>
       entry_at (memory d2) (slot k) = entry_at (memory d1) (slot k)"
    "\<forall>i < length (memory d1). i < 446 \<or> 510 \<le> i \<longrightarrow> memory d2 ! i = memory d1 ! i"
    using Cons.IH [OF w(2) len1 parts] by blast
  have first: "entry_at (memory d2) (slot (unat (conf_physical_number part))) = conf_entry part"
    using v(5) w(4) part Cons.prems(4) by (auto simp: conf_ok_def)
  show ?case
    using w v first len by (intro exI [of _ d2]) auto
qed auto

text \<open>A table with four usable entries in their slots is found as it was configured.\<close>

definition conf_partition :: "partition_conf \<Rightarrow> MBRPartition" where
  "conf_partition part = \<lparr>physical_number = conf_physical_number part, start_sector = conf_start_sector part,
     num_sectors = conf_num_sectors part, bootable = conf_bootable part, part_type = conf_type part\<rparr>"

lemma conf_entry_found:
  assumes "conf_ok cnt part" "\<not> is_extended (conf_type part)" "unat cnt * 512 < 2 ^ 64"
  shows "validate_partition (conf_entry part) 512 cnt" "\<not> is_extended (part_type (conf_entry part))"
    "num_sectors (conf_entry part) \<noteq> 0"
    "(conf_entry part)\<lparr>physical_number := conf_physical_number part\<rparr> = conf_partition part"
  using assms validate_partition_fits [of cnt 512 "conf_entry part"]
  by (auto simp: conf_entry_exact [OF assms(1)] conf_ok_def conf_partition_def)

lemma ram_found_confs:
  assumes "\<forall>part \<in> set [p0, p1, p2, p3]. conf_ok cnt part \<and> \<not> is_extended (conf_type part) \<and>
      entry_at bytes (slot (unat (conf_physical_number part))) = conf_entry part"
    and "List.map conf_physical_number [p0, p1, p2, p3] = [0, 1, 2, 3]" "unat cnt * 512 < 2 ^ 64"
  shows "ram.found_partitions cnt bytes = List.map conf_partition [p0, p1, p2, p3]"
proof -
  have at: "entry_at bytes (slot 0) = conf_entry p0" "entry_at bytes (slot 1) = conf_entry p1"
    "entry_at bytes (slot 2) = conf_entry p2" "entry_at bytes (slot 3) = conf_entry p3"
    using assms(1,2) by auto
  have found: "validate_partition (conf_entry part) 512 cnt" "\<not> is_extended (part_type (conf_entry part))"
    "num_sectors (conf_entry part) \<noteq> 0"
    "(conf_entry part)\<lparr>physical_number := conf_physical_number part\<rparr> = conf_partition part"
    if "part \<in> set [p0, p1, p2, p3]" for part
    using conf_entry_found [OF _ _ assms(3)] assms(1) that by blast+
  show ?thesis
    using found [of p0] found [of p1] found [of p2] found [of p3] assms(2)
    by (simp add: ram_found_def at at [unfolded One_nat_def])
qed

text \<open>A RAM disk with four usable entries written to its fresh boot record.\<close>

lemma ram_partitioned:
  assumes "ram_ok d" "512 \<le> length (memory d)"
    and "parts = [p0, p1, p2, p3]"
    and "\<forall>part \<in> set parts. conf_ok (total_size d div 512) part \<and> \<not> is_extended (conf_type part)"
    and "List.map conf_physical_number parts = [0, 1, 2, 3]"
  obtains d1 d2 where "create_mbr RAM_device d = Some (EOK, d1)" "write_partition_entries RAM_device d1 parts = Some (EOK, d2)"
    "ram_ok d2" "total_size d2 = total_size d" "512 \<le> length (memory d2)" "memory d2 ! 510 = 0x55"
    "ram.found_partitions (total_size d div 512) (take 512 (memory d2)) = List.map conf_partition parts"
proof -
  let ?cnt = "total_size d div 512"
  have mem: "ram_ok d1 \<Longrightarrow> total_size d1 = total_size d \<Longrightarrow> length (memory d1) = length (memory d)" for d1
    using assms(1) by (simp add: ram_ok_def)
  obtain d1 where c: "create_mbr RAM_device d = Some (EOK, d1)" "ram_ok d1"
    "memory d1 = splice 0 ((replicate 512 0)[510 := 0x55, 511 := 0xAA]) (memory d)"
    using ram.create_mbr_ok [OF assms(1) _ assms(2)] by auto
  have size1: "total_size d1 = total_size d"
    using c(2,3) assms(1,2) by (simp add: ram_ok_def word_unat_eq_iff)
  have len1: "512 \<le> length (memory d1)" using assms(2) mem [OF c(2) size1] by simp
  have parts: "\<forall>part \<in> set parts. conf_ok (total_size d1 div 512) part"
    "distinct (List.map (\<lambda>part. unat (conf_physical_number part)) parts)"
    using assms(3,4,5) size1 by auto
  obtain d2 where w: "write_partition_entries RAM_device d1 parts = Some (EOK, d2)" "ram_ok d2" "total_size d2 = total_size d1"
    "\<forall>part \<in> set parts. entry_at (memory d2) (slot (unat (conf_physical_number part))) = conf_entry part"
    "\<forall>i < length (memory d1). i < 446 \<or> 510 \<le> i \<longrightarrow> memory d2 ! i = memory d1 ! i"
    using ram_write_entries [OF c(2) len1 parts] by blast
  have len2: "512 \<le> length (memory d2)" using w(2,3) c(2) len1 by (simp add: ram_ok_def)
  have sig: "memory d2 ! 510 = 0x55"
    using w(5) len1 assms(2) by (auto simp: c(3) nth_splice)
  have entries: "entry_at (take 512 (memory d2)) (slot (unat (conf_physical_number part))) = conf_entry part"
    if "part \<in> set parts" for part
    using w(4) that parts(1) slot_below [of "unat (conf_physical_number part)"]
    by (simp add: entry_at_take conf_ok_def)
  have "ram.found_partitions ?cnt (take 512 (memory d2)) = List.map conf_partition parts"
    unfolding assms(3) using assms(3-5) entries ram_memory_limit [OF assms(1)] by (intro ram_found_confs) auto
  with c(1) w(1-3) size1 len2 sig show thesis using that by simp
qed

text \<open>The table survives the way to the disk: after \<open>create_mbr\<close> and the array version of
  \<open>write_partition_entry\<close> with four usable configurations in the four slots, \<open>get_partition_entries\<close>
  returns exactly these four partitions, numbered 0 to 3, and \<open>validate_mbr\<close> accepts the record.\<close>

theorem partition_table_roundtrip:
  assumes "ram_ok d" "512 \<le> length (memory d)"
    and "parts = [p0, p1, p2, p3]"
    and "\<forall>part \<in> set parts. conf_ok (total_size d div 512) part \<and> \<not> is_extended (conf_type part)"
    and "List.map conf_physical_number parts = [0, 1, 2, 3]"
  shows "\<exists>d1 d2 d3 d4. create_mbr RAM_device d = Some (EOK, d1) \<and>
    write_partition_entries RAM_device d1 parts = Some (EOK, d2) \<and>
    validate_mbr RAM_device d2 = Some (EOK, d3) \<and>
    get_partition_entries RAM_device d2 [] = Some (EOK,
      List.map (\<lambda>part. \<lparr>physical_number = conf_physical_number part, start_sector = conf_start_sector part,
        num_sectors = conf_num_sectors part, bootable = conf_bootable part, part_type = conf_type part\<rparr>) parts, d4)"
proof -
  obtain d1 d2 where d2: "create_mbr RAM_device d = Some (EOK, d1)" "write_partition_entries RAM_device d1 parts = Some (EOK, d2)"
    "ram_ok d2" "total_size d2 = total_size d" "512 \<le> length (memory d2)" "memory d2 ! 510 = 0x55"
    "ram.found_partitions (total_size d div 512) (take 512 (memory d2)) = List.map conf_partition parts"
    by (rule ram_partitioned [OF assms])
  have cnt: "get_sector_count RAM_device d2 = Inr (total_size d div 512)" by (simp add: ram_sector_count d2(4))
  obtain d3 where "validate_mbr RAM_device d2 = Some (EOK, d3)"
    using ram.validate_mbr_ok [OF d2(3) _ d2(5)] d2(6) by auto
  moreover obtain d4 where "get_partition_entries RAM_device d2 [] = Some (EOK, List.map conf_partition parts, d4)"
    using ram.get_partition_entries_ok [OF d2(3) _ d2(5) cnt, of "[]"] d2(6,7) by auto
  ultimately show ?thesis unfolding conf_partition_def [abs_def, symmetric] using d2(1,2) by blast
qed

theorem partition_table_roundtrip_witness:
  "\<exists>d1 d2 d4 entries. create_mbr RAM_device (RAMBlockDevice_new 4096) = Some (EOK, d1) \<and>
    write_partition_entries RAM_device d1 [sample_conf 0, sample_conf 1, sample_conf 2, sample_conf 3] = Some (EOK, d2) \<and>
    get_partition_entries RAM_device d2 [] = Some (EOK, entries, d4) \<and> length entries = 4"
proof -
  have "\<forall>part \<in> set [sample_conf 0, sample_conf 1, sample_conf 2, sample_conf 3].
      conf_ok (total_size (RAMBlockDevice_new 4096) div 512) part \<and> \<not> is_extended (conf_type part)"
    unfolding sample_ram_ok(3) using sample_conf_ok
    by (simp add: is_extended_def sample_conf_def ext_linux_part_def ext_part_def ext_win98_part_def)
  moreover have "List.map conf_physical_number [sample_conf 0, sample_conf 1, sample_conf 2, sample_conf 3] = [0, 1, 2, 3]"
    by (simp add: sample_conf_def)
  ultimately show ?thesis
    using partition_table_roundtrip [OF sample_ram_ok(1,2) refl] by fastforce
qed

lemma entry_fields_small:
  "unat (start_sector (entry_at b p)) < 2 ^ 32" "unat (num_sectors (entry_at b p)) < 2 ^ 32"
  using unat_below [of "get32 b (p + 8)"] unat_below [of "get32 b (p + 12)"] by (simp_all add: entry_at_def)

text \<open>C31: Whatever bytes the first sector holds, \<open>get_partition_entries\<close> reports \<open>ENXIO\<close> exactly when
  both signature bytes are wrong (one right byte is enough to be accepted), and otherwise keeps only
  partitions that are not extended, not empty and end inside the device, with increasing numbers below 4.\<close>

theorem get_partition_entries_sound:
  assumes "ram_ok d" "512 \<le> length (memory d)"
    and "get_partition_entries RAM_device d [] = Some (r, entries, d')"
  shows "(r = ENXIO) = (memory d ! 510 \<noteq> 0x55 \<and> memory d ! 511 \<noteq> 0xAA) \<and> (r = EOK \<or> r = ENXIO) \<and>
    memory d' = memory d \<and>
    (\<forall>e \<in> set entries. \<not> is_extended (part_type e) \<and> num_sectors e \<noteq> 0 \<and>
       (unat (start_sector e) + unat (num_sectors e)) * 512 \<le> length (memory d)) \<and>
    sorted_wrt (<) (List.map physical_number entries) \<and> (\<forall>e \<in> set entries. physical_number e < 4)"
proof -
  let ?cnt = "total_size d div 512" and ?b = "take 512 (memory d)"
  let ?parts = "[entry_at ?b (slot 0), entry_at ?b (slot 1), entry_at ?b (slot 2), entry_at ?b (slot 3)]"
  have run: "(r, entries) = (if memory d ! 510 \<noteq> 0x55 \<and> memory d ! 511 \<noteq> 0xAA then (ENXIO, [])
      else (EOK, ram.found_partitions ?cnt ?b)) \<and> memory d' = memory d"
    using ram.get_partition_entries_ok [OF assms(1) _ assms(2) ram_sector_count, of "[]"] assms(3) by auto
  have kept: "\<not> is_extended (part_type e) \<and> num_sectors e \<noteq> 0 \<and>
       (unat (start_sector e) + unat (num_sectors e)) * 512 \<le> length (memory d)"
    if e_in: "e \<in> set (ram.found_partitions ?cnt ?b)" for e
  proof -
    obtain part n where part: "part \<in> set ?parts" "e = part\<lparr>physical_number := n\<rparr>"
      and ok: "\<not> is_extended (part_type e)" "validate_partition e 512 ?cnt" "num_sectors e \<noteq> 0"
      using keep_partitions_sub [OF e_in [unfolded ram_found_def]] by blast
    have "unat (start_sector e) < 2 ^ 32" "unat (num_sectors e) < 2 ^ 32"
      using part entry_fields_small by auto
    then have "unat (start_sector e) + unat (num_sectors e) \<le> unat ?cnt"
      using ok(2) validate_partition_fits [of ?cnt 512 e] ram_memory_limit [OF assms(1)] by simp
    also have "\<dots> = length (memory d) div 512"
      using assms(1) by (simp add: unat_div ram_ok_def)
    finally show ?thesis using ok(1,3) by simp
  qed
  have numbers: "sorted_wrt (<) (List.map (\<lambda>e. unat (physical_number e)) (ram.found_partitions ?cnt ?b)) \<and>
    (\<forall>e \<in> set (ram.found_partitions ?cnt ?b). unat (physical_number e) < 4)"
  proof (intro conjI ballI)
    have few: "0 + int (length ?parts) \<le> 256" by simp
    note all = keep_partitions_numbers [OF order_refl few, of 512 ?cnt, folded ram_found_def]
    show "sorted_wrt (<) (List.map (\<lambda>e. unat (physical_number e)) (ram.found_partitions ?cnt ?b))"
      using all by blast
    fix e assume "e \<in> set (ram.found_partitions ?cnt ?b)"
    then have "int (unat (physical_number e)) < 0 + int (length ?parts)" using all by blast
    then have "unat (physical_number e) < length ?parts" by linarith
    then show "unat (physical_number e) < 4" by simp
  qed
  then have "sorted_wrt (<) (List.map physical_number (ram.found_partitions ?cnt ?b))"
      "\<forall>e \<in> set (ram.found_partitions ?cnt ?b). physical_number e < 4"
    by (simp_all add: sorted_wrt_map word_less_nat_alt)
  then show ?thesis
    using run kept by (cases "memory d ! 510 \<noteq> 0x55 \<and> memory d ! 511 \<noteq> 0xAA") simp_all
qed

theorem get_partition_entries_sound_witness:
  "\<exists>r entries d'. get_partition_entries RAM_device (RAMBlockDevice_new 4096) [] = Some (r, entries, d') \<and> r = ENXIO"
proof -
  let ?d = "RAMBlockDevice_new 4096"
  obtain r entries d' where run: "get_partition_entries RAM_device ?d [] = Some (r, entries, d')"
    using ram.get_partition_entries_ok [OF sample_ram_ok(1) _ sample_ram_ok(2) ram_sector_count, of "[]"]
    by (cases "memory ?d ! 510 \<noteq> 0x55 \<and> memory ?d ! 511 \<noteq> 0xAA") auto
  have "memory ?d ! 510 \<noteq> 0x55 \<and> memory ?d ! 511 \<noteq> 0xAA" by (simp add: RAMBlockDevice_new_def)
  then show ?thesis
    using get_partition_entries_sound [OF sample_ram_ok(1,2) run] run by blast
qed

text \<open>When a partition is refused, the numbers being those of sectors: it is empty, it reaches behind the end of the
  device, or it starts behind the end and is larger than the difference, which wraps around at \<open>2 ^ 64\<close>.\<close>

definition refused :: "nat \<Rightarrow> partition_conf \<Rightarrow> bool" where
  "refused cnt part = (let start = unat (conf_start_sector part); num = unat (conf_num_sectors part) in
     num = 0 \<or> (start \<le> cnt \<and> cnt < start + num) \<or> (cnt < start \<and> 2 ^ 64 + cnt < start + num))"

lemma refused_iff:
  "refused (unat cnt) part \<longleftrightarrow> conf_num_sectors part = 0 \<or> cnt - conf_start_sector part < conf_num_sectors part"
proof (cases "unat (conf_start_sector part) \<le> unat cnt")
  case True
  then have "unat (cnt - conf_start_sector part) = unat cnt - unat (conf_start_sector part)"
    by (simp add: unat_sub word_le_nat_alt)
  then have "cnt - conf_start_sector part < conf_num_sectors part \<longleftrightarrow>
      unat cnt < unat (conf_start_sector part) + unat (conf_num_sectors part)"
    unfolding word_less_nat_alt using True by linarith
  then show ?thesis using True by (simp add: refused_def unat_eq_0)
next
  case False
  then have "unat (cnt - conf_start_sector part) = 2 ^ 64 + unat cnt - unat (conf_start_sector part)"
    unfolding unat_sub_if' by simp
  moreover have "unat (conf_start_sector part) < 2 ^ LENGTH(64)" by (rule unsigned_less)
  then have "unat (conf_start_sector part) < 2 ^ 64" by simp
  ultimately have "cnt - conf_start_sector part < conf_num_sectors part \<longleftrightarrow>
      2 ^ 64 + unat cnt < unat (conf_start_sector part) + unat (conf_num_sectors part)"
    unfolding word_less_nat_alt by linarith
  then show ?thesis using False by (simp add: refused_def unat_eq_0)
qed

lemma ram_write_returns:
  assumes d: "ram_ok d" "512 \<le> length (memory d)" and part: "\<not> refused (unat (total_size d div 512)) part"
  shows "if unat (conf_physical_number part) < 4 then \<exists>d'. write_partition_entry RAM_device d part = Some (EOK, d')
    else write_partition_entry RAM_device d part = None"
proof -
  obtain d1 bytes where rd: "dev_read RAM_device d 0 1 = Some (EOK, bytes, d1)"
    "memcpy_at (replicate mbr_size 0) 0 bytes = Some (take 512 (memory d))" "ram_ok d1" "memory d1 = memory d"
    using ram.read_into_buffer [OF d(1) _ d(2), of "replicate mbr_size 0"] by (auto simp: mbr_size_def)
  have run: "write_partition_entry RAM_device d part = do {
      mbr \<leftarrow> store_entry (take 512 (memory d)) part; dev_write RAM_device d1 mbr 0 1 }"
    using part rd by (auto simp: write_partition_entry_def ram_sector_count refused_iff)
  show ?thesis
  proof (cases "unat (conf_physical_number part) < 4")
    case False
    then show ?thesis using store_entry_out_of_table [of "take 512 (memory d)" part] d(2) by (simp add: run)
  next
    case True
    then have p: "slot (unat (conf_physical_number part)) + 15 < length (take 512 (memory d))"
      using slot_below [OF True] d(2) by simp
    let ?new = "stored_entry (take 512 (memory d)) (slot (unat (conf_physical_number part))) part"
    have "\<exists>d'. dev_write RAM_device d1 ?new 0 1 = Some (EOK, d')"
      using ram.first_sector_write [OF rd(3), of ?new] stored_entry_reads(1) [OF p] d(2) rd(4) by auto
    then show ?thesis using True store_entry_stored [OF p] by (simp add: run)
  qed
qed

text \<open>C32: What \<open>write_partition_entry\<close> refuses, on a RAM disk: an empty partition, one that starts on the device and
  ends behind it, and one that starts behind the end and is larger than the wrapped difference are \<open>EINVAL\<close>
  before the device is touched. Everything else is accepted, a partition that starts behind the end of the
  device included as long as start and size stay within \<open>2 ^ 64\<close> sectors of the end; and a partition number
  beyond the table is not refused, the entry is stored past the end of the 512-byte buffer.\<close>

theorem write_partition_entry_refusals:
  assumes "ram_ok d" "512 \<le> length (memory d)"
  shows "if refused (unat (total_size d div 512)) part then write_partition_entry RAM_device d part = Some (EINVAL, d)
    else if unat (conf_physical_number part) < 4 then \<exists>d'. write_partition_entry RAM_device d part = Some (EOK, d')
    else write_partition_entry RAM_device d part = None"
proof (cases "refused (unat (total_size d div 512)) part")
  case True
  then show ?thesis by (auto simp: refused_iff write_partition_entry_def ram_sector_count)
next
  case False
  then show ?thesis using ram_write_returns [OF assms False] by simp
qed

text \<open>Sector 100 is behind the end of a disk of eight sectors.\<close>

theorem write_partition_entry_refusals_witness:
  "(\<exists>d'. write_partition_entry RAM_device (RAMBlockDevice_new 4096) ((sample_conf 0)\<lparr>conf_start_sector := 100\<rparr>) = Some (EOK, d')) \<and>
   write_partition_entry RAM_device (RAMBlockDevice_new 4096) (sample_conf 4) = None \<and>
   write_partition_entry RAM_device (RAMBlockDevice_new 4096) ((sample_conf 1)\<lparr>conf_num_sectors := 0\<rparr>) =
     Some (EINVAL, RAMBlockDevice_new 4096)"
proof -
  note refuse = write_partition_entry_refusals [OF sample_ram_ok(1,2), unfolded sample_ram_ok(3)]
  show ?thesis
    using refuse [of "sample_conf 4"] refuse [of "(sample_conf 0)\<lparr>conf_start_sector := 100\<rparr>"]
      refuse [of "(sample_conf 1)\<lparr>conf_num_sectors := 0\<rparr>"]
    by (simp add: sample_conf_def refused_def)
qed

end
