(* ===== verification/Disk.thy ===== *)
theory Disk
  imports Fdisk Unordered_Map
begin

text \<open>
  \<open>Disk\<close> (\<open>lib/common/disk.cpp\<close>), a block device with the partitions its master boot record lists, and
  \<open>DiskManager\<close> (\<open>lib/common/disk_mngr.cpp\<close>), the registry of disks by name. The state \<open>'d\<close> is that of
  all devices together; a \<open>BlockDevice\<close> record works on its part of it. The mutexes of both classes order
  the calls of different threads and are released on every path; the model is of one call after the
  other.
\<close>

section \<open>Disk\<close>

record 'd Disk =
  disk_device :: "'d BlockDevice"
  disk_partitions :: "MBRPartition list"

definition Disk_create :: "'d BlockDevice \<Rightarrow> 'd \<Rightarrow> ((errno + 'd Disk) \<times> 'd) option" where
  "Disk_create device d = do {
     (ret, parts, d) \<leftarrow> get_partition_entries device d [];
     if ret \<noteq> EOK \<and> ret \<noteq> ENXIO then Some (Inl ret, d)
     else Some (Inr \<lparr>disk_device = device, disk_partitions = parts\<rparr>, d) }"

definition borrow_partition :: "'d Disk \<Rightarrow> u8 \<Rightarrow> MBRPartition option" where
  "borrow_partition disk nr =
     (if length (disk_partitions disk) \<le> unat nr then None else Some (disk_partitions disk ! unat nr))"

text \<open>A disk is a block device that passes every call on.\<close>

definition Disk_probe :: "'d Disk \<Rightarrow> 'd \<Rightarrow> (errno \<times> 'd) option" where
  "Disk_probe disk d = dev_probe (disk_device disk) d"

definition Disk_flush :: "'d Disk \<Rightarrow> 'd \<Rightarrow> (errno \<times> 'd) option" where
  "Disk_flush disk d = dev_flush (disk_device disk) d"

definition Disk_write :: "'d Disk \<Rightarrow> 'd \<Rightarrow> u8 list \<Rightarrow> u64 \<Rightarrow> u64 \<Rightarrow> (errno \<times> 'd) option" where
  "Disk_write disk d buf lba count = dev_write (disk_device disk) d buf lba count"

definition Disk_read :: "'d Disk \<Rightarrow> 'd \<Rightarrow> u64 \<Rightarrow> u64 \<Rightarrow> (errno \<times> u8 list \<times> 'd) option" where
  "Disk_read disk d lba count = dev_read (disk_device disk) d lba count"

definition Disk_get_sector_size :: "'d Disk \<Rightarrow> 'd \<Rightarrow> errno + u64" where
  "Disk_get_sector_size disk d = get_sector_size (disk_device disk) d"

definition Disk_get_sector_count :: "'d Disk \<Rightarrow> 'd \<Rightarrow> errno + u64" where
  "Disk_get_sector_count disk d = get_sector_count (disk_device disk) d"

definition Disk_get_name :: "'d Disk \<Rightarrow> 'd \<Rightarrow> string" where
  "Disk_get_name disk d = get_name (disk_device disk) d"

definition Disk_as_device :: "'d Disk \<Rightarrow> 'd BlockDevice" where
  "Disk_as_device disk =
     \<lparr>dev_probe = Disk_probe disk, dev_flush = Disk_flush disk, dev_write = Disk_write disk,
      dev_read = Disk_read disk, get_sector_size = Disk_get_sector_size disk,
      get_sector_count = Disk_get_sector_count disk, get_name = Disk_get_name disk\<rparr>"

lemma Disk_as_device_id [simp]: "Disk_as_device disk = disk_device disk"
  by (intro BlockDevice.equality)
    (simp_all add: Disk_as_device_def Disk_probe_def Disk_flush_def Disk_write_def Disk_read_def
      Disk_get_sector_size_def Disk_get_sector_count_def Disk_get_name_def fun_eq_iff)

section \<open>Disk manager\<close>

record 'd DiskManager =
  m_disk_map :: "(string, 'd Disk) unordered_map"

definition DiskManager_new :: "'d DiskManager" where
  "DiskManager_new = \<lparr>m_disk_map = []\<rparr>"

definition register_device :: "'d DiskManager \<Rightarrow> 'd BlockDevice \<Rightarrow> 'd \<Rightarrow>
    ((errno + 'd Disk) \<times> 'd DiskManager \<times> 'd) option" where
  "register_device mngr blkdev d =
     (let name = get_name blkdev d in
      if umap_contains name (m_disk_map mngr) then Some (Inl EINVAL, mngr, d)
      else do {
        (ret, d) \<leftarrow> dev_probe blkdev d;
        if ret \<noteq> EOK then Some (Inl ret, mngr, d)
        else do {
          (disk, d) \<leftarrow> Disk_create blkdev d;
          (case disk of
             Inl e \<Rightarrow> Some (Inl e, mngr, d)
           | Inr disk \<Rightarrow> Some (Inr disk, mngr\<lparr>m_disk_map := umap_insert name disk (m_disk_map mngr)\<rparr>, d)) } })"

definition unregister_device :: "'d DiskManager \<Rightarrow> string \<Rightarrow> errno \<times> 'd DiskManager" where
  "unregister_device mngr device_name =
     (if \<not> umap_contains device_name (m_disk_map mngr) then (ENOENT, mngr)
      else (EOK, mngr\<lparr>m_disk_map := umap_erase device_name (m_disk_map mngr)\<rparr>))"

definition DiskManager_get :: "'d DiskManager \<Rightarrow> string \<Rightarrow> 'd Disk option" where
  "DiskManager_get mngr disk = map_of (m_disk_map mngr) disk"

definition DiskManager_size :: "'d DiskManager \<Rightarrow> nat" where
  "DiskManager_size mngr = length (m_disk_map mngr)"

section \<open>Properties\<close>

lemma register_device_cases:
  assumes "register_device mngr blkdev d = Some (res, mngr', d')"
  obtains (known) "DiskManager_get mngr (get_name blkdev d) \<noteq> None" "res = Inl EINVAL" "mngr' = mngr" "d' = d"
  | (failed) e where "DiskManager_get mngr (get_name blkdev d) = None" "res = Inl e" "mngr' = mngr"
  | (registered) disk where "DiskManager_get mngr (get_name blkdev d) = None" "res = Inr disk"
      "mngr' = mngr\<lparr>m_disk_map := umap_insert (get_name blkdev d) disk (m_disk_map mngr)\<rparr>"
      "disk_device disk = blkdev"
  using assms
  by (auto simp: register_device_def Disk_create_def Let_def DiskManager_get_def umap_contains_def bind_eq_Some_conv
      split: if_splits sum.splits)

text \<open>The registry: registering a device under a name that is taken is \<open>EINVAL\<close> and changes nothing
  (the device is not even probed); a failing probe or an unreadable table registers nothing; otherwise the
  name leads to the new disk over the device and every other name to what it led to before.\<close>

theorem register_device_correct:
  assumes "register_device mngr blkdev d = Some (res, mngr', d')"
  shows "(case res of
      Inl e \<Rightarrow> mngr' = mngr \<and> (DiskManager_get mngr (get_name blkdev d) \<noteq> None \<longrightarrow> e = EINVAL \<and> d' = d)
    | Inr disk \<Rightarrow> disk_device disk = blkdev \<and> DiskManager_get mngr (get_name blkdev d) = None \<and>
        DiskManager_get mngr' = (DiskManager_get mngr)(get_name blkdev d \<mapsto> disk))"
  using assms
proof (cases rule: register_device_cases)
  case (registered disk)
  then show ?thesis by (auto simp: DiskManager_get_def umap_simps umap_contains_def fun_eq_iff)
qed auto

text \<open>Unregistering undoes a registration: afterwards the registry is as if the device had never been
  registered, whatever was registered under other names, and a name that is not registered is \<open>ENOENT\<close>.\<close>

theorem unregister_after_register:
  assumes "register_device mngr blkdev d = Some (Inr disk, mngr', d')"
  shows "unregister_device mngr' (get_name blkdev d) = (EOK, mngr) \<and>
    unregister_device mngr (get_name blkdev d) = (ENOENT, mngr)"
  using assms
proof (cases rule: register_device_cases)
  case (registered disk')
  have absent: "\<not> umap_contains (get_name blkdev d) (m_disk_map mngr)"
    using registered(1) by (simp add: DiskManager_get_def umap_contains_def)
  have "umap_erase k m = m" if "\<not> umap_contains k m" for k and m :: "(string, 'a Disk) unordered_map"
    using that by (auto simp: umap_contains_keys umap_keys_def umap_erase_def filter_id_conv)
  then show ?thesis
    using absent registered(3)
    by (simp add: unregister_device_def umap_simps) (simp add: umap_insert_def umap_erase_def)
qed auto

lemma RAM_device_simps [simp]:
  "get_name RAM_device d = ''ram0''"
  "dev_probe RAM_device d = Some (EOK, d\<lparr>initialized := True\<rparr>)"
  by (simp_all add: RAM_device_def RAM_probe_def)

lemma Disk_create_ram:
  assumes "ram_ok d" "512 \<le> length (memory d)"
  obtains disk d' where "Disk_create RAM_device d = Some (Inr disk, d')" "memory d' = memory d" "ram_ok d'"
    "disk_device disk = RAM_device"
    "\<exists>r. get_partition_entries RAM_device d [] = Some (r, disk_partitions disk, d')"
proof -
  obtain r parts d' where run: "get_partition_entries RAM_device d [] = Some (r, parts, d')" "ram_ok d'"
      "memory d' = memory d" "r = EOK \<or> r = ENXIO"
    using ram.get_partition_entries_ok [OF assms(1) _ assms(2) ram_sector_count, of "[]"]
    by (cases "memory d ! 510 \<noteq> 0x55 \<and> memory d ! 511 \<noteq> 0xAA") auto
  then have "Disk_create RAM_device d = Some (Inr \<lparr>disk_device = RAM_device, disk_partitions = parts\<rparr>, d')"
    by (auto simp: Disk_create_def)
  then show thesis using that run by fastforce
qed

text \<open>A RAM disk registers whatever its first sector holds, with no partitions when it has no boot
  record, and every partition a registered disk lends out lies inside the device.\<close>

theorem register_ram_disk:
  assumes "ram_ok d" "512 \<le> length (memory d)" "DiskManager_get mngr ''ram0'' = None"
  shows "\<exists>disk mngr' d'. register_device mngr RAM_device d = Some (Inr disk, mngr', d') \<and>
    DiskManager_get mngr' ''ram0'' = Some disk \<and> memory d' = memory d \<and>
    (memory d ! 510 \<noteq> 0x55 \<and> memory d ! 511 \<noteq> 0xAA \<longrightarrow> disk_partitions disk = []) \<and>
    (\<forall>nr p. borrow_partition disk nr = Some p \<longrightarrow> part_fits 512 p (length (memory d')) \<and> num_sectors p \<noteq> 0)"
proof -
  let ?d = "d\<lparr>initialized := True\<rparr>"
  have d: "ram_ok ?d" "512 \<le> length (memory ?d)" using assms by (simp_all add: ram_ok_def)
  obtain disk d' where c': "Disk_create RAM_device ?d = Some (Inr disk, d')" "memory d' = memory ?d"
      "\<exists>r. get_partition_entries RAM_device ?d [] = Some (r, disk_partitions disk, d')"
    by (rule Disk_create_ram [OF d])
  then obtain r where c: "Disk_create RAM_device ?d = Some (Inr disk, d')" "memory d' = memory d"
      "get_partition_entries RAM_device ?d [] = Some (r, disk_partitions disk, d')" by auto
  note sound = get_partition_entries_sound [OF d c(3)]
  have empty: "disk_partitions disk = []" if "memory d ! 510 \<noteq> 0x55 \<and> memory d ! 511 \<noteq> 0xAA"
    using ram.get_partition_entries_ok [OF d(1) _ d(2) ram_sector_count, of "[]"] c(3) that by auto
  have fits: "part_fits 512 p (length (memory d')) \<and> num_sectors p \<noteq> 0" if "borrow_partition disk nr = Some p" for nr p
  proof -
    have "p \<in> set (disk_partitions disk)"
      using that by (auto simp: borrow_partition_def split: if_splits)
    then show ?thesis using sound c(2) by (auto simp: part_fits_def)
  qed
  have "register_device mngr RAM_device d =
      Some (Inr disk, mngr\<lparr>m_disk_map := umap_insert ''ram0'' disk (m_disk_map mngr)\<rparr>, d')"
    using assms(3) c(1)
    by (simp add: register_device_def Let_def DiskManager_get_def umap_contains_def)
  moreover have "DiskManager_get (mngr\<lparr>m_disk_map := umap_insert ''ram0'' disk (m_disk_map mngr)\<rparr>) ''ram0'' = Some disk"
    using assms(3) by (simp add: DiskManager_get_def umap_simps umap_contains_def)
  ultimately show ?thesis using c(2) empty fits by blast
qed

theorem register_ram_disk_witness:
  "\<exists>disk mngr' d'. register_device DiskManager_new RAM_device (RAMBlockDevice_new 4096) = Some (Inr disk, mngr', d') \<and>
    disk_partitions disk = []"
proof -
  have "DiskManager_get DiskManager_new ''ram0'' = None" by (simp add: DiskManager_get_def DiskManager_new_def)
  moreover have "memory (RAMBlockDevice_new 4096) ! 510 \<noteq> 0x55 \<and> memory (RAMBlockDevice_new 4096) ! 511 \<noteq> 0xAA"
    by (simp add: RAMBlockDevice_new_def)
  ultimately show ?thesis
    using register_ram_disk [OF sample_ram_ok(1,2), of DiskManager_new] by blast
qed

theorem register_device_correct_witness:
  "\<exists>disk mngr' d'. register_device DiskManager_new RAM_device (RAMBlockDevice_new 4096) = Some (Inr disk, mngr', d') \<and>
    DiskManager_get mngr' ''ram0'' = Some disk"
proof -
  obtain disk mngr' d' where r: "register_device DiskManager_new RAM_device (RAMBlockDevice_new 4096) = Some (Inr disk, mngr', d')"
  proof -
    let ?d = "(RAMBlockDevice_new 4096)\<lparr>initialized := True\<rparr>"
    have "ram_ok ?d" "512 \<le> length (memory ?d)" using sample_ram_ok by (simp_all add: ram_ok_def)
    then obtain disk d' where "Disk_create RAM_device ?d = Some (Inr disk, d')" using Disk_create_ram by metis
    then show thesis
      using that by (simp add: register_device_def Let_def umap_contains_def DiskManager_new_def)
  qed
  then show ?thesis
    using register_device_correct [OF r] by auto
qed

theorem unregister_after_register_witness:
  "\<exists>mngr'. unregister_device mngr' ''ram0'' = (EOK, DiskManager_new :: RAMBlockDevice DiskManager)"
proof -
  let ?d = "(RAMBlockDevice_new 4096)\<lparr>initialized := True\<rparr>"
  have "ram_ok ?d" "512 \<le> length (memory ?d)" using sample_ram_ok by (simp_all add: ram_ok_def)
  then obtain disk d' where "Disk_create RAM_device ?d = Some (Inr disk, d')" using Disk_create_ram by metis
  then have "register_device DiskManager_new RAM_device (RAMBlockDevice_new 4096) =
      Some (Inr disk, \<lparr>m_disk_map = [(''ram0'', disk)]\<rparr>, d')"
    by (simp add: register_device_def Let_def umap_contains_def umap_insert_def DiskManager_new_def)
  from unregister_after_register [OF this] show ?thesis by auto
qed

text \<open>Numbers and positions. The number in a partition's name counts the valid entries, empty ones
  included, while \<open>borrow_partition\<close> takes a position in the list of the partitions that are kept.\<close>

definition no_gaps :: "u64 \<Rightarrow> u64 \<Rightarrow> MBRPartition list \<Rightarrow> bool" where
  "no_gaps ss cnt parts \<longleftrightarrow>
     (\<forall>part \<in> set parts. \<not> is_extended (part_type part) \<longrightarrow> validate_partition part ss cnt \<longrightarrow> num_sectors part \<noteq> 0)"

lemma keep_partitions_positions:
  "no_gaps ss cnt parts \<Longrightarrow>
    List.map physical_number (keep_partitions ss cnt k parts) =
    List.map (\<lambda>i. word_of_int (k + int i)) [0..<length (keep_partitions ss cnt k parts)]"
proof (induction parts arbitrary: k)
  case (Cons part parts)
  have gaps: "no_gaps ss cnt parts" using Cons.prems by (simp add: no_gaps_def)
  have shift: "List.map (\<lambda>i. word_of_int (k + int i)) [0..<Suc n] =
      (word_of_int k :: u8) # List.map (\<lambda>i. word_of_int (k + 1 + int i)) [0..<n]" for n
    by (simp add: map_upt_Suc add.assoc add.commute del: upt_Suc)
  show ?case
    using Cons.IH [OF gaps] Cons.prems shift by (auto simp: no_gaps_def)
qed simp

lemma keep_partitions_length: "length (keep_partitions ss cnt k parts) \<le> length parts"
  by (induction parts arbitrary: k) (auto intro: le_SucI)

text \<open>When no valid entry of the table is empty, the number in a partition's name is the position that
  \<open>borrow_partition\<close> takes, so a partition is found again under its own number.\<close>

theorem borrow_partition_by_number:
  assumes "no_gaps ss cnt table" "length table \<le> 256"
    and "disk_partitions disk = keep_partitions ss cnt 0 table" "p \<in> set (disk_partitions disk)"
  shows "borrow_partition disk (physical_number p) = Some p"
proof -
  let ?ps = "keep_partitions ss cnt 0 table"
  obtain i where i: "i < length ?ps" "p = ?ps ! i" using assms(3,4) by (metis in_set_conv_nth)
  have "length ?ps \<le> length table" by (rule keep_partitions_length)
  then have small: "i < 256" using i(1) assms(2) by simp
  have "List.map physical_number ?ps ! i = List.map (\<lambda>i. word_of_int (0 + int i)) [0..<length ?ps] ! i"
    by (simp only: keep_partitions_positions [OF assms(1)])
  then have "physical_number p = word_of_int (int i)" using i by simp
  then have "unat (physical_number p) = i"
    using small take_bit_nat_eq_self [of i 8] by (simp add: unsigned_of_nat)
  then show ?thesis using assms(3) i by (simp add: borrow_partition_def)
qed

definition sample_entry :: "u64 \<Rightarrow> u64 \<Rightarrow> u8 \<Rightarrow> MBRPartition" where
  "sample_entry s n t = \<lparr>physical_number = 0, start_sector = s, num_sectors = n, bootable = False, part_type = t\<rparr>"

theorem borrow_partition_by_number_witness:
  "borrow_partition \<lparr>disk_device = RAM_device, disk_partitions =
      [sample_entry 1 2 0x83, (sample_entry 3 2 0x0C)\<lparr>physical_number := 1\<rparr>]\<rparr> 1 =
    Some ((sample_entry 3 2 0x0C)\<lparr>physical_number := 1\<rparr>)"
proof -
  let ?table = "[sample_entry 1 2 0x83, sample_entry 3 2 0x0C]"
  have "no_gaps 512 8 ?table" by (simp add: no_gaps_def sample_entry_def)
  moreover have "keep_partitions 512 8 0 ?table =
      [sample_entry 1 2 0x83, (sample_entry 3 2 0x0C)\<lparr>physical_number := 1\<rparr>]"
    by (simp add: sample_entry_def is_extended_def ext_part_def ext_linux_part_def ext_win98_part_def validate_partition_def)
  ultimately show ?thesis
    using borrow_partition_by_number [of 512 8 ?table
        "\<lparr>disk_device = RAM_device, disk_partitions =
          [sample_entry 1 2 0x83, (sample_entry 3 2 0x0C)\<lparr>physical_number := 1\<rparr>]\<rparr>"
        "(sample_entry 3 2 0x0C)\<lparr>physical_number := 1\<rparr>"]
    by simp
qed

text \<open>With an empty entry in front the partition named \<open>p1\<close> is at position 0: asking for 1 finds nothing.\<close>

lemma borrow_partition_after_gap:
  "keep_partitions 512 8 0 [sample_entry 0 0 0, sample_entry 3 2 0x83] = [(sample_entry 3 2 0x83)\<lparr>physical_number := 1\<rparr>]"
  "borrow_partition \<lparr>disk_device = RAM_device, disk_partitions = [(sample_entry 3 2 0x83)\<lparr>physical_number := 1\<rparr>]\<rparr> 1 = None"
  by (simp_all add: borrow_partition_def sample_entry_def is_extended_def ext_part_def ext_linux_part_def
      ext_win98_part_def validate_partition_def)

section \<open>From a blank device to its partitions\<close>

text \<open>C12: A RAM disk that is partitioned and then registered lends out what was configured: \<open>create_mbr\<close>, the writing
  of four usable entries and \<open>validate_mbr\<close> succeed, registering the device under a free name succeeds, and
  the new disk lends out under every number the partition that was configured with it, with its start,
  size, type and boot flag.\<close>

theorem partitioned_disk_roundtrip:
  assumes "ram_ok d" "512 \<le> length (memory d)"
    and "\<forall>part \<in> set [p0, p1, p2, p3]. conf_ok (total_size d div 512) part \<and> \<not> is_extended (conf_type part)"
    and "List.map conf_physical_number [p0, p1, p2, p3] = [0, 1, 2, 3]"
    and "DiskManager_get mngr ''ram0'' = None"
  shows "\<exists>d1 d2 d3 disk mngr' d4. create_mbr RAM_device d = Some (EOK, d1) \<and>
    write_partition_entries RAM_device d1 [p0, p1, p2, p3] = Some (EOK, d2) \<and>
    validate_mbr RAM_device d2 = Some (EOK, d3) \<and>
    register_device mngr RAM_device d2 = Some (Inr disk, mngr', d4) \<and> DiskManager_get mngr' ''ram0'' = Some disk \<and>
    (\<forall>part \<in> set [p0, p1, p2, p3]. borrow_partition disk (conf_physical_number part) =
      Some \<lparr>physical_number = conf_physical_number part, start_sector = conf_start_sector part,
        num_sectors = conf_num_sectors part, bootable = conf_bootable part, part_type = conf_type part\<rparr>)"
proof -
  obtain d1 d2 where d2: "create_mbr RAM_device d = Some (EOK, d1)" "write_partition_entries RAM_device d1 [p0, p1, p2, p3] = Some (EOK, d2)"
    "ram_ok d2" "total_size d2 = total_size d" "512 \<le> length (memory d2)" "memory d2 ! 510 = 0x55"
    "ram.found_partitions (total_size d div 512) (take 512 (memory d2)) = List.map conf_partition [p0, p1, p2, p3]"
    by (rule ram_partitioned [OF assms(1,2) refl assms(3,4)])
  let ?d2 = "d2\<lparr>initialized := True\<rparr>"
  have probed: "ram_ok ?d2" "512 \<le> length (memory ?d2)" "get_sector_count RAM_device ?d2 = Inr (total_size d div 512)"
    using d2(3-5) by (simp_all add: ram_ok_def ram_sector_count)
  obtain d4 where "get_partition_entries RAM_device ?d2 [] = Some (EOK, List.map conf_partition [p0, p1, p2, p3], d4)"
    using ram.get_partition_entries_ok [OF probed(1) _ probed(2,3), of "[]"] d2(6,7) by auto
  then have "register_device mngr RAM_device d2 = Some (Inr \<lparr>disk_device = RAM_device,
      disk_partitions = List.map conf_partition [p0, p1, p2, p3]\<rparr>, mngr\<lparr>m_disk_map := umap_insert ''ram0'' \<lparr>disk_device = RAM_device,
      disk_partitions = List.map conf_partition [p0, p1, p2, p3]\<rparr> (m_disk_map mngr)\<rparr>, d4)"
    using assms(5) by (simp add: register_device_def Disk_create_def umap_contains_def DiskManager_get_def)
  moreover obtain d3 where "validate_mbr RAM_device d2 = Some (EOK, d3)"
    using ram.validate_mbr_ok [OF d2(3) _ d2(5)] d2(6) by auto
  ultimately show ?thesis using d2(1,2) assms(4,5)
    by (simp add: borrow_partition_def conf_partition_def DiskManager_get_def umap_insert_def umap_contains_def)
qed

theorem partitioned_disk_roundtrip_witness:
  "\<exists>d1 d2 disk mngr' d4. create_mbr RAM_device (RAMBlockDevice_new 4096) = Some (EOK, d1) \<and>
    write_partition_entries RAM_device d1 [sample_conf 0, sample_conf 1, sample_conf 2, sample_conf 3] = Some (EOK, d2) \<and>
    register_device DiskManager_new RAM_device d2 = Some (Inr disk, mngr', d4) \<and> borrow_partition disk 2 \<noteq> None"
proof -
  have "\<forall>part \<in> set [sample_conf 0, sample_conf 1, sample_conf 2, sample_conf 3].
      conf_ok (total_size (RAMBlockDevice_new 4096) div 512) part \<and> \<not> is_extended (conf_type part)"
    unfolding sample_ram_ok(3) using sample_conf_ok
    by (simp add: is_extended_def sample_conf_def ext_linux_part_def ext_part_def ext_win98_part_def)
  moreover have numbers: "List.map conf_physical_number [sample_conf 0, sample_conf 1, sample_conf 2, sample_conf 3] = [0, 1, 2, 3]"
    by (simp add: sample_conf_def)
  moreover have "DiskManager_get DiskManager_new ''ram0'' = None" by (simp add: DiskManager_get_def DiskManager_new_def)
  ultimately obtain d1 d2 disk mngr' d4 where run: "create_mbr RAM_device (RAMBlockDevice_new 4096) = Some (EOK, d1)"
    "write_partition_entries RAM_device d1 [sample_conf 0, sample_conf 1, sample_conf 2, sample_conf 3] = Some (EOK, d2)"
    "register_device DiskManager_new RAM_device d2 = Some (Inr disk, mngr', d4)"
    "borrow_partition disk (conf_physical_number (sample_conf 2)) \<noteq> None"
    using partitioned_disk_roundtrip [OF sample_ram_ok(1,2), of "sample_conf 0" "sample_conf 1" "sample_conf 2" "sample_conf 3"]
    by (metis list.set_intros option.distinct(1))
  then show ?thesis by (auto simp: sample_conf_def)
qed

end
