(* ===== verification/Vfs.thy ===== *)
theory Vfs
  imports Disk Fd_Container Locker
begin

text \<open>
  The virtual file system (\<open>lib/common/vfs.cpp\<close>): mount points, the table of open files and the
  operations of \<open>VirtualFS\<close>, which find the mount point of a path or descriptor, lock it and call the
  method of its file system.

  The record \<open>VirtualFS\<close> is \<open>VirtualFS::Pimpl\<close> with the state \<open>world\<close> of everything outside (devices,
  the ext4 library, the standard streams). The classes the code reaches through virtual calls are
  records of functions: \<open>Filesystem\<close>, \<open>BlockDevice\<close>, \<open>StdStream\<close>; a \<open>FilesystemFactory\<close> is a function.
  An operation is a function from the state to its result and the new state, and \<open>None\<close> is any end that
  is not a return: a self-deadlock on a mutex, an exception (\<open>unordered_map::at\<close>, \<open>std::stoi\<close>; the
  \<open>noexcept\<close> operations turn it into \<open>std::terminate\<close>), a null pointer called, the overflow of the
  descriptor counter. Log messages are left out.
\<close>

section \<open>File system types, factories and mount points\<close>

record fs_type =
  type_name :: string
  type_codes :: "u8 list"

text \<open>\<open>operator==\<close> and the hash look at the name alone.\<close>

definition fs_type_eq :: "fs_type \<Rightarrow> fs_type \<Rightarrow> bool" where
  "fs_type_eq a b = (type_name a = type_name b)"

definition ext4_type :: fs_type where "ext4_type = \<lparr>type_name = ''ext4'', type_codes = [0x83]\<rparr>"
definition ext3_type :: fs_type where "ext3_type = \<lparr>type_name = ''ext3'', type_codes = [0x83]\<rparr>"
definition vfat_type :: fs_type where "vfat_type = \<lparr>type_name = ''vfat'', type_codes = [0x01, 0x06, 0x0C]\<rparr>"

type_synonym ('f, 'h, 'd, 'w) fs_factory = "'w BlockDevice \<Rightarrow> Flags \<Rightarrow> 'w \<Rightarrow> (('f, 'h, 'd, 'w) Filesystem \<times> 'f) \<times> 'w"

text \<open>The null pointer is \<open>None\<close>; \<open>lwext4\<close> is the factory of \<open>filesystem_lwext4\<close>.\<close>

definition get_fs_factory :: "('f, 'h, 'd, 'w) fs_factory \<Rightarrow> fs_type \<Rightarrow> ('f, 'h, 'd, 'w) fs_factory option" where
  "get_fs_factory lwext4 t =
     (if fs_type_eq t ext4_type \<or> fs_type_eq t ext3_type then Some lwext4
      else if fs_type_eq t vfat_type then None
      else None)"

record ('f, 'h, 'd, 'w) MountPoint =
  mp_fs :: "('f, 'h, 'd, 'w) Filesystem"
  mp_self :: 'f
  mp_disk :: "'w BlockDevice"
  mp_root :: string
  mp_flags :: Flags
  mp_type :: fs_type

record 'w StdStream =
  std_in :: "u8 list \<Rightarrow> 'w \<Rightarrow> (nat result \<times> u8 list) \<times> 'w"
  std_out :: "u8 list \<Rightarrow> 'w \<Rightarrow> nat result \<times> 'w"
  std_err :: "u8 list \<Rightarrow> 'w \<Rightarrow> nat result \<times> 'w"

record PartitionStats =
  ps_disk_name :: string
  ps_mount_point :: string
  ps_type :: string
  ps_flags :: Flags
  ps_used_space :: u64
  ps_free_space :: u64

record ('f, 'h, 'd, 'w) VirtualFS =
  m_disk_mgr :: "'w DiskManager"
  m_fs_factories :: "(string, fs_type \<times> ('f, 'h, 'd, 'w) fs_factory option) unordered_map"
  m_mounts :: "(string, ('f, 'h, 'd, 'w) MountPoint locker) unordered_map"
  m_mutex :: nat
  m_fd_container :: "'h file_descriptor_container"
  m_volume_index :: u32
  m_stdstream :: "'w StdStream"
  world :: 'w

definition VirtualFS_new :: "'w DiskManager \<Rightarrow> 'w StdStream \<Rightarrow> 'w \<Rightarrow> ('f, 'h, 'd, 'w) VirtualFS" where
  "VirtualFS_new dmngr stream w =
     \<lparr>m_disk_mgr = dmngr, m_fs_factories = [], m_mounts = [], m_mutex = 0,
      m_fd_container = file_descriptor_container_new, m_volume_index = 0, m_stdstream = stream, world = w\<rparr>"

section \<open>Locks\<close>

text \<open>A \<open>std::lock_guard\<close> on the recursive mutex around a body, released on every return of the body.\<close>

definition lock_guard :: "(('f, 'h, 'd, 'w) VirtualFS \<Rightarrow> ('r \<times> ('f, 'h, 'd, 'w) VirtualFS) option) \<Rightarrow>
    ('f, 'h, 'd, 'w) VirtualFS \<Rightarrow> ('r \<times> ('f, 'h, 'd, 'w) VirtualFS) option" where
  "lock_guard body v = do {
     (r, v) \<leftarrow> body (v\<lparr>m_mutex := rm_lock (m_mutex v)\<rparr>);
     n \<leftarrow> rm_unlock (m_mutex v);
     Some (r, v\<lparr>m_mutex := n\<rparr>) }"

text \<open>Locking the mount point of a key (\<open>unordered_map::at\<close> throws when there is none), calling a method of
  its file system with the lock held, and releasing the lock.\<close>

definition lock_mount :: "string \<Rightarrow> ('f, 'h, 'd, 'w) VirtualFS \<Rightarrow>
    (('f, 'h, 'd, 'w) MountPoint \<times> ('f, 'h, 'd, 'w) VirtualFS) option" where
  "lock_mount key v = do {
     l \<leftarrow> map_of (m_mounts v) key;
     l \<leftarrow> locker_lock l;
     Some (locked_get l, v\<lparr>m_mounts := umap_modify key (\<lambda>_. l) (m_mounts v)\<rparr>) }"

definition unlock_mount :: "string \<Rightarrow> ('f, 'h, 'd, 'w) VirtualFS \<Rightarrow> ('f, 'h, 'd, 'w) VirtualFS" where
  "unlock_mount key v = v\<lparr>m_mounts := umap_modify key locked_release (m_mounts v)\<rparr>"

definition run_method :: "string \<Rightarrow> ('f, 'h, 'd, 'w) MountPoint \<Rightarrow>
    (('f, 'h, 'd, 'w) Filesystem \<Rightarrow> ('f, 'w, 'r) fs_method) \<Rightarrow> ('f, 'h, 'd, 'w) VirtualFS \<Rightarrow>
    'r \<times> ('f, 'h, 'd, 'w) VirtualFS" where
  "run_method key mp method v =
     (case method (mp_fs mp) (mp_self mp) (world v) of (r, self, w) \<Rightarrow>
        (r, v\<lparr>m_mounts := umap_modify key
            (\<lambda>l. l\<lparr>locker_value := (locker_value l)\<lparr>mp_self := self\<rparr>\<rparr>) (m_mounts v), world := w\<rparr>))"

definition call_locked :: "string \<Rightarrow> (('f, 'h, 'd, 'w) Filesystem \<Rightarrow> ('f, 'w, 'r) fs_method) \<Rightarrow>
    ('f, 'h, 'd, 'w) VirtualFS \<Rightarrow> ('r \<times> ('f, 'h, 'd, 'w) VirtualFS) option" where
  "call_locked key method v = do {
     (mp, v) \<leftarrow> lock_mount key v;
     let (r, v) = run_method key mp method v;
     Some (r, unlock_mount key v) }"

section \<open>Statistics\<close>

definition get_mount_point_stats :: "string \<Rightarrow> ('f, 'h, 'd, 'w) MountPoint \<Rightarrow> ('f, 'h, 'd, 'w) VirtualFS \<Rightarrow>
    PartitionStats \<times> ('f, 'h, 'd, 'w) VirtualFS" where
  "get_mount_point_stats key mnt v =
     (case run_method key mnt (\<lambda>fs. fs_stat_vfs fs (mp_root mnt) statvfs_zero) v of ((_, stat_vfs), v) \<Rightarrow>
        let free_space = f_bfree stat_vfs * f_bsize stat_vfs in
        (\<lparr>ps_disk_name = get_name (mp_disk mnt) (world v), ps_mount_point = mp_root mnt,
          ps_type = type_name (mp_type mnt), ps_flags = mp_flags mnt,
          ps_used_space = (f_blocks stat_vfs * f_frsize stat_vfs) - free_space, ps_free_space = free_space\<rparr>, v))"

section \<open>Finding things\<close>

text \<open>\<open>path.find(key) != npos\<close>: the key occurs somewhere in the path.\<close>

fun occurs_in :: "string \<Rightarrow> string \<Rightarrow> bool" where
  "occurs_in key [] = (key = [])"
| "occurs_in key (c # cs) = (take (length key) (c # cs) = key \<or> occurs_in key cs)"

fun find_mount_point :: "string \<Rightarrow> (string, 'a) unordered_map \<Rightarrow> string option" where
  "find_mount_point path [] = None"
| "find_mount_point path ((key, l) # m) = (if occurs_in key path then Some key else find_mount_point path m)"

definition absolute_path :: "string \<Rightarrow> string result" where
  "absolute_path path = (if \<not> has_root_path path then Inl EINVAL else Inr (lexically_normal path))"

definition get_fs_type_from_mbr_code :: "u8 \<Rightarrow> ('f, 'h, 'd, 'w) VirtualFS \<Rightarrow> fs_type option" where
  "get_fs_type_from_mbr_code mbr_code v =
     (case filter (\<lambda>(_, t, _). mbr_code \<in> set (type_codes t)) (m_fs_factories v) of
        [] \<Rightarrow> None | (_, t, _) # _ \<Rightarrow> Some t)"

text \<open>\<open>std::stoi\<close>: white space, a sign, digits up to the first other character; no digit and a value
  outside \<open>int\<close> are exceptions.\<close>

definition is_space :: "char \<Rightarrow> bool" where
  "is_space c = (c \<in> set [CHR 0x20, CHR 0x09, CHR 0x0A, CHR 0x0B, CHR 0x0C, CHR 0x0D])"

definition digit_value :: "char \<Rightarrow> nat option" where
  "digit_value c = (let n = of_char c :: nat in if 48 \<le> n \<and> n \<le> 57 then Some (n - 48) else None)"

fun digits_value :: "nat \<Rightarrow> string \<Rightarrow> nat" where
  "digits_value acc [] = acc"
| "digits_value acc (c # cs) = (case digit_value c of None \<Rightarrow> acc | Some k \<Rightarrow> digits_value (10 * acc + k) cs)"

definition stoi :: "string \<Rightarrow> int option" where
  "stoi s =
     (let s = dropWhile is_space s;
          (sign, s) = (case s of [] \<Rightarrow> (1, []) | c # cs \<Rightarrow>
            if c = CHR 0x2D then (-1, cs) else if c = CHR 0x2B then (1, cs) else (1::int, s))
      in case s of [] \<Rightarrow> None | c # _ \<Rightarrow>
        if digit_value c = None then None
        else let n = sign * int (digits_value 0 s) in
          if n < - INT_MAX - 1 \<or> INT_MAX < n then None else Some n)"

text \<open>The name is split at the first \<open>p\<close>; the number is narrowed to 8 bits.\<close>

definition split_disk_name :: "string \<Rightarrow> (string option \<times> u8 option) option" where
  "split_disk_name disk =
     (case dropWhile (\<lambda>c. c \<noteq> CHR ''p'') disk of
        [] \<Rightarrow> Some (Some disk, None)
      | _ # rest \<Rightarrow> do {
          n \<leftarrow> stoi rest;
          Some (Some (takeWhile (\<lambda>c. c \<noteq> CHR ''p'') disk), Some (word_of_int n)) })"

definition fs_discovery :: "string \<Rightarrow> ('f, 'h, 'd, 'w) VirtualFS \<Rightarrow> (fs_type \<times> 'w BlockDevice) result option" where
  "fs_discovery disk_name v = do {
     (diskn, partn) \<leftarrow> split_disk_name disk_name;
     (case diskn of None \<Rightarrow> Some (Inl EINVAL) | Some diskn \<Rightarrow>
        (case DiskManager_get (m_disk_mgr v) diskn of None \<Rightarrow> Some (Inl EINVAL) | Some disk \<Rightarrow>
           (case partn of None \<Rightarrow> Some (Inl EINVAL) | Some nr \<Rightarrow>
              (case borrow_partition disk nr of None \<Rightarrow> Some (Inl EINVAL) | Some info \<Rightarrow>
                 (case get_fs_type_from_mbr_code (part_type info) v of None \<Rightarrow> Some (Inl EINVAL)
                  | Some t \<Rightarrow> Some (Inr (t, Partition_device (Disk_as_device disk) info))))))) }"

section \<open>Calling a method by descriptor, path or directory handle\<close>

definition invoke_fops_fd :: "(('f, 'h, 'd, 'w) Filesystem \<Rightarrow> 'h FileHandle \<Rightarrow> ('f, 'w, 'r \<times> 'h FileHandle) fs_method) \<Rightarrow>
    (errno \<Rightarrow> 'r) \<Rightarrow> int \<Rightarrow> ('f, 'h, 'd, 'w) VirtualFS \<Rightarrow> ('r \<times> ('f, 'h, 'd, 'w) VirtualFS) option" where
  "invoke_fops_fd method terror fd v = do {
     let v = v\<lparr>m_mutex := rm_lock (m_mutex v)\<rparr>;
     if \<not> fd_exist fd (m_fd_container v) then do {
       n \<leftarrow> rm_unlock (m_mutex v);
       Some (terror EBADF, v\<lparr>m_mutex := n\<rparr>) }
     else do {
       fil \<leftarrow> fd_handle fd (m_fd_container v);
       n \<leftarrow> rm_unlock (m_mutex v);
       ((r, fil), v) \<leftarrow> call_locked (FileHandle_get_root fil) (\<lambda>fs. method fs fil) (v\<lparr>m_mutex := n\<rparr>);
       Some (r, v\<lparr>m_fd_container := fd_handle_update fd fil (m_fd_container v)\<rparr>) } }"

definition invoke_fops_path :: "(('f, 'h, 'd, 'w) Filesystem \<Rightarrow> string \<Rightarrow> ('f, 'w, 'r) fs_method) \<Rightarrow>
    (errno \<Rightarrow> 'r) \<Rightarrow> string \<Rightarrow> ('f, 'h, 'd, 'w) VirtualFS \<Rightarrow> ('r \<times> ('f, 'h, 'd, 'w) VirtualFS) option" where
  "invoke_fops_path method terror path v =
     (if path = [] then Some (terror ENOENT, v)
      else case absolute_path path of Inl e \<Rightarrow> Some (terror e, v)
      | Inr abspath \<Rightarrow>
          (case find_mount_point abspath (m_mounts v) of None \<Rightarrow> Some (terror ENOENT, v)
           | Some key \<Rightarrow> call_locked key (\<lambda>fs. method fs abspath) v))"

definition invoke_dirops :: "(('f, 'h, 'd, 'w) Filesystem \<Rightarrow> 'd DirectoryHandle \<Rightarrow> ('f, 'w, 'r \<times> 'd DirectoryHandle) fs_method) \<Rightarrow>
    'd DirectoryHandle \<Rightarrow> ('f, 'h, 'd, 'w) VirtualFS \<Rightarrow>
    (('r \<times> 'd DirectoryHandle) \<times> ('f, 'h, 'd, 'w) VirtualFS) option" where
  "invoke_dirops method handle v =
     call_locked (DirectoryHandle_get_root handle) (\<lambda>fs. method fs handle) v"

definition invoke_fops_same_mp :: "(('f, 'h, 'd, 'w) Filesystem \<Rightarrow> string \<Rightarrow> string \<Rightarrow> ('f, 'w, errno) fs_method) \<Rightarrow>
    string \<Rightarrow> string \<Rightarrow> ('f, 'h, 'd, 'w) VirtualFS \<Rightarrow> (errno \<times> ('f, 'h, 'd, 'w) VirtualFS) option" where
  "invoke_fops_same_mp method path path2 v =
     (if path = [] \<or> path2 = [] then Some (ENOENT, v)
      else case absolute_path path of Inl e \<Rightarrow> Some (e, v) | Inr abspath \<Rightarrow>
        (case absolute_path path2 of Inl e \<Rightarrow> Some (e, v) | Inr abspath2 \<Rightarrow>
           if root_path abspath \<noteq> root_path abspath2 then Some (EXDEV, v)
           else case find_mount_point abspath (m_mounts v) of None \<Rightarrow> Some (ENOENT, v)
           | Some key \<Rightarrow> do {
               (mp, v) \<leftarrow> lock_mount key v;
               if flags_test (mp_flags mp) read_only then Some (EACCES, unlock_mount key v)
               else do {
                 let (r, v) = run_method key mp (\<lambda>fs. method fs abspath abspath2) v;
                 Some (r, unlock_mount key v) } }))"

section \<open>Registration of file systems\<close>

definition register_factory :: "fs_type \<Rightarrow> ('f, 'h, 'd, 'w) fs_factory option \<Rightarrow> ('f, 'h, 'd, 'w) VirtualFS \<Rightarrow>
    (errno \<times> ('f, 'h, 'd, 'w) VirtualFS) option" where
  "register_factory t factory = lock_guard (\<lambda>v.
     Some (if umap_contains (type_name t) (m_fs_factories v) then EEXIST else EOK,
       v\<lparr>m_fs_factories := umap_insert (type_name t) (t, factory) (m_fs_factories v)\<rparr>))"

definition register_filesystem :: "('f, 'h, 'd, 'w) fs_factory \<Rightarrow> fs_type \<Rightarrow> ('f, 'h, 'd, 'w) VirtualFS \<Rightarrow>
    (errno \<times> ('f, 'h, 'd, 'w) VirtualFS) option" where
  "register_filesystem lwext4 t = register_factory t (get_fs_factory lwext4 t)"

definition unregister_filesystem :: "fs_type \<Rightarrow> ('f, 'h, 'd, 'w) VirtualFS \<Rightarrow>
    (errno \<times> ('f, 'h, 'd, 'w) VirtualFS) option" where
  "unregister_filesystem t = lock_guard (\<lambda>v.
     Some (if umap_contains (type_name t) (m_fs_factories v) then EOK else ENOENT,
       v\<lparr>m_fs_factories := umap_erase (type_name t) (m_fs_factories v)\<rparr>))"

section \<open>Mounting\<close>

definition generate_unique_root_dir :: "('f, 'h, 'd, 'w) VirtualFS \<Rightarrow> string \<times> ('f, 'h, 'd, 'w) VirtualFS" where
  "generate_unique_root_dir v =
     (root_base @ to_string (unat (m_volume_index v)), v\<lparr>m_volume_index := m_volume_index v + 1\<rparr>)"

text \<open>The root of a mount: the given one, else the label, else a generated name.\<close>

definition choose_root :: "string \<Rightarrow> ('f, 'h, 'd, 'w) Filesystem \<Rightarrow> 'f \<Rightarrow> ('f, 'h, 'd, 'w) VirtualFS \<Rightarrow>
    string \<times> 'f \<times> ('f, 'h, 'd, 'w) VirtualFS" where
  "choose_root root fs self v =
     (if root \<noteq> [] then (root, self, v)
      else case fs_get_label fs self (world v) of
        (Inl _, self, w) \<Rightarrow> (case generate_unique_root_dir (v\<lparr>world := w\<rparr>) of (root, v) \<Rightarrow> (root, self, v))
      | (Inr label, self, w) \<Rightarrow> (''/'' @ label, self, v\<lparr>world := w\<rparr>))"

definition VirtualFS_mount :: "string \<Rightarrow> string \<Rightarrow> string \<Rightarrow> Flags \<Rightarrow> ('f, 'h, 'd, 'w) VirtualFS \<Rightarrow>
    (errno \<times> ('f, 'h, 'd, 'w) VirtualFS) option" where
  "VirtualFS_mount disk_name root fstype flags = lock_guard (\<lambda>v. do {
     found \<leftarrow> fs_discovery disk_name v;
     (case found of
        Inl e \<Rightarrow> Some (e, v)
      | Inr (t, disk) \<Rightarrow> do {
          (_, factory) \<leftarrow> map_of (m_fs_factories v) (type_name t);
          create_filesystem \<leftarrow> factory;
          let ((fs, self), w) = create_filesystem disk 0 (world v);
          let (root, self, v) = choose_root root fs self (v\<lparr>world := w\<rparr>);
          if umap_contains root (m_mounts v) then Some (EEXIST, v)
          else do {
            let (ret, self, w) = fs_mount fs root flags self (world v);
            let v = v\<lparr>world := w\<rparr>;
            if ret \<noteq> EOK then Some (ret, v)
            else do {
              let lockable = locker_new \<lparr>mp_fs = fs, mp_self = self, mp_disk = disk, mp_root = root,
                mp_flags = flags, mp_type = t\<rparr>;
              if umap_contains root (m_mounts v) then Some (EEXIST, v)
              else Some (EOK, v\<lparr>m_mounts := umap_insert root lockable (m_mounts v)\<rparr>) } } }) })"

fun mount_partitions :: "'w Disk \<Rightarrow> MBRPartition list \<Rightarrow> errno \<Rightarrow> ('f, 'h, 'd, 'w) VirtualFS \<Rightarrow>
    (errno \<times> ('f, 'h, 'd, 'w) VirtualFS) option" where
  "mount_partitions disk [] ret v = Some (ret, v)"
| "mount_partitions disk (p # ps) ret v = do {
     let name = get_name (Partition_device (Disk_as_device disk) p) (world v);
     (result, v) \<leftarrow> VirtualFS_mount name [] [] 0 v;
     mount_partitions disk ps (if ret = EOK then result else ret) v }"

fun mount_disks :: "(string \<times> 'w Disk) list \<Rightarrow> errno \<Rightarrow> ('f, 'h, 'd, 'w) VirtualFS \<Rightarrow>
    (errno \<times> ('f, 'h, 'd, 'w) VirtualFS) option" where
  "mount_disks [] ret v = Some (ret, v)"
| "mount_disks ((name, handle) # disks) ret v = do {
     (ret, v) \<leftarrow> mount_partitions handle (disk_partitions handle) ret v;
     mount_disks disks ret v }"

definition VirtualFS_mount_all :: "('f, 'h, 'd, 'w) VirtualFS \<Rightarrow> (errno \<times> ('f, 'h, 'd, 'w) VirtualFS) option" where
  "VirtualFS_mount_all = lock_guard (\<lambda>v.
     if DiskManager_size (m_disk_mgr v) = 0 then Some (ENOTBLK, v)
     else mount_disks (m_disk_map (m_disk_mgr v)) EOK v)"

text \<open>\<open>umount_all\<close> locks a mount point only to get at its value; \<open>all_of\<close> stops at the first failure.\<close>

fun unmount_until_error :: "string list \<Rightarrow> ('f, 'h, 'd, 'w) VirtualFS \<Rightarrow> (errno \<times> ('f, 'h, 'd, 'w) VirtualFS) option" where
  "unmount_until_error [] v = Some (EOK, v)"
| "unmount_until_error (key # keys) v = do {
     (mp, v) \<leftarrow> lock_mount key v;
     let v = unlock_mount key v;
     let (result, v) = run_method key mp (\<lambda>fs. fs_unmount fs) v;
     if result \<noteq> EOK then Some (result, v) else unmount_until_error keys v }"

definition VirtualFS_umount_all :: "('f, 'h, 'd, 'w) VirtualFS \<Rightarrow> (errno \<times> ('f, 'h, 'd, 'w) VirtualFS) option" where
  "VirtualFS_umount_all = lock_guard (\<lambda>v. do {
     (ret, v) \<leftarrow> unmount_until_error (umap_keys (m_mounts v)) v;
     Some (ret, v\<lparr>m_mounts := [], m_volume_index := 0\<rparr>) })"

definition VirtualFS_umount :: "string \<Rightarrow> ('f, 'h, 'd, 'w) VirtualFS \<Rightarrow> (errno \<times> ('f, 'h, 'd, 'w) VirtualFS) option" where
  "VirtualFS_umount mount_point = lock_guard (\<lambda>v.
     if umap_contains mount_point (m_mounts v) then do {
       (ret, v) \<leftarrow> call_locked mount_point (\<lambda>fs. fs_unmount fs) v;
       if ret \<noteq> EOK then Some (ret, v)
       else Some (EOK, v\<lparr>m_mounts := umap_erase mount_point (m_mounts v)\<rparr>) }
     else Some (EINVAL, v))"

definition VirtualFS_get_roots :: "('f, 'h, 'd, 'w) VirtualFS \<Rightarrow> (string list \<times> ('f, 'h, 'd, 'w) VirtualFS) option" where
  "VirtualFS_get_roots = lock_guard (\<lambda>v. Some (umap_keys (m_mounts v), v))"

fun stat_keys :: "string list \<Rightarrow> ('f, 'h, 'd, 'w) VirtualFS \<Rightarrow> (PartitionStats list \<times> ('f, 'h, 'd, 'w) VirtualFS) option" where
  "stat_keys [] v = Some ([], v)"
| "stat_keys (key # keys) v = do {
     (mp, v) \<leftarrow> lock_mount key v;
     let (s, v) = get_mount_point_stats key mp v;
     (stats, v) \<leftarrow> stat_keys keys (unlock_mount key v);
     Some (s # stats, v) }"

definition VirtualFS_stat_parts :: "('f, 'h, 'd, 'w) VirtualFS \<Rightarrow>
    (PartitionStats list \<times> ('f, 'h, 'd, 'w) VirtualFS) option" where
  "VirtualFS_stat_parts v = stat_keys (umap_keys (m_mounts v)) v"

definition VirtualFS_stat_parts_of :: "string \<Rightarrow> ('f, 'h, 'd, 'w) VirtualFS \<Rightarrow>
    (PartitionStats result \<times> ('f, 'h, 'd, 'w) VirtualFS) option" where
  "VirtualFS_stat_parts_of path v =
     (case find_mount_point path (m_mounts v) of None \<Rightarrow> Some (Inl ENOENT, v)
      | Some key \<Rightarrow> do {
          (mp, v) \<leftarrow> lock_mount key v;
          let (s, v) = get_mount_point_stats key mp v;
          Some (Inr s, unlock_mount key v) })"

section \<open>Files\<close>

definition VirtualFS_getcwd :: "('f, 'h, 'd, 'w) VirtualFS \<Rightarrow> string" where
  "VirtualFS_getcwd v = []"

definition VirtualFS_chdir :: "string \<Rightarrow> ('f, 'h, 'd, 'w) VirtualFS \<Rightarrow> (errno \<times> ('f, 'h, 'd, 'w) VirtualFS) option" where
  "VirtualFS_chdir path v = Some (ENOTSUP, v)"

definition O_ACCMODE :: u32 where "O_ACCMODE = 3"
definition O_RDONLY :: u32 where "O_RDONLY = 0"

text \<open>The part of \<open>open\<close> that runs under the lock of the mount point.\<close>

definition open_on_mount :: "string \<Rightarrow> string \<Rightarrow> string \<Rightarrow> int \<Rightarrow> int \<Rightarrow> ('f, 'h, 'd, 'w) VirtualFS \<Rightarrow>
    (int result \<times> ('f, 'h, 'd, 'w) VirtualFS) option" where
  "open_on_mount key path abspath flags mode v = do {
     (mp, v) \<leftarrow> lock_mount key v;
     if word_of_int flags AND O_ACCMODE \<noteq> O_RDONLY \<and> flags_test (mp_flags mp) read_only
     then Some (Inl EACCES, unlock_mount key v)
     else do {
       let (handle, v) = run_method key mp (\<lambda>fs. fs_open fs abspath (word_of_int flags) mode) v;
       (case handle of
          Inl e \<Rightarrow> Some (Inl e, unlock_mount key v)
        | Inr h \<Rightarrow> do {
            (fd, c) \<leftarrow> fd_insert path h (m_fd_container v);
            Some (Inr fd, unlock_mount key (v\<lparr>m_fd_container := c\<rparr>)) }) } }"

definition VirtualFS_open :: "string \<Rightarrow> int \<Rightarrow> int \<Rightarrow> ('f, 'h, 'd, 'w) VirtualFS \<Rightarrow>
    (int result \<times> ('f, 'h, 'd, 'w) VirtualFS) option" where
  "VirtualFS_open path flags mode = lock_guard (\<lambda>v.
     case absolute_path path of Inl e \<Rightarrow> Some (Inl e, v)
     | Inr abspath \<Rightarrow>
         (case find_mount_point abspath (m_mounts v) of None \<Rightarrow> Some (Inl ENOENT, v)
          | Some key \<Rightarrow> open_on_mount key path abspath flags mode v))"

definition VirtualFS_close :: "int \<Rightarrow> ('f, 'h, 'd, 'w) VirtualFS \<Rightarrow> (errno \<times> ('f, 'h, 'd, 'w) VirtualFS) option" where
  "VirtualFS_close fd = lock_guard (\<lambda>v.
     if \<not> fd_exist fd (m_fd_container v) then Some (EBADF, v)
     else do {
       (ret, v) \<leftarrow> invoke_fops_fd fs_close (\<lambda>e. e) fd v;
       let (path, c) = fd_remove fd (m_fd_container v);
       let v = v\<lparr>m_fd_container := c\<rparr>;
       (case path of None \<Rightarrow> Some (ret, v)
        | Some path \<Rightarrow> invoke_fops_path fs_unlink (\<lambda>e. e) path v) })"

definition invoke_stdstream_out :: "int \<Rightarrow> u8 list \<Rightarrow> ('f, 'h, 'd, 'w) VirtualFS \<Rightarrow>
    nat result \<times> ('f, 'h, 'd, 'w) VirtualFS" where
  "invoke_stdstream_out fd data v =
     (if fd = 1 then case std_out (m_stdstream v) data (world v) of (r, w) \<Rightarrow> (r, v\<lparr>world := w\<rparr>)
      else if fd = 2 then case std_err (m_stdstream v) data (world v) of (r, w) \<Rightarrow> (r, v\<lparr>world := w\<rparr>)
      else (Inl EPERM, v))"

definition invoke_stdstream_in :: "int \<Rightarrow> u8 list \<Rightarrow> ('f, 'h, 'd, 'w) VirtualFS \<Rightarrow>
    (nat result \<times> u8 list) \<times> ('f, 'h, 'd, 'w) VirtualFS" where
  "invoke_stdstream_in fd buf v =
     (if fd = 0 then case std_in (m_stdstream v) buf (world v) of (r, w) \<Rightarrow> (r, v\<lparr>world := w\<rparr>)
      else ((Inl EPERM, buf), v))"

definition VirtualFS_write :: "int \<Rightarrow> u8 list \<Rightarrow> ('f, 'h, 'd, 'w) VirtualFS \<Rightarrow>
    (nat result \<times> ('f, 'h, 'd, 'w) VirtualFS) option" where
  "VirtualFS_write fd data v =
     (case invoke_stdstream_out fd data v of
        (Inr n, v) \<Rightarrow> Some (Inr n, v)
      | (Inl _, v) \<Rightarrow> invoke_fops_fd (\<lambda>fs. fs_write fs data) Inl fd v)"

definition VirtualFS_read :: "int \<Rightarrow> u8 list \<Rightarrow> ('f, 'h, 'd, 'w) VirtualFS \<Rightarrow>
    ((nat result \<times> u8 list) \<times> ('f, 'h, 'd, 'w) VirtualFS) option" where
  "VirtualFS_read fd buf v =
     (case invoke_stdstream_in fd buf v of
        ((Inr n, buf), v) \<Rightarrow> Some ((Inr n, buf), v)
      | ((Inl _, buf), v) \<Rightarrow> invoke_fops_fd (\<lambda>fs. fs_read fs buf) (\<lambda>e. (Inl e, buf)) fd v)"

definition VirtualFS_lseek :: "int \<Rightarrow> int \<Rightarrow> int \<Rightarrow> ('f, 'h, 'd, 'w) VirtualFS \<Rightarrow>
    (int result \<times> ('f, 'h, 'd, 'w) VirtualFS) option" where
  "VirtualFS_lseek fd pos dir = invoke_fops_fd (\<lambda>fs. fs_lseek fs pos dir) Inl fd"

definition S_IFCHR :: int where "S_IFCHR = 8192"

definition VirtualFS_fstat :: "int \<Rightarrow> stat \<Rightarrow> ('f, 'h, 'd, 'w) VirtualFS \<Rightarrow>
    ((errno \<times> stat) \<times> ('f, 'h, 'd, 'w) VirtualFS) option" where
  "VirtualFS_fstat fd st v =
     (if fd < 3 then Some ((EOK, stat_zero\<lparr>st_mode := S_IFCHR\<rparr>), v)
      else invoke_fops_fd (\<lambda>fs. fs_fstat fs st) (\<lambda>e. (e, st)) fd v)"

definition VirtualFS_ftruncate :: "int \<Rightarrow> int \<Rightarrow> ('f, 'h, 'd, 'w) VirtualFS \<Rightarrow> (errno \<times> ('f, 'h, 'd, 'w) VirtualFS) option" where
  "VirtualFS_ftruncate fd len = invoke_fops_fd (\<lambda>fs. fs_ftruncate fs len) (\<lambda>e. e) fd"

definition VirtualFS_fsync :: "int \<Rightarrow> ('f, 'h, 'd, 'w) VirtualFS \<Rightarrow> (errno \<times> ('f, 'h, 'd, 'w) VirtualFS) option" where
  "VirtualFS_fsync fd = invoke_fops_fd fs_fsync (\<lambda>e. e) fd"

definition VirtualFS_fchmod :: "int \<Rightarrow> int \<Rightarrow> ('f, 'h, 'd, 'w) VirtualFS \<Rightarrow> (errno \<times> ('f, 'h, 'd, 'w) VirtualFS) option" where
  "VirtualFS_fchmod fd mode = invoke_fops_fd (\<lambda>fs. fs_fchmod fs mode) (\<lambda>e. e) fd"

definition VirtualFS_flock :: "int \<Rightarrow> int \<Rightarrow> ('f, 'h, 'd, 'w) VirtualFS \<Rightarrow> (errno \<times> ('f, 'h, 'd, 'w) VirtualFS) option" where
  "VirtualFS_flock fd cmd = invoke_fops_fd (\<lambda>fs. fs_flock fs cmd) (\<lambda>e. e) fd"

definition VirtualFS_isatty :: "int \<Rightarrow> ('f, 'h, 'd, 'w) VirtualFS \<Rightarrow> (bool result \<times> ('f, 'h, 'd, 'w) VirtualFS) option" where
  "VirtualFS_isatty fd v = (if fd < 3 then Some (Inr True, v) else invoke_fops_fd fs_isatty Inl fd v)"

section \<open>Paths\<close>

definition VirtualFS_stat :: "string \<Rightarrow> stat \<Rightarrow> ('f, 'h, 'd, 'w) VirtualFS \<Rightarrow>
    ((errno \<times> stat) \<times> ('f, 'h, 'd, 'w) VirtualFS) option" where
  "VirtualFS_stat path st = invoke_fops_path (\<lambda>fs. fs_stat fs st) (\<lambda>e. (e, st)) path"

definition VirtualFS_symlink :: "string \<Rightarrow> string \<Rightarrow> ('f, 'h, 'd, 'w) VirtualFS \<Rightarrow> (errno \<times> ('f, 'h, 'd, 'w) VirtualFS) option" where
  "VirtualFS_symlink existing newlink = invoke_fops_path (\<lambda>fs path. fs_symlink fs path newlink) (\<lambda>e. e) existing"

definition VirtualFS_link :: "string \<Rightarrow> string \<Rightarrow> ('f, 'h, 'd, 'w) VirtualFS \<Rightarrow> (errno \<times> ('f, 'h, 'd, 'w) VirtualFS) option" where
  "VirtualFS_link existing newlink = invoke_fops_path (\<lambda>fs path. fs_link fs path newlink) (\<lambda>e. e) existing"

definition VirtualFS_unlink :: "string \<Rightarrow> ('f, 'h, 'd, 'w) VirtualFS \<Rightarrow> (errno \<times> ('f, 'h, 'd, 'w) VirtualFS) option" where
  "VirtualFS_unlink name = lock_guard (\<lambda>v.
     if path_exist name (m_fd_container v)
     then Some (EOK, v\<lparr>m_fd_container := fd_mark_for_unlink name (m_fd_container v)\<rparr>)
     else invoke_fops_path fs_unlink (\<lambda>e. e) name v)"

definition VirtualFS_rename :: "string \<Rightarrow> string \<Rightarrow> ('f, 'h, 'd, 'w) VirtualFS \<Rightarrow> (errno \<times> ('f, 'h, 'd, 'w) VirtualFS) option" where
  "VirtualFS_rename oldname newname = invoke_fops_same_mp fs_rename oldname newname"

definition VirtualFS_mkdir :: "string \<Rightarrow> int \<Rightarrow> ('f, 'h, 'd, 'w) VirtualFS \<Rightarrow> (errno \<times> ('f, 'h, 'd, 'w) VirtualFS) option" where
  "VirtualFS_mkdir path mode = invoke_fops_path (\<lambda>fs. fs_mkdir fs mode) (\<lambda>e. e) path"

definition VirtualFS_rmdir :: "string \<Rightarrow> ('f, 'h, 'd, 'w) VirtualFS \<Rightarrow> (errno \<times> ('f, 'h, 'd, 'w) VirtualFS) option" where
  "VirtualFS_rmdir path = invoke_fops_path fs_rmdir (\<lambda>e. e) path"

definition VirtualFS_stat_vfs :: "string \<Rightarrow> statvfs \<Rightarrow> ('f, 'h, 'd, 'w) VirtualFS \<Rightarrow>
    ((errno \<times> statvfs) \<times> ('f, 'h, 'd, 'w) VirtualFS) option" where
  "VirtualFS_stat_vfs path st = invoke_fops_path (\<lambda>fs path. fs_stat_vfs fs path st) (\<lambda>e. (e, st)) path"

definition VirtualFS_chmod :: "string \<Rightarrow> int \<Rightarrow> ('f, 'h, 'd, 'w) VirtualFS \<Rightarrow> (errno \<times> ('f, 'h, 'd, 'w) VirtualFS) option" where
  "VirtualFS_chmod path mode = invoke_fops_path (\<lambda>fs. fs_chmod fs mode) (\<lambda>e. e) path"

definition VirtualFS_ioctl :: "string \<Rightarrow> int \<Rightarrow> u8 list \<Rightarrow> ('f, 'h, 'd, 'w) VirtualFS \<Rightarrow>
    ((errno \<times> u8 list) \<times> ('f, 'h, 'd, 'w) VirtualFS) option" where
  "VirtualFS_ioctl path cmd arg = invoke_fops_path (\<lambda>fs. fs_ioctl fs cmd arg) (\<lambda>e. (e, arg)) path"

definition VirtualFS_utimens :: "string \<Rightarrow> int list \<Rightarrow> ('f, 'h, 'd, 'w) VirtualFS \<Rightarrow>
    ((errno \<times> int list) \<times> ('f, 'h, 'd, 'w) VirtualFS) option" where
  "VirtualFS_utimens path tv = invoke_fops_path (\<lambda>fs. fs_utimens fs tv) (\<lambda>e. (e, tv)) path"

section \<open>Directories\<close>

definition VirtualFS_diropen :: "string \<Rightarrow> ('f, 'h, 'd, 'w) VirtualFS \<Rightarrow>
    ('d DirectoryHandle result \<times> ('f, 'h, 'd, 'w) VirtualFS) option" where
  "VirtualFS_diropen path v =
     (case absolute_path path of Inl e \<Rightarrow> Some (Inl e, v)
      | Inr abspath \<Rightarrow>
          (case find_mount_point abspath (m_mounts v) of None \<Rightarrow> Some (Inl ENOENT, v)
           | Some key \<Rightarrow> call_locked key (\<lambda>fs. fs_diropen fs abspath) v))"

definition VirtualFS_dirreset :: "'d DirectoryHandle \<Rightarrow> ('f, 'h, 'd, 'w) VirtualFS \<Rightarrow>
    ((errno \<times> 'd DirectoryHandle) \<times> ('f, 'h, 'd, 'w) VirtualFS) option" where
  "VirtualFS_dirreset handle = invoke_dirops fs_dirreset handle"

definition VirtualFS_dirnext :: "string \<times> stat \<Rightarrow> 'd DirectoryHandle \<Rightarrow> ('f, 'h, 'd, 'w) VirtualFS \<Rightarrow>
    (((errno \<times> string \<times> stat) \<times> 'd DirectoryHandle) \<times> ('f, 'h, 'd, 'w) VirtualFS) option" where
  "VirtualFS_dirnext out handle = invoke_dirops (\<lambda>fs. fs_dirnext fs out) handle"

definition VirtualFS_dirclose :: "'d DirectoryHandle \<Rightarrow> ('f, 'h, 'd, 'w) VirtualFS \<Rightarrow>
    ((errno \<times> 'd DirectoryHandle) \<times> ('f, 'h, 'd, 'w) VirtualFS) option" where
  "VirtualFS_dirclose handle = invoke_dirops fs_dirclose handle"

section \<open>Destruction\<close>

fun close_descriptors :: "int list \<Rightarrow> ('f, 'h, 'd, 'w) VirtualFS \<Rightarrow> ('f, 'h, 'd, 'w) VirtualFS option" where
  "close_descriptors [] v = Some v"
| "close_descriptors (fd # fds) v = do {
     (_, v) \<leftarrow> invoke_fops_fd fs_close (\<lambda>e. e) fd v;
     close_descriptors fds v }"

fun cleanup_entries :: "(string \<times> file_descriptor) list \<Rightarrow> ('f, 'h, 'd, 'w) VirtualFS \<Rightarrow>
    ('f, 'h, 'd, 'w) VirtualFS option" where
  "cleanup_entries [] v = Some v"
| "cleanup_entries ((path, entry) # m) v = do {
     v \<leftarrow> close_descriptors (indexes entry) v;
     v \<leftarrow> (if marked_for_unlink entry
       then do { (_, v) \<leftarrow> invoke_fops_path fs_unlink (\<lambda>e. e) path v; Some v } else Some v);
     cleanup_entries m v }"

definition cleanup_opened_files :: "('f, 'h, 'd, 'w) VirtualFS \<Rightarrow> ('f, 'h, 'd, 'w) VirtualFS option" where
  "cleanup_opened_files v = cleanup_entries (by_path (m_fd_container v)) v"

definition VirtualFS_destroy :: "('f, 'h, 'd, 'w) VirtualFS \<Rightarrow> ('f, 'h, 'd, 'w) VirtualFS option" where
  "VirtualFS_destroy v = do {
     v \<leftarrow> cleanup_opened_files v;
     (_, v) \<leftarrow> VirtualFS_umount_all v;
     Some v }"

end
