(* ===== verification/Vfs_Safety.thy ===== *)
theory Vfs_Safety
  imports Vfs
begin

text \<open>
  The virtual file system never gets stuck: an invariant of its state (every mount point is unlocked and
  holds a file system mounted under its key, the table of open files is consistent, every open file
  belongs to a mount point) under which the file operations return, keep the invariant and release every
  lock they take. The file systems enter by the contract \<open>rooted_filesystem\<close> alone.
\<close>

section \<open>The invariant\<close>

definition mount_ok :: "('f \<Rightarrow> string) \<Rightarrow> string \<Rightarrow> ('f, 'h, 'd, 'w) MountPoint locker \<Rightarrow> bool" where
  "mount_ok root_of key l \<longleftrightarrow> \<not> locker_mutex l \<and> rooted_filesystem (mp_fs (locker_value l)) root_of \<and>
     root_of (mp_self (locker_value l)) = key \<and> mp_root (locker_value l) = key"

definition vfs_ok :: "('f \<Rightarrow> string) \<Rightarrow> ('f, 'h, 'd, 'w) VirtualFS \<Rightarrow> bool" where
  "vfs_ok root_of v \<longleftrightarrow> umap_wf (m_mounts v) \<and> container_ok (m_fd_container v) \<and>
     (\<forall>key l. map_of (m_mounts v) key = Some l \<longrightarrow> mount_ok root_of key l)"

definition files_mounted :: "('f, 'h, 'd, 'w) VirtualFS \<Rightarrow> bool" where
  "files_mounted v \<longleftrightarrow> (\<forall>n h. fd_handle n (m_fd_container v) = Some h \<longrightarrow> umap_contains (file_root h) (m_mounts v))"

text \<open>What a call of a file system leaves alone.\<close>

definition kept :: "('f, 'h, 'd, 'w) VirtualFS \<Rightarrow> ('f, 'h, 'd, 'w) VirtualFS \<Rightarrow> bool" where
  "kept v v' \<longleftrightarrow> m_disk_mgr v' = m_disk_mgr v \<and> m_fs_factories v' = m_fs_factories v \<and>
     m_mutex v' = m_mutex v \<and> m_stdstream v' = m_stdstream v \<and> m_volume_index v' = m_volume_index v \<and>
     umap_keys (m_mounts v') = umap_keys (m_mounts v)"

lemma kept_refl [simp]: "kept v v"
  by (simp add: kept_def)

lemma kept_trans: "kept u v \<Longrightarrow> kept v w \<Longrightarrow> kept u w"
  by (simp add: kept_def)

lemma kept_mutex: "kept v v' \<Longrightarrow> m_mutex v' = m_mutex v"
  by (simp add: kept_def)

lemma kept_contains: "kept v v' \<Longrightarrow> umap_contains k (m_mounts v') = umap_contains k (m_mounts v)"
  by (simp add: kept_def umap_contains_keys)

lemma vfs_okD:
  assumes "vfs_ok root_of v"
  shows "umap_wf (m_mounts v)" "container_ok (m_fd_container v)"
    "map_of (m_mounts v) key = Some l \<Longrightarrow> mount_ok root_of key l"
  using assms by (auto simp: vfs_ok_def)

lemma vfs_ok_mutex [simp]: "vfs_ok root_of (v\<lparr>m_mutex := n\<rparr>) = vfs_ok root_of v"
  by (simp add: vfs_ok_def)

lemma vfs_ok_world [simp]: "vfs_ok root_of (v\<lparr>world := w\<rparr>) = vfs_ok root_of v"
  by (simp add: vfs_ok_def)

lemma files_mounted_simps [simp]:
  "files_mounted (v\<lparr>m_mutex := n\<rparr>) = files_mounted v"
  "files_mounted (v\<lparr>world := w\<rparr>) = files_mounted v"
  by (simp_all add: files_mounted_def)

section \<open>Calls under the lock of a mount point\<close>

text \<open>A call on an unlocked mount point: the method runs once, its object and the outside state change,
  the mount point is unlocked again.\<close>

definition after_call :: "string \<Rightarrow> ('f, 'h, 'd, 'w) MountPoint locker \<Rightarrow> 'f \<Rightarrow> 'w \<Rightarrow>
    ('f, 'h, 'd, 'w) VirtualFS \<Rightarrow> ('f, 'h, 'd, 'w) VirtualFS" where
  "after_call key l self w v = v\<lparr>m_mounts := umap_modify key
     (\<lambda>_. l\<lparr>locker_value := (locker_value l)\<lparr>mp_self := self\<rparr>\<rparr>) (m_mounts v), world := w\<rparr>"

lemma umap_modify_twice: "umap_modify k f (umap_modify k g m) = umap_modify k (\<lambda>x. f (g x)) m"
  by (induction m) (auto simp: umap_modify_def)

lemma lock_mount_eq:
  assumes "map_of (m_mounts v) key = Some l" "\<not> locker_mutex l"
  shows "lock_mount key v = Some (locker_value l,
    v\<lparr>m_mounts := umap_modify key (\<lambda>_. l\<lparr>locker_mutex := True\<rparr>) (m_mounts v)\<rparr>)"
  using assms by (simp add: lock_mount_def locker_lock_def)

lemma umap_modify_same:
  "umap_wf m \<Longrightarrow> map_of m k = Some x \<Longrightarrow> umap_modify k (\<lambda>_. x) m = m"
  by (auto simp: umap_modify_def umap_in_set intro!: map_idI)

lemma lock_unlock_id:
  assumes "umap_wf (m_mounts v)" "map_of (m_mounts v) key = Some l" "\<not> locker_mutex l"
  shows "unlock_mount key (v\<lparr>m_mounts := umap_modify key (\<lambda>_. l\<lparr>locker_mutex := True\<rparr>) (m_mounts v)\<rparr>) = v"
proof -
  have "locked_release (l\<lparr>locker_mutex := True\<rparr>) = l" using assms(3) by (simp add: locker_lock_release)
  then show ?thesis
    using umap_modify_same [OF assms(1,2)] by (simp add: unlock_mount_def umap_modify_twice)
qed

lemma run_and_unlock:
  assumes "\<not> locker_mutex l"
    and run: "run_method key (locker_value l) method
      (v\<lparr>m_mounts := umap_modify key (\<lambda>_. l\<lparr>locker_mutex := True\<rparr>) (m_mounts v)\<rparr>) = (r, v')"
    and call: "method (mp_fs (locker_value l)) (mp_self (locker_value l)) (world v) = (r', self, w)"
  shows "r = r' \<and> unlock_mount key v' = after_call key l self w v"
proof -
  have "l\<lparr>locker_mutex := False\<rparr> = l" using assms(1) by simp
  then have "(l\<lparr>locker_mutex := True, locker_value := m\<rparr>)\<lparr>locker_mutex := False\<rparr> = l\<lparr>locker_value := m\<rparr>" for m
    by (cases l) simp
  then show ?thesis
    using run call
    by (auto simp: run_method_def unlock_mount_def after_call_def umap_modify_twice locked_release_def)
qed

lemma call_locked_eq:
  assumes "map_of (m_mounts v) key = Some l" "\<not> locker_mutex l"
    and "method (mp_fs (locker_value l)) (mp_self (locker_value l)) (world v) = (r, self, w)"
  shows "call_locked key method v = Some (r, after_call key l self w v)"
proof -
  obtain r' v' where run: "run_method key (locker_value l) method
      (v\<lparr>m_mounts := umap_modify key (\<lambda>_. l\<lparr>locker_mutex := True\<rparr>) (m_mounts v)\<rparr>) = (r', v')" by fastforce
  then show ?thesis
    using run_and_unlock [OF assms(2) run assms(3)] by (simp add: call_locked_def lock_mount_eq [OF assms(1,2)])
qed

lemma after_call_simps [simp]:
  "m_fd_container (after_call key l self w v) = m_fd_container v"
  "m_mutex (after_call key l self w v) = m_mutex v"
  "world (after_call key l self w v) = w"
  "kept v (after_call key l self w v)"
  by (simp_all add: after_call_def kept_def umap_simps)

lemma after_call_ok:
  assumes ok: "vfs_ok root_of v" and l: "map_of (m_mounts v) key = Some l"
    and root: "root_of self = root_of (mp_self (locker_value l))"
  shows "vfs_ok root_of (after_call key l self w v)"
  using ok vfs_okD(3) [OF ok l] l root
  by (auto simp: vfs_ok_def after_call_def umap_simps mount_ok_def)

lemma after_call_files: "files_mounted (after_call key l self w v) = files_mounted v"
  by (simp add: files_mounted_def after_call_def umap_simps)

lemma vfs_ok_mount:
  assumes "vfs_ok root_of v" "umap_contains key (m_mounts v)"
  obtains l where "map_of (m_mounts v) key = Some l" "\<not> locker_mutex l"
    "rooted_filesystem (mp_fs (locker_value l)) root_of" "root_of (mp_self (locker_value l)) = key"
    "mp_root (locker_value l) = key"
  using assms vfs_okD(3) [OF assms(1)] by (auto simp: umap_contains_def mount_ok_def)

lemma call_locked_ok:
  assumes ok: "vfs_ok root_of v" and key: "umap_contains key (m_mounts v)"
    and meth: "\<And>fs. rooted_filesystem fs root_of \<Longrightarrow> keeps_root root_of (method fs)"
  obtains r l self w where "map_of (m_mounts v) key = Some l" "\<not> locker_mutex l"
    "root_of (mp_self (locker_value l)) = key" "rooted_filesystem (mp_fs (locker_value l)) root_of"
    "method (mp_fs (locker_value l)) (mp_self (locker_value l)) (world v) = (r, self, w)"
    "call_locked key method v = Some (r, after_call key l self w v)"
    "vfs_ok root_of (after_call key l self w v)"
proof -
  obtain l where l: "map_of (m_mounts v) key = Some l" "\<not> locker_mutex l"
    "rooted_filesystem (mp_fs (locker_value l)) root_of" "root_of (mp_self (locker_value l)) = key"
    by (rule vfs_ok_mount [OF ok key])
  obtain r self w where call: "method (mp_fs (locker_value l)) (mp_self (locker_value l)) (world v) = (r, self, w)"
    by (metis surj_pair)
  have "root_of self = root_of (mp_self (locker_value l))"
    using keeps_rootD [OF meth [OF l(3)] call] .
  then show thesis
    using that l call call_locked_eq [OF l(1,2), of "method" r self w, OF call] after_call_ok [OF ok l(1)] by blast
qed

lemma find_mount_point_key:
  "find_mount_point path m = Some key \<Longrightarrow> umap_contains key m \<and> occurs_in key path"
  by (induction m) (auto simp: umap_contains_keys umap_keys_def split: if_splits)

lemma find_mount_point_none:
  "find_mount_point path m = None \<longleftrightarrow> (\<forall>key. umap_contains key m \<longrightarrow> \<not> occurs_in key path)"
  by (induction m) (auto simp: umap_contains_keys umap_keys_def split: if_splits)

section \<open>Safe operations\<close>

text \<open>An operation is safe when it returns from every good state with descriptors left, to a good state
  with the recursive mutex as it was; it uses at most one new descriptor number.\<close>

definition good :: "('f \<Rightarrow> string) \<Rightarrow> ('f, 'h, 'd, 'w) VirtualFS \<Rightarrow> bool" where
  "good root_of v \<longleftrightarrow> vfs_ok root_of v \<and> files_mounted v"

definition settles :: "('f \<Rightarrow> string) \<Rightarrow> ('r \<times> ('f, 'h, 'd, 'w) VirtualFS) option \<Rightarrow> ('f, 'h, 'd, 'w) VirtualFS \<Rightarrow> bool" where
  "settles root_of out v \<longleftrightarrow> (\<exists>r v'. out = Some (r, v') \<and> good root_of v' \<and> kept v v' \<and>
     fd_idx (m_fd_container v') \<le> fd_idx (m_fd_container v) + 1)"

lemma settlesI:
  "out = Some (r, v') \<Longrightarrow> good root_of v' \<Longrightarrow> kept v v' \<Longrightarrow>
    fd_idx (m_fd_container v') \<le> fd_idx (m_fd_container v) + 1 \<Longrightarrow> settles root_of out v"
  unfolding settles_def by blast

lemma settles_return: "good root_of v \<Longrightarrow> settles root_of (Some (r, v)) v"
  by (rule settlesI [OF refl]) simp_all

lemma lock_guard_settles:
  assumes "settles root_of (body (v\<lparr>m_mutex := rm_lock (m_mutex v)\<rparr>)) (v\<lparr>m_mutex := rm_lock (m_mutex v)\<rparr>)"
  shows "settles root_of (lock_guard body v) v"
proof -
  obtain r v' where b: "body (v\<lparr>m_mutex := rm_lock (m_mutex v)\<rparr>) = Some (r, v')" "good root_of v'"
    "kept (v\<lparr>m_mutex := rm_lock (m_mutex v)\<rparr>) v'" "fd_idx (m_fd_container v') \<le> fd_idx (m_fd_container v) + 1"
    using assms by (auto simp: settles_def)
  then have "lock_guard body v = Some (r, v'\<lparr>m_mutex := m_mutex v\<rparr>)"
    using kept_mutex [OF b(3)] by (simp add: lock_guard_def)
  then show ?thesis
    by (rule settlesI) (use b in \<open>simp_all add: good_def kept_def\<close>)
qed

lemma call_locked_settles:
  assumes good: "good root_of v" and key: "umap_contains key (m_mounts v)"
    and meth: "\<And>fs. rooted_filesystem fs root_of \<Longrightarrow> keeps_root root_of (method fs)"
  shows "settles root_of (call_locked key method v) v"
proof -
  have ok: "vfs_ok root_of v" using good by (simp add: good_def)
  obtain r l self w where call: "call_locked key method v = Some (r, after_call key l self w v)"
    "vfs_ok root_of (after_call key l self w v)"
    by (rule call_locked_ok [OF ok key, of "method"]) (use meth in blast)+
  show ?thesis
    by (rule settlesI [OF call(1)]) (use good call(2) in \<open>simp_all add: good_def after_call_files\<close>)
qed

lemma invoke_fops_path_settles:
  assumes "good root_of v"
    and "\<And>fs p. rooted_filesystem fs root_of \<Longrightarrow> keeps_root root_of (method fs p)"
  shows "settles root_of (invoke_fops_path method terror path v) v"
proof -
  have "settles root_of (call_locked key (\<lambda>fs. method fs p) v) v"
    if "find_mount_point p (m_mounts v) = Some key" for key p
    by (rule call_locked_settles [OF assms(1)]) (use find_mount_point_key [OF that] assms(2) in simp_all)
  then show ?thesis
    using assms(1) by (auto simp: invoke_fops_path_def settles_return split: sum.splits option.splits)
qed

lemma files_mountedD:
  "files_mounted v \<Longrightarrow> fd_handle n (m_fd_container v) = Some h \<Longrightarrow> umap_contains (file_root h) (m_mounts v)"
  by (auto simp: files_mounted_def)

text \<open>A method on the handle of an open descriptor; the handle is stored back.\<close>

lemma invoke_fops_fd_unknown:
  "\<not> fd_exist fd (m_fd_container v) \<Longrightarrow> invoke_fops_fd method terror fd v = Some (terror EBADF, v)"
  by (simp add: invoke_fops_fd_def)

lemma invoke_fops_fd_known:
  assumes good: "good root_of v" and fd: "fd_handle fd (m_fd_container v) = Some fil"
    and meth: "\<And>fs. rooted_filesystem fs root_of \<Longrightarrow> keeps_handle file_root root_of (method fs)"
  obtains r fil' l self w where "map_of (m_mounts v) (file_root fil) = Some l"
    "method (mp_fs (locker_value l)) fil (mp_self (locker_value l)) (world v) = ((r, fil'), self, w)"
    "file_root fil' = file_root fil"
    "invoke_fops_fd method terror fd v = Some (r, (after_call (file_root fil) l self w v)
      \<lparr>m_fd_container := fd_handle_update fd fil' (m_fd_container v)\<rparr>)"
    "vfs_ok root_of (after_call (file_root fil) l self w v)"
proof -
  have ok: "vfs_ok root_of v" and key: "umap_contains (file_root fil) (m_mounts v)"
    using good fd by (auto simp: good_def files_mountedD)
  have keeps: "\<And>fs. rooted_filesystem fs root_of \<Longrightarrow> keeps_root root_of (method fs fil)"
    using keeps_handle_root [OF meth] .
  obtain rh l self w where c: "map_of (m_mounts v) (file_root fil) = Some l"
    "rooted_filesystem (mp_fs (locker_value l)) root_of"
    "method (mp_fs (locker_value l)) fil (mp_self (locker_value l)) (world v) = (rh, self, w)"
    "call_locked (file_root fil) (\<lambda>fs. method fs fil) v = Some (rh, after_call (file_root fil) l self w v)"
    "vfs_ok root_of (after_call (file_root fil) l self w v)"
    using call_locked_ok [of root_of v "file_root fil" "\<lambda>fs. method fs fil", OF ok key keeps] by metis
  obtain r fil' where rh: "rh = (r, fil')" by (cases rh)
  have "file_root fil' = file_root fil"
    using keeps_handleD [OF meth [OF c(2)]] c(3) rh by metis
  moreover have "fd_exist fd (m_fd_container v)" using fd by (auto simp: fd_exist_handle)
  then have "invoke_fops_fd method terror fd v = Some (r, (after_call (file_root fil) l self w v)
      \<lparr>m_fd_container := fd_handle_update fd fil' (m_fd_container v)\<rparr>)"
    using fd c(4) rh by (simp add: invoke_fops_fd_def FileHandle_get_root_def)
  ultimately show thesis
    by (intro that [OF c(1) _ _ _ c(5)]) (use c(3) rh in simp_all)
qed

lemma handle_stored_good:
  assumes "vfs_ok root_of v" "files_mounted v" "fd_handle fd (m_fd_container v) = Some fil" "file_root fil' = file_root fil"
  shows "good root_of (v\<lparr>m_fd_container := fd_handle_update fd fil' (m_fd_container v)\<rparr>)"
  using assms
  by (auto simp: good_def vfs_ok_def files_mounted_def fd_handle_update_ok fd_handle_update_handle split: if_splits)

lemma invoke_fops_fd_settles:
  assumes good: "good root_of v"
    and meth: "\<And>fs. rooted_filesystem fs root_of \<Longrightarrow> keeps_handle file_root root_of (method fs)"
  shows "settles root_of (invoke_fops_fd method terror fd v) v"
proof (cases "fd_exist fd (m_fd_container v)")
  case False
  then show ?thesis using good by (simp add: invoke_fops_fd_unknown settles_return)
next
  case True
  then obtain fil where fd: "fd_handle fd (m_fd_container v) = Some fil" by (auto simp: fd_exist_handle)
  obtain r fil' l self w where c: "file_root fil' = file_root fil"
    "invoke_fops_fd method terror fd v = Some (r, (after_call (file_root fil) l self w v)
      \<lparr>m_fd_container := fd_handle_update fd fil' (m_fd_container v)\<rparr>)"
    "vfs_ok root_of (after_call (file_root fil) l self w v)"
    by (rule invoke_fops_fd_known [OF good fd meth])
  let ?v = "after_call (file_root fil) l self w v"
  have "good root_of (?v\<lparr>m_fd_container := fd_handle_update fd fil' (m_fd_container ?v)\<rparr>)"
    using handle_stored_good [OF c(3), of fd fil fil'] good fd c(1) by (simp add: good_def after_call_files)
  then show ?thesis
    by (intro settlesI [OF c(2)]) (simp_all add: kept_def after_call_def umap_simps)
qed

lemma invoke_fops_same_mp_settles:
  assumes good: "good root_of v"
    and meth: "\<And>fs p q. rooted_filesystem fs root_of \<Longrightarrow> keeps_root root_of (method fs p q)"
  shows "settles root_of (invoke_fops_same_mp method path path2 v) v"
proof (cases "path = [] \<or> path2 = []")
  case False
  show ?thesis
  proof (cases "absolute_path path"; cases "absolute_path path2")
    fix abspath abspath2
    assume abs: "absolute_path path = Inr abspath" "absolute_path path2 = Inr abspath2"
    show ?thesis
    proof (cases "root_path abspath \<noteq> root_path abspath2 \<or> find_mount_point abspath (m_mounts v) = None")
      case True
      then show ?thesis
        using False abs good by (auto simp: invoke_fops_same_mp_def settles_return)
    next
      case found: False
      then obtain key where key: "find_mount_point abspath (m_mounts v) = Some key" by auto
      then have "umap_contains key (m_mounts v)" using find_mount_point_key by blast
      then obtain l where l: "map_of (m_mounts v) key = Some l" "\<not> locker_mutex l"
        using vfs_ok_mount good by (metis good_def)
      have wf: "umap_wf (m_mounts v)" using good by (simp add: good_def vfs_ok_def)
      have whole: "invoke_fops_same_mp method path path2 v =
          (if flags_test (mp_flags (locker_value l)) read_only then Some (EACCES, v)
           else call_locked key (\<lambda>fs. method fs abspath abspath2) v)"
        using False abs found key
        by (simp add: invoke_fops_same_mp_def call_locked_def lock_mount_eq [OF l] lock_unlock_id [OF wf l])
      show ?thesis
        unfolding whole
        using settles_return [OF good] call_locked_settles [OF good \<open>umap_contains key (m_mounts v)\<close>, of "\<lambda>fs. method fs abspath abspath2"]
          meth by auto
    qed
  qed (use False good in \<open>auto simp: invoke_fops_same_mp_def settles_return\<close>)
qed (use good in \<open>auto simp: invoke_fops_same_mp_def settles_return\<close>)

section \<open>The operations\<close>

lemma settles_mono:
  assumes "settles root_of out v'" "kept v v'" "fd_idx (m_fd_container v') = fd_idx (m_fd_container v)"
  shows "settles root_of out v"
proof -
  obtain r u where u: "out = Some (r, u)" "good root_of u" "kept v' u"
    "fd_idx (m_fd_container u) \<le> fd_idx (m_fd_container v') + 1"
    using assms(1) by (auto simp: settles_def)
  show ?thesis
    by (rule settlesI [OF u(1,2) kept_trans [OF assms(2) u(3)]]) (use u(4) assms(3) in simp)
qed

lemma good_world: "good root_of v \<Longrightarrow> good root_of (v\<lparr>world := w\<rparr>) \<and> kept v (v\<lparr>world := w\<rparr>)"
  by (simp add: good_def kept_def)

lemma good_rm_lock: "good root_of v \<Longrightarrow> good root_of (v\<lparr>m_mutex := n\<rparr>)"
  by (simp add: good_def)

lemmas fs_keeps = rooted_filesystem.path_keeps rooted_filesystem.handle_keeps rooted_filesystem.open_keeps
  rooted_filesystem.diropen_keeps rooted_filesystem.unmount_keeps rooted_filesystem.label_keeps

text \<open>\<open>open\<close> under the lock: refused on a read-only mount point, failed by the file system, or a new
  descriptor on the returned handle.\<close>

lemma unlock_mount_container:
  "unlock_mount key (v\<lparr>m_fd_container := c\<rparr>) = (unlock_mount key v)\<lparr>m_fd_container := c\<rparr>"
  by (simp add: unlock_mount_def)

lemma open_on_mount_eq:
  assumes wf: "umap_wf (m_mounts v)" and l: "map_of (m_mounts v) key = Some l" "\<not> locker_mutex l"
    and call: "fs_open (mp_fs (locker_value l)) abspath (word_of_int flags) mode
      (mp_self (locker_value l)) (world v) = (r, self, w)"
  shows "open_on_mount key path abspath flags mode v =
    (if word_of_int flags AND O_ACCMODE \<noteq> O_RDONLY \<and> flags_test (mp_flags (locker_value l)) read_only
     then Some (Inl EACCES, v)
     else case r of
       Inl e \<Rightarrow> Some (Inl e, after_call key l self w v)
     | Inr h \<Rightarrow> do {
         (fd, c) \<leftarrow> fd_insert path h (m_fd_container v);
         Some (Inr fd, (after_call key l self w v)\<lparr>m_fd_container := c\<rparr>) })"
proof -
  let ?lv = "v\<lparr>m_mounts := umap_modify key (\<lambda>_. l\<lparr>locker_mutex := True\<rparr>) (m_mounts v)\<rparr>"
  obtain r' v' where run: "run_method key (locker_value l)
      (\<lambda>fs. fs_open fs abspath (word_of_int flags) mode) ?lv = (r', v')" by fastforce
  have after: "r' = r" "unlock_mount key v' = after_call key l self w v"
    using run_and_unlock [OF l(2) run call] by auto
  have fdc: "m_fd_container v' = m_fd_container v"
    using run by (auto simp: run_method_def split: prod.splits)
  show ?thesis
    using run after fdc
    by (simp add: open_on_mount_def lock_mount_eq [OF l] lock_unlock_id [OF wf l] unlock_mount_container
        split: sum.split)
qed

lemma new_file_good:
  assumes good: "good root_of v" and key: "umap_contains (file_root h) (m_mounts v)"
    and ins: "fd_insert path h (m_fd_container v) = Some (fd, c)"
  shows "good root_of (v\<lparr>m_fd_container := c\<rparr>)" "fd_idx c = fd_idx (m_fd_container v) + 1"
proof -
  have ok: "container_ok (m_fd_container v)" using good by (simp add: good_def vfs_ok_def)
  have "container_ok c" using fd_insert_ok [OF ok ins] .
  moreover have "fd_handle m c = (if m = fd then Some h else fd_handle m (m_fd_container v))" for m
    using open_files_insert [OF ins] fresh_not_open [OF ok]
    by (auto simp: fd_handle_def umap_simps fd_exist_def umap_contains_def)
  ultimately show "good root_of (v\<lparr>m_fd_container := c\<rparr>)"
    using good key by (auto simp: good_def vfs_ok_def files_mounted_def split: if_splits)
  show "fd_idx c = fd_idx (m_fd_container v) + 1" using open_files_insert(3) [OF ins] .
qed

lemma open_on_mount_settles:
  assumes good: "good root_of v" and key: "umap_contains key (m_mounts v)"
    and idx: "fd_idx (m_fd_container v) < INT_MAX"
  shows "settles root_of (open_on_mount key path abspath flags mode v) v"
proof -
  have wf: "umap_wf (m_mounts v)" using good by (simp add: good_def vfs_ok_def)
  obtain l where l: "map_of (m_mounts v) key = Some l" "\<not> locker_mutex l"
    "rooted_filesystem (mp_fs (locker_value l)) root_of" "root_of (mp_self (locker_value l)) = key"
    using vfs_ok_mount [of root_of v key] good key by (auto simp: good_def)
  obtain r self w where call: "fs_open (mp_fs (locker_value l)) abspath (word_of_int flags) mode
      (mp_self (locker_value l)) (world v) = (r, self, w)" by (metis surj_pair)
  let ?a = "after_call key l self w v"
  have good_a: "good root_of ?a"
    using after_call_ok [OF _ l(1)] keeps_rootD [OF rooted_filesystem.open_keeps [OF l(3)] call] good
    by (simp add: good_def after_call_files)
  have settled: "settles root_of (Some (x, ?a)) v" for x :: "int result"
    by (rule settlesI [OF refl good_a]) simp_all
  have opened: "settles root_of (do { (fd, c) \<leftarrow> fd_insert path h (m_fd_container v);
      Some (Inr fd :: int result, ?a\<lparr>m_fd_container := c\<rparr>) }) v" if r: "r = Inr h" for h
  proof -
    obtain fd c where ins: "fd_insert path h (m_fd_container ?a) = Some (fd, c)"
      using idx by (auto simp: fd_insert_def Let_def)
    have "file_root h = key"
      using rooted_filesystem.open_root [OF l(3)] call r l(4) by metis
    then have "umap_contains (file_root h) (m_mounts ?a)"
      using key by (simp add: kept_contains [OF after_call_simps(4)])
    note new = new_file_good [OF good_a this ins]
    have "settles root_of (Some (Inr fd :: int result, ?a\<lparr>m_fd_container := c\<rparr>)) v"
      by (rule settlesI [OF refl new(1)]) (use new(2) in \<open>simp_all add: kept_def after_call_def umap_simps\<close>)
    then show ?thesis using ins by simp
  qed
  show ?thesis
    unfolding open_on_mount_eq [OF wf l(1,2) call]
    using settles_return [OF good] settled opened by (auto split: sum.split)
qed

lemma open_settles:
  assumes "good root_of v" "fd_idx (m_fd_container v) < INT_MAX"
  shows "settles root_of (VirtualFS_open path flags mode v) v"
  unfolding VirtualFS_open_def
proof (rule lock_guard_settles)
  let ?v = "v\<lparr>m_mutex := rm_lock (m_mutex v)\<rparr>"
  have g: "good root_of ?v" using assms(1) by (rule good_rm_lock)
  have "settles root_of (open_on_mount key path p flags mode ?v) ?v"
    if "find_mount_point p (m_mounts ?v) = Some key" for key p
    by (rule open_on_mount_settles [OF g]) (use find_mount_point_key [OF that] assms(2) in simp_all)
  then show "settles root_of (case absolute_path path of Inl e \<Rightarrow> Some (Inl e, ?v)
     | Inr abspath \<Rightarrow>
         (case find_mount_point abspath (m_mounts ?v) of None \<Rightarrow> Some (Inl ENOENT, ?v)
          | Some key \<Rightarrow> open_on_mount key path abspath flags mode ?v)) ?v"
    using settles_return [OF g] by (auto split: sum.split option.split)
qed

text \<open>Removing a descriptor keeps the state good.\<close>

lemma removed_good:
  assumes good: "good root_of v" and fd: "fd_exist fd (m_fd_container v)"
    and rem: "fd_remove fd (m_fd_container v) = (p, c)"
  shows "good root_of (v\<lparr>m_fd_container := c\<rparr>)" "fd_idx c = fd_idx (m_fd_container v)"
proof -
  have ok: "container_ok (m_fd_container v)" using good by (simp add: good_def vfs_ok_def)
  obtain q s b where on: "open_files (m_fd_container v) q = Some (s, b)" "fd \<in> s"
    using container_okD(7) [OF ok] fd by (auto simp: open_on_files)
  show "fd_idx c = fd_idx (m_fd_container v)" using fd_remove_files(4) [OF ok on] rem by simp
  have id: "by_id c = umap_erase fd (by_id (m_fd_container v))" and "container_ok c"
    using fd_remove_files(3) [OF ok on] fd_remove_ok [OF ok on] rem by simp_all
  then show "good root_of (v\<lparr>m_fd_container := c\<rparr>)"
    using good by (auto simp: good_def vfs_ok_def files_mounted_def fd_handle_def umap_simps split: if_splits)
qed

lemma close_known:
  assumes good: "good root_of v" and fd: "fd_handle fd (m_fd_container v) = Some fil"
  obtains r u p c where "invoke_fops_fd fs_close (\<lambda>e. e) fd v = Some (r, u)" "good root_of u" "kept v u"
    "fd_remove fd (m_fd_container u) = (p, c)" "good root_of (u\<lparr>m_fd_container := c\<rparr>)"
    "kept v (u\<lparr>m_fd_container := c\<rparr>)" "fd_idx c = fd_idx (m_fd_container v)"
    "open_files (m_fd_container u) = open_files (m_fd_container v)"
    "fd_exist fd (m_fd_container u)"
proof -
  obtain r fil' l self w where c: "file_root fil' = file_root fil"
    "invoke_fops_fd fs_close (\<lambda>e. e) fd v = Some (r, (after_call (file_root fil) l self w v)
      \<lparr>m_fd_container := fd_handle_update fd fil' (m_fd_container v)\<rparr>)"
    "vfs_ok root_of (after_call (file_root fil) l self w v)"
    by (rule invoke_fops_fd_known [OF good fd rooted_filesystem.handle_keeps(1)])
  let ?a = "after_call (file_root fil) l self w v"
  let ?u = "?a\<lparr>m_fd_container := fd_handle_update fd fil' (m_fd_container v)\<rparr>"
  have u: "good root_of ?u"
    using handle_stored_good [OF c(3), of fd fil fil'] good fd c(1) by (simp add: good_def after_call_files)
  obtain p d where rem: "fd_remove fd (m_fd_container ?u) = (p, d)" by fastforce
  have "fd_exist fd (m_fd_container v)" using fd fd_exist_handle by blast
  then have ex: "fd_exist fd (m_fd_container ?u)" by simp
  have k: "kept v ?u" by (simp add: kept_def after_call_def umap_simps)
  show thesis
    by (rule that [OF c(2) u k rem removed_good(1) [OF u ex rem]])
      (use k removed_good(2) [OF u ex rem] ex in \<open>simp_all add: kept_def\<close>)
qed

lemma close_settles:
  assumes "good root_of v"
  shows "settles root_of (VirtualFS_close fd v) v"
  unfolding VirtualFS_close_def
proof (rule lock_guard_settles)
  let ?v = "v\<lparr>m_mutex := rm_lock (m_mutex v)\<rparr>"
  have g: "good root_of ?v" using assms by (rule good_rm_lock)
  show "settles root_of
     (if \<not> fd_exist fd (m_fd_container ?v) then Some (EBADF, ?v)
      else do {
        (ret, v) \<leftarrow> invoke_fops_fd fs_close (\<lambda>e. e) fd ?v;
        let (path, c) = fd_remove fd (m_fd_container v);
        let v = v\<lparr>m_fd_container := c\<rparr>;
        (case path of None \<Rightarrow> Some (ret, v)
         | Some path \<Rightarrow> invoke_fops_path fs_unlink (\<lambda>e. e) path v) }) ?v"
  proof (cases "fd_exist fd (m_fd_container ?v)")
    case True
    then obtain fil where fil: "fd_handle fd (m_fd_container ?v) = Some fil" by (auto simp: fd_exist_handle)
    obtain r u p c where st: "invoke_fops_fd fs_close (\<lambda>e. e) fd ?v = Some (r, u)"
      "fd_remove fd (m_fd_container u) = (p, c)" "good root_of (u\<lparr>m_fd_container := c\<rparr>)"
      "kept ?v (u\<lparr>m_fd_container := c\<rparr>)" "fd_idx c = fd_idx (m_fd_container ?v)"
      by (rule close_known [OF g fil])
    have plain: "settles root_of (Some (r, u\<lparr>m_fd_container := c\<rparr>)) ?v"
      by (rule settlesI [OF refl st(3,4)]) (use st(5) in simp)
    have "settles root_of (invoke_fops_path fs_unlink (\<lambda>e. e) q (u\<lparr>m_fd_container := c\<rparr>)) ?v" for q
      by (rule settles_mono [OF invoke_fops_path_settles [OF st(3) fs_keeps(5)] st(4)]) (use st(5) in simp_all)
    then show ?thesis using True st(1,2) plain by (simp add: Let_def split: option.split)
  qed (use g in \<open>simp add: settles_return\<close>)
qed

lemma unlink_settles:
  assumes "good root_of v"
  shows "settles root_of (VirtualFS_unlink name v) v"
  unfolding VirtualFS_unlink_def
proof (rule lock_guard_settles)
  let ?v = "v\<lparr>m_mutex := rm_lock (m_mutex v)\<rparr>"
  have g: "good root_of ?v" using assms by (rule good_rm_lock)
  have marked: "settles root_of (Some (EOK, ?v\<lparr>m_fd_container := fd_mark_for_unlink name (m_fd_container ?v)\<rparr>)) ?v"
    if "path_exist name (m_fd_container ?v)"
    by (rule settlesI [OF refl])
      (use g that fd_mark_ok [of "m_fd_container v" name] in
        \<open>auto simp: good_def vfs_ok_def files_mounted_def kept_def\<close>)
  have "settles root_of (invoke_fops_path fs_unlink (\<lambda>e. e) name ?v) ?v"
    by (rule invoke_fops_path_settles [OF g]) (rule fs_keeps(5))
  then show "settles root_of
     (if path_exist name (m_fd_container ?v)
      then Some (EOK, ?v\<lparr>m_fd_container := fd_mark_for_unlink name (m_fd_container ?v)\<rparr>)
      else invoke_fops_path fs_unlink (\<lambda>e. e) name ?v) ?v"
    using marked by simp
qed

lemma write_settles: "good root_of v \<Longrightarrow> settles root_of (VirtualFS_write fd data v) v"
proof -
  assume good: "good root_of v"
  obtain r v' where out: "invoke_stdstream_out fd data v = (r, v')" by fastforce
  then have v': "good root_of v'" "kept v v'" "m_fd_container v' = m_fd_container v"
    using good good_world [OF good] by (auto simp: invoke_stdstream_out_def split: if_splits prod.splits)
  have returned: "settles root_of (Some (Inr n :: nat result, v')) v" for n
    by (rule settlesI [OF refl v'(1,2)]) (use v'(3) in simp)
  have "settles root_of (invoke_fops_fd (\<lambda>fs. fs_write fs data) Inl fd v') v"
    by (rule settles_mono [OF invoke_fops_fd_settles [OF v'(1)] v'(2)])
      (use v'(3) rooted_filesystem.handle_keeps in auto)
  then show ?thesis using returned out by (simp add: VirtualFS_write_def split: sum.split)
qed

lemma read_settles: "good root_of v \<Longrightarrow> settles root_of (VirtualFS_read fd buf v) v"
proof -
  assume good: "good root_of v"
  obtain r b v' where out: "invoke_stdstream_in fd buf v = ((r, b), v')" by (metis surj_pair)
  then have v': "good root_of v'" "kept v v'" "m_fd_container v' = m_fd_container v"
    using good good_world [OF good] by (auto simp: invoke_stdstream_in_def split: if_splits prod.splits)
  have returned: "settles root_of (Some ((Inr n :: nat result, b), v')) v" for n
    by (rule settlesI [OF refl v'(1,2)]) (use v'(3) in simp)
  have "settles root_of (invoke_fops_fd (\<lambda>fs. fs_read fs b) (\<lambda>e. (Inl e, b)) fd v') v"
    by (rule settles_mono [OF invoke_fops_fd_settles [OF v'(1)] v'(2)])
      (use v'(3) rooted_filesystem.handle_keeps in auto)
  then show ?thesis using returned out by (simp add: VirtualFS_read_def split: sum.split)
qed

lemma get_roots_settles: "good root_of v \<Longrightarrow> settles root_of (VirtualFS_get_roots v) v"
  unfolding VirtualFS_get_roots_def
  by (rule lock_guard_settles, rule settles_return) (rule good_rm_lock)

text \<open>The statistics of one mount point and of all.\<close>

lemma stats_locked:
  assumes good: "good root_of v" and key: "umap_contains key (m_mounts v)"
    and lock: "lock_mount key v = Some (mp, u)" and stats: "get_mount_point_stats key mp u = (s, u')"
  shows "good root_of (unlock_mount key u')" "kept v (unlock_mount key u')"
    "m_fd_container (unlock_mount key u') = m_fd_container v"
proof -
  obtain l where l: "map_of (m_mounts v) key = Some l" "\<not> locker_mutex l"
    "rooted_filesystem (mp_fs (locker_value l)) root_of"
    using vfs_ok_mount [of root_of v key] good key by (auto simp: good_def)
  obtain r self w where call: "fs_stat_vfs (mp_fs (locker_value l)) (mp_root (locker_value l)) statvfs_zero
      (mp_self (locker_value l)) (world v) = (r, self, w)" by (metis surj_pair)
  have mp: "mp = locker_value l" "u = v\<lparr>m_mounts := umap_modify key (\<lambda>_. l\<lparr>locker_mutex := True\<rparr>) (m_mounts v)\<rparr>"
    using lock by (simp_all add: lock_mount_eq [OF l(1,2)])
  obtain r' v' where run: "run_method key (locker_value l)
      (\<lambda>fs. fs_stat_vfs fs (mp_root (locker_value l)) statvfs_zero) u = (r', v')" by fastforce
  have "unlock_mount key v' = after_call key l self w v"
    using run_and_unlock [OF l(2) run [unfolded mp] call] by simp
  moreover have "u' = v'" using stats run by (auto simp: get_mount_point_stats_def mp(1) Let_def split: prod.splits)
  ultimately have u': "unlock_mount key u' = after_call key l self w v" by simp
  show "good root_of (unlock_mount key u')" "kept v (unlock_mount key u')"
      "m_fd_container (unlock_mount key u') = m_fd_container v"
    unfolding u'
    using after_call_ok [OF _ l(1)] keeps_rootD [OF rooted_filesystem.path_keeps(1) [OF l(3)] call] good
    by (simp_all add: good_def after_call_files)
qed

lemma lock_mount_good:
  assumes "good root_of v" "umap_contains key (m_mounts v)"
  obtains mp u where "lock_mount key v = Some (mp, u)"
  using vfs_ok_mount [of root_of v key] assms lock_mount_eq by (metis good_def)

lemma stat_keys_settles:
  "good root_of v \<Longrightarrow> \<forall>key \<in> set keys. umap_contains key (m_mounts v) \<Longrightarrow>
    \<exists>r v'. stat_keys keys v = Some (r, v') \<and> good root_of v' \<and> kept v v' \<and> m_fd_container v' = m_fd_container v"
proof (induction keys arbitrary: v)
  case (Cons key keys)
  have key: "umap_contains key (m_mounts v)" using Cons.prems(2) by simp
  obtain mp u where lock: "lock_mount key v = Some (mp, u)" by (rule lock_mount_good [OF Cons.prems(1) key])
  obtain s u' where stats: "get_mount_point_stats key mp u = (s, u')" by fastforce
  note st = stats_locked [OF Cons.prems(1) key lock stats]
  have "\<forall>k \<in> set keys. umap_contains k (m_mounts (unlock_mount key u'))"
    using Cons.prems(2) kept_contains [OF st(2)] by simp
  then obtain r v' where "stat_keys keys (unlock_mount key u') = Some (r, v')" "good root_of v'"
    "kept (unlock_mount key u') v'" "m_fd_container v' = m_fd_container v"
    using Cons.IH [OF st(1)] st(3) by auto
  then show ?case
    using lock stats kept_trans [OF st(2)] by auto
qed simp

lemma stat_parts_settles: "good root_of v \<Longrightarrow> settles root_of (VirtualFS_stat_parts v) v"
  using stat_keys_settles [of root_of v "umap_keys (m_mounts v)"]
  by (auto simp: VirtualFS_stat_parts_def umap_contains_keys intro: settlesI)

lemma stat_parts_of_settles: "good root_of v \<Longrightarrow> settles root_of (VirtualFS_stat_parts_of path v) v"
proof (cases "find_mount_point path (m_mounts v)")
  case (Some key)
  assume good: "good root_of v"
  have key: "umap_contains key (m_mounts v)" using find_mount_point_key [OF Some] by simp
  obtain mp u where lock: "lock_mount key v = Some (mp, u)" by (rule lock_mount_good [OF good key])
  obtain s u' where stats: "get_mount_point_stats key mp u = (s, u')" by fastforce
  note st = stats_locked [OF good key lock stats]
  have "settles root_of (Some (Inr s :: PartitionStats result, unlock_mount key u')) v"
    by (rule settlesI [OF refl st(1,2)]) (use st(3) in simp)
  then show ?thesis using Some lock stats by (simp add: VirtualFS_stat_parts_of_def)
qed (simp add: VirtualFS_stat_parts_of_def settles_return)

lemma diropen_settles: "good root_of v \<Longrightarrow> settles root_of (VirtualFS_diropen path v) v"
proof -
  assume good: "good root_of v"
  have "settles root_of (call_locked key (\<lambda>fs. fs_diropen fs p) v) v"
    if "find_mount_point p (m_mounts v) = Some key" for key p
    by (rule call_locked_settles [OF good])
      (use find_mount_point_key [OF that] rooted_filesystem.diropen_keeps in auto)
  then show ?thesis
    using good by (auto simp: VirtualFS_diropen_def settles_return split: sum.splits option.splits)
qed

lemma dirops_settle:
  assumes good: "good root_of v" and root: "umap_contains (dir_root h) (m_mounts v)"
  shows "settles root_of (VirtualFS_dirreset h v) v" "settles root_of (VirtualFS_dirnext out h v) v"
    "settles root_of (VirtualFS_dirclose h v) v"
  unfolding VirtualFS_dirreset_def VirtualFS_dirnext_def VirtualFS_dirclose_def invoke_dirops_def DirectoryHandle_get_root_def
  by (rule call_locked_settles [OF good root], erule keeps_handle_root [OF rooted_filesystem.dir_keeps(1)],
    rule call_locked_settles [OF good root], erule keeps_handle_root [OF rooted_filesystem.dir_keeps(2)],
    rule call_locked_settles [OF good root], erule keeps_handle_root [OF rooted_filesystem.dir_keeps(3)])

section \<open>Sequences of operations\<close>

datatype 'd file_op =
    Op_open string int int
  | Op_close int
  | Op_write int "u8 list"
  | Op_read int "u8 list"
  | Op_lseek int int int
  | Op_fstat int stat
  | Op_ftruncate int int
  | Op_fsync int
  | Op_fchmod int int
  | Op_flock int int
  | Op_isatty int
  | Op_stat string stat
  | Op_symlink string string
  | Op_link string string
  | Op_unlink string
  | Op_rename string string
  | Op_mkdir string int
  | Op_rmdir string
  | Op_stat_vfs string statvfs
  | Op_chmod string int
  | Op_ioctl string int "u8 list"
  | Op_utimens string "int list"
  | Op_diropen string
  | Op_dirreset "'d DirectoryHandle"
  | Op_dirnext "'d DirectoryHandle" string stat
  | Op_dirclose "'d DirectoryHandle"
  | Op_chdir string
  | Op_get_roots
  | Op_stat_parts
  | Op_stat_parts_of string

definition outcome :: "('r \<times> 's) option \<Rightarrow> 's option" where
  "outcome out = map_option snd out"

fun run_file_op :: "'d file_op \<Rightarrow> ('f, 'h, 'd, 'w) VirtualFS \<Rightarrow> ('f, 'h, 'd, 'w) VirtualFS option" where
  "run_file_op (Op_open path flags mode) v = outcome (VirtualFS_open path flags mode v)"
| "run_file_op (Op_close fd) v = outcome (VirtualFS_close fd v)"
| "run_file_op (Op_write fd data) v = outcome (VirtualFS_write fd data v)"
| "run_file_op (Op_read fd buf) v = outcome (VirtualFS_read fd buf v)"
| "run_file_op (Op_lseek fd pos dir) v = outcome (VirtualFS_lseek fd pos dir v)"
| "run_file_op (Op_fstat fd st) v = outcome (VirtualFS_fstat fd st v)"
| "run_file_op (Op_ftruncate fd len) v = outcome (VirtualFS_ftruncate fd len v)"
| "run_file_op (Op_fsync fd) v = outcome (VirtualFS_fsync fd v)"
| "run_file_op (Op_fchmod fd mode) v = outcome (VirtualFS_fchmod fd mode v)"
| "run_file_op (Op_flock fd cmd) v = outcome (VirtualFS_flock fd cmd v)"
| "run_file_op (Op_isatty fd) v = outcome (VirtualFS_isatty fd v)"
| "run_file_op (Op_stat path st) v = outcome (VirtualFS_stat path st v)"
| "run_file_op (Op_symlink existing newlink) v = outcome (VirtualFS_symlink existing newlink v)"
| "run_file_op (Op_link existing newlink) v = outcome (VirtualFS_link existing newlink v)"
| "run_file_op (Op_unlink name) v = outcome (VirtualFS_unlink name v)"
| "run_file_op (Op_rename oldname newname) v = outcome (VirtualFS_rename oldname newname v)"
| "run_file_op (Op_mkdir path mode) v = outcome (VirtualFS_mkdir path mode v)"
| "run_file_op (Op_rmdir path) v = outcome (VirtualFS_rmdir path v)"
| "run_file_op (Op_stat_vfs path st) v = outcome (VirtualFS_stat_vfs path st v)"
| "run_file_op (Op_chmod path mode) v = outcome (VirtualFS_chmod path mode v)"
| "run_file_op (Op_ioctl path cmd arg) v = outcome (VirtualFS_ioctl path cmd arg v)"
| "run_file_op (Op_utimens path tv) v = outcome (VirtualFS_utimens path tv v)"
| "run_file_op (Op_diropen path) v = outcome (VirtualFS_diropen path v)"
| "run_file_op (Op_dirreset handle) v = outcome (VirtualFS_dirreset handle v)"
| "run_file_op (Op_dirnext handle filename filestat) v = outcome (VirtualFS_dirnext (filename, filestat) handle v)"
| "run_file_op (Op_dirclose handle) v = outcome (VirtualFS_dirclose handle v)"
| "run_file_op (Op_chdir path) v = outcome (VirtualFS_chdir path v)"
| "run_file_op Op_get_roots v = outcome (VirtualFS_get_roots v)"
| "run_file_op Op_stat_parts v = outcome (VirtualFS_stat_parts v)"
| "run_file_op (Op_stat_parts_of path) v = outcome (VirtualFS_stat_parts_of path v)"

fun run_file_ops :: "'d file_op list \<Rightarrow> ('f, 'h, 'd, 'w) VirtualFS \<Rightarrow> ('f, 'h, 'd, 'w) VirtualFS option" where
  "run_file_ops [] v = Some v"
| "run_file_ops (op # ops) v = do { v \<leftarrow> run_file_op op v; run_file_ops ops v }"

text \<open>A directory handle is the caller's, so an operation carries the one it is called with. What the operations
  need of it is that its root is mounted; the handles that \<open>diropen\<close> returns are such (\<open>diropen_result\<close>).\<close>

fun op_dir :: "'d file_op \<Rightarrow> 'd DirectoryHandle option" where
  "op_dir (Op_dirreset h) = Some h"
| "op_dir (Op_dirnext h _ _) = Some h"
| "op_dir (Op_dirclose h) = Some h"
| "op_dir _ = None"

definition dirs_mounted :: "'d file_op list \<Rightarrow> ('f, 'h, 'd, 'w) VirtualFS \<Rightarrow> bool" where
  "dirs_mounted opers v = list_all (\<lambda>oper. case op_dir oper of None \<Rightarrow> True
     | Some h \<Rightarrow> umap_contains (dir_root h) (m_mounts v)) opers"

lemma dirs_mounted_simps [simp]:
  "dirs_mounted [] v"
  "dirs_mounted (oper # opers) v \<longleftrightarrow>
     (case op_dir oper of None \<Rightarrow> True | Some h \<Rightarrow> umap_contains (dir_root h) (m_mounts v)) \<and> dirs_mounted opers v"
  by (simp_all add: dirs_mounted_def)

lemma dirs_mounted_kept: "kept v v' \<Longrightarrow> dirs_mounted opers v' = dirs_mounted opers v"
  by (simp add: dirs_mounted_def kept_contains cong: option.case_cong)

lemma settles_outcome:
  "settles root_of out v \<Longrightarrow> \<exists>v'. outcome out = Some v' \<and> good root_of v' \<and> kept v v' \<and>
    fd_idx (m_fd_container v') \<le> fd_idx (m_fd_container v) + 1"
  by (auto simp: settles_def outcome_def)

lemma path_op_settles:
  "good root_of v \<Longrightarrow> (\<And>fs p. rooted_filesystem fs root_of \<Longrightarrow> keeps_root root_of (method fs p)) \<Longrightarrow>
    settles root_of (invoke_fops_path method terror path v) v"
  by (rule invoke_fops_path_settles)

lemma fd_op_settles:
  assumes good: "good root_of v"
  shows "settles root_of (VirtualFS_lseek fd pos dir v) v"
    "settles root_of (VirtualFS_fstat fd st v) v"
    "settles root_of (VirtualFS_ftruncate fd len v) v"
    "settles root_of (VirtualFS_fsync fd v) v"
    "settles root_of (VirtualFS_fchmod fd mode v) v"
    "settles root_of (VirtualFS_flock fd cmd v) v"
    "settles root_of (VirtualFS_isatty fd v) v"
  unfolding VirtualFS_lseek_def VirtualFS_fstat_def VirtualFS_ftruncate_def VirtualFS_fsync_def
    VirtualFS_fchmod_def VirtualFS_flock_def VirtualFS_isatty_def
  by (auto intro!: invoke_fops_fd_settles [OF good] settles_return [OF good] rooted_filesystem.handle_keeps)

lemma path_ops_settle:
  assumes good: "good root_of v"
  shows "settles root_of (VirtualFS_stat path st v) v"
    "settles root_of (VirtualFS_symlink path path' v) v"
    "settles root_of (VirtualFS_link path path' v) v"
    "settles root_of (VirtualFS_mkdir path mode v) v"
    "settles root_of (VirtualFS_rmdir path v) v"
    "settles root_of (VirtualFS_stat_vfs path sv v) v"
    "settles root_of (VirtualFS_chmod path mode v) v"
    "settles root_of (VirtualFS_ioctl path cmd arg v) v"
    "settles root_of (VirtualFS_utimens path tv v) v"
    "settles root_of (VirtualFS_rename path path' v) v"
    "settles root_of (VirtualFS_chdir path v) v"
  unfolding VirtualFS_stat_def VirtualFS_symlink_def VirtualFS_link_def VirtualFS_mkdir_def VirtualFS_rmdir_def
    VirtualFS_stat_vfs_def VirtualFS_chmod_def VirtualFS_ioctl_def VirtualFS_utimens_def VirtualFS_rename_def
    VirtualFS_chdir_def
  by (auto intro!: path_op_settles [OF good] invoke_fops_same_mp_settles [OF good] settles_return [OF good]
      rooted_filesystem.path_keeps)

lemma run_file_op_settles:
  assumes good: "good root_of v" and idx: "fd_idx (m_fd_container v) < INT_MAX" and dirs: "dirs_mounted [op] v"
  shows "\<exists>v'. run_file_op op v = Some v' \<and> good root_of v' \<and> kept v v' \<and>
    fd_idx (m_fd_container v') \<le> fd_idx (m_fd_container v) + 1"
  by (cases op)
    (use settles_outcome [OF open_settles [OF good idx]] settles_outcome [OF close_settles [OF good]]
      settles_outcome [OF write_settles [OF good]] settles_outcome [OF read_settles [OF good]]
      settles_outcome [OF unlink_settles [OF good]] settles_outcome [OF diropen_settles [OF good]]
      settles_outcome [OF get_roots_settles [OF good]] settles_outcome [OF stat_parts_settles [OF good]]
      settles_outcome [OF stat_parts_of_settles [OF good]]
      fd_op_settles [OF good, THEN settles_outcome] path_ops_settle [OF good, THEN settles_outcome]
      dirops_settle [OF good, THEN settles_outcome] dirs
      in \<open>simp_all\<close>)

lemma run_file_ops_settle:
  "good root_of v \<Longrightarrow> fd_idx (m_fd_container v) + int (length ops) \<le> INT_MAX \<Longrightarrow> dirs_mounted ops v \<Longrightarrow>
    \<exists>v'. run_file_ops ops v = Some v' \<and> good root_of v' \<and> kept v v'"
proof (induction ops arbitrary: v)
  case (Cons op ops)
  have idx: "fd_idx (m_fd_container v) < INT_MAX" using Cons.prems(2) by simp
  obtain u where u: "run_file_op op v = Some u" "good root_of u" "kept v u"
    "fd_idx (m_fd_container u) \<le> fd_idx (m_fd_container v) + 1"
    using run_file_op_settles [OF Cons.prems(1) idx] Cons.prems(3) by auto
  have "fd_idx (m_fd_container u) + int (length ops) \<le> INT_MAX" using u(4) Cons.prems(2) by simp
  then obtain v' where "run_file_ops ops u = Some v'" "good root_of v'" "kept u v'"
    using Cons.IH [OF u(2)] Cons.prems(3) dirs_mounted_kept [OF u(3)] by auto
  then show ?case using u(1) kept_trans [OF u(3)] by auto
qed simp

end
