(* ===== verification/Lwext4_Fs.thy ===== *)
theory Lwext4_Fs
  imports Filesystem Inode Block_Device
begin

text \<open>
  \<open>filesystem_lwext4\<close> (\<open>lib/fstypes/filesystem_lwext4.cpp\<close>), the \<open>Filesystem\<close> over the file interface of
  the ext4 library (\<open>ext4.h\<close>). The functions of that interface that the class calls are the fields of
  the record \<open>lwext4\<close>, on the outside state \<open>'w\<close>; an \<open>ext4_file\<close> is an \<open>'h\<close> and an \<open>ext4_dir\<close> a \<open>'d\<close>. What
  the class computes from an inode and a superblock uses the accessors of the theories \<open>Inode\<close> and
  \<open>Superblock\<close>. The pointer to the \<open>ext4_blockdev\<close> of the handle is an address; \<open>lw_handle_new\<close> stands
  for the constructor of \<open>lwext4_handle\<close> (theory \<open>Block_Device\<close>) as far as the library sees it.
\<close>

section \<open>The interface of the library\<close>

record ext4_mount_stats =
  es_inodes_count :: u32
  es_free_inodes_count :: u32
  es_blocks_count :: u64
  es_free_blocks_count :: u64
  es_block_size :: u32

record ext4_direntry =
  de_inode :: u32
  de_inode_type :: u8
  de_name :: string

record ('h, 'd, 'w) lwext4 =
  lw_handle_new :: "'w BlockDevice \<Rightarrow> 'w \<Rightarrow> nat \<times> 'w"
  lw_file :: 'h
  lw_dir :: 'd
  lw_time :: "'w \<Rightarrow> int"
  lw_device_register :: "nat \<Rightarrow> string \<Rightarrow> 'w \<Rightarrow> errno \<times> 'w"
  lw_device_unregister :: "string \<Rightarrow> 'w \<Rightarrow> errno \<times> 'w"
  lw_mount :: "string \<Rightarrow> string \<Rightarrow> bool \<Rightarrow> 'w \<Rightarrow> errno \<times> 'w"
  lw_umount :: "string \<Rightarrow> 'w \<Rightarrow> errno \<times> 'w"
  lw_recover :: "string \<Rightarrow> 'w \<Rightarrow> errno \<times> 'w"
  lw_journal_start :: "string \<Rightarrow> 'w \<Rightarrow> errno \<times> 'w"
  lw_journal_stop :: "string \<Rightarrow> 'w \<Rightarrow> errno \<times> 'w"
  lw_mount_point_stats :: "string \<Rightarrow> 'w \<Rightarrow> (errno \<times> ext4_mount_stats) \<times> 'w"
  lw_fopen2 :: "'h \<Rightarrow> string \<Rightarrow> int \<Rightarrow> 'w \<Rightarrow> (errno \<times> 'h) \<times> 'w"
  lw_fclose :: "'h \<Rightarrow> 'w \<Rightarrow> (errno \<times> 'h) \<times> 'w"
  lw_fwrite :: "u8 list \<Rightarrow> 'h \<Rightarrow> 'w \<Rightarrow> (errno \<times> nat \<times> 'h) \<times> 'w"
  lw_fread :: "u8 list \<Rightarrow> 'h \<Rightarrow> 'w \<Rightarrow> (errno \<times> nat \<times> u8 list \<times> 'h) \<times> 'w"
  lw_fseek :: "int \<Rightarrow> int \<Rightarrow> 'h \<Rightarrow> 'w \<Rightarrow> (errno \<times> 'h) \<times> 'w"
  lw_ftell :: "'h \<Rightarrow> int"
  lw_ftruncate :: "u64 \<Rightarrow> 'h \<Rightarrow> 'w \<Rightarrow> (errno \<times> 'h) \<times> 'w"
  lw_raw_inode_fill :: "string \<Rightarrow> 'w \<Rightarrow> (errno \<times> u32 \<times> ext4_inode) \<times> 'w"
  lw_get_sblock :: "string \<Rightarrow> 'w \<Rightarrow> (errno \<times> ext4_sblock) \<times> 'w"
  lw_flink :: "string \<Rightarrow> string \<Rightarrow> 'w \<Rightarrow> errno \<times> 'w"
  lw_fsymlink :: "string \<Rightarrow> string \<Rightarrow> 'w \<Rightarrow> errno \<times> 'w"
  lw_frename :: "string \<Rightarrow> string \<Rightarrow> 'w \<Rightarrow> errno \<times> 'w"
  lw_inode_exist :: "string \<Rightarrow> int \<Rightarrow> 'w \<Rightarrow> errno \<times> 'w"
  lw_fremove :: "string \<Rightarrow> 'w \<Rightarrow> errno \<times> 'w"
  lw_dir_rm :: "string \<Rightarrow> 'w \<Rightarrow> errno \<times> 'w"
  lw_dir_mk :: "string \<Rightarrow> 'w \<Rightarrow> errno \<times> 'w"
  lw_dir_open :: "'d \<Rightarrow> string \<Rightarrow> 'w \<Rightarrow> (errno \<times> 'd) \<times> 'w"
  lw_dir_close :: "'d \<Rightarrow> 'w \<Rightarrow> (errno \<times> 'd) \<times> 'w"
  lw_dir_entry_next :: "'d \<Rightarrow> 'w \<Rightarrow> (ext4_direntry option \<times> 'd) \<times> 'w"
  lw_dir_entry_rewind :: "'d \<Rightarrow> 'w \<Rightarrow> 'd \<times> 'w"
  lw_mode_set :: "string \<Rightarrow> u32 \<Rightarrow> 'w \<Rightarrow> errno \<times> 'w"
  lw_atime_set :: "string \<Rightarrow> u32 \<Rightarrow> 'w \<Rightarrow> errno \<times> 'w"
  lw_mtime_set :: "string \<Rightarrow> u32 \<Rightarrow> 'w \<Rightarrow> errno \<times> 'w"
  lw_cache_flush :: "string \<Rightarrow> 'w \<Rightarrow> errno \<times> 'w"
  lw_mkfs_read_info :: "nat \<Rightarrow> 'w \<Rightarrow> (errno \<times> string) \<times> 'w"

section \<open>Helpers\<close>

definition to_native_path :: "string \<Rightarrow> string \<Rightarrow> string" where
  "to_native_path root path = (if path = root then path @ ''/'' else path)"

definition to_native_root :: "string \<Rightarrow> string" where
  "to_native_root root = root @ ''/''"

definition ino_to_st_mode :: "int \<Rightarrow> u32" where
  "ino_to_st_mode dtype =
     (if dtype = 1 then 0x8000 else if dtype = 2 then 0x4000 else if dtype = 3 then 0x2000
      else if dtype = 4 then 0x6000 else if dtype = 5 then 0x1000 else if dtype = 6 then 0xC000 else 0)"

definition get_posix_time :: "('h, 'd, 'w) lwext4 \<Rightarrow> 'w \<Rightarrow> u32" where
  "get_posix_time api w = (let time = lw_time api w in if time = -1 then 0 else word_of_int time)"

section \<open>The object\<close>

record 'w filesystem_lwext4 =
  lw_blockdev :: "'w BlockDevice"
  lw_flags :: Flags
  lw_handle :: nat
  lw_root :: string

definition create_filesystem_lwext4 :: "('h, 'd, 'w) lwext4 \<Rightarrow> 'w BlockDevice \<Rightarrow> Flags \<Rightarrow> 'w \<Rightarrow> 'w filesystem_lwext4 \<times> 'w" where
  "create_filesystem_lwext4 api bdev flags w =
     (case lw_handle_new api bdev w of (handle, w) \<Rightarrow>
        (\<lparr>lw_blockdev = bdev, lw_flags = flags, lw_handle = handle, lw_root = []\<rparr>, w))"

definition lw_device_name :: "'w filesystem_lwext4 \<Rightarrow> 'w \<Rightarrow> string" where
  "lw_device_name self w = get_name (lw_blockdev self) w"

text \<open>Undoing a mount: the return values are ignored.\<close>

definition lw_unregister :: "('h, 'd, 'w) lwext4 \<Rightarrow> 'w filesystem_lwext4 \<Rightarrow> 'w \<Rightarrow> 'w" where
  "lw_unregister api self w = snd (lw_device_unregister api (lw_device_name self w) w)"

definition lwext4_mount :: "('h, 'd, 'w) lwext4 \<Rightarrow> string \<Rightarrow> Flags \<Rightarrow> ('w filesystem_lwext4, 'w, errno) fs_method" where
  "lwext4_mount api root flags self w =
     (let self = self\<lparr>lw_root := root\<rparr>;
          root = to_native_root root;
          (err, w) = lw_device_register api (lw_handle self) (lw_device_name self w) w
      in if err \<noteq> 0 then (err, self, w)
         else let (err, w) = lw_mount api (lw_device_name self w) root (flags_test flags read_only) w
         in if err \<noteq> 0 then (err, self, lw_unregister api self w)
         else let (err, w) = lw_recover api root w
         in if err \<noteq> 0 then (err, self, lw_unregister api self (snd (lw_umount api root w)))
         else let (err, w) = lw_journal_start api root w
         in if err \<noteq> 0 then (err, self, lw_unregister api self (snd (lw_umount api root w)))
         else (EOK, self, w))"

definition lwext4_unmount :: "('h, 'd, 'w) lwext4 \<Rightarrow> ('w filesystem_lwext4, 'w, errno) fs_method" where
  "lwext4_unmount api self w =
     (let native_root = to_native_root (lw_root self);
          (_, w) = lw_journal_stop api native_root w;
          (err, w) = lw_umount api native_root w
      in if err \<noteq> 0 then (err, self, w)
         else let (err, w) = lw_device_unregister api (lw_device_name self w) w in (err, self, w))"

definition NAME_MAX :: u64 where "NAME_MAX = 255"

definition lwext4_stat_vfs :: "('h, 'd, 'w) lwext4 \<Rightarrow> string \<Rightarrow> statvfs \<Rightarrow>
    ('w filesystem_lwext4, 'w, errno \<times> statvfs) fs_method" where
  "lwext4_stat_vfs api path st self w =
     (case lw_mount_point_stats api (to_native_root (lw_root self)) w of ((err, es), w) \<Rightarrow>
        if err \<noteq> 0 then ((err, st), self, w)
        else ((EOK, statvfs_zero
          \<lparr>f_bsize := ucast (es_block_size es), f_frsize := ucast (es_block_size es),
           f_blocks := es_blocks_count es, f_bfree := es_free_blocks_count es,
           f_bavail := es_free_blocks_count es, f_files := ucast (es_inodes_count es),
           f_ffree := ucast (es_free_inodes_count es), f_favail := ucast (es_free_inodes_count es),
           f_flag := ucast (lw_flags self), f_namemax := NAME_MAX\<rparr>), self, w))"

section \<open>Files\<close>

text \<open>A call of the library on the raw handle of a file, the shape of \<open>invoke_fs(FileHandle&, ...)\<close>.\<close>

definition invoke_raw :: "('h \<Rightarrow> 'w \<Rightarrow> (errno \<times> 'h) \<times> 'w) \<Rightarrow> 'h FileHandle \<Rightarrow>
    ('f, 'w, errno \<times> 'h FileHandle) fs_method" where
  "invoke_raw efs_fun h self w =
     (case efs_fun (file_raw h) w of ((err, raw), w) \<Rightarrow> ((err, h\<lparr>file_raw := raw\<rparr>), self, w))"

definition lwext4_open :: "('h, 'd, 'w) lwext4 \<Rightarrow> string \<Rightarrow> Flags \<Rightarrow> int \<Rightarrow>
    ('w filesystem_lwext4, 'w, 'h FileHandle result) fs_method" where
  "lwext4_open api abspath flags mode self w =
     (case lw_fopen2 api (lw_file api) abspath (sint flags) w of ((err, raw), w) \<Rightarrow>
        if err = EOK then
          (case lw_atime_set api abspath (get_posix_time api w) w of (_, w) \<Rightarrow>
             (Inr \<lparr>file_abspath = abspath, file_root = lw_root self, file_raw = raw\<rparr>, self, w))
        else (Inl err, self, w))"

definition lwext4_close :: "('h, 'd, 'w) lwext4 \<Rightarrow> 'h FileHandle \<Rightarrow>
    ('w filesystem_lwext4, 'w, errno \<times> 'h FileHandle) fs_method" where
  "lwext4_close api h self w =
     (case invoke_raw (lw_fclose api) h self w of ((err, h), self, w) \<Rightarrow>
        if err = 0 then
          (case lw_mtime_set api (FileHandle_get_path h) (get_posix_time api w) w of (err, w) \<Rightarrow> ((err, h), self, w))
        else ((err, h), self, w))"

definition lwext4_write :: "('h, 'd, 'w) lwext4 \<Rightarrow> u8 list \<Rightarrow> 'h FileHandle \<Rightarrow>
    ('w filesystem_lwext4, 'w, nat result \<times> 'h FileHandle) fs_method" where
  "lwext4_write api data h self w =
     (case lw_fwrite api data (file_raw h) w of ((err, n_written, raw), w) \<Rightarrow>
        ((if err \<noteq> 0 then Inl err else Inr n_written, h\<lparr>file_raw := raw\<rparr>), self, w))"

definition lwext4_read :: "('h, 'd, 'w) lwext4 \<Rightarrow> u8 list \<Rightarrow> 'h FileHandle \<Rightarrow>
    ('w filesystem_lwext4, 'w, (nat result \<times> u8 list) \<times> 'h FileHandle) fs_method" where
  "lwext4_read api buf h self w =
     (case lw_fread api buf (file_raw h) w of ((err, n_read, buf, raw), w) \<Rightarrow>
        (((if err \<noteq> 0 then Inl err else Inr n_read, buf), h\<lparr>file_raw := raw\<rparr>), self, w))"

definition lwext4_lseek :: "('h, 'd, 'w) lwext4 \<Rightarrow> int \<Rightarrow> int \<Rightarrow> 'h FileHandle \<Rightarrow>
    ('w filesystem_lwext4, 'w, int result \<times> 'h FileHandle) fs_method" where
  "lwext4_lseek api pos dir h self w =
     (case invoke_raw (lw_fseek api pos dir) h self w of ((ret, h), self, w) \<Rightarrow>
        ((if ret \<noteq> 0 then Inl ret else Inr (lw_ftell api (file_raw h)), h), self, w))"

text \<open>\<open>struct stat\<close> from an inode; the type bits of the mode are or-ed with what \<open>ino_to_st_mode\<close> gives
  for them.\<close>

definition stat_of_inode :: "ext4_sblock \<Rightarrow> u32 \<Rightarrow> ext4_inode \<Rightarrow> stat" where
  "stat_of_inode sb inonum ino =
     \<lparr>st_dev = (case ext4_inode_get_dev ino of None \<Rightarrow> 0 | Some dev \<Rightarrow> uint dev),
      st_ino = uint inonum,
      st_mode = uint (ext4_inode_get_mode sb ino OR ino_to_st_mode (uint (ext4_inode_type sb ino))),
      st_nlink = uint (ext4_inode_get_links_cnt ino),
      st_uid = uint (ext4_inode_get_uid ino),
      st_gid = uint (ext4_inode_get_gid ino),
      st_size = uint (ext4_inode_get_size sb ino),
      st_blksize = uint (ext4_sb_get_block_size sb),
      st_blocks = uint (ext4_inode_get_blocks_count sb ino),
      st_atime = uint (ext4_inode_get_access_time ino),
      st_mtime = uint (ext4_inode_get_modif_time ino),
      st_ctime = uint (ext4_inode_get_change_inode_time ino)\<rparr>"

definition lwext4__stat :: "('h, 'd, 'w) lwext4 \<Rightarrow> stat \<Rightarrow> string \<Rightarrow>
    ('w filesystem_lwext4, 'w, errno \<times> stat) fs_method" where
  "lwext4__stat api st path self w =
     (case lw_raw_inode_fill api (to_native_path (lw_root self) path) w of ((err, inonum, ino), w) \<Rightarrow>
        if err \<noteq> 0 then ((err, st), self, w)
        else case lw_get_sblock api (to_native_root (lw_root self)) w of ((err, sb), w) \<Rightarrow>
          if err \<noteq> 0 then ((err, st), self, w)
          else ((EOK, stat_of_inode sb inonum ino), self, w))"

definition lwext4_fstat :: "('h, 'd, 'w) lwext4 \<Rightarrow> stat \<Rightarrow> 'h FileHandle \<Rightarrow>
    ('w filesystem_lwext4, 'w, (errno \<times> stat) \<times> 'h FileHandle) fs_method" where
  "lwext4_fstat api st h self w =
     (case lwext4__stat api st (FileHandle_get_path h) self w of (r, self, w) \<Rightarrow> ((r, h), self, w))"

definition lwext4_stat :: "('h, 'd, 'w) lwext4 \<Rightarrow> stat \<Rightarrow> string \<Rightarrow>
    ('w filesystem_lwext4, 'w, errno \<times> stat) fs_method" where
  "lwext4_stat api st path = lwext4__stat api st path"

text \<open>A call of the library that takes paths.\<close>

definition invoke_path :: "('w \<Rightarrow> errno \<times> 'w) \<Rightarrow> ('f, 'w, errno) fs_method" where
  "invoke_path efs_fun self w = (case efs_fun w of (err, w) \<Rightarrow> (err, self, w))"

definition lwext4_link :: "('h, 'd, 'w) lwext4 \<Rightarrow> string \<Rightarrow> string \<Rightarrow> ('w filesystem_lwext4, 'w, errno) fs_method" where
  "lwext4_link api existing newlink = invoke_path (lw_flink api existing newlink)"

definition lwext4_symlink :: "('h, 'd, 'w) lwext4 \<Rightarrow> string \<Rightarrow> string \<Rightarrow> ('w filesystem_lwext4, 'w, errno) fs_method" where
  "lwext4_symlink api existing newlink = invoke_path (lw_fsymlink api existing newlink)"

definition EXT4_DE_DIR :: int where "EXT4_DE_DIR = 2"

definition lwext4_unlink :: "('h, 'd, 'w) lwext4 \<Rightarrow> string \<Rightarrow> ('w filesystem_lwext4, 'w, errno) fs_method" where
  "lwext4_unlink api name self w =
     (case lw_inode_exist api name EXT4_DE_DIR w of (r, w) \<Rightarrow>
        if r = 0 then invoke_path (lw_dir_rm api name) self w
        else invoke_path (lw_fremove api name) self w)"

definition lwext4_rmdir :: "('h, 'd, 'w) lwext4 \<Rightarrow> string \<Rightarrow> ('w filesystem_lwext4, 'w, errno) fs_method" where
  "lwext4_rmdir api name = invoke_path (lw_dir_rm api name)"

definition lwext4_rename :: "('h, 'd, 'w) lwext4 \<Rightarrow> string \<Rightarrow> string \<Rightarrow> ('w filesystem_lwext4, 'w, errno) fs_method" where
  "lwext4_rename api oldname newname = invoke_path (lw_frename api oldname newname)"

definition lwext4_mkdir :: "('h, 'd, 'w) lwext4 \<Rightarrow> int \<Rightarrow> string \<Rightarrow> ('w filesystem_lwext4, 'w, errno) fs_method" where
  "lwext4_mkdir api mode path = invoke_path (lw_dir_mk api path)"

section \<open>Directories\<close>

definition lwext4_diropen :: "('h, 'd, 'w) lwext4 \<Rightarrow> string \<Rightarrow>
    ('w filesystem_lwext4, 'w, 'd DirectoryHandle result) fs_method" where
  "lwext4_diropen api path self w =
     (case lw_dir_open api (lw_dir api) (to_native_path (lw_root self) path) w of ((ret, raw), w) \<Rightarrow>
        (if ret = 0 then Inr \<lparr>dir_root = lw_root self, dir_raw = raw\<rparr> else Inl ret, self, w))"

definition lwext4_dirreset :: "('h, 'd, 'w) lwext4 \<Rightarrow> 'd DirectoryHandle \<Rightarrow>
    ('w filesystem_lwext4, 'w, errno \<times> 'd DirectoryHandle) fs_method" where
  "lwext4_dirreset api h self w =
     (case lw_dir_entry_rewind api (dir_raw h) w of (raw, w) \<Rightarrow> ((EOK, h\<lparr>dir_raw := raw\<rparr>), self, w))"

definition lwext4_dirnext :: "('h, 'd, 'w) lwext4 \<Rightarrow> string \<times> stat \<Rightarrow> 'd DirectoryHandle \<Rightarrow>
    ('w filesystem_lwext4, 'w, (errno \<times> string \<times> stat) \<times> 'd DirectoryHandle) fs_method" where
  "lwext4_dirnext api out h self w =
     (case lw_dir_entry_next api (dir_raw h) w of ((dentry, raw), w) \<Rightarrow>
        ((case dentry of
            Some de \<Rightarrow> (EOK, de_name de, stat_zero\<lparr>st_ino := uint (de_inode de),
              st_mode := uint (ino_to_st_mode (uint (de_inode_type de)))\<rparr>)
          | None \<Rightarrow> (ENOENT, out), h\<lparr>dir_raw := raw\<rparr>), self, w))"

definition lwext4_dirclose :: "('h, 'd, 'w) lwext4 \<Rightarrow> 'd DirectoryHandle \<Rightarrow>
    ('w filesystem_lwext4, 'w, errno \<times> 'd DirectoryHandle) fs_method" where
  "lwext4_dirclose api h self w =
     (case lw_dir_close api (dir_raw h) w of ((err, raw), w) \<Rightarrow> ((err, h\<lparr>dir_raw := raw\<rparr>), self, w))"

section \<open>The rest\<close>

definition set_mode :: "('h, 'd, 'w) lwext4 \<Rightarrow> string \<Rightarrow> int \<Rightarrow> 'w \<Rightarrow> errno \<times> 'w" where
  "set_mode api path mode w =
     (case lw_mode_set api path (word_of_int mode) w of (err, w) \<Rightarrow>
        (err, if err = EOK then snd (lw_mtime_set api path (get_posix_time api w) w) else w))"

definition lwext4_chmod :: "('h, 'd, 'w) lwext4 \<Rightarrow> int \<Rightarrow> string \<Rightarrow> ('w filesystem_lwext4, 'w, errno) fs_method" where
  "lwext4_chmod api mode path = invoke_path (set_mode api path mode)"

definition lwext4_fchmod :: "('h, 'd, 'w) lwext4 \<Rightarrow> int \<Rightarrow> 'h FileHandle \<Rightarrow>
    ('w filesystem_lwext4, 'w, errno \<times> 'h FileHandle) fs_method" where
  "lwext4_fchmod api mode h self w =
     (case set_mode api (FileHandle_get_path h) mode w of (err, w) \<Rightarrow> ((err, h), self, w))"

definition lwext4_isatty :: "'h FileHandle \<Rightarrow> ('w filesystem_lwext4, 'w, bool result \<times> 'h FileHandle) fs_method" where
  "lwext4_isatty h self w = ((Inr False, h), self, w)"

text \<open>The fallback of \<open>ftruncate\<close> when the library does not support the length: zeros are written at the
  position of the file, whole buffers first; the errors are negated.\<close>

definition zbuf_len :: nat where "zbuf_len = 8192"

fun write_zeros :: "('h, 'd, 'w) lwext4 \<Rightarrow> nat \<Rightarrow> 'h \<Rightarrow> 'w \<Rightarrow> (errno \<times> 'h) \<times> 'w" where
  "write_zeros api 0 raw w = ((0, raw), w)"
| "write_zeros api (Suc n) raw w =
     (case lw_fwrite api (replicate zbuf_len 0) raw w of ((err, _, raw), w) \<Rightarrow>
        if err \<noteq> 0 then ((- err, raw), w) else write_zeros api n raw w)"

definition truncate_or_fill :: "('h, 'd, 'w) lwext4 \<Rightarrow> u64 \<Rightarrow> 'h \<Rightarrow> 'w \<Rightarrow> (errno \<times> 'h) \<times> 'w" where
  "truncate_or_fill api len raw w =
     (case lw_ftruncate api len raw w of ((err, raw), w) \<Rightarrow>
        if err \<noteq> ENOTSUP then ((err, raw), w)
        else case write_zeros api (unat len div zbuf_len) raw w of ((err, raw), w) \<Rightarrow>
          if err = 0 \<and> 0 < unat len mod zbuf_len
          then (case lw_fwrite api (replicate (unat len mod zbuf_len) 0) raw w of ((err, _, raw), w) \<Rightarrow> ((- err, raw), w))
          else ((err, raw), w))"

definition lwext4_ftruncate :: "('h, 'd, 'w) lwext4 \<Rightarrow> int \<Rightarrow> 'h FileHandle \<Rightarrow>
    ('w filesystem_lwext4, 'w, errno \<times> 'h FileHandle) fs_method" where
  "lwext4_ftruncate api len = invoke_raw (truncate_or_fill api (word_of_int len))"

definition lwext4_fsync :: "('h, 'd, 'w) lwext4 \<Rightarrow> 'h FileHandle \<Rightarrow>
    ('w filesystem_lwext4, 'w, errno \<times> 'h FileHandle) fs_method" where
  "lwext4_fsync api h self w =
     (case lw_cache_flush api (to_native_root (lw_root self)) w of (err, w) \<Rightarrow> ((err, h), self, w))"

definition lwext4_get_label :: "('h, 'd, 'w) lwext4 \<Rightarrow> ('w filesystem_lwext4, 'w, string result) fs_method" where
  "lwext4_get_label api self w =
     (case lw_mkfs_read_info api (lw_handle self) w of ((r, label), w) \<Rightarrow>
        (if r \<noteq> EOK then Inl r else Inr label, self, w))"

text \<open>The methods of the class; \<open>ioctl\<close>, \<open>utimens\<close> and \<open>flock\<close> are inherited.\<close>

definition filesystem_lwext4_ops :: "('h, 'd, 'w) lwext4 \<Rightarrow> ('w filesystem_lwext4, 'h, 'd, 'w) Filesystem" where
  "filesystem_lwext4_ops api =
     \<lparr>fs_mount = lwext4_mount api, fs_unmount = lwext4_unmount api, fs_stat_vfs = lwext4_stat_vfs api,
      fs_open = lwext4_open api, fs_close = lwext4_close api, fs_write = lwext4_write api,
      fs_read = lwext4_read api, fs_lseek = lwext4_lseek api, fs_fstat = lwext4_fstat api,
      fs_stat = lwext4_stat api, fs_link = lwext4_link api, fs_symlink = lwext4_symlink api,
      fs_unlink = lwext4_unlink api, fs_rmdir = lwext4_rmdir api, fs_rename = lwext4_rename api,
      fs_mkdir = lwext4_mkdir api, fs_diropen = lwext4_diropen api, fs_dirreset = lwext4_dirreset api,
      fs_dirnext = lwext4_dirnext api, fs_dirclose = lwext4_dirclose api,
      fs_ftruncate = lwext4_ftruncate api, fs_fsync = lwext4_fsync api, fs_ioctl = Filesystem_ioctl,
      fs_utimens = Filesystem_utimens, fs_flock = Filesystem_flock, fs_isatty = lwext4_isatty,
      fs_chmod = lwext4_chmod api, fs_fchmod = lwext4_fchmod api, fs_get_label = lwext4_get_label api\<rparr>"

definition filesystem_factory_lwext4 :: "('h, 'd, 'w) lwext4 \<Rightarrow> 'w BlockDevice \<Rightarrow> Flags \<Rightarrow> 'w \<Rightarrow>
    (('w filesystem_lwext4, 'h, 'd, 'w) Filesystem \<times> 'w filesystem_lwext4) \<times> 'w" where
  "filesystem_factory_lwext4 api bdev flags w =
     (case create_filesystem_lwext4 api bdev flags w of (self, w) \<Rightarrow> ((filesystem_lwext4_ops api, self), w))"

section \<open>The contract\<close>

lemma keeps_rootI: "(\<And>f w r f' w'. m f w = (r, f', w') \<Longrightarrow> root_of f' = root_of f) \<Longrightarrow> keeps_root root_of m"
  unfolding keeps_root_def by (metis prod.collapse)

lemma keeps_handleI:
  "(\<And>h f w r h' f' w'. m h f w = ((r, h'), f', w') \<Longrightarrow> root_of f' = root_of f \<and> rh h' = rh h) \<Longrightarrow> keeps_handle rh root_of m"
  unfolding keeps_handle_def keeps_root_def by (metis prod.collapse)

lemma lwext4_mount_root: "lwext4_mount api r flags f w = (e, f', w') \<Longrightarrow> lw_root f' = r"
  by (auto simp: lwext4_mount_def Let_def split: if_splits prod.splits)

lemmas lwext4_methods = lwext4_unmount_def lwext4_stat_vfs_def lwext4_open_def lwext4_close_def lwext4_write_def
  lwext4_read_def lwext4_lseek_def lwext4_fstat_def lwext4_stat_def lwext4__stat_def lwext4_link_def
  lwext4_symlink_def lwext4_unlink_def lwext4_rmdir_def lwext4_rename_def lwext4_mkdir_def lwext4_diropen_def
  lwext4_dirreset_def lwext4_dirnext_def lwext4_dirclose_def lwext4_ftruncate_def lwext4_fsync_def
  lwext4_isatty_def lwext4_chmod_def lwext4_fchmod_def lwext4_get_label_def invoke_raw_def invoke_path_def

text \<open>The methods of \<open>filesystem_lwext4\<close> keep the root and the handles they open carry it.\<close>

interpretation lwext4_rooted: rooted_filesystem "filesystem_lwext4_ops api" lw_root for api
proof (unfold_locales, unfold filesystem_lwext4_ops_def Filesystem.select_convs)
  show "lwext4_mount api r flags f w = (0, f', w') \<Longrightarrow> lw_root f' = r" for r flags f w f' w'
    by (rule lwext4_mount_root)
  show "lwext4_open api path flags mode f w = (Inr h, f', w') \<Longrightarrow> file_root h = lw_root f" for path flags mode f w h f' w'
    by (auto simp: lwext4_methods split: if_splits prod.splits)
  show "lwext4_diropen api path f w = (Inr d, f', w') \<Longrightarrow> dir_root d = lw_root f" for path f w d f' w'
    by (auto simp: lwext4_methods split: if_splits prod.splits)
qed (auto intro!: keeps_rootI keeps_handleI simp: lwext4_methods Filesystem_defaults Let_def
    split: if_splits prod.splits option.splits)

end
