(* ===== verification/Ext4_Devices.thy ===== *)
theory Ext4_Devices
  imports Lwext4_Fs
begin

text \<open>
  The table of block devices of the ext4 library (\<open>s_bdevices\<close> of \<open>ext4.c\<close>) and what mounting a
  \<open>filesystem_lwext4\<close> does to it. The contract of the table is the locale \<open>ext4_device_table\<close>; its
  interpretation is the library interface of \<open>Lwext4_Fs\<close> with the two registration functions of \<open>ext4.c\<close>
  over an explicit table and any behaviour of the other calls on the rest of the outside state.
\<close>

section \<open>The table\<close>

definition CONFIG_EXT4_BLOCKDEVS_COUNT :: nat where "CONFIG_EXT4_BLOCKDEVS_COUNT = 4"
definition CONFIG_EXT4_MAX_BLOCKDEV_NAME :: nat where "CONFIG_EXT4_MAX_BLOCKDEV_NAME = 32"

record ext4_block_device =
  bde_name :: string
  bde_bd :: "nat option"

definition bde_zero :: ext4_block_device where
  "bde_zero = \<lparr>bde_name = [], bde_bd = None\<rparr>"

definition s_bdevices_init :: "ext4_block_device list" where
  "s_bdevices_init = replicate CONFIG_EXT4_BLOCKDEVS_COUNT bde_zero"

fun use_free_slot :: "nat \<Rightarrow> string \<Rightarrow> ext4_block_device list \<Rightarrow> ext4_block_device list option" where
  "use_free_slot bd dev_name [] = None"
| "use_free_slot bd dev_name (e # es) =
     (if bde_bd e = None then Some (\<lparr>bde_name = dev_name, bde_bd = Some bd\<rparr> # es)
      else map_option (\<lambda>es. e # es) (use_free_slot bd dev_name es))"

definition ext4_device_register :: "nat \<Rightarrow> string \<Rightarrow> ext4_block_device list \<Rightarrow> errno \<times> ext4_block_device list" where
  "ext4_device_register bd dev_name tbl =
     (if CONFIG_EXT4_MAX_BLOCKDEV_NAME < length dev_name then (EINVAL, tbl)
      else if \<exists>e \<in> set tbl. bde_name e = dev_name then (EEXIST, tbl)
      else case use_free_slot bd dev_name tbl of Some tbl \<Rightarrow> (EOK, tbl) | None \<Rightarrow> (ENOSPC, tbl))"

fun clear_slot :: "string \<Rightarrow> ext4_block_device list \<Rightarrow> ext4_block_device list option" where
  "clear_slot dev_name [] = None"
| "clear_slot dev_name (e # es) =
     (if bde_name e \<noteq> dev_name then map_option (\<lambda>es. e # es) (clear_slot dev_name es)
      else Some (bde_zero # es))"

definition ext4_device_unregister :: "string \<Rightarrow> ext4_block_device list \<Rightarrow> errno \<times> ext4_block_device list" where
  "ext4_device_unregister dev_name tbl =
     (case clear_slot dev_name tbl of Some tbl \<Rightarrow> (EOK, tbl) | None \<Rightarrow> (ENOENT, tbl))"

section \<open>Invariant\<close>

definition table_names :: "ext4_block_device list \<Rightarrow> string set" where
  "table_names tbl = {bde_name e | e. e \<in> set tbl \<and> bde_bd e \<noteq> None}"

definition used_names :: "ext4_block_device list \<Rightarrow> string list" where
  "used_names tbl = List.map bde_name (filter (\<lambda>e. bde_bd e \<noteq> None) tbl)"

definition table_ok :: "ext4_block_device list \<Rightarrow> bool" where
  "table_ok tbl \<longleftrightarrow> distinct (used_names tbl) \<and> (\<forall>e \<in> set tbl. bde_bd e = None \<longleftrightarrow> bde_name e = [])"

lemma table_names_used: "table_names tbl = set (used_names tbl)"
  by (auto simp: table_names_def used_names_def)

lemma table_ok_init [simp]: "table_ok s_bdevices_init" "table_names s_bdevices_init = {}"
  by (auto simp: table_ok_def table_names_def used_names_def s_bdevices_init_def bde_zero_def)

lemma table_names_Cons:
  "table_names (e # es) = (if bde_bd e = None then table_names es else insert (bde_name e) (table_names es))"
  by (auto simp: table_names_def)

lemma use_free_slot_names:
  "use_free_slot bd n tbl = Some tbl' \<Longrightarrow> table_names tbl' = insert n (table_names tbl)"
proof (induction tbl arbitrary: tbl')
  case (Cons e es)
  show ?case
  proof (cases "bde_bd e")
    case None
    then show ?thesis using Cons.prems by (auto simp: table_names_Cons)
  next
    case (Some b)
    then obtain es' where "use_free_slot bd n es = Some es'" "tbl' = e # es'" using Cons.prems by auto
    then show ?thesis using Cons.IH [of es'] Some by (simp add: table_names_Cons insert_commute)
  qed
qed simp

lemma use_free_slot_ok:
  assumes "use_free_slot bd n tbl = Some tbl'" "table_ok tbl" "n \<notin> table_names tbl" "n \<noteq> []"
  shows "table_ok tbl'"
  using assms
proof (induction tbl arbitrary: tbl')
  case (Cons e es)
  show ?case
  proof (cases "bde_bd e = None")
    case True
    then show ?thesis using Cons.prems by (auto simp: table_ok_def table_names_used used_names_def)
  next
    case False
    then obtain es' where es': "use_free_slot bd n es = Some es'" "tbl' = e # es'" using Cons.prems(1) by auto
    have "table_ok es" "n \<notin> table_names es" "bde_name e \<notin> table_names es" "bde_name e \<noteq> n" "bde_name e \<noteq> []"
      using Cons.prems(2,3) False by (auto simp: table_ok_def table_names_used used_names_def)
    then have "table_ok es'" "bde_name e \<notin> table_names es'"
      using Cons.IH [OF es'(1)] Cons.prems(4) use_free_slot_names [OF es'(1)] by auto
    then show ?thesis
      using es'(2) False \<open>bde_name e \<noteq> []\<close> by (auto simp: table_ok_def table_names_used used_names_def)
  qed
qed simp

lemma clear_slot_names:
  "clear_slot n tbl = Some tbl' \<Longrightarrow> table_ok tbl \<Longrightarrow> table_ok tbl' \<and> table_names tbl' = table_names tbl - {n}"
proof (induction tbl arbitrary: tbl')
  case (Cons e es)
  have es_ok: "table_ok es" using Cons.prems(2) by (auto simp: table_ok_def used_names_def split: if_splits)
  show ?case
  proof (cases "bde_name e = n")
    case True
    then have "tbl' = bde_zero # es" using Cons.prems(1) by simp
    moreover have "n \<notin> table_names es"
      using Cons.prems(2) True by (cases "bde_bd e") (auto simp: table_ok_def table_names_def used_names_def image_iff)
    ultimately show ?thesis
      using Cons.prems(2) True es_ok
      by (cases "bde_bd e") (auto simp: table_ok_def table_names_used used_names_def bde_zero_def)
  next
    case False
    then obtain es' where es': "clear_slot n es = Some es'" "tbl' = e # es'" using Cons.prems(1) by auto
    then show ?thesis
      using Cons.IH [OF es'(1) es_ok] Cons.prems(2) False
      by (cases "bde_bd e") (auto simp: table_ok_def table_names_used used_names_def)
  qed
qed simp

lemma clear_slot_None: "clear_slot n tbl = None \<longleftrightarrow> (\<forall>e \<in> set tbl. bde_name e \<noteq> n)"
  by (induction tbl) auto

lemma ext4_device_register_table:
  assumes ok: "table_ok tbl" and reg: "ext4_device_register bd n tbl = (e, tbl')"
  shows "table_ok tbl' \<and> (e = EOK \<longrightarrow> n \<notin> table_names tbl) \<and>
    table_names tbl' = (if e = EOK then insert n (table_names tbl) else table_names tbl)"
proof (cases "e = EOK")
  case True
  then have fresh: "\<forall>x \<in> set tbl. bde_name x \<noteq> n" and use: "use_free_slot bd n tbl = Some tbl'"
    using reg by (auto simp: ext4_device_register_def split: if_splits option.splits)
  have "n \<notin> table_names tbl" using fresh by (auto simp: table_names_def)
  moreover have "n \<noteq> []"
  proof
    assume "n = []"
    then have "\<forall>x \<in> set tbl. bde_bd x \<noteq> None" using fresh ok by (auto simp: table_ok_def)
    then have "use_free_slot bd n tbl = None" by (induction tbl) auto
    then show False using use by simp
  qed
  ultimately show ?thesis
    using True use_free_slot_ok [OF use ok] use_free_slot_names [OF use] by simp
next
  case False
  then show ?thesis using reg ok by (auto simp: ext4_device_register_def split: if_splits option.splits)
qed

lemma ext4_device_unregister_table:
  assumes ok: "table_ok tbl" and unreg: "ext4_device_unregister n tbl = (e, tbl')"
  shows "table_ok tbl' \<and> table_names tbl' = table_names tbl - {n} \<and> (n \<in> table_names tbl \<longrightarrow> e = EOK)"
proof (cases "clear_slot n tbl")
  case None
  then have "n \<notin> table_names tbl" by (auto simp: clear_slot_None table_names_def)
  then show ?thesis using None unreg ok by (auto simp: ext4_device_unregister_def)
next
  case (Some t)
  then show ?thesis using clear_slot_names [OF Some ok] unreg by (auto simp: ext4_device_unregister_def)
qed

section \<open>The contract of the table\<close>

definition leaves :: "('w \<Rightarrow> bool) \<Rightarrow> ('w \<Rightarrow> string set) \<Rightarrow> ('w \<Rightarrow> 'r \<times> 'w) \<Rightarrow> bool" where
  "leaves ok names f = (\<forall>w. ok w \<longrightarrow> ok (snd (f w)) \<and> names (snd (f w)) = names w)"

lemma leavesD: "leaves ok names f \<Longrightarrow> ok w \<Longrightarrow> f w = (r, w') \<Longrightarrow> ok w' \<and> names w' = names w"
  unfolding leaves_def by (metis snd_conv)

locale ext4_device_table =
  fixes api :: "('h, 'd, 'w) lwext4"
    and ok :: "'w \<Rightarrow> bool"
    and registered :: "'w \<Rightarrow> string set"
  assumes register: "ok w \<Longrightarrow> lw_device_register api b n w = (e, w') \<Longrightarrow>
      ok w' \<and> (e = EOK \<longrightarrow> n \<notin> registered w) \<and>
      registered w' = (if e = EOK then insert n (registered w) else registered w)"
    and unregister: "ok w \<Longrightarrow> lw_device_unregister api n w = (e, w') \<Longrightarrow>
      ok w' \<and> registered w' = registered w - {n} \<and> (n \<in> registered w \<longrightarrow> e = EOK)"
    and other_calls: "leaves ok registered (lw_mount api n p ro)" "leaves ok registered (lw_umount api p)"
      "leaves ok registered (lw_recover api p)" "leaves ok registered (lw_journal_start api p)"
      "leaves ok registered (lw_journal_stop api p)"
begin

lemma unregister_again:
  assumes "ok w" "registered w = insert n s" "n \<notin> s"
  shows "ok (snd (lw_device_unregister api n w)) \<and> registered (snd (lw_device_unregister api n w)) = s"
  using unregister [OF assms(1)] assms(2,3) by (metis Diff_insert_absorb prod.collapse)

text \<open>Mounting registers the device, or leaves the table as it was when any step fails.\<close>

lemma mount_table:
  assumes ok: "ok w" and name: "\<forall>w. lw_device_name self w = n"
    and mount: "lwext4_mount api root flags self w = (e, self', w')"
  shows "ok w' \<and> registered w' = (if e = EOK then insert n (registered w) else registered w)"
proof -
  have name': "lw_device_name (self\<lparr>lw_root := r\<rparr>) w = n" for r w
    using name by (simp add: lw_device_name_def)
  obtain e1 w1 where reg: "lw_device_register api (lw_handle self) n w = (e1, w1)" by fastforce
  note R = register [OF ok reg]
  show ?thesis
  proof (cases "e1 = EOK")
    case False
    then show ?thesis using mount reg R by (auto simp: lwext4_mount_def Let_def name' split: if_splits)
  next
    case True
    let ?root = "to_native_root root"
    obtain e2 w2 where m: "lw_mount api n ?root (flags_test flags read_only) w1 = (e2, w2)" by fastforce
    obtain e3 w3 where r: "lw_recover api ?root w2 = (e3, w3)" by fastforce
    obtain e4 w4 where j: "lw_journal_start api ?root w3 = (e4, w4)" by fastforce
    have w1: "ok w1" "registered w1 = insert n (registered w)" "n \<notin> registered w" using R True by simp_all
    have w2: "ok w2" "registered w2 = insert n (registered w)" using leavesD [OF other_calls(1) w1(1) m] w1(2) by simp_all
    have w3: "ok w3" "registered w3 = insert n (registered w)" using leavesD [OF other_calls(3) w2(1) r] w2(2) by simp_all
    have w4: "ok w4" "registered w4 = insert n (registered w)" using leavesD [OF other_calls(4) w3(1) j] w3(2) by simp_all
    have um: "ok (snd (lw_umount api ?root u)) \<and> registered (snd (lw_umount api ?root u)) = insert n (registered w)"
      if "ok u" "registered u = insert n (registered w)" for u
      using leavesD [OF other_calls(2) that(1), of ?root] that(2) by (metis prod.collapse)
    have undo: "ok (lw_unregister api self' u) \<and> registered (lw_unregister api self' u) = registered w"
      if "ok u" "registered u = insert n (registered w)" "self' = self\<lparr>lw_root := root\<rparr>" for u
      using unregister_again [OF that(1,2) w1(3)] that(3) by (simp add: lw_unregister_def name')
    show ?thesis
      using mount reg True m r j w4 undo [OF w2] undo [OF um [OF w3, THEN conjunct1] um [OF w3, THEN conjunct2]]
        undo [OF um [OF w4, THEN conjunct1] um [OF w4, THEN conjunct2]]
      by (auto simp: lwext4_mount_def Let_def name' split: if_splits)
  qed
qed

lemma unmount_table:
  assumes ok: "ok w" and name: "\<forall>w. lw_device_name self w = n"
    and unmount: "lwext4_unmount api self w = (e, self', w')" and reg: "n \<in> registered w"
  shows "ok w' \<and> (registered w' = registered w - {n} \<and> e = EOK \<or> registered w' = registered w \<and> e \<noteq> EOK)"
proof -
  let ?root = "to_native_root (lw_root self)"
  obtain e1 w1 where j: "lw_journal_stop api ?root w = (e1, w1)" by fastforce
  obtain e2 w2 where u: "lw_umount api ?root w1 = (e2, w2)" by fastforce
  obtain e3 w3 where d: "lw_device_unregister api n w2 = (e3, w3)" by fastforce
  have w1: "ok w1" "registered w1 = registered w" using leavesD [OF other_calls(5) ok j] by simp_all
  have w2: "ok w2" "registered w2 = registered w" using leavesD [OF other_calls(2) w1(1) u] w1(2) by simp_all
  show ?thesis
    using unmount j u d unregister [OF w2(1) d] w2 reg
    by (auto simp: lwext4_unmount_def Let_def name [rule_format] split: if_splits)
qed

end

section \<open>The library over the table of \<open>ext4.c\<close>\<close>

definition beside_table :: "('v \<Rightarrow> errno \<times> 'v) \<Rightarrow> 'v \<times> 't \<Rightarrow> errno \<times> 'v \<times> 't" where
  "beside_table f w = (case f (fst w) of (e, v) \<Rightarrow> (e, v, snd w))"

definition with_table :: "(string \<Rightarrow> string \<Rightarrow> bool \<Rightarrow> 'v \<Rightarrow> errno \<times> 'v) \<Rightarrow> (string \<Rightarrow> 'v \<Rightarrow> errno \<times> 'v) \<Rightarrow>
    (string \<Rightarrow> 'v \<Rightarrow> errno \<times> 'v) \<Rightarrow> (string \<Rightarrow> 'v \<Rightarrow> errno \<times> 'v) \<Rightarrow> (string \<Rightarrow> 'v \<Rightarrow> errno \<times> 'v) \<Rightarrow>
    ('h, 'd, 'v \<times> ext4_block_device list) lwext4 \<Rightarrow> ('h, 'd, 'v \<times> ext4_block_device list) lwext4" where
  "with_table mnt umnt rec jstart jstop api = api
     \<lparr>lw_device_register := \<lambda>bd n w. (case ext4_device_register bd n (snd w) of (e, tbl) \<Rightarrow> (e, fst w, tbl)),
      lw_device_unregister := \<lambda>n w. (case ext4_device_unregister n (snd w) of (e, tbl) \<Rightarrow> (e, fst w, tbl)),
      lw_mount := \<lambda>n p ro. beside_table (mnt n p ro), lw_umount := \<lambda>p. beside_table (umnt p),
      lw_recover := \<lambda>p. beside_table (rec p), lw_journal_start := \<lambda>p. beside_table (jstart p),
      lw_journal_stop := \<lambda>p. beside_table (jstop p)\<rparr>"

interpretation bdevices: ext4_device_table "with_table mnt umnt rec jstart jstop api"
    "\<lambda>w. table_ok (snd w)" "\<lambda>w. table_names (snd w)" for mnt umnt rec jstart jstop api
proof
  show "table_ok (snd w') \<and> (e = EOK \<longrightarrow> n \<notin> table_names (snd w)) \<and>
      table_names (snd w') = (if e = EOK then insert n (table_names (snd w)) else table_names (snd w))"
    if "table_ok (snd w)" "lw_device_register (with_table mnt umnt rec jstart jstop api) b n w = (e, w')"
    for w b n e w'
    using ext4_device_register_table [OF that(1), of b n] that(2) by (auto simp: with_table_def split: prod.splits)
  show "table_ok (snd w') \<and> table_names (snd w') = table_names (snd w) - {n} \<and> (n \<in> table_names (snd w) \<longrightarrow> e = EOK)"
    if "table_ok (snd w)" "lw_device_unregister (with_table mnt umnt rec jstart jstop api) n w = (e, w')"
    for w n e w'
  proof -
    obtain r t where un: "ext4_device_unregister n (snd w) = (r, t)" by fastforce
    then have "e = r" "snd w' = t" using that(2) by (auto simp: with_table_def)
    then show ?thesis using ext4_device_unregister_table [OF that(1) un] by simp
  qed
qed (auto simp: leaves_def with_table_def beside_table_def split: prod.splits)

section \<open>Properties\<close>

text \<open>C11: A mount of a \<open>filesystem_lwext4\<close> is all or nothing for the device table, whatever the other
  calls of the library answer: when it succeeds its device is registered, and when any step fails
  (registration, mount, recovery or journal start) the registered devices are those of before.\<close>

theorem lwext4_mount_all_or_nothing:
  assumes "table_ok (snd w)" "\<forall>w. get_name (lw_blockdev self) w = n"
    and "lwext4_mount (with_table mnt umnt rec jstart jstop api) root flags self w = (e, self', w')"
  shows "table_ok (snd w') \<and>
    table_names (snd w') = (if e = EOK then insert n (table_names (snd w)) else table_names (snd w))"
  using bdevices.mount_table [OF assms(1) _ assms(3)] assms(2) by (simp add: lw_device_name_def)

text \<open>C33: Unmounting after a successful mount either reports an error and keeps the device registered, or
  succeeds and leaves the device table as it was before the mount.\<close>

theorem lwext4_unmount_restores:
  assumes "table_ok (snd w)" "n \<notin> table_names (snd w)" "\<forall>w. get_name (lw_blockdev self) w = n"
    and "lwext4_mount (with_table mnt umnt rec jstart jstop api) root flags self w = (EOK, self', w')"
    and "lwext4_unmount (with_table mnt umnt rec jstart jstop api) self' w' = (e, self'', w'')"
  shows "table_ok (snd w'') \<and>
    table_names (snd w'') = (if e = EOK then table_names (snd w) else insert n (table_names (snd w)))"
proof -
  have m: "table_ok (snd w')" "table_names (snd w') = insert n (table_names (snd w))"
    using bdevices.mount_table [OF assms(1) _ assms(4)] assms(3) by (simp_all add: lw_device_name_def)
  have "lw_blockdev self' = lw_blockdev self"
    using assms(4) by (auto simp: lwext4_mount_def Let_def split: if_splits prod.splits)
  then have "\<forall>w. lw_device_name self' w = n" using assms(3) by (simp add: lw_device_name_def)
  from bdevices.unmount_table [OF m(1) this assms(5)] m(2) assms(2) show ?thesis by auto
qed

text \<open>The table holds at most four devices of different names: a name that is registered is refused,
  a fifth device is \<open>ENOSPC\<close>, and unregistering what was just registered restores the table's names.\<close>

theorem ext4_device_register_correct:
  assumes "table_ok tbl" "ext4_device_register bd n tbl = (e, tbl')"
  shows "table_ok tbl' \<and> (n \<in> table_names tbl \<longrightarrow> e = EEXIST \<or> e = EINVAL) \<and>
    (n \<notin> table_names tbl \<and> n \<noteq> [] \<and> length n \<le> 32 \<longrightarrow> e = (if \<forall>x \<in> set tbl. bde_bd x \<noteq> None then ENOSPC else EOK)) \<and>
    (e = EOK \<longrightarrow> table_names (snd (ext4_device_unregister n tbl')) = table_names tbl)"
proof -
  note R = ext4_device_register_table [OF assms]
  have answer: "e = (if 32 < length n then EINVAL else if \<exists>x \<in> set tbl. bde_name x = n then EEXIST
      else if use_free_slot bd n tbl = None then ENOSPC else EOK)"
    using assms(2) by (simp add: ext4_device_register_def CONFIG_EXT4_MAX_BLOCKDEV_NAME_def split: if_splits option.splits)
  have full: "(use_free_slot bd n tbl = None) = (\<forall>x \<in> set tbl. bde_bd x \<noteq> None)" by (induction tbl) auto
  have named: "n \<in> table_names tbl \<Longrightarrow> \<exists>x \<in> set tbl. bde_name x = n" by (auto simp: table_names_def)
  have fresh: "\<not> (\<exists>x \<in> set tbl. bde_name x = n)" if "n \<notin> table_names tbl" "n \<noteq> []"
    using that assms(1) by (auto simp: table_names_def table_ok_def)
  show ?thesis
  proof (intro conjI impI)
    show "table_ok tbl'" using R by blast
    show "e = EEXIST \<or> e = EINVAL" if "n \<in> table_names tbl" using named [OF that] answer by simp
    show "e = (if \<forall>x \<in> set tbl. bde_bd x \<noteq> None then ENOSPC else EOK)"
      if "n \<notin> table_names tbl \<and> n \<noteq> [] \<and> length n \<le> 32"
      using fresh that full unfolding answer by simp
    show "table_names (snd (ext4_device_unregister n tbl')) = table_names tbl" if "e = EOK"
      using ext4_device_unregister_table [of tbl' n "fst (ext4_device_unregister n tbl')" "snd (ext4_device_unregister n tbl')"]
        R that by simp
  qed
qed

theorem ext4_device_register_correct_witness:
  "fst (ext4_device_register 7 ''ram0'' s_bdevices_init) = EOK"
proof -
  obtain e tbl' where reg: "ext4_device_register 7 ''ram0'' s_bdevices_init = (e, tbl')" by fastforce
  have "\<exists>x \<in> set s_bdevices_init. bde_bd x = None"
    by (simp add: s_bdevices_init_def CONFIG_EXT4_BLOCKDEVS_COUNT_def bde_zero_def)
  then show ?thesis
    using ext4_device_register_correct [OF table_ok_init(1) reg] reg by auto
qed

section \<open>A concrete library for the witnesses\<close>

text \<open>A library whose files are empty and whose directories hold a dot, a dot-dot and one file \<open>a\<close>; an
  \<open>ext4_file\<close> is its position, an \<open>ext4_dir\<close> the number of entries read.\<close>

definition sample_dirent :: "nat \<Rightarrow> ext4_direntry option" where
  "sample_dirent n = (if n = 0 then Some \<lparr>de_inode = 2, de_inode_type = 2, de_name = ''.''\<rparr>
     else if n = 1 then Some \<lparr>de_inode = 2, de_inode_type = 2, de_name = ''..''\<rparr>
     else if n = 2 then Some \<lparr>de_inode = 12, de_inode_type = 1, de_name = ''a''\<rparr> else None)"

definition sample_api :: "(nat, nat, 'w) lwext4" where
  "sample_api =
     \<lparr>lw_handle_new = \<lambda>_ w. (1, w), lw_file = 0, lw_dir = 0, lw_time = \<lambda>_. 0,
      lw_device_register = \<lambda>_ _ w. (0, w), lw_device_unregister = \<lambda>_ w. (0, w), lw_mount = \<lambda>_ _ _ w. (0, w),
      lw_umount = \<lambda>_ w. (0, w), lw_recover = \<lambda>_ w. (0, w), lw_journal_start = \<lambda>_ w. (0, w),
      lw_journal_stop = \<lambda>_ w. (0, w),
      lw_mount_point_stats = \<lambda>_ w. ((0, \<lparr>es_inodes_count = 16, es_free_inodes_count = 5, es_blocks_count = 64,
        es_free_blocks_count = 40, es_block_size = 1024\<rparr>), w),
      lw_fopen2 = \<lambda>h _ _ w. ((0, h), w), lw_fclose = \<lambda>h w. ((0, h), w),
      lw_fwrite = \<lambda>data h w. ((0, length data, h + length data), w),
      lw_fread = \<lambda>buf h w. ((0, 0, buf, h), w), lw_fseek = \<lambda>pos _ _ w. ((0, nat pos), w), lw_ftell = int,
      lw_ftruncate = \<lambda>_ h w. ((0, h), w),
      lw_raw_inode_fill = \<lambda>_ w. ((0, 12, replicate 160 0), w), lw_get_sblock = \<lambda>_ w. ((0, replicate 1024 0), w),
      lw_flink = \<lambda>_ _ w. (0, w), lw_fsymlink = \<lambda>_ _ w. (0, w), lw_frename = \<lambda>_ _ w. (0, w),
      lw_inode_exist = \<lambda>_ _ w. (ENOENT, w), lw_fremove = \<lambda>_ w. (0, w), lw_dir_rm = \<lambda>_ w. (0, w),
      lw_dir_mk = \<lambda>_ w. (0, w), lw_dir_open = \<lambda>_ _ w. ((0, 0), w), lw_dir_close = \<lambda>d w. ((0, d), w),
      lw_dir_entry_next = \<lambda>d w. ((sample_dirent d, d + 1), w), lw_dir_entry_rewind = \<lambda>_ w. (0, w),
      lw_mode_set = \<lambda>_ _ w. (0, w), lw_atime_set = \<lambda>_ _ w. (0, w), lw_mtime_set = \<lambda>_ _ w. (0, w),
      lw_cache_flush = \<lambda>_ w. (0, w), lw_mkfs_read_info = \<lambda>_ w. ((0, ''vol''), w)\<rparr>"

definition sample_device :: "'w BlockDevice" where
  "sample_device = \<lparr>dev_probe = \<lambda>w. Some (0, w), dev_flush = \<lambda>w. Some (0, w), dev_write = \<lambda>w _ _ _. Some (0, w),
     dev_read = \<lambda>w _ _. Some (0, [], w), get_sector_size = \<lambda>_. Inr 512, get_sector_count = \<lambda>_. Inr 16,
     get_name = \<lambda>_. ''disk0''\<rparr>"

definition sample_fs :: "'w filesystem_lwext4" where
  "sample_fs = \<lparr>lw_blockdev = sample_device, lw_flags = 0, lw_handle = 1, lw_root = ''/vol''\<rparr>"

abbreviation (input) sample_library :: "(string \<Rightarrow> unit \<Rightarrow> errno \<times> unit) \<Rightarrow> (nat, nat, unit \<times> ext4_block_device list) lwext4" where
  "sample_library rec \<equiv> with_table (\<lambda>_ _ _ v. (0, v)) (\<lambda>_ v. (0, v)) rec (\<lambda>_ v. (0, v)) (\<lambda>_ v. (0, v)) sample_api"

lemmas sample_evaluation = lwext4_mount_def lwext4_unmount_def with_table_def sample_api_def sample_fs_def
  sample_device_def lw_device_name_def beside_table_def ext4_device_register_def ext4_device_unregister_def
  lw_unregister_def s_bdevices_init_def bde_zero_def CONFIG_EXT4_BLOCKDEVS_COUNT_def
  CONFIG_EXT4_MAX_BLOCKDEV_NAME_def numeral_eq_Suc to_native_root_def

text \<open>A journal that cannot be recovered.\<close>

theorem lwext4_mount_all_or_nothing_witness:
  "\<exists>self' w'. lwext4_mount (sample_library (\<lambda>_ v. (EIO, v))) ''/vol'' 0 sample_fs ((), s_bdevices_init) = (EIO, self', w') \<and>
    table_names (snd w') = {}"
proof -
  have run: "lwext4_mount (sample_library (\<lambda>_ v. (EIO, v))) ''/vol'' 0 sample_fs ((), s_bdevices_init) =
      (EIO, sample_fs, ((), s_bdevices_init))"
    by (simp add: sample_evaluation)
  have "\<forall>w. get_name (lw_blockdev sample_fs) w = ''disk0''" by (simp add: sample_fs_def sample_device_def)
  from lwext4_mount_all_or_nothing [OF _ this run] show ?thesis using run by simp
qed

theorem lwext4_unmount_restores_witness:
  "\<exists>self' w' self'' w''. lwext4_mount (sample_library (\<lambda>_ v. (0, v))) ''/vol'' 0 sample_fs ((), s_bdevices_init) = (EOK, self', w') \<and>
    lwext4_unmount (sample_library (\<lambda>_ v. (0, v))) self' w' = (EOK, self'', w'') \<and> table_names (snd w'') = {}"
proof -
  let ?tbl = "\<lparr>bde_name = ''disk0'', bde_bd = Some 1\<rparr> # tl s_bdevices_init"
  have run: "lwext4_mount (sample_library (\<lambda>_ v. (0, v))) ''/vol'' 0 sample_fs ((), s_bdevices_init) =
      (EOK, sample_fs, ((), ?tbl))"
    by (simp add: sample_evaluation)
  have un: "lwext4_unmount (sample_library (\<lambda>_ v. (0, v))) sample_fs ((), ?tbl) = (EOK, sample_fs, ((), s_bdevices_init))"
    by (simp add: sample_evaluation)
  have "\<forall>w. get_name (lw_blockdev sample_fs) w = ''disk0''" by (simp add: sample_fs_def sample_device_def)
  from lwext4_unmount_restores [OF _ _ this run un] run un show ?thesis by simp
qed

end
