(* ===== verification/Vfs_Properties.thy ===== *)
theory Vfs_Properties
  imports Vfs_Safety Ext4_Devices
begin

text \<open>
  The properties of the virtual file system: what its operations return and change, and that they never
  get stuck. The file systems enter by the contract \<open>rooted_filesystem\<close>, which \<open>filesystem_lwext4\<close>
  meets; the witnesses run on a volume of that class.
\<close>

section \<open>A volume for the witnesses\<close>

definition sample_stream :: "'w StdStream" where
  "sample_stream = \<lparr>std_in = \<lambda>buf w. ((Inr 0, buf), w), std_out = \<lambda>data w. (Inr (length data), w),
     std_err = \<lambda>data w. (Inr (length data), w)\<rparr>"

definition sample_mount :: "string \<Rightarrow> Flags \<Rightarrow> (unit filesystem_lwext4, nat, nat, unit) MountPoint" where
  "sample_mount root flags = \<lparr>mp_fs = filesystem_lwext4_ops sample_api, mp_self = sample_fs\<lparr>lw_root := root\<rparr>,
     mp_disk = sample_device, mp_root = root, mp_flags = flags, mp_type = ext4_type\<rparr>"

definition sample_vfs :: "Flags \<Rightarrow> (unit filesystem_lwext4, nat, nat, unit) VirtualFS" where
  "sample_vfs flags = (VirtualFS_new DiskManager_new sample_stream ())
     \<lparr>m_mounts := [(''/vol'', locker_new (sample_mount ''/vol'' flags))]\<rparr>"

lemma sample_vfs_good: "good lw_root (sample_vfs flags)"
  by (auto simp: good_def vfs_ok_def sample_vfs_def VirtualFS_new_def files_mounted_def mount_ok_def
      sample_mount_def umap_wf_def umap_keys_def file_descriptor_container_new_def fd_handle_def
      lwext4_rooted.rooted_filesystem_axioms container_ok_new [unfolded file_descriptor_container_new_def]
      split: if_splits)

lemma sample_vfs_mutex: "m_mutex (sample_vfs flags) = 0"
  by (simp add: sample_vfs_def VirtualFS_new_def)

lemma sample_vfs_idx: "fd_idx (m_fd_container (sample_vfs flags)) = 3"
  by (simp add: sample_vfs_def VirtualFS_new_def file_descriptor_container_new_def)

section \<open>No operation gets stuck\<close>

text \<open>C1: From every state in which the mount points are unlocked and hold file systems that keep the contract
  \<open>rooted_filesystem\<close>, and every open file belongs to one, any sequence of file, path and directory operations
  (\<open>dirreset\<close>, \<open>dirnext\<close> and \<open>dirclose\<close> on any directory handle of a mounted volume included) that does not
  exhaust the descriptor numbers runs to its end: no operation waits for a lock its thread holds, looks up a
  mount point that is not there or dereferences a missing handle; afterwards the state is again such a state,
  every lock is released and the mounted roots are the same, so that the handles can be used again.\<close>

theorem vfs_operations_never_stuck:
  assumes "good root_of v" "fd_idx (m_fd_container v) + int (length ops) \<le> INT_MAX" "dirs_mounted ops v"
  shows "\<exists>v'. run_file_ops ops v = Some v' \<and> good root_of v' \<and> m_mutex v' = m_mutex v \<and>
    umap_keys (m_mounts v') = umap_keys (m_mounts v)"
  using run_file_ops_settle [OF assms] by (auto simp: kept_def)

theorem vfs_operations_never_stuck_witness:
  "\<exists>v'. run_file_ops [Op_open ''/vol/a'' 2 0, Op_write 3 [1, 2], Op_unlink ''/vol/a'', Op_close 3, Op_diropen ''/vol'',
      Op_dirnext \<lparr>dir_root = ''/vol'', dir_raw = 0\<rparr> [] stat_zero, Op_dirclose \<lparr>dir_root = ''/vol'', dir_raw = 0\<rparr>,
      Op_stat_parts] (sample_vfs 0) = Some v' \<and> m_mutex v' = 0"
proof -
  let ?ops = "[Op_open ''/vol/a'' 2 0, Op_write 3 [1, 2], Op_unlink ''/vol/a'', Op_close 3, Op_diropen ''/vol'',
    Op_dirnext \<lparr>dir_root = ''/vol'', dir_raw = 0\<rparr> [] stat_zero, Op_dirclose \<lparr>dir_root = ''/vol'', dir_raw = 0\<rparr>, Op_stat_parts]"
  have "dirs_mounted ?ops (sample_vfs 0)" by (simp add: umap_contains_def sample_vfs_def)
  moreover
  have "fd_idx (m_fd_container (sample_vfs 0)) + int (length ?ops) \<le> INT_MAX"
    by (simp add: sample_vfs_idx INT_MAX_def)
  ultimately show ?thesis using vfs_operations_never_stuck [OF sample_vfs_good]
    by (auto simp only: sample_vfs_mutex)
qed

text \<open>C29: Every operation on a descriptor of the file range that is not open returns \<open>EBADF\<close> and changes
  nothing: no file system is called and no lock stays taken.\<close>

theorem vfs_bad_descriptor:
  assumes "\<not> fd_exist fd (m_fd_container v)" "3 \<le> fd"
  shows "VirtualFS_close fd v = Some (EBADF, v) \<and> VirtualFS_write fd data v = Some (Inl EBADF, v) \<and>
    VirtualFS_read fd buf v = Some ((Inl EBADF, buf), v) \<and> VirtualFS_lseek fd pos dir v = Some (Inl EBADF, v) \<and>
    VirtualFS_fstat fd st v = Some ((EBADF, st), v) \<and> VirtualFS_ftruncate fd len v = Some (EBADF, v) \<and>
    VirtualFS_fsync fd v = Some (EBADF, v) \<and> VirtualFS_fchmod fd mode v = Some (EBADF, v) \<and>
    VirtualFS_flock fd cmd v = Some (EBADF, v) \<and> VirtualFS_isatty fd v = Some (Inl EBADF, v)"
  using assms
  by (simp add: VirtualFS_close_def lock_guard_def VirtualFS_write_def invoke_stdstream_out_def VirtualFS_read_def
      invoke_stdstream_in_def VirtualFS_lseek_def VirtualFS_fstat_def VirtualFS_ftruncate_def VirtualFS_fsync_def
      VirtualFS_fchmod_def VirtualFS_flock_def VirtualFS_isatty_def invoke_fops_fd_unknown)

theorem vfs_bad_descriptor_witness:
  "VirtualFS_close 3 (sample_vfs 0) = Some (EBADF, sample_vfs 0)"
  using vfs_bad_descriptor [of 3 "sample_vfs 0"]
  by (simp add: sample_vfs_def VirtualFS_new_def file_descriptor_container_new_def fd_exist_def umap_contains_def)

section \<open>Opening\<close>

lemma lock_guard_frame:
  assumes "body (v\<lparr>m_mutex := rm_lock (m_mutex v)\<rparr>) = Some (r, u)" "m_mutex u = rm_lock (m_mutex v)"
  shows "lock_guard body v = Some (r, u\<lparr>m_mutex := m_mutex v\<rparr>)"
  using assms by (simp add: lock_guard_def)

lemma after_call_mutex:
  "after_call key l self w (v\<lparr>m_mutex := n\<rparr>) = (after_call key l self w v)\<lparr>m_mutex := n\<rparr>"
  by (simp add: after_call_def)

text \<open>\<open>open\<close> once the volume is found.\<close>

lemma open_found:
  assumes "good root_of v" "absolute_path path = Inr abspath" "find_mount_point abspath (m_mounts v) = Some key"
    and "map_of (m_mounts v) key = Some l"
    and "fs_open (mp_fs (locker_value l)) abspath (word_of_int flags) mode (mp_self (locker_value l)) (world v) = (r, self, w)"
  shows "VirtualFS_open path flags mode v =
    (if word_of_int flags AND O_ACCMODE \<noteq> O_RDONLY \<and> flags_test (mp_flags (locker_value l)) read_only
     then Some (Inl EACCES, v)
     else case r of
       Inl e \<Rightarrow> Some (Inl e, (after_call key l self w v)\<lparr>m_mutex := m_mutex v\<rparr>)
     | Inr h \<Rightarrow> do {
         (fd, c) \<leftarrow> fd_insert path h (m_fd_container v);
         Some (Inr fd, (after_call key l self w v)\<lparr>m_fd_container := c, m_mutex := m_mutex v\<rparr>) })"
proof -
  let ?v = "v\<lparr>m_mutex := rm_lock (m_mutex v)\<rparr>"
  have wf: "umap_wf (m_mounts ?v)" using assms(1) by (simp add: good_def vfs_ok_def)
  have l: "map_of (m_mounts ?v) key = Some l" "\<not> locker_mutex l"
    using assms(1,4) vfs_okD(3) by (auto simp: good_def mount_ok_def)
  have call: "fs_open (mp_fs (locker_value l)) abspath (word_of_int flags) mode (mp_self (locker_value l)) (world ?v) = (r, self, w)"
    using assms(5) by simp
  have "VirtualFS_open path flags mode v = lock_guard (open_on_mount key path abspath flags mode) v"
    using assms(2,3) by (simp add: VirtualFS_open_def lock_guard_def)
  then show ?thesis
    using open_on_mount_eq [OF wf l call, of path]
    by (auto simp: lock_guard_def after_call_def fd_insert_def Let_def split: sum.split)
qed

lemma inserted_file:
  assumes "fd_insert path h c = Some (fd, c')" "container_ok c"
  shows "fd_handle fd c' = Some h" "\<not> fd_exist fd c" "path_exist (lexically_normal path) c'"
proof -
  show "fd_handle fd c' = Some h" "\<not> fd_exist fd c"
    using open_files_insert [OF assms(1)] fresh_not_open [OF assms(2)]
    by (simp_all add: fd_handle_def umap_simps fd_exist_def)
  show "path_exist (lexically_normal path) c'"
    using open_files_insert(2) [OF assms(1)] by (auto simp: path_exist_def umap_contains_def open_files_def
        fun_eq_iff split: if_splits option.splits)
qed

text \<open>C3: \<open>open\<close> of a path below a mount point: writing on a read-only mount point is \<open>EACCES\<close> before the
  file system is called; an error of the file system is passed on and no descriptor is used; otherwise
  the new descriptor is one that no open file has, it leads to the handle of the file system, and the
  path counts as open.\<close>

theorem vfs_open_correct:
  assumes "good root_of v" "fd_idx (m_fd_container v) < INT_MAX" "absolute_path path = Inr abspath"
    and "find_mount_point abspath (m_mounts v) = Some key" "map_of (m_mounts v) key = Some l"
    and "fs_open (mp_fs (locker_value l)) abspath (word_of_int flags) mode (mp_self (locker_value l)) (world v) = (r, self, w)"
  shows "if word_of_int flags AND O_ACCMODE \<noteq> O_RDONLY \<and> flags_test (mp_flags (locker_value l)) read_only
    then VirtualFS_open path flags mode v = Some (Inl EACCES, v)
    else case r of
      Inl e \<Rightarrow> \<exists>v'. VirtualFS_open path flags mode v = Some (Inl e, v') \<and> m_fd_container v' = m_fd_container v \<and> world v' = w
    | Inr h \<Rightarrow> \<exists>fd v'. VirtualFS_open path flags mode v = Some (Inr fd, v') \<and> \<not> fd_exist fd (m_fd_container v) \<and>
        fd_handle fd (m_fd_container v') = Some h \<and> path_exist abspath (m_fd_container v') \<and> world v' = w"
proof -
  note opens = open_found [OF assms(1,3-6)]
  have ok: "container_ok (m_fd_container v)" using assms(1) by (simp add: good_def vfs_ok_def)
  have abspath: "abspath = lexically_normal path"
    using assms(3) by (simp add: absolute_path_def split: if_splits)
  show ?thesis
  proof (cases r)
    case (Inl e)
    then show ?thesis by (auto simp: opens)
  next
    case (Inr h)
    obtain fd c where ins: "fd_insert path h (m_fd_container v) = Some (fd, c)"
      using assms(2) by (auto simp: fd_insert_def Let_def)
    show ?thesis using inserted_file [OF ins ok] by (simp add: opens Inr ins abspath)
  qed
qed

lemma sample_vfs_key: "find_mount_point ''/vol/a'' (m_mounts (sample_vfs flags)) = Some ''/vol''"
  "map_of (m_mounts (sample_vfs flags)) ''/vol'' = Some (locker_new (sample_mount ''/vol'' flags))"
  by (simp_all add: sample_vfs_def)

lemma sample_open_call:
  "fs_open (mp_fs (locker_value (locker_new (sample_mount ''/vol'' flags)))) p fl mode
     (mp_self (locker_value (locker_new (sample_mount ''/vol'' flags)))) (world (sample_vfs flags)) =
   (Inr \<lparr>file_abspath = p, file_root = ''/vol'', file_raw = 0\<rparr>, sample_fs, ())"
  by (simp add: sample_mount_def filesystem_lwext4_ops_def lwext4_open_def sample_api_def sample_fs_def)

theorem vfs_open_correct_witness:
  "VirtualFS_open ''/vol/a'' 2 0 (sample_vfs 1) = Some (Inl EACCES, sample_vfs 1) \<and>
   (\<exists>fd v'. VirtualFS_open ''/vol/a'' 2 0 (sample_vfs 0) = Some (Inr fd, v'))"
proof -
  have abs: "absolute_path ''/vol/a'' = Inr ''/vol/a''" by code_simp
  have idx: "fd_idx (m_fd_container (sample_vfs flags)) < INT_MAX" for flags
    by (simp add: sample_vfs_idx INT_MAX_def)
  have "flags_test 1 read_only" "\<not> flags_test 0 read_only" by (simp_all add: flags_test_def)
  then show ?thesis
    using vfs_open_correct [OF sample_vfs_good [of 1] idx abs sample_vfs_key sample_open_call, of 2 0]
      vfs_open_correct [OF sample_vfs_good [of 0] idx abs sample_vfs_key sample_open_call, of 2 0]
    by (auto simp: sample_mount_def O_ACCMODE_def O_RDONLY_def)
qed

section \<open>Unlinking and closing\<close>

text \<open>Unlinking a path that is open does not reach the file system: it only marks the path, every
  descriptor stays open with its handle, and nothing outside the table of open files changes.\<close>

theorem vfs_unlink_while_open:
  assumes "open_files (m_fd_container v) p = Some (s, b)"
  shows "\<exists>v'. VirtualFS_unlink p v = Some (EOK, v') \<and> world v' = world v \<and> m_mounts v' = m_mounts v \<and>
    open_files (m_fd_container v') = (open_files (m_fd_container v))(p \<mapsto> (s, True)) \<and>
    (\<forall>n. fd_handle n (m_fd_container v') = fd_handle n (m_fd_container v))"
proof -
  have ex: "path_exist p (m_fd_container v)"
    using assms by (auto simp: path_exist_def umap_contains_def open_files_def)
  show ?thesis
    using ex fd_mark_files [OF ex] assms by (simp add: VirtualFS_unlink_def lock_guard_def)
qed

definition sample_open_vfs :: "(unit filesystem_lwext4, nat, nat, unit) VirtualFS" where
  "sample_open_vfs = (sample_vfs 0)\<lparr>m_fd_container :=
     \<lparr>by_path = [(''/vol/a'', \<lparr>indexes = [3], marked_for_unlink = True\<rparr>)],
      by_id = [(3, \<lparr>file_abspath = ''/vol/a'', file_root = ''/vol'', file_raw = 0\<rparr>)], fd_idx = 4\<rparr>\<rparr>"

lemma sample_open_vfs_good: "good lw_root sample_open_vfs"
  using sample_vfs_good [of 0]
  by (auto simp: good_def vfs_ok_def sample_open_vfs_def files_mounted_def fd_handle_def umap_contains_def
      container_ok_def umap_wf_def umap_keys_def INT_MAX_def fd_exist_def open_on_def sample_vfs_def split: if_splits)

lemma sample_open_vfs_simps:
  "open_files (m_fd_container sample_open_vfs) ''/vol/a'' = Some ({3}, True)"
  "fd_handle 3 (m_fd_container sample_open_vfs) = Some \<lparr>file_abspath = ''/vol/a'', file_root = ''/vol'', file_raw = 0\<rparr>"
  "map_of (m_mounts sample_open_vfs) ''/vol'' = Some (locker_new (sample_mount ''/vol'' 0))"
  by (simp_all add: sample_open_vfs_def open_files_def fd_handle_def sample_vfs_def)

theorem vfs_unlink_while_open_witness:
  "\<exists>v'. VirtualFS_unlink ''/vol/a'' sample_open_vfs = Some (EOK, v') \<and> m_mounts v' = m_mounts sample_open_vfs"
  using vfs_unlink_while_open [OF sample_open_vfs_simps(1)] by blast

text \<open>A path operation does not look at the recursive mutex.\<close>

definition with_mutex :: "nat \<Rightarrow> ('r \<times> ('f, 'h, 'd, 'w) VirtualFS) option \<Rightarrow> ('r \<times> ('f, 'h, 'd, 'w) VirtualFS) option" where
  "with_mutex n out = map_option (\<lambda>(r, v). (r, v\<lparr>m_mutex := n\<rparr>)) out"

lemma call_locked_mutex: "call_locked key method (v\<lparr>m_mutex := n\<rparr>) = with_mutex n (call_locked key method v)"
  by (cases "map_of (m_mounts v) key"; cases "method (mp_fs (locker_value (the (map_of (m_mounts v) key))))
      (mp_self (locker_value (the (map_of (m_mounts v) key)))) (world v)")
    (auto simp: call_locked_def lock_mount_def locker_lock_def locked_get_def run_method_def unlock_mount_def
      with_mutex_def bind_eq_Some_conv)

lemma invoke_fops_path_mutex:
  "invoke_fops_path meth terror path (v\<lparr>m_mutex := n\<rparr>) = with_mutex n (invoke_fops_path meth terror path v)"
  by (auto simp: invoke_fops_path_def call_locked_mutex split: sum.split option.split) (simp_all add: with_mutex_def)

text \<open>The end of \<open>close\<close>, once the descriptor is out of the table.\<close>

lemma close_after_remove:
  assumes "fd_exist fd (m_fd_container v)"
    and "invoke_fops_fd fs_close (\<lambda>e. e) fd (v\<lparr>m_mutex := rm_lock (m_mutex v)\<rparr>) = Some (e, u1)"
    and "fd_remove fd (m_fd_container u1) = (q, d)" "good root_of (u1\<lparr>m_fd_container := d\<rparr>)"
    and mutex: "m_mutex u1 = rm_lock (m_mutex v)"
  shows "VirtualFS_close fd v = (case q of None \<Rightarrow> Some (e, u1\<lparr>m_fd_container := d, m_mutex := m_mutex v\<rparr>)
    | Some p \<Rightarrow> with_mutex (m_mutex v) (invoke_fops_path fs_unlink (\<lambda>e. e) p (u1\<lparr>m_fd_container := d, m_mutex := m_mutex v\<rparr>)))"
proof (cases q)
  case None
  then show ?thesis using assms by (simp add: VirtualFS_close_def lock_guard_def Let_def)
next
  case (Some p)
  let ?u1 = "u1\<lparr>m_fd_container := d\<rparr>"
  have "settles root_of (invoke_fops_path fs_unlink (\<lambda>e. e) p ?u1) ?u1"
    by (rule invoke_fops_path_settles [OF assms(4)]) (rule fs_keeps(5))
  then obtain r2 v2 where un: "invoke_fops_path fs_unlink (\<lambda>e. e) p ?u1 = Some (r2, v2)" "m_mutex v2 = rm_lock (m_mutex v)"
    using mutex by (auto simp: settles_def kept_def)
  have "VirtualFS_close fd v = Some (r2, v2\<lparr>m_mutex := m_mutex v\<rparr>)"
    using assms(1-3) Some un by (simp add: VirtualFS_close_def lock_guard_def Let_def)
  then show ?thesis
    using un(1) invoke_fops_path_mutex [where v = ?u1 and n = "m_mutex v" and path = p and meth = fs_unlink and
      terror = "\<lambda>e. e"] Some
    by (simp add: with_mutex_def)
qed

text \<open>C2: Closing an open descriptor calls the file system's \<open>close\<close> once, frees the number, and calls
  \<open>unlink\<close> for the path afterwards exactly when the number was the last one on a path marked by
  \<open>unlink\<close>; the result is then that of \<open>unlink\<close>, otherwise that of \<open>close\<close>.\<close>

theorem vfs_close_correct:
  assumes "good root_of v" "fd_handle fd (m_fd_container v) = Some fil" "map_of (m_mounts v) (file_root fil) = Some l"
    and "fs_close (mp_fs (locker_value l)) fil (mp_self (locker_value l)) (world v) = ((e, fil'), self, w)"
    and "open_files (m_fd_container v) p = Some (s, b)" "fd \<in> s"
  shows "\<exists>u. VirtualFS_close fd v =
      (if s = {fd} \<and> b then with_mutex (m_mutex v) (invoke_fops_path fs_unlink (\<lambda>e. e) p u) else Some (e, u)) \<and>
    world u = w \<and> \<not> fd_exist fd (m_fd_container u) \<and> good root_of u \<and> m_mutex u = m_mutex v \<and>
    open_files (m_fd_container u) = (open_files (m_fd_container v))(p := if s = {fd} then None else Some (s - {fd}, b))"
proof -
  let ?v = "v\<lparr>m_mutex := rm_lock (m_mutex v)\<rparr>"
  have g: "good root_of ?v" using assms(1) by (rule good_rm_lock)
  have fil: "fd_handle fd (m_fd_container ?v) = Some fil" using assms(2) by simp
  have ex: "fd_exist fd (m_fd_container v)" using assms(2) fd_exist_handle by blast
  obtain r fil'' l' self' w' where c: "map_of (m_mounts ?v) (file_root fil) = Some l'"
    "fs_close (mp_fs (locker_value l')) fil (mp_self (locker_value l')) (world ?v) = ((r, fil''), self', w')"
    "invoke_fops_fd fs_close (\<lambda>e. e) fd ?v = Some (r, (after_call (file_root fil) l' self' w' ?v)
      \<lparr>m_fd_container := fd_handle_update fd fil'' (m_fd_container ?v)\<rparr>)"
    by (rule invoke_fops_fd_known [OF g fil rooted_filesystem.handle_keeps(1)]) blast
  obtain r1 u1 q d where k: "invoke_fops_fd fs_close (\<lambda>e. e) fd ?v = Some (r1, u1)" "good root_of u1"
    "fd_remove fd (m_fd_container u1) = (q, d)" "good root_of (u1\<lparr>m_fd_container := d\<rparr>)"
    "kept ?v (u1\<lparr>m_fd_container := d\<rparr>)" "open_files (m_fd_container u1) = open_files (m_fd_container ?v)"
    by (rule close_known [OF g fil]) blast
  have eq: "l' = l" "r = e" "w' = w" using c(1,2) assms(3,4) by auto
  have u1: "r1 = e" "world u1 = w" using k(1) c(3) eq by auto
  have ok: "container_ok (m_fd_container u1)" using k(2) by (simp add: good_def vfs_ok_def)
  have on: "open_files (m_fd_container u1) p = Some (s, b)" using k(6) assms(5) by simp
  note rem = fd_remove_files [OF ok on assms(6), unfolded k(3), simplified]
  let ?u = "u1\<lparr>m_fd_container := d, m_mutex := m_mutex v\<rparr>"
  have mutex: "m_mutex u1 = rm_lock (m_mutex v)" using k(5) by (simp add: kept_def)
  have gone: "\<not> fd_exist fd d" by (simp add: fd_exist_def rem(3) umap_simps)
  have u_good: "good root_of ?u" using k(4) good_rm_lock by blast
  have closed: "VirtualFS_close fd v =
      (if s = {fd} \<and> b then with_mutex (m_mutex v) (invoke_fops_path fs_unlink (\<lambda>e. e) p ?u) else Some (e, ?u))"
    using close_after_remove [OF ex k(1,3,4) mutex] rem(1) u1(1) by auto
  show ?thesis
    by (rule exI [of _ ?u]) (use closed u1(2) gone u_good rem(2) k(6) in simp)
qed

theorem vfs_close_correct_witness:
  "\<exists>u. VirtualFS_close 3 sample_open_vfs = with_mutex 0 (invoke_fops_path fs_unlink (\<lambda>e. e) ''/vol/a'' u) \<and>
    \<not> fd_exist 3 (m_fd_container u)"
proof -
  let ?fil = "\<lparr>file_abspath = ''/vol/a'', file_root = ''/vol'', file_raw = 0\<rparr>"
  have root: "map_of (m_mounts sample_open_vfs) (file_root ?fil) = Some (locker_new (sample_mount ''/vol'' 0))"
    using sample_open_vfs_simps(3) by simp
  obtain e fil' self w where "fs_close (mp_fs (locker_value (locker_new (sample_mount ''/vol'' 0)))) ?fil
      (mp_self (locker_value (locker_new (sample_mount ''/vol'' 0)))) (world sample_open_vfs) = ((e, fil'), self, w)"
    by (metis surj_pair)
  from vfs_close_correct [OF sample_open_vfs_good sample_open_vfs_simps(2) root this sample_open_vfs_simps(1)]
  show ?thesis by (auto simp: sample_open_vfs_def sample_vfs_mutex)
qed

end
