(* ===== verification/Vfs_Refinement.thy ===== *)
theory Vfs_Refinement
  imports Vfs_Properties
begin

text \<open>
  What the operations of the virtual file system do to the set of open files, as an abstract machine: its
  state is the next descriptor and a map from paths to the descriptors open on them and the mark left by
  \<open>unlink\<close>, its steps are labelled by the operations. The operations of \<open>VirtualFS\<close> implement the machine;
  what the machine keeps (one path for a descriptor, a descriptor open until its own \<open>close\<close>, a number
  never given out twice) then holds for the code.
\<close>

section \<open>The abstract table of open files\<close>

record file_table =
  next_fd :: int
  files :: "string \<Rightarrow> (int set \<times> bool) option"

definition opened_in :: "(string \<Rightarrow> (int set \<times> bool) option) \<Rightarrow> int \<Rightarrow> string \<Rightarrow> bool" where
  "opened_in m fd p \<longleftrightarrow> (\<exists>s b. m p = Some (s, b) \<and> fd \<in> s)"

definition add_file :: "string \<Rightarrow> int \<Rightarrow> (string \<Rightarrow> (int set \<times> bool) option) \<Rightarrow> string \<Rightarrow> (int set \<times> bool) option" where
  "add_file p fd m = m(p \<mapsto> (case m p of None \<Rightarrow> ({fd}, False) | Some (s, b) \<Rightarrow> (insert fd s, b)))"

definition drop_file :: "string \<Rightarrow> int \<Rightarrow> (string \<Rightarrow> (int set \<times> bool) option) \<Rightarrow> string \<Rightarrow> (int set \<times> bool) option" where
  "drop_file p fd m = m(p := case m p of None \<Rightarrow> None
     | Some (s, b) \<Rightarrow> if s = {fd} then None else Some (s - {fd}, b))"

definition mark_file :: "string \<Rightarrow> (string \<Rightarrow> (int set \<times> bool) option) \<Rightarrow> string \<Rightarrow> (int set \<times> bool) option" where
  "mark_file p m = m(p := map_option (\<lambda>(s, b). (s, True)) (m p))"

fun other_op :: "'d file_op \<Rightarrow> bool" where
  "other_op (Op_open _ _ _) = False"
| "other_op (Op_close _) = False"
| "other_op (Op_unlink _) = False"
| "other_op _ = True"

text \<open>A successful \<open>open\<close> uses the next number; \<open>close\<close> takes the number from its path and drops the path
  with the last one; \<open>unlink\<close> of an open path marks it; every other operation, and each of these when
  there is nothing to do, leaves the table.\<close>

inductive table_step :: "'d file_op \<Rightarrow> file_table \<Rightarrow> file_table \<Rightarrow> bool" where
  opened: "table_step (Op_open path flags mode) t
    (t\<lparr>next_fd := next_fd t + 1, files := add_file (lexically_normal path) (next_fd t) (files t)\<rparr>)"
| open_failed: "table_step (Op_open path flags mode) t t"
| closed: "opened_in (files t) fd p \<Longrightarrow> table_step (Op_close fd) t (t\<lparr>files := drop_file p fd (files t)\<rparr>)"
| close_unknown: "\<forall>p. \<not> opened_in (files t) fd p \<Longrightarrow> table_step (Op_close fd) t t"
| marked: "files t name \<noteq> None \<Longrightarrow> table_step (Op_unlink name) t (t\<lparr>files := mark_file name (files t)\<rparr>)"
| removed: "files t name = None \<Longrightarrow> table_step (Op_unlink name) t t"
| unchanged: "other_op oper \<Longrightarrow> table_step oper t t"

inductive_cases close_stepE: "table_step (Op_close fd) t t'"

inductive table_run :: "'d file_op list \<Rightarrow> file_table \<Rightarrow> file_table \<Rightarrow> bool" where
  nothing: "table_run [] t t"
| next_op: "table_step oper t u \<Longrightarrow> table_run opers u t' \<Longrightarrow> table_run (oper # opers) t t'"

inductive_simps table_run_simps [simp]: "table_run [] t t'" "table_run (oper # opers) t t'"

section \<open>What the table keeps\<close>

text \<open>A descriptor is on one path at most, a path in the table has a descriptor, and the next number is
  above all of them.\<close>

definition table_ok :: "file_table \<Rightarrow> bool" where
  "table_ok t \<longleftrightarrow> 3 \<le> next_fd t \<and>
     (\<forall>fd p q. opened_in (files t) fd p \<longrightarrow> opened_in (files t) fd q \<longrightarrow> p = q) \<and>
     (\<forall>fd p. opened_in (files t) fd p \<longrightarrow> 3 \<le> fd \<and> fd < next_fd t) \<and>
     (\<forall>p b. files t p \<noteq> Some ({}, b))"

lemma table_okD:
  assumes "table_ok t"
  shows "3 \<le> next_fd t" "opened_in (files t) fd p \<Longrightarrow> opened_in (files t) fd q \<Longrightarrow> p = q"
    "opened_in (files t) fd p \<Longrightarrow> 3 \<le> fd" "opened_in (files t) fd p \<Longrightarrow> fd < next_fd t"
    "files t p \<noteq> Some ({}, b)"
  using assms unfolding table_ok_def by blast+

lemma table_okI:
  assumes "3 \<le> next_fd t" "\<And>fd p q. opened_in (files t) fd p \<Longrightarrow> opened_in (files t) fd q \<Longrightarrow> p = q"
    "\<And>fd p. opened_in (files t) fd p \<Longrightarrow> 3 \<le> fd \<and> fd < next_fd t" "\<And>p b. files t p \<noteq> Some ({}, b)"
  shows "table_ok t"
  using assms unfolding table_ok_def by blast

text \<open>Who is open where, after a step.\<close>

lemma opened_in_add: "opened_in (add_file p fd m) n q \<longleftrightarrow> opened_in m n q \<or> n = fd \<and> q = p"
  by (auto simp: opened_in_def add_file_def split: option.splits)

lemma opened_in_drop:
  assumes "table_ok t" "opened_in (files t) fd p"
  shows "opened_in (drop_file p fd (files t)) n q \<longleftrightarrow> n \<noteq> fd \<and> opened_in (files t) n q"
proof (cases "q = p")
  case True
  then show ?thesis using assms(2) by (auto simp: opened_in_def drop_file_def split: option.splits if_splits)
next
  case False
  then have "\<not> opened_in (files t) fd q" using table_okD(2) [OF assms(1)] assms(2) by blast
  then show ?thesis using False by (auto simp: opened_in_def drop_file_def)
qed

lemma opened_in_mark [simp]: "opened_in (mark_file p m) n q \<longleftrightarrow> opened_in m n q"
  by (auto simp: opened_in_def mark_file_def)

lemma filled_updates:
  assumes "\<And>p b. m p \<noteq> Some ({}, b)"
  shows "add_file p fd m q \<noteq> Some ({}, b)" "drop_file p fd m q \<noteq> Some ({}, b)" "mark_file p m q \<noteq> Some ({}, b)"
  using assms by (auto simp: add_file_def drop_file_def mark_file_def dest!: subset_singletonD
      split: if_splits option.splits)

lemma table_step_ok:
  assumes "table_step oper t t'" "table_ok t"
  shows "table_ok t'"
  using assms
proof (induction rule: table_step.induct)
  case (opened path flags mode t)
  let ?t = "t\<lparr>next_fd := next_fd t + 1, files := add_file (lexically_normal path) (next_fd t) (files t)\<rparr>"
  note ok = table_okD [OF opened]
  have on: "opened_in (files ?t) n q \<longleftrightarrow> opened_in (files t) n q \<or> n = next_fd t \<and> q = lexically_normal path" for n q
    by (simp add: opened_in_add)
  show ?case
  proof (rule table_okI)
    show "3 \<le> next_fd ?t" using ok(1) by simp
    show "p = q" if "opened_in (files ?t) fd p" "opened_in (files ?t) fd q" for fd p q
      using that ok(2) ok(4) [of fd p] ok(4) [of fd q] unfolding on by auto
    show "3 \<le> fd \<and> fd < next_fd ?t" if "opened_in (files ?t) fd p" for fd p
      using that ok(1,3) ok(4) [of fd p] unfolding on by auto
  qed (use filled_updates(1) [OF ok(5)] in simp)
next
  case (closed t fd p)
  note ok = table_okD [OF closed.prems]
  show ?case
    by (rule table_okI) (use ok(1-4) filled_updates(2) [OF ok(5)] closed in \<open>auto simp: opened_in_drop\<close>)
next
  case (marked t name)
  note ok = table_okD [OF marked.prems]
  show ?case
    by (rule table_okI) (use ok(1-4) filled_updates(3) [OF ok(5)] in auto)
qed

text \<open>A descriptor stays open on its path until its own \<open>close\<close>; a number below the next one that is not
  open stays so.\<close>

lemma table_step_opened:
  assumes "table_step oper t t'" "table_ok t" "opened_in (files t) fd p" "oper \<noteq> Op_close fd"
  shows "opened_in (files t') fd p"
  using assms by (induction rule: table_step.induct) (auto simp: opened_in_add opened_in_drop)

lemma table_step_stale:
  assumes "table_step oper t t'" "table_ok t" "fd < next_fd t" "\<forall>p. \<not> opened_in (files t) fd p"
  shows "fd < next_fd t' \<and> (\<forall>p. \<not> opened_in (files t') fd p)"
  using assms by (induction rule: table_step.induct) (auto simp: opened_in_add opened_in_drop)

lemma table_step_close: "table_step (Op_close fd) t t' \<Longrightarrow> table_ok t \<Longrightarrow> \<not> opened_in (files t') fd p"
  by (erule close_stepE) (auto simp: opened_in_drop)

lemma table_run_ok: "table_run opers t t' \<Longrightarrow> table_ok t \<Longrightarrow> table_ok t'"
  by (induction rule: table_run.induct) (auto dest: table_step_ok)

lemma table_run_opened:
  "table_run opers t t' \<Longrightarrow> table_ok t \<Longrightarrow> opened_in (files t) fd p \<Longrightarrow> Op_close fd \<notin> set opers \<Longrightarrow>
    opened_in (files t') fd p"
  by (induction rule: table_run.induct) (auto dest: table_step_ok table_step_opened)

lemma table_run_stale:
  "table_run opers t t' \<Longrightarrow> table_ok t \<Longrightarrow> fd < next_fd t \<Longrightarrow> \<forall>p. \<not> opened_in (files t) fd p \<Longrightarrow>
    \<not> opened_in (files t') fd p"
proof (induction rule: table_run.induct)
  case (next_op oper t u opers t')
  then show ?case using table_step_stale [OF next_op.hyps(1)] table_step_ok by blast
qed simp

lemma table_run_append: "table_run (xs @ ys) t t' \<longleftrightarrow> (\<exists>u. table_run xs t u \<and> table_run ys u t')"
  by (induction xs arbitrary: t) auto

section \<open>The operations implement the table\<close>

definition file_table_of :: "('f, 'h, 'd, 'w) VirtualFS \<Rightarrow> file_table" where
  "file_table_of v = \<lparr>next_fd = fd_idx (m_fd_container v), files = open_files (m_fd_container v)\<rparr>"

lemma file_table_of_simps [simp]:
  "next_fd (file_table_of v) = fd_idx (m_fd_container v)"
  "files (file_table_of v) = open_files (m_fd_container v)"
  "file_table_of (v\<lparr>m_mutex := n\<rparr>) = file_table_of v"
  "file_table_of (v\<lparr>world := w\<rparr>) = file_table_of v"
  "file_table_of (v\<lparr>m_mounts := m\<rparr>) = file_table_of v"
  "file_table_of (v\<lparr>m_fd_container := fd_handle_update fd h (m_fd_container v)\<rparr>) = file_table_of v"
  by (simp_all add: file_table_of_def)

lemma file_table_ok: "good root_of v \<Longrightarrow> table_ok (file_table_of v)"
proof -
  assume "good root_of v"
  then have ok: "container_ok (m_fd_container v)" by (simp add: good_def vfs_ok_def)
  have on: "opened_in (open_files (m_fd_container v)) fd p \<longleftrightarrow> open_on (m_fd_container v) p fd" for fd p
    by (simp add: opened_in_def open_on_files)
  show ?thesis
    by (rule table_okI)
      (use container_okD(3,5,8) [OF ok] container_okD(9,10) [OF ok open_on_exist [OF ok]] in
        \<open>auto simp: on open_files_def\<close>)
qed

text \<open>Most operations do not touch the table.\<close>

definition same_files :: "('r \<times> ('f, 'h, 'd, 'w) VirtualFS) option \<Rightarrow> ('f, 'h, 'd, 'w) VirtualFS \<Rightarrow> bool" where
  "same_files out v \<longleftrightarrow> (\<forall>r u. out = Some (r, u) \<longrightarrow> file_table_of u = file_table_of v)"

lemma same_files_return [simp]: "same_files (Some (r, u)) v \<longleftrightarrow> file_table_of u = file_table_of v"
  "same_files None v"
  by (simp_all add: same_files_def)

lemma same_filesD: "same_files out v \<Longrightarrow> out = Some (r, u) \<Longrightarrow> file_table_of u = file_table_of v"
  by (simp add: same_files_def)

lemma unlock_same_files [simp]: "file_table_of (unlock_mount key v) = file_table_of v"
  by (simp add: unlock_mount_def)

lemma lock_same_files: "lock_mount key v = Some (mp, u) \<Longrightarrow> file_table_of u = file_table_of v"
  by (auto simp: lock_mount_def bind_eq_Some_conv)

lemma run_same_files [simp]: "file_table_of (snd (run_method key mp method v)) = file_table_of v"
  by (simp add: run_method_def case_prod_beta)

lemma stats_same_files [simp]: "file_table_of (snd (get_mount_point_stats key mp v)) = file_table_of v"
  by (simp add: get_mount_point_stats_def case_prod_beta Let_def)

lemma call_locked_same_files: "same_files (call_locked key method v) v"
  by (auto simp: same_files_def call_locked_def bind_eq_Some_conv case_prod_beta Let_def dest!: lock_same_files)

lemma lock_guard_same_files:
  "same_files (body (v\<lparr>m_mutex := rm_lock (m_mutex v)\<rparr>)) v \<Longrightarrow> same_files (lock_guard body v) v"
  by (auto simp: same_files_def lock_guard_def bind_eq_Some_conv)

lemma invoke_fops_path_same_files: "same_files (invoke_fops_path method terror path v) v"
  by (simp add: invoke_fops_path_def call_locked_same_files split: sum.split option.split)

lemma invoke_fops_same_mp_same_files: "same_files (invoke_fops_same_mp method path path2 v) v"
  by (auto simp: invoke_fops_same_mp_def same_files_def bind_eq_Some_conv case_prod_beta Let_def
      dest!: lock_same_files split: sum.splits option.splits if_splits)

lemma invoke_fops_fd_same_files: "same_files (invoke_fops_fd method terror fd v) v"
  by (auto simp: invoke_fops_fd_def same_files_def bind_eq_Some_conv Let_def
      dest!: same_filesD [OF call_locked_same_files] split: if_splits)

lemma streams_same_files:
  "file_table_of (snd (invoke_stdstream_out fd data v)) = file_table_of v"
  "file_table_of (snd (invoke_stdstream_in fd buf v)) = file_table_of v"
  by (simp_all add: invoke_stdstream_out_def invoke_stdstream_in_def split: prod.split)

lemma write_same_files: "same_files (VirtualFS_write fd data v) v"
  using streams_same_files(1) [of fd data v]
  by (cases "invoke_stdstream_out fd data v")
    (auto simp: VirtualFS_write_def same_files_def dest!: same_filesD [OF invoke_fops_fd_same_files] split: sum.splits)

lemma read_same_files: "same_files (VirtualFS_read fd buf v) v"
  using streams_same_files(2) [of fd buf v]
  by (cases "invoke_stdstream_in fd buf v")
    (auto simp: VirtualFS_read_def same_files_def dest!: same_filesD [OF invoke_fops_fd_same_files] split: sum.splits)

lemma fd_ops_same_files:
  "same_files (VirtualFS_lseek fd pos dir v) v" "same_files (VirtualFS_fstat fd st v) v"
  "same_files (VirtualFS_ftruncate fd len v) v" "same_files (VirtualFS_fsync fd v) v"
  "same_files (VirtualFS_fchmod fd mode v) v" "same_files (VirtualFS_flock fd cmd v) v"
  "same_files (VirtualFS_isatty fd v) v"
  by (simp_all add: VirtualFS_lseek_def VirtualFS_fstat_def VirtualFS_ftruncate_def VirtualFS_fsync_def
      VirtualFS_fchmod_def VirtualFS_flock_def VirtualFS_isatty_def invoke_fops_fd_same_files)

lemma path_ops_same_files:
  "same_files (VirtualFS_stat path st v) v" "same_files (VirtualFS_symlink path path' v) v"
  "same_files (VirtualFS_link path path' v) v" "same_files (VirtualFS_mkdir path mode v) v"
  "same_files (VirtualFS_rmdir path v) v" "same_files (VirtualFS_stat_vfs path sv v) v"
  "same_files (VirtualFS_chmod path mode v) v" "same_files (VirtualFS_ioctl path cmd arg v) v"
  "same_files (VirtualFS_utimens path tv v) v" "same_files (VirtualFS_rename path path' v) v"
  "same_files (VirtualFS_chdir path v) v"
  by (simp_all add: VirtualFS_stat_def VirtualFS_symlink_def VirtualFS_link_def VirtualFS_mkdir_def
      VirtualFS_rmdir_def VirtualFS_stat_vfs_def VirtualFS_chmod_def VirtualFS_ioctl_def VirtualFS_utimens_def
      VirtualFS_rename_def VirtualFS_chdir_def invoke_fops_path_same_files invoke_fops_same_mp_same_files)

lemma stat_keys_same_files: "same_files (stat_keys keys v) v"
proof (induction keys arbitrary: v)
  case (Cons key keys)
  then show ?case
    by (auto simp: same_files_def bind_eq_Some_conv case_prod_beta Let_def dest!: lock_same_files)
qed simp

lemma volume_ops_same_files:
  "same_files (VirtualFS_diropen path v) v" "same_files (VirtualFS_get_roots v) v"
  "same_files (VirtualFS_dirreset h v) v" "same_files (VirtualFS_dirnext out h v) v" "same_files (VirtualFS_dirclose h v) v"
  "same_files (VirtualFS_stat_parts v) v" "same_files (VirtualFS_stat_parts_of path v) v"
proof -
  show "same_files (VirtualFS_diropen path v) v"
    by (simp add: VirtualFS_diropen_def call_locked_same_files split: sum.split option.split)
  show "same_files (VirtualFS_dirreset h v) v" "same_files (VirtualFS_dirnext out h v) v"
    "same_files (VirtualFS_dirclose h v) v"
    by (simp_all add: VirtualFS_dirreset_def VirtualFS_dirnext_def VirtualFS_dirclose_def invoke_dirops_def call_locked_same_files)
  show "same_files (VirtualFS_get_roots v) v"
    unfolding VirtualFS_get_roots_def by (rule lock_guard_same_files) simp
  show "same_files (VirtualFS_stat_parts v) v"
    by (simp add: VirtualFS_stat_parts_def stat_keys_same_files)
  show "same_files (VirtualFS_stat_parts_of path v) v"
    by (auto simp: VirtualFS_stat_parts_of_def same_files_def bind_eq_Some_conv case_prod_beta Let_def
        dest!: lock_same_files split: option.splits)
qed

lemma outcome_Some: "outcome out = Some u \<longleftrightarrow> (\<exists>r. out = Some (r, u))"
  by (auto simp: outcome_def)

lemma outcome_same_files: "same_files out v \<Longrightarrow> outcome out = Some u \<Longrightarrow> file_table_of u = file_table_of v"
  by (auto simp: outcome_Some same_files_def)

lemma other_op_same_files:
  assumes "other_op oper" "run_file_op oper v = Some u"
  shows "file_table_of u = file_table_of v"
  using assms
  by (cases oper)
    (auto dest!: outcome_same_files [rotated]
      intro: write_same_files read_same_files fd_ops_same_files path_ops_same_files volume_ops_same_files)

text \<open>The three operations that do.\<close>

lemma open_on_mount_table:
  assumes "open_on_mount key path abspath flags mode v = Some (r, u)"
  shows "table_step (Op_open path f m) (file_table_of v) (file_table_of u)"
proof -
  obtain mp v1 where lock: "lock_mount key v = Some (mp, v1)"
    using assms by (auto simp: open_on_mount_def bind_eq_Some_conv)
  let ?run = "run_method key mp (\<lambda>fs. fs_open fs abspath (word_of_int flags) mode) v1"
  have v1: "file_table_of (snd ?run) = file_table_of v" using lock_same_files [OF lock] by simp
  show ?thesis
  proof (cases "file_table_of u = file_table_of v")
    case False
    then obtain h fd c where h: "fd_insert path h (m_fd_container (snd ?run)) = Some (fd, c)"
      "u = unlock_mount key ((snd ?run)\<lparr>m_fd_container := c\<rparr>)"
      using assms lock v1 by (auto simp: open_on_mount_def bind_eq_Some_conv case_prod_beta Let_def
          dest: lock_same_files split: if_splits sum.splits)
    have "file_table_of u = (file_table_of v)\<lparr>next_fd := next_fd (file_table_of v) + 1,
        files := add_file (lexically_normal path) (next_fd (file_table_of v)) (files (file_table_of v))\<rparr>"
      using open_files_insert [OF h(1)] v1 unfolding h(2)
      by (simp add: file_table_of_def add_file_def unlock_mount_def split: option.split)
    then show ?thesis using table_step.opened by metis
  qed (simp add: table_step.open_failed)
qed

lemma open_table:
  assumes "VirtualFS_open path flags mode v = Some (r, u)"
  shows "table_step (Op_open path flags mode) (file_table_of v) (file_table_of u)"
  using assms
  by (auto simp: VirtualFS_open_def lock_guard_def bind_eq_Some_conv intro: table_step.open_failed
      dest!: open_on_mount_table split: sum.splits option.splits)

lemma unlink_table:
  assumes "VirtualFS_unlink name v = Some (r, u)"
  shows "table_step (Op_unlink name) (file_table_of v) (file_table_of u)"
proof (cases "path_exist name (m_fd_container v)")
  case True
  then have "files (file_table_of v) name \<noteq> None"
    by (simp add: path_exist_def umap_contains_def open_files_def)
  moreover have "file_table_of u = (file_table_of v)\<lparr>files := mark_file name (files (file_table_of v))\<rparr>"
    using assms True fd_mark_files [OF True]
    by (auto simp: VirtualFS_unlink_def lock_guard_def bind_eq_Some_conv file_table_of_def mark_file_def)
  ultimately show ?thesis using table_step.marked by metis
next
  case False
  then have "files (file_table_of v) name = None"
    by (simp add: path_exist_def umap_contains_def open_files_def)
  moreover have "file_table_of u = file_table_of v"
    using assms False by (auto simp: VirtualFS_unlink_def lock_guard_def bind_eq_Some_conv
        dest!: same_filesD [OF invoke_fops_path_same_files])
  ultimately show ?thesis by (simp add: table_step.removed)
qed

lemma removed_table:
  assumes ok: "container_ok (m_fd_container v)" and ex: "fd_exist fd (m_fd_container v)"
    and rem: "fd_remove fd (m_fd_container v) = (q, c)"
  shows "table_step (Op_close fd) (file_table_of v) (file_table_of (v\<lparr>m_fd_container := c\<rparr>))"
proof -
  obtain p s b where on: "open_files (m_fd_container v) p = Some (s, b)" "fd \<in> s"
    using container_okD(7) [OF ok] ex by (auto simp: open_on_files)
  have "file_table_of (v\<lparr>m_fd_container := c\<rparr>) =
      (file_table_of v)\<lparr>files := drop_file p fd (files (file_table_of v))\<rparr>"
    using fd_remove_files(2,4) [OF ok on] rem on by (simp add: file_table_of_def drop_file_def)
  moreover have "opened_in (files (file_table_of v)) fd p" using on by (simp add: opened_in_def)
  ultimately show ?thesis using table_step.closed by metis
qed

lemma close_table:
  assumes good: "good root_of v" and run: "VirtualFS_close fd v = Some (r, u)"
  shows "table_step (Op_close fd) (file_table_of v) (file_table_of u)"
proof (cases "fd_exist fd (m_fd_container v)")
  case True
  let ?v = "v\<lparr>m_mutex := rm_lock (m_mutex v)\<rparr>"
  obtain fil where fil: "fd_handle fd (m_fd_container ?v) = Some fil" using True by (auto simp: fd_exist_handle)
  obtain e u1 q c where k: "invoke_fops_fd fs_close (\<lambda>e. e) fd ?v = Some (e, u1)" "good root_of u1"
    "fd_remove fd (m_fd_container u1) = (q, c)" "fd_exist fd (m_fd_container u1)"
    by (rule close_known [OF good_rm_lock [OF good] fil]) blast
  have u1: "file_table_of u1 = file_table_of v"
    using same_filesD [OF invoke_fops_fd_same_files k(1)] by simp
  have "file_table_of u = file_table_of (u1\<lparr>m_fd_container := c\<rparr>)"
    using run True k(1,3) by (auto simp: VirtualFS_close_def lock_guard_def bind_eq_Some_conv Let_def
        dest!: same_filesD [OF invoke_fops_path_same_files] split: option.splits)
  moreover have "container_ok (m_fd_container u1)" using k(2) by (simp add: good_def vfs_ok_def)
  ultimately show ?thesis using removed_table [OF _ k(4,3)] u1 by simp
next
  case False
  have ok: "container_ok (m_fd_container v)" using good by (simp add: good_def vfs_ok_def)
  have "\<forall>p. \<not> opened_in (files (file_table_of v)) fd p"
    using False open_on_exist [OF ok] by (auto simp: opened_in_def open_on_files)
  moreover have "file_table_of u = file_table_of v"
    using run False by (auto simp: VirtualFS_close_def lock_guard_def bind_eq_Some_conv)
  ultimately show ?thesis by (simp add: table_step.close_unknown)
qed

lemma run_file_op_table:
  assumes "good root_of v" "run_file_op oper v = Some u"
  shows "table_step oper (file_table_of v) (file_table_of u)"
proof (cases "other_op oper")
  case True
  then show ?thesis using other_op_same_files [OF True assms(2)] by (simp add: table_step.unchanged)
next
  case False
  then show ?thesis
    using assms open_table unlink_table close_table by (cases oper) (auto simp: outcome_Some)
qed

lemma run_file_ops_table:
  "good root_of v \<Longrightarrow> fd_idx (m_fd_container v) + int (length opers) \<le> INT_MAX \<Longrightarrow> dirs_mounted opers v \<Longrightarrow>
    \<exists>u. run_file_ops opers v = Some u \<and> good root_of u \<and> table_run opers (file_table_of v) (file_table_of u)"
proof (induction opers arbitrary: v)
  case (Cons oper opers)
  have "fd_idx (m_fd_container v) < INT_MAX" using Cons.prems(2) by simp
  from run_file_op_settles [OF Cons.prems(1) this, of oper] Cons.prems(3)
  obtain v1 where v1: "run_file_op oper v = Some v1" "good root_of v1" "kept v v1"
    "fd_idx (m_fd_container v1) \<le> fd_idx (m_fd_container v) + 1" by auto
  then obtain u where "run_file_ops opers v1 = Some u" "good root_of u" "table_run opers (file_table_of v1) (file_table_of u)"
    using Cons.IH [OF v1(2)] Cons.prems(2,3) v1(4) dirs_mounted_kept [OF v1(3)] by auto
  then show ?case using v1(1) run_file_op_table [OF Cons.prems(1) v1(1)] by auto
qed simp

section \<open>Properties\<close>

lemma table_step_mark:
  "table_step oper t t' \<Longrightarrow> files t p = Some (s, True) \<Longrightarrow> files t' p = Some (s', b) \<Longrightarrow> b"
  by (induction rule: table_step.induct)
    (auto simp: add_file_def drop_file_def mark_file_def split: if_splits option.splits)

lemma table_run_mark:
  "table_run opers t t' \<Longrightarrow> table_ok t \<Longrightarrow> opened_in (files t) fd p \<Longrightarrow> Op_close fd \<notin> set opers \<Longrightarrow>
    files t p = Some (s, True) \<Longrightarrow> \<exists>s'. files t' p = Some (s', True)"
proof (induction arbitrary: s rule: table_run.induct)
  case (next_op oper t u opers t')
  have on: "opened_in (files u) fd p"
    by (rule table_step_opened [OF next_op.hyps(1) next_op.prems(1,2)]) (use next_op.prems(3) in auto)
  then obtain s' b where "files u p = Some (s', b)" by (auto simp: opened_in_def)
  moreover from this have b using table_step_mark [OF next_op.hyps(1) next_op.prems(4)] by blast
  ultimately show ?case
    using next_op.IH [OF table_step_ok [OF next_op.hyps(1) next_op.prems(1)] on] next_op.prems(3) by auto
qed blast

text \<open>C4: Every sequence of operations changes the open files as the abstract table does: \<open>open\<close> adds the next
  number to the normalised path or fails, \<open>close\<close> takes its number from the one path it is on and drops the
  path with the last one, \<open>unlink\<close> marks a path that is open, and nothing else, no error and no answer of a
  file system, changes which files are open. The directory handles that operations carry lie on mounted
  volumes, and the numbers do not run out.\<close>

theorem vfs_refines_file_table:
  assumes "good root_of v" "fd_idx (m_fd_container v) + int (length opers) \<le> INT_MAX" "dirs_mounted opers v"
  shows "\<exists>u. run_file_ops opers v = Some u \<and> table_run opers (file_table_of v) (file_table_of u)"
  using run_file_ops_table [OF assms] by blast

theorem vfs_refines_file_table_witness:
  "\<exists>u t. run_file_ops [Op_unlink ''/vol/a'', Op_close 3] sample_open_vfs = Some u \<and>
    table_step (Op_close 3 :: nat file_op) t (file_table_of u) \<and> files t ''/vol/a'' \<noteq> None"
proof -
  let ?ops = "[Op_unlink ''/vol/a'', Op_close 3] :: nat file_op list"
  have "fd_idx (m_fd_container sample_open_vfs) + int (length ?ops) \<le> INT_MAX"
    by (simp add: sample_open_vfs_def INT_MAX_def)
  moreover have "dirs_mounted ?ops sample_open_vfs" by simp
  ultimately have "\<exists>u. run_file_ops ?ops sample_open_vfs = Some u \<and> table_run ?ops (file_table_of sample_open_vfs) (file_table_of u)"
    by (rule vfs_refines_file_table [OF sample_open_vfs_good])
  then obtain u t where
    u: "run_file_ops ?ops sample_open_vfs = Some u" "table_step (Op_unlink ''/vol/a'' :: nat file_op) (file_table_of sample_open_vfs) t"
      "table_step (Op_close 3 :: nat file_op) t (file_table_of u)" by (auto simp only: table_run_simps)
  have "opened_in (files (file_table_of sample_open_vfs)) 3 ''/vol/a''"
    using sample_open_vfs_simps(1) by (auto simp: opened_in_def)
  then have "opened_in (files t) 3 ''/vol/a''"
    using table_step_opened [OF u(2) file_table_ok [OF sample_open_vfs_good]] by blast
  then show ?thesis using u(1,3) by (auto simp: opened_in_def)
qed

text \<open>C6: A descriptor stays open on its path until its own \<open>close\<close>: whatever else is opened, closed, unlinked,
  renamed or fails in between, and a path that is marked for unlinking stays marked as long.\<close>

theorem open_descriptor_survives:
  assumes "good root_of v" "fd_idx (m_fd_container v) + int (length opers) \<le> INT_MAX" "dirs_mounted opers v"
    and "open_files (m_fd_container v) p = Some (s, b)" "fd \<in> s" "Op_close fd \<notin> set opers"
  shows "\<exists>u s' b'. run_file_ops opers v = Some u \<and> open_files (m_fd_container u) p = Some (s', b') \<and> fd \<in> s' \<and> (b \<longrightarrow> b')"
proof -
  obtain u where u: "run_file_ops opers v = Some u" "table_run opers (file_table_of v) (file_table_of u)"
    using run_file_ops_table [OF assms(1-3)] by blast
  have on: "opened_in (files (file_table_of v)) fd p" using assms(4,5) by (simp add: opened_in_def)
  note ok = file_table_ok [OF assms(1)]
  have "opened_in (files (file_table_of u)) fd p" using table_run_opened [OF u(2) ok on assms(6)] .
  moreover have "b \<Longrightarrow> \<exists>s'. files (file_table_of u) p = Some (s', True)"
    using table_run_mark [OF u(2) ok on assms(6)] assms(4) by simp
  ultimately show ?thesis using u(1) by (fastforce simp: opened_in_def)
qed

theorem open_descriptor_survives_witness:
  "\<exists>u s. run_file_ops [Op_open ''/vol/b'' 0 0, Op_close 4, Op_rename ''/vol/a'' ''/vol/c''] sample_open_vfs = Some u \<and>
    open_files (m_fd_container u) ''/vol/a'' = Some (s, True) \<and> 3 \<in> s"
proof -
  have "fd_idx (m_fd_container sample_open_vfs) +
      int (length [Op_open ''/vol/b'' 0 0, Op_close 4, Op_rename ''/vol/a'' ''/vol/c'' :: nat file_op]) \<le> INT_MAX"
    by (simp add: sample_open_vfs_def INT_MAX_def)
  from open_descriptor_survives [OF sample_open_vfs_good this _ sample_open_vfs_simps(1), of 3]
  show ?thesis by auto
qed

text \<open>C5: A closed descriptor is dead for good: its number is never given out again, so after any further
  operations a use of it is \<open>EBADF\<close> and never reaches another file.\<close>

theorem closed_descriptor_stays_dead:
  fixes opers :: "'d file_op list"
  assumes "good root_of v" "fd_idx (m_fd_container v) + int (length opers) < INT_MAX" "dirs_mounted opers v"
    and "fd_exist fd (m_fd_container v)"
  shows "\<exists>u. run_file_ops (Op_close fd # opers) v = Some u \<and> \<not> fd_exist fd (m_fd_container u) \<and>
    VirtualFS_close fd u = Some (EBADF, u) \<and> VirtualFS_write fd data u = Some (Inl EBADF, u)"
proof -
  have idx: "fd_idx (m_fd_container v) + int (length (Op_close fd # opers)) \<le> INT_MAX" using assms(2) by simp
  have dirs: "dirs_mounted (Op_close fd # opers) v" using assms(3) by simp
  obtain u where u: "run_file_ops (Op_close fd # opers) v = Some u" "good root_of u"
    "table_run (Op_close fd # opers) (file_table_of v) (file_table_of u)"
    using run_file_ops_table [OF assms(1) idx dirs] by blast
  then obtain t where t: "table_step (Op_close fd :: 'd file_op) (file_table_of v) t" "table_run opers t (file_table_of u)" by auto
  have ok: "container_ok (m_fd_container v)" "container_ok (m_fd_container u)"
    using assms(1) u(2) by (simp_all add: good_def vfs_ok_def)
  have fd: "3 \<le> fd" "fd < next_fd (file_table_of v)" using container_okD(9,10) [OF ok(1) assms(4)] by simp_all
  note tok = table_step_ok [OF t(1) file_table_ok [OF assms(1)]]
  have "\<not> opened_in (files (file_table_of u)) fd p" for p
    by (rule table_run_stale [OF t(2) tok])
      (use table_step_close [OF t(1) file_table_ok [OF assms(1)]] fd(2) t(1) in \<open>auto elim: close_stepE\<close>)
  then have "\<not> fd_exist fd (m_fd_container u)"
    using container_okD(7) [OF ok(2)] by (auto simp: opened_in_def open_on_files)
  then show ?thesis
    using u(1) fd(1) by (simp add: VirtualFS_close_def lock_guard_def VirtualFS_write_def
        invoke_stdstream_out_def invoke_fops_fd_unknown)
qed

theorem closed_descriptor_stays_dead_witness:
  "\<exists>u. run_file_ops [Op_close 3, Op_open ''/vol/b'' 0 0] sample_open_vfs = Some u \<and>
    VirtualFS_write 3 [1] u = Some (Inl EBADF, u)"
proof -
  have "fd_idx (m_fd_container sample_open_vfs) + int (length [Op_open ''/vol/b'' 0 0 :: nat file_op]) < INT_MAX"
    by (simp add: sample_open_vfs_def INT_MAX_def)
  moreover have "dirs_mounted [Op_open ''/vol/b'' 0 0 :: nat file_op] sample_open_vfs" by simp
  moreover have "fd_exist 3 (m_fd_container sample_open_vfs)" using sample_open_vfs_simps(2) fd_exist_handle by blast
  ultimately show ?thesis using closed_descriptor_stays_dead [OF sample_open_vfs_good] by blast
qed

end
