(* ===== verification/Vfs_Mounts.thy ===== *)
theory Vfs_Mounts
  imports Vfs_Properties
begin

text \<open>
  The table of mount points over its life: mounting, unmounting and what is found below a root
  (\<open>lib/common/vfs.cpp\<close>).
\<close>

section \<open>Mounting and unmounting\<close>

definition factories_ok :: "('f \<Rightarrow> string) \<Rightarrow> ('f, 'h, 'd, 'w) VirtualFS \<Rightarrow> bool" where
  "factories_ok root_of v \<longleftrightarrow> (\<forall>n t factory disk flags w. map_of (m_fs_factories v) n = Some (t, Some factory) \<longrightarrow>
     rooted_filesystem (fst (fst (factory disk flags w))) root_of)"

lemma choose_root_frame:
  assumes "choose_root root fs self v = (root', self', v')"
  shows "m_mounts v' = m_mounts v" "m_mutex v' = m_mutex v" "m_fd_container v' = m_fd_container v"
    "m_fs_factories v' = m_fs_factories v" "root \<noteq> [] \<Longrightarrow> root' = root"
  using assms by (auto simp: choose_root_def generate_unique_root_dir_def split: if_splits prod.splits sum.splits)

text \<open>A mount that returns: refused, or one new mount point in front of the old ones, holding a file
  system that a factory made and that mounted itself under the key.\<close>

definition same_table :: "('f, 'h, 'd, 'w) VirtualFS \<Rightarrow> ('f, 'h, 'd, 'w) VirtualFS \<Rightarrow> bool" where
  "same_table v v' \<longleftrightarrow> m_fd_container v' = m_fd_container v \<and> m_mutex v' = m_mutex v \<and>
     m_fs_factories v' = m_fs_factories v"

lemma fs_discovery_error:
  assumes "fs_discovery disk_name v = Some (Inl e)"
  shows "e = EINVAL"
proof -
  obtain diskn partn where split: "split_disk_name disk_name = Some (diskn, partn)"
    using assms by (cases "split_disk_name disk_name") (auto simp: fs_discovery_def)
  show ?thesis
    using assms by (auto simp: fs_discovery_def split split: option.splits)
qed

lemma mount_returns:
  assumes "VirtualFS_mount disk_name root fstype flags v = Some (r, v')"
  shows "same_table v v' \<and> ((r \<noteq> EOK \<and> m_mounts v' = m_mounts v) \<or>
    (r = EOK \<and> (\<exists>key l. \<not> umap_contains key (m_mounts v) \<and> m_mounts v' = (key, l) # m_mounts v \<and>
       (root \<noteq> [] \<longrightarrow> key = root) \<and> \<not> locker_mutex l \<and> mp_root (locker_value l) = key \<and>
       mp_flags (locker_value l) = flags \<and>
       (\<exists>n t factory disk w0. map_of (m_fs_factories v) n = Some (t, Some factory) \<and>
          mp_fs (locker_value l) = fst (fst (factory disk 0 w0))) \<and>
       (\<exists>self w w'. fs_mount (mp_fs (locker_value l)) key flags self w = (EOK, mp_self (locker_value l), w')))))"
proof -
  let ?v = "v\<lparr>m_mutex := rm_lock (m_mutex v)\<rparr>"
  obtain found where found: "fs_discovery disk_name ?v = Some found"
    using assms by (cases "fs_discovery disk_name ?v") (auto simp: VirtualFS_mount_def lock_guard_def)
  show ?thesis
  proof (cases found)
    case (Inl e)
    have "e = EINVAL"
      using found Inl by (intro fs_discovery_error) simp
    then show ?thesis
      using assms found Inl by (auto simp: VirtualFS_mount_def lock_guard_def same_table_def)
  next
    case (Inr td)
    obtain t disk where td: "td = (t, disk)" by (cases td)
    obtain t' factory where fac: "map_of (m_fs_factories v) (type_name t) = Some (t', Some factory)"
      using assms found Inr td
      by (auto simp: VirtualFS_mount_def lock_guard_def bind_eq_Some_conv)
    obtain fs self0 w0 where made: "factory disk 0 (world v) = ((fs, self0), w0)" by (metis surj_pair)
    obtain key self1 u where chosen: "choose_root root fs self0 (?v\<lparr>world := w0\<rparr>) = (key, self1, u)" by (metis surj_pair)
    note frame = choose_root_frame [OF chosen, simplified]
    obtain e self2 w2 where mnt: "fs_mount fs key flags self1 (world u) = (e, self2, w2)" by (metis surj_pair)
    have run: "VirtualFS_mount disk_name root fstype flags v =
       (if umap_contains key (m_mounts v) then Some (EEXIST, u\<lparr>m_mutex := m_mutex v\<rparr>)
        else if e \<noteq> EOK then Some (e, u\<lparr>world := w2, m_mutex := m_mutex v\<rparr>)
        else Some (EOK, u\<lparr>world := w2, m_mounts := (key, locker_new \<lparr>mp_fs = fs, mp_self = self2, mp_disk = disk,
          mp_root = key, mp_flags = flags, mp_type = t\<rparr>) # m_mounts v, m_mutex := m_mutex v\<rparr>))"
      using found Inr td fac made chosen mnt frame
      by (simp add: VirtualFS_mount_def lock_guard_def Let_def umap_insert_def)
    have made': "fs = fst (fst (factory disk 0 (world v)))" using made by simp
    show ?thesis
      using assms frame fac made' mnt unfolding run
      by (cases "umap_contains key (m_mounts v)"; cases "e = EOK"; auto simp: same_table_def; blast)
  qed
qed

lemma mounted_good:
  assumes good: "good root_of v" and fresh: "\<not> umap_contains key (m_mounts v)"
    and mounts: "m_mounts v' = (key, l) # m_mounts v" and table: "same_table v v'" and l: "mount_ok root_of key l"
  shows "good root_of v'"
proof -
  have "umap_wf (m_mounts v')"
    using good fresh by (simp add: good_def vfs_ok_def umap_wf_def umap_simps mounts umap_contains_keys)
  then show ?thesis
    using good l table fresh
    by (auto simp: good_def vfs_ok_def files_mounted_def same_table_def mounts umap_contains_keys umap_simps)
qed

lemma mount_good:
  assumes "good root_of v" "factories_ok root_of v" "VirtualFS_mount disk_name root fstype flags v = Some (r, v')"
  shows "good root_of v'"
proof (cases "r = EOK")
  case False
  then have "same_table v v'" "m_mounts v' = m_mounts v" using mount_returns [OF assms(3)] by auto
  then show ?thesis using assms(1) by (auto simp: good_def vfs_ok_def files_mounted_def same_table_def)
next
  case True
  then obtain key l n t factory disk w0 self w w' where m: "\<not> umap_contains key (m_mounts v)"
    "m_mounts v' = (key, l) # m_mounts v" "\<not> locker_mutex l" "mp_root (locker_value l) = key"
    "map_of (m_fs_factories v) n = Some (t, Some factory)"
    "mp_fs (locker_value l) = fst (fst (factory disk 0 w0))"
    "fs_mount (mp_fs (locker_value l)) key flags self w = (EOK, mp_self (locker_value l), w')"
    and table: "same_table v v'"
    using mount_returns [OF assms(3)] by (elim conjE disjE exE) (assumption | blast | simp)+
  have rooted: "rooted_filesystem (mp_fs (locker_value l)) root_of"
    using assms(2) m(5,6) by (auto simp: factories_ok_def)
  have "mount_ok root_of key l"
    using rooted m(3,4) rooted_filesystem.mount_root [OF rooted] m(7) by (auto simp: mount_ok_def)
  then show ?thesis using mounted_good [OF assms(1) m(1,2) table] by blast
qed

text \<open>C9: Mounting either reports an error and leaves the mounted volumes as they were, or adds exactly one
  volume under a root that was free (the given one when there is one), unlocked and with the requested
  flags; a root that is taken is never mounted over, and the state stays good when the registered
  factories make file systems that keep the contract.\<close>

theorem vfs_mount_correct:
  assumes "good root_of v" "factories_ok root_of v" "VirtualFS_mount disk_name root fstype flags v = Some (r, v')"
  shows "good root_of v' \<and> m_mutex v' = m_mutex v \<and> m_fd_container v' = m_fd_container v \<and>
    (if r \<noteq> EOK then m_mounts v' = m_mounts v
     else \<exists>key l. \<not> umap_contains key (m_mounts v) \<and> m_mounts v' = (key, l) # m_mounts v \<and>
       (root \<noteq> [] \<longrightarrow> key = root) \<and> mp_flags (locker_value l) = flags) \<and>
    (root \<noteq> [] \<and> umap_contains root (m_mounts v) \<longrightarrow> r \<noteq> EOK)"
proof -
  have "same_table v v'" using mount_returns [OF assms(3)] by blast
  then show ?thesis
    using mount_good [OF assms] mount_returns [OF assms(3)] by (auto simp: same_table_def)
qed

definition sample_disk :: "unit Disk" where
  "sample_disk = \<lparr>disk_device = sample_device, disk_partitions = [sample_entry 1 2 0x83]\<rparr>"

definition sample_machine :: "(unit filesystem_lwext4, nat, nat, unit) VirtualFS" where
  "sample_machine = (VirtualFS_new \<lparr>m_disk_map = [(''disk0'', sample_disk)]\<rparr> sample_stream ())
     \<lparr>m_fs_factories := [(''ext4'', ext4_type, get_fs_factory (filesystem_factory_lwext4 sample_api) ext4_type)]\<rparr>"

lemma sample_machine_good: "good lw_root sample_machine" "factories_ok lw_root sample_machine"
  by (auto simp: good_def vfs_ok_def files_mounted_def fd_handle_def sample_machine_def VirtualFS_new_def
      file_descriptor_container_new_def factories_ok_def get_fs_factory_def fs_type_eq_def ext4_type_def
      filesystem_factory_lwext4_def create_filesystem_lwext4_def sample_api_def lwext4_rooted.rooted_filesystem_axioms
      container_ok_new [unfolded file_descriptor_container_new_def] split: if_splits)

lemma sample_discovery:
  "fs_discovery ''disk0p0'' (sample_machine\<lparr>m_mutex := n\<rparr>) =
    Some (Inr (ext4_type, Partition_device sample_device (sample_entry 1 2 0x83)))"
proof -
  have "split_disk_name ''disk0p0'' = Some (Some ''disk0'', Some 0)" by code_simp
  then show ?thesis
    by (simp add: fs_discovery_def sample_machine_def VirtualFS_new_def DiskManager_get_def borrow_partition_def
        sample_disk_def get_fs_type_from_mbr_code_def sample_entry_def ext4_type_def)
qed

lemma sample_mounting:
  "\<exists>v'. VirtualFS_mount ''disk0p0'' ''/vol'' [] 0 sample_machine = Some (EOK, v')"
  by (simp add: VirtualFS_mount_def lock_guard_def sample_discovery)
    (simp add: sample_machine_def VirtualFS_new_def get_fs_factory_def fs_type_eq_def ext4_type_def
      filesystem_factory_lwext4_def create_filesystem_lwext4_def sample_api_def choose_root_def umap_contains_def
      filesystem_lwext4_ops_def lwext4_mount_def)

theorem vfs_mount_correct_witness:
  "\<exists>v'. VirtualFS_mount ''disk0p0'' ''/vol'' [] 0 sample_machine = Some (EOK, v') \<and> umap_keys (m_mounts v') = [''/vol'']"
proof -
  obtain v' where run: "VirtualFS_mount ''disk0p0'' ''/vol'' [] 0 sample_machine = Some (EOK, v')"
    using sample_mounting by blast
  have "m_mounts sample_machine = []" by (simp add: sample_machine_def VirtualFS_new_def)
  then show ?thesis
    using vfs_mount_correct [OF sample_machine_good run] run by (auto simp: umap_simps)
qed

lemma umount_unknown: "\<not> umap_contains key (m_mounts v) \<Longrightarrow> VirtualFS_umount key v = Some (EINVAL, v)"
  by (simp add: VirtualFS_umount_def lock_guard_def)

lemma umount_known:
  assumes "vfs_ok root_of v" "map_of (m_mounts v) key = Some l"
    and call: "fs_unmount (mp_fs (locker_value l)) (mp_self (locker_value l)) (world v) = (e, self, w)"
  shows "VirtualFS_umount key v = Some (e, if e \<noteq> EOK then after_call key l self w v
    else v\<lparr>m_mounts := umap_erase key (m_mounts v), world := w\<rparr>)"
proof -
  let ?v = "v\<lparr>m_mutex := rm_lock (m_mutex v)\<rparr>"
  have "map_of (m_mounts ?v) key = Some l" "\<not> locker_mutex l"
    using assms(1,2) vfs_okD(3) by (auto simp: mount_ok_def)
  then have "call_locked key (\<lambda>fs. fs_unmount fs) ?v = Some (e, after_call key l self w ?v)"
    using call by (intro call_locked_eq) simp_all
  moreover have "umap_contains key (m_mounts v)" using assms(2) by (simp add: umap_contains_def)
  moreover have "umap_erase key (umap_modify key f m) = umap_erase key m" for f :: "('a, 'b, 'c, 'd) MountPoint locker \<Rightarrow> _" and m
    by (induction m) (auto simp: umap_erase_def umap_modify_def)
  ultimately show ?thesis
    by (simp add: VirtualFS_umount_def lock_guard_def after_call_mutex) (simp add: after_call_def)
qed

lemma erased_ok:
  assumes "vfs_ok root_of v"
  shows "vfs_ok root_of (v\<lparr>m_mounts := umap_erase key (m_mounts v), world := w\<rparr>)"
  using assms by (auto simp: vfs_ok_def umap_simps split: if_splits)

text \<open>C23: Unmounting a root that is not mounted is \<open>EINVAL\<close> and changes nothing; otherwise the file system
  unmounts itself once, the volume leaves the table exactly when that succeeds, and no other volume, no
  open descriptor and no lock is touched. With no file open on the volume the state stays good.\<close>

theorem vfs_umount_correct:
  assumes "good root_of v"
  shows "case map_of (m_mounts v) key of
      None \<Rightarrow> VirtualFS_umount key v = Some (EINVAL, v)
    | Some l \<Rightarrow> (case fs_unmount (mp_fs (locker_value l)) (mp_self (locker_value l)) (world v) of (e, self, w) \<Rightarrow>
        \<exists>v'. VirtualFS_umount key v = Some (e, v') \<and> world v' = w \<and> vfs_ok root_of v' \<and>
          m_mutex v' = m_mutex v \<and> m_fd_container v' = m_fd_container v \<and>
          umap_keys (m_mounts v') = (if e = EOK then filter (\<lambda>k. k \<noteq> key) (umap_keys (m_mounts v)) else umap_keys (m_mounts v)) \<and>
          (\<forall>k. k \<noteq> key \<longrightarrow> map_of (m_mounts v') k = map_of (m_mounts v) k) \<and>
          ((\<forall>n h. fd_handle n (m_fd_container v) = Some h \<longrightarrow> file_root h \<noteq> key) \<longrightarrow> good root_of v'))"
proof (cases "map_of (m_mounts v) key")
  case None
  then show ?thesis by (simp add: umount_unknown umap_contains_def)
next
  case (Some l)
  have ok: "vfs_ok root_of v" and files: "files_mounted v" using assms by (simp_all add: good_def)
  obtain e self w where call: "fs_unmount (mp_fs (locker_value l)) (mp_self (locker_value l)) (world v) = (e, self, w)"
    by (metis surj_pair)
  have rooted: "rooted_filesystem (mp_fs (locker_value l)) root_of"
    using ok Some vfs_okD(3) by (auto simp: mount_ok_def)
  have "root_of self = root_of (mp_self (locker_value l))"
    using keeps_rootD [OF rooted_filesystem.unmount_keeps [OF rooted] call] .
  then have kept: "vfs_ok root_of (after_call key l self w v)" using after_call_ok [OF ok Some] by blast
  have keys: "umap_keys (umap_modify key f m) = umap_keys m" for f and m :: "(string \<times> ('a, 'b, 'c, 'd) MountPoint locker) list"
    by (simp add: umap_simps)
  show ?thesis
  proof (cases "e = EOK")
    case True
    then have run: "VirtualFS_umount key v = Some (e, v\<lparr>m_mounts := umap_erase key (m_mounts v), world := w\<rparr>)"
      using umount_known [OF ok Some call] by simp
    have "good root_of (v\<lparr>m_mounts := umap_erase key (m_mounts v), world := w\<rparr>)"
      if "\<forall>n h. fd_handle n (m_fd_container v) = Some h \<longrightarrow> file_root h \<noteq> key"
      using that files erased_ok [OF ok] by (auto simp: good_def files_mounted_def umap_simps umap_contains_def)
    then show ?thesis
      using Some call True run erased_ok [OF ok] by (auto simp: umap_keys_erase umap_simps)
  next
    case False
    then show ?thesis
      using Some call umount_known [OF ok Some call] kept files after_call_files [of key l self w v]
      by (auto simp: good_def after_call_def keys umap_simps)
  qed
qed

lemma sample_unmount:
  "fs_unmount (mp_fs (sample_mount ''/vol'' flags)) (mp_self (sample_mount ''/vol'' flags)) () = (EOK, sample_fs, ())"
  by (simp add: sample_mount_def filesystem_lwext4_ops_def lwext4_unmount_def sample_api_def sample_fs_def lw_device_name_def)

theorem vfs_umount_correct_witness:
  "\<exists>v'. VirtualFS_umount ''/vol'' (sample_vfs 0) = Some (EOK, v') \<and> umap_keys (m_mounts v') = []"
proof -
  have "umap_keys (m_mounts (sample_vfs 0)) = [''/vol'']" by (simp add: sample_vfs_def umap_simps)
  then show ?thesis
    using vfs_umount_correct [OF sample_vfs_good [of 0], of "''/vol''"]
    by (auto simp: sample_vfs_key locker_new_def sample_unmount)
qed

text \<open>C16: Mounting and unmounting cancel: a volume that was mounted and unmounts itself without an error leaves
  the table of mount points, the descriptors and the lock as they were before the mount.\<close>

theorem vfs_mount_umount_roundtrip:
  assumes "good root_of v" "factories_ok root_of v" "VirtualFS_mount disk_name root fstype flags v = Some (EOK, v')"
    and "VirtualFS_umount (hd (umap_keys (m_mounts v'))) v' = Some (EOK, v'')"
  shows "m_mounts v'' = m_mounts v \<and> m_fd_container v'' = m_fd_container v \<and> m_mutex v'' = m_mutex v"
proof -
  obtain key l where m: "\<not> umap_contains key (m_mounts v)" "m_mounts v' = (key, l) # m_mounts v"
    and table: "same_table v v'"
    using mount_returns [OF assms(3)] by auto
  have ok: "vfs_ok root_of v'"
    using mount_good [OF assms(1-3)] by (simp add: good_def)
  have key: "hd (umap_keys (m_mounts v')) = key" "map_of (m_mounts v') key = Some l"
    by (simp_all add: m(2) umap_simps)
  obtain e self w where call: "fs_unmount (mp_fs (locker_value l)) (mp_self (locker_value l)) (world v') = (e, self, w)"
    by (metis surj_pair)
  have "v'' = v'\<lparr>m_mounts := umap_erase key (m_mounts v'), world := w\<rparr>"
    using assms(4) umount_known [OF ok key(2) call] unfolding key(1) by auto
  moreover have "umap_erase key (m_mounts v) = m_mounts v"
    using m(1) by (auto simp: umap_erase_def umap_contains_keys umap_keys_def filter_id_conv)
  ultimately show ?thesis
    using table by (simp add: m(2) same_table_def) (simp add: umap_erase_def)
qed

lemma sample_machine_fs:
  assumes "map_of (m_fs_factories sample_machine) n = Some (t, Some factory)"
  shows "fst (fst (factory disk flags w)) = filesystem_lwext4_ops sample_api"
  using assms
  by (auto simp: sample_machine_def get_fs_factory_def fs_type_eq_def ext4_type_def filesystem_factory_lwext4_def
      split: if_splits prod.splits)

theorem vfs_mount_umount_roundtrip_witness:
  "\<exists>v' v''. VirtualFS_mount ''disk0p0'' ''/vol'' [] 0 sample_machine = Some (EOK, v') \<and>
     VirtualFS_umount ''/vol'' v' = Some (EOK, v'') \<and> m_mounts v'' = m_mounts sample_machine"
proof -
  obtain v' where run: "VirtualFS_mount ''disk0p0'' ''/vol'' [] 0 sample_machine = Some (EOK, v')"
    using sample_mounting by blast
  obtain l n t factory disk w0 where m: "m_mounts v' = (''/vol'', l) # m_mounts sample_machine"
    "map_of (m_fs_factories sample_machine) n = Some (t, Some factory)"
    "mp_fs (locker_value l) = fst (fst (factory disk 0 w0))"
    using mount_returns [OF run] by auto
  have ok: "vfs_ok lw_root v'" using mount_good [OF sample_machine_good run] by (simp add: good_def)
  have "mp_fs (locker_value l) = filesystem_lwext4_ops sample_api" using m(3) sample_machine_fs [OF m(2)] by simp
  then obtain self where "fs_unmount (mp_fs (locker_value l)) (mp_self (locker_value l)) (world v') = (EOK, self, ())"
    by (auto simp: filesystem_lwext4_ops_def lwext4_unmount_def sample_api_def)
  then obtain v'' where un: "VirtualFS_umount ''/vol'' v' = Some (EOK, v'')"
    using umount_known [OF ok, of "''/vol''" l] by (auto simp: m(1))
  moreover have "hd (umap_keys (m_mounts v')) = ''/vol''" by (simp add: m(1) umap_simps)
  ultimately show ?thesis
    using vfs_mount_umount_roundtrip [OF sample_machine_good run, of v''] run by auto
qed

section \<open>Unmounting everything\<close>

text \<open>The calls \<open>umount_all\<close> makes, and their first error: the mount points in the order of the map, up to
  the first that fails.\<close>

fun unmount_calls :: "(string \<times> ('f, 'h, 'd, 'w) MountPoint locker) list \<Rightarrow> 'w \<Rightarrow> errno \<times> 'w" where
  "unmount_calls [] w = (EOK, w)"
| "unmount_calls ((key, l) # m) w =
     (case fs_unmount (mp_fs (locker_value l)) (mp_self (locker_value l)) w of (e, _, w) \<Rightarrow>
        if e \<noteq> EOK then (e, w) else unmount_calls m w)"

definition entries_of :: "string list \<Rightarrow> (string, 'a) unordered_map \<Rightarrow> (string \<times> 'a) list" where
  "entries_of keys m = List.map (\<lambda>k. (k, the (map_of m k))) keys"

lemma entries_of_keys: "umap_wf m \<Longrightarrow> entries_of (umap_keys m) m = m"
  by (auto simp: entries_of_def umap_keys_def umap_in_set intro!: map_idI)

lemma entries_of_modify: "key \<notin> set keys \<Longrightarrow> entries_of keys (umap_modify key f m) = entries_of keys m"
  by (auto simp: entries_of_def umap_simps)

lemma unmount_step:
  assumes ok: "vfs_ok root_of v" and l: "map_of (m_mounts v) key = Some l"
    and call: "fs_unmount (mp_fs (locker_value l)) (mp_self (locker_value l)) (world v) = (e, self, w)"
  shows "unmount_until_error (key # keys) v =
    (if e \<noteq> EOK then Some (e, after_call key l self w v) else unmount_until_error keys (after_call key l self w v))"
    "vfs_ok root_of (after_call key l self w v)"
proof -
  have mount: "mount_ok root_of key l" and wf: "umap_wf (m_mounts v)" using ok l vfs_okD by blast+
  then have unlocked: "\<not> locker_mutex l" by (simp add: mount_ok_def)
  have "rooted_filesystem (mp_fs (locker_value l)) root_of" using mount by (simp add: mount_ok_def)
  then have "root_of self = root_of (mp_self (locker_value l))"
    using keeps_rootD [OF rooted_filesystem.unmount_keeps call] by blast
  then show "vfs_ok root_of (after_call key l self w v)" using after_call_ok [OF ok l] by blast
  have "umap_modify key (\<lambda>l. l\<lparr>locker_value := (locker_value l)\<lparr>mp_self := self\<rparr>\<rparr>) (m_mounts v) =
      umap_modify key (\<lambda>_. l\<lparr>locker_value := (locker_value l)\<lparr>mp_self := self\<rparr>\<rparr>) (m_mounts v)"
    using wf l by (auto simp: umap_modify_def umap_in_set)
  then show "unmount_until_error (key # keys) v =
    (if e \<noteq> EOK then Some (e, after_call key l self w v) else unmount_until_error keys (after_call key l self w v))"
    using lock_unlock_id [OF wf l unlocked] call
    by (simp add: lock_mount_eq [OF l unlocked] Let_def run_method_def after_call_def)
qed

lemma unmount_until_error_eq:
  assumes "vfs_ok root_of v" "distinct keys" "set keys \<subseteq> set (umap_keys (m_mounts v))"
  shows "\<exists>m. unmount_until_error keys v = Some (fst (unmount_calls (entries_of keys (m_mounts v)) (world v)),
    v\<lparr>m_mounts := m, world := snd (unmount_calls (entries_of keys (m_mounts v)) (world v))\<rparr>)"
  using assms
proof (induction keys arbitrary: v)
  case Nil
  then show ?case by (auto simp: entries_of_def intro!: exI [of _ "m_mounts v"])
next
  case (Cons key keys)
  obtain l where l: "map_of (m_mounts v) key = Some l"
    using Cons.prems(3) by (auto simp: umap_contains_keys [symmetric] umap_contains_def)
  obtain e self w where call: "fs_unmount (mp_fs (locker_value l)) (mp_self (locker_value l)) (world v) = (e, self, w)"
    by (metis surj_pair)
  note step = unmount_step(1) [OF Cons.prems(1) l call, of keys] unmount_step(2) [OF Cons.prems(1) l call]
  let ?v = "after_call key l self w v"
  have same: "entries_of keys (m_mounts ?v) = entries_of keys (m_mounts v)"
    using Cons.prems(2) by (simp add: after_call_def entries_of_modify)
  have "entries_of (key # keys) (m_mounts v) = (key, l) # entries_of keys (m_mounts v)"
    using l by (simp add: entries_of_def)
  moreover have "\<exists>m. unmount_until_error keys ?v = Some (fst (unmount_calls (entries_of keys (m_mounts v)) w),
      v\<lparr>m_mounts := m, world := snd (unmount_calls (entries_of keys (m_mounts v)) w)\<rparr>)"
    using Cons.IH [OF step(2)] Cons.prems(2,3) by (simp add: same) (simp add: after_call_def umap_simps)
  ultimately show ?case using call unfolding step(1) by (auto simp: after_call_def)
qed

text \<open>C24: \<open>umount_all\<close> unmounts the file systems one after the other up to the first that reports an error,
  which is its result; but whatever was left mounted, the table is empty afterwards and the numbering of
  volumes starts again. Descriptors and locks are untouched.\<close>

theorem vfs_umount_all_correct:
  assumes "good root_of v"
  shows "VirtualFS_umount_all v = Some (fst (unmount_calls (m_mounts v) (world v)),
    v\<lparr>m_mounts := [], m_volume_index := 0, world := snd (unmount_calls (m_mounts v) (world v))\<rparr>)"
proof -
  let ?v = "v\<lparr>m_mutex := rm_lock (m_mutex v)\<rparr>"
  have ok: "vfs_ok root_of ?v" and wf: "umap_wf (m_mounts v)" using assms by (simp_all add: good_def vfs_ok_def)
  have "distinct (umap_keys (m_mounts ?v))" using wf by (simp add: umap_wf_def)
  from unmount_until_error_eq [OF ok this order_refl] obtain m where
    "unmount_until_error (umap_keys (m_mounts v)) ?v = Some (fst (unmount_calls (m_mounts v) (world v)),
      ?v\<lparr>m_mounts := m, world := snd (unmount_calls (m_mounts v) (world v))\<rparr>)"
    using entries_of_keys [OF wf] by auto
  then show ?thesis by (simp add: VirtualFS_umount_all_def lock_guard_def)
qed

theorem vfs_umount_all_correct_witness:
  "\<exists>v'. VirtualFS_umount_all (sample_vfs 0) = Some (EOK, v') \<and> m_mounts v' = []"
proof -
  have "unmount_calls (m_mounts (sample_vfs 0)) () = (EOK, ())"
    by (simp add: sample_vfs_def locker_new_def sample_unmount)
  then show ?thesis using vfs_umount_all_correct [OF sample_vfs_good [of 0]] by simp
qed

section \<open>Mounting everything\<close>

definition all_partitions :: "(string \<times> 'w Disk) list \<Rightarrow> ('w Disk \<times> MBRPartition) list" where
  "all_partitions disks = concat (List.map (\<lambda>(_, disk). List.map (Pair disk) (disk_partitions disk)) disks)"

lemma all_partitions_simps [simp]:
  "all_partitions [] = []"
  "all_partitions ((name, disk) # disks) = List.map (Pair disk) (disk_partitions disk) @ all_partitions disks"
  by (simp_all add: all_partitions_def)

text \<open>Every partition is tried once, in order, whatever became of those before it; \<open>rs\<close> are the results.\<close>

inductive all_tried :: "('w Disk \<times> MBRPartition) list \<Rightarrow> ('f, 'h, 'd, 'w) VirtualFS \<Rightarrow> errno list \<Rightarrow>
    ('f, 'h, 'd, 'w) VirtualFS \<Rightarrow> bool" where
  none: "all_tried [] v [] v"
| one: "VirtualFS_mount (get_name (Partition_device (Disk_as_device disk) p) (world v)) [] [] 0 v = Some (r, u) \<Longrightarrow>
    all_tried ps u rs v' \<Longrightarrow> all_tried ((disk, p) # ps) v (r # rs) v'"

inductive_simps all_tried_simps [simp]: "all_tried [] v rs v'" "all_tried (dp # ps) v rs v'"

lemma all_tried_append: "all_tried ps v rs u \<Longrightarrow> all_tried qs u rs' w \<Longrightarrow> all_tried (ps @ qs) v (rs @ rs') w"
  by (induction rule: all_tried.induct) (auto intro: all_tried.one)

definition first_error :: "errno list \<Rightarrow> errno" where
  "first_error rs = (case dropWhile (\<lambda>r. r = EOK) rs of [] \<Rightarrow> EOK | r # _ \<Rightarrow> r)"

lemma first_error_simps [simp]:
  "first_error [] = EOK" "first_error (r # rs) = (if r = EOK then first_error rs else r)"
  by (simp_all add: first_error_def)

lemma first_error_append: "first_error (rs @ rs') = (if first_error rs = EOK then first_error rs' else first_error rs)"
  by (induction rs) auto

lemma mount_partitions_tried:
  "mount_partitions disk ps ret v = Some (r, v') \<Longrightarrow>
    \<exists>rs. all_tried (List.map (Pair disk) ps) v rs v' \<and> r = first_error (ret # rs)"
proof (induction ps arbitrary: ret v)
  case (Cons p ps)
  obtain e u where u: "VirtualFS_mount (get_name (Partition_device (Disk_as_device disk) p) (world v)) [] [] 0 v = Some (e, u)"
    "mount_partitions disk ps (if ret = EOK then e else ret) u = Some (r, v')"
    using Cons.prems by (auto simp: bind_eq_Some_conv)
  obtain rs where "all_tried (List.map (Pair disk) ps) u rs v'" "r = first_error ((if ret = EOK then e else ret) # rs)"
    using Cons.IH [OF u(2)] by blast
  then show ?case using u(1) by (intro exI [of _ "e # rs"]) (auto intro: all_tried.one)
qed auto

lemma mount_disks_tried:
  "mount_disks disks ret v = Some (r, v') \<Longrightarrow> \<exists>rs. all_tried (all_partitions disks) v rs v' \<and> r = first_error (ret # rs)"
proof (induction disks arbitrary: ret v)
  case (Cons d disks)
  obtain name disk where d: "d = (name, disk)" by (cases d)
  obtain e u where u: "mount_partitions disk (disk_partitions disk) ret v = Some (e, u)" "mount_disks disks e u = Some (r, v')"
    using Cons.prems by (auto simp: d bind_eq_Some_conv)
  obtain rs where rs: "all_tried (List.map (Pair disk) (disk_partitions disk)) v rs u" "e = first_error (ret # rs)"
    using mount_partitions_tried [OF u(1)] by blast
  obtain rs' where "all_tried (all_partitions disks) u rs' v'" "r = first_error (e # rs')" using Cons.IH [OF u(2)] by blast
  then show ?case using all_tried_append [OF rs(1)] rs(2)
    by (intro exI [of _ "rs @ rs'"]) (auto simp: d first_error_append)
qed auto

text \<open>What trying does to the table: a volume for every success, the old ones as they were.\<close>

definition mounts_more :: "('f \<Rightarrow> string) \<Rightarrow> nat \<Rightarrow> ('f, 'h, 'd, 'w) VirtualFS \<Rightarrow> ('f, 'h, 'd, 'w) VirtualFS \<Rightarrow> bool" where
  "mounts_more root_of n v v' \<longleftrightarrow> good root_of v' \<and> factories_ok root_of v' \<and> same_table v v' \<and>
     length (m_mounts v') = length (m_mounts v) + n \<and>
     (\<forall>key l. map_of (m_mounts v) key = Some l \<longrightarrow> map_of (m_mounts v') key = Some l)"

lemma mounts_more_refl: "good root_of v \<Longrightarrow> factories_ok root_of v \<Longrightarrow> mounts_more root_of 0 v v"
  by (simp add: mounts_more_def same_table_def)

lemma mounts_more_trans: "mounts_more root_of m u v \<Longrightarrow> mounts_more root_of n v w \<Longrightarrow> mounts_more root_of (m + n) u w"
  by (auto simp: mounts_more_def same_table_def)

lemma mount_mounts_more:
  assumes "good root_of v" "factories_ok root_of v" "VirtualFS_mount disk_name root fstype flags v = Some (r, v')"
  shows "mounts_more root_of (if r = EOK then 1 else 0) v v'"
proof -
  have "good root_of v'" "factories_ok root_of v'" "same_table v v'"
    using mount_good [OF assms] mount_returns [OF assms(3)] assms(2) by (auto simp: same_table_def factories_ok_def)
  then show ?thesis
    using mount_returns [OF assms(3)] by (auto simp: mounts_more_def umap_contains_def)
qed

lemma all_tried_more:
  "all_tried ps v rs v' \<Longrightarrow> good root_of v \<Longrightarrow> factories_ok root_of v \<Longrightarrow>
    mounts_more root_of (length (filter (\<lambda>r. r = EOK) rs)) v v' \<and> length rs = length ps"
proof (induction rule: all_tried.induct)
  case (one disk p v r u ps rs v')
  note first = mount_mounts_more [OF one.prems one.hyps(1)]
  then have "mounts_more root_of (length (filter (\<lambda>r. r = EOK) rs)) u v' \<and> length rs = length ps"
    using one.IH by (simp add: mounts_more_def)
  then show ?case using mounts_more_trans [OF first] by auto
qed (simp add: mounts_more_refl)

text \<open>C25: Every \<open>mount_all\<close> that returns (in a good state, with factories of file systems that keep the contract): on
  a machine without disks it is \<open>ENOTBLK\<close> and changes nothing. Otherwise every partition of every disk has been
  tried once, in order and whatever became of those before it, with no root and no flags; the
  result is the first error, or success when there was none. Every attempt that succeeded has added one volume
  to the table, the volumes that were mounted before are as they were, descriptors and locks are untouched,
  and the state stays good.\<close>

theorem vfs_mount_all_correct:
  assumes "good root_of v" "factories_ok root_of v" "VirtualFS_mount_all v = Some (r, v')"
  shows "if m_disk_map (m_disk_mgr v) = [] then r = ENOTBLK \<and> v' = v
    else \<exists>rs. all_tried (all_partitions (m_disk_map (m_disk_mgr v))) (v\<lparr>m_mutex := rm_lock (m_mutex v)\<rparr>) rs
          (v'\<lparr>m_mutex := rm_lock (m_mutex v)\<rparr>) \<and>
      length rs = length (all_partitions (m_disk_map (m_disk_mgr v))) \<and> r = first_error rs \<and>
      length (m_mounts v') = length (m_mounts v) + length (filter (\<lambda>e. e = EOK) rs) \<and>
      (\<forall>key l. map_of (m_mounts v) key = Some l \<longrightarrow> map_of (m_mounts v') key = Some l) \<and>
      good root_of v' \<and> m_fd_container v' = m_fd_container v \<and> m_mutex v' = m_mutex v"
proof -
  let ?v = "v\<lparr>m_mutex := rm_lock (m_mutex v)\<rparr>"
  have g: "good root_of ?v" "factories_ok root_of ?v" using assms(1,2) by (auto simp: good_rm_lock factories_ok_def)
  show ?thesis
  proof (cases "m_disk_map (m_disk_mgr v) = []")
    case True
    then show ?thesis using assms(3) by (auto simp: VirtualFS_mount_all_def lock_guard_def DiskManager_size_def)
  next
    case False
    obtain u where u: "mount_disks (m_disk_map (m_disk_mgr v)) EOK ?v = Some (r, u)"
      "v' = u\<lparr>m_mutex := the (rm_unlock (m_mutex u))\<rparr>" "rm_unlock (m_mutex u) \<noteq> None"
      using assms(3) False by (auto simp: VirtualFS_mount_all_def lock_guard_def DiskManager_size_def bind_eq_Some_conv)
    obtain rs where rs: "all_tried (all_partitions (m_disk_map (m_disk_mgr v))) ?v rs u" "r = first_error rs"
      using mount_disks_tried [OF u(1)] by auto
    have more: "mounts_more root_of (length (filter (\<lambda>e. e = EOK) rs)) ?v u"
      "length rs = length (all_partitions (m_disk_map (m_disk_mgr v)))"
      using all_tried_more [OF rs(1) g] by simp_all
    have "m_mutex u = rm_lock (m_mutex v)" "m_mutex v' = m_mutex v"
      using more(1) u(2) by (simp_all add: mounts_more_def same_table_def)
    moreover from this have "v'\<lparr>m_mutex := rm_lock (m_mutex v)\<rparr> = u" using u(2) by simp
    then have "all_tried (all_partitions (m_disk_map (m_disk_mgr v))) ?v rs (v'\<lparr>m_mutex := rm_lock (m_mutex v)\<rparr>)"
      using rs(1) by simp
    moreover have "m_mounts v' = m_mounts u" "m_fd_container v' = m_fd_container u" "good root_of v'"
      using u(2) more(1) by (simp_all add: mounts_more_def good_rm_lock)
    ultimately show ?thesis using False rs(2) more by (auto simp: mounts_more_def same_table_def)
  qed
qed

text \<open>A disk with two partitions, the first of a type no registered file system handles: it fails, the other one
  is mounted nevertheless, and the error is reported.\<close>

definition sample_two_partitions :: "(unit filesystem_lwext4, nat, nat, unit) VirtualFS" where
  "sample_two_partitions = sample_machine\<lparr>m_disk_mgr := \<lparr>m_disk_map =
     [(''disk0'', \<lparr>disk_device = sample_device, disk_partitions = [sample_entry 1 2 0x07, (sample_entry 3 2 0x83)\<lparr>physical_number := 1\<rparr>]\<rparr>)]\<rparr>\<rparr>"

lemma sample_two_good: "good lw_root sample_two_partitions" "factories_ok lw_root sample_two_partitions"
  using sample_machine_good by (simp_all add: sample_two_partitions_def good_def vfs_ok_def files_mounted_def factories_ok_def)

lemma sample_two_first: "VirtualFS_mount ''disk0p0'' [] [] 0 (sample_two_partitions\<lparr>m_mutex := n\<rparr>) =
    Some (EINVAL, sample_two_partitions\<lparr>m_mutex := n\<rparr>)"
proof -
  have "split_disk_name ''disk0p0'' = Some (Some ''disk0'', Some 0)" by code_simp
  then have "fs_discovery ''disk0p0'' (sample_two_partitions\<lparr>m_mutex := k\<rparr>) = Some (Inl EINVAL)" for k
    by (simp add: fs_discovery_def sample_two_partitions_def sample_machine_def VirtualFS_new_def DiskManager_get_def
        borrow_partition_def get_fs_type_from_mbr_code_def sample_entry_def ext4_type_def)
  then show ?thesis by (simp add: VirtualFS_mount_def lock_guard_def)
qed

lemma sample_two_second: "\<exists>u. VirtualFS_mount ''disk0p1'' [] [] 0 (sample_two_partitions\<lparr>m_mutex := n\<rparr>) = Some (EOK, u)"
proof -
  have "split_disk_name ''disk0p1'' = Some (Some ''disk0'', Some 1)" by code_simp
  then have "fs_discovery ''disk0p1'' (sample_two_partitions\<lparr>m_mutex := k\<rparr>) =
      Some (Inr (ext4_type, Partition_device sample_device ((sample_entry 3 2 0x83)\<lparr>physical_number := 1\<rparr>)))" for k
    by (simp add: fs_discovery_def sample_two_partitions_def sample_machine_def VirtualFS_new_def DiskManager_get_def
        borrow_partition_def get_fs_type_from_mbr_code_def sample_entry_def ext4_type_def)
  then show ?thesis
    by (simp add: VirtualFS_mount_def lock_guard_def)
      (simp add: sample_two_partitions_def sample_machine_def VirtualFS_new_def get_fs_factory_def fs_type_eq_def ext4_type_def
        filesystem_factory_lwext4_def create_filesystem_lwext4_def sample_api_def choose_root_def umap_contains_def
        filesystem_lwext4_ops_def lwext4_mount_def lwext4_get_label_def Let_def)
qed

theorem vfs_mount_all_correct_witness:
  "\<exists>v'. VirtualFS_mount_all sample_two_partitions = Some (EINVAL, v') \<and> length (m_mounts v') = 1 \<and> good lw_root v'"
proof -
  let ?v = "sample_two_partitions\<lparr>m_mutex := rm_lock (m_mutex sample_two_partitions)\<rparr>"
  obtain u where u: "VirtualFS_mount ''disk0p1'' [] [] 0 ?v = Some (EOK, u)" using sample_two_second by blast
  have "m_mutex u = rm_lock 0"
    using mount_returns [OF u] by (auto simp: same_table_def sample_two_partitions_def sample_machine_def VirtualFS_new_def)
  have names: "create_partition_name ''disk0'' 0 = ''disk0p0''" "create_partition_name ''disk0'' (Suc 0) = ''disk0p1''"
    by code_simp+
  have disks: "m_disk_map (m_disk_mgr sample_two_partitions) = [(''disk0'', \<lparr>disk_device = sample_device,
      disk_partitions = [sample_entry 1 2 0x07, (sample_entry 3 2 0x83)\<lparr>physical_number := 1\<rparr>]\<rparr>)]"
    by (simp add: sample_two_partitions_def)
  have "mount_disks (m_disk_map (m_disk_mgr sample_two_partitions)) EOK ?v = Some (EINVAL, u)"
    using u by (simp add: disks Partition_device_def sample_device_def sample_entry_def names sample_two_first)
  then have run: "VirtualFS_mount_all sample_two_partitions = Some (EINVAL, u\<lparr>m_mutex := 0\<rparr>)"
    using \<open>m_mutex u = rm_lock 0\<close> by (simp add: VirtualFS_mount_all_def lock_guard_def DiskManager_size_def disks)
  have get: "get_name (Partition_device sample_device (sample_entry 1 2 7)) w = ''disk0p0''"
    "get_name (Partition_device sample_device ((sample_entry 3 2 131)\<lparr>physical_number := 1\<rparr>)) w = ''disk0p1''" for w
    by (simp_all add: Partition_device_def sample_device_def sample_entry_def names)
  have "m_mounts sample_two_partitions = []" "m_mutex sample_two_partitions = 0"
    by (simp_all add: sample_two_partitions_def sample_machine_def VirtualFS_new_def)
  then show ?thesis
    using vfs_mount_all_correct [OF sample_two_good run] run u by (auto simp: disks get sample_two_first)
qed

section \<open>Resolving a path\<close>

lemma occurs_in_iff: "occurs_in key path \<longleftrightarrow> (\<exists>p s. path = p @ key @ s)"
proof (induction path)
  case Nil
  then show ?case by auto
next
  case (Cons c cs)
  have "(take (length key) (c # cs) = key) \<longleftrightarrow> (\<exists>s. c # cs = key @ s)"
    by (metis append_eq_conv_conj append_take_drop_id)
  moreover have "(\<exists>p s. c # cs = p @ key @ s) \<longleftrightarrow> (\<exists>s. c # cs = key @ s) \<or> (\<exists>p s. cs = p @ key @ s)"
    by (auto simp: append_eq_Cons_conv Cons_eq_append_conv)
  ultimately show ?case using Cons.IH by simp
qed

text \<open>The lookup of a mount point finds one exactly when the root of some volume occurs in the path, at any
  position; when the path holds the root of one volume only, that volume is found.\<close>

theorem find_mount_point_correct:
  shows "(find_mount_point path m = None \<longleftrightarrow> (\<forall>key \<in> set (umap_keys m). \<forall>p s. path \<noteq> p @ key @ s)) \<and>
    (\<forall>key. find_mount_point path m = Some key \<longrightarrow> key \<in> set (umap_keys m) \<and> (\<exists>p s. path = p @ key @ s)) \<and>
    (\<forall>key \<in> set (umap_keys m). (\<forall>k \<in> set (umap_keys m). (\<exists>p s. path = p @ k @ s) \<longleftrightarrow> k = key) \<longrightarrow>
      find_mount_point path m = Some key)"
proof (intro conjI allI ballI impI)
  show none: "find_mount_point path m = None \<longleftrightarrow> (\<forall>key \<in> set (umap_keys m). \<forall>p s. path \<noteq> p @ key @ s)"
    by (auto simp: find_mount_point_none umap_contains_keys occurs_in_iff)
  show "key \<in> set (umap_keys m)" "\<exists>p s. path = p @ key @ s" if "find_mount_point path m = Some key" for key
    using find_mount_point_key [OF that] by (auto simp: umap_contains_keys occurs_in_iff)
  fix key assume key: "key \<in> set (umap_keys m)"
    and only: "\<forall>k \<in> set (umap_keys m). (\<exists>p s. path = p @ k @ s) \<longleftrightarrow> k = key"
  then have "find_mount_point path m \<noteq> None" using none by blast
  then obtain k where k: "find_mount_point path m = Some k" by blast
  then show "find_mount_point path m = Some key"
    using find_mount_point_key [OF k] only by (auto simp: umap_contains_keys occurs_in_iff)
qed

theorem find_mount_point_correct_witness:
  "find_mount_point ''/vol/a'' [(''/data'', ()), (''/vol'', ())] = Some ''/vol''"
proof -
  have only: "(\<exists>p s. ''/vol/a'' = p @ k @ s) \<longleftrightarrow> k = ''/vol''" if "k \<in> {''/data'', ''/vol''}" for k
    using that by (auto simp: occurs_in_iff [symmetric])
  then show ?thesis
    using find_mount_point_correct [of "''/vol/a''" "[(''/data'', ()), (''/vol'', ())]"] by (auto simp: umap_simps)
qed

text \<open>A root in the middle of a path counts: a file of \<open>/data\<close> is looked for on \<open>/vol\<close>.\<close>

lemma find_mount_point_in_the_middle:
  "find_mount_point ''/data/vol/a'' [(''/vol'', ()), (''/data'', ())] = Some ''/vol''"
  by simp

text \<open>C30: Only absolute paths are accepted, and what the operations see is canonical: the normal form is
  absolute again, stays as it is when it is normalised once more, and has no empty, \<open>.\<close> or \<open>..\<close> component.\<close>

theorem absolute_path_canonical:
  shows "(absolute_path path = Inl EINVAL \<longleftrightarrow> \<not> has_root_path path) \<and>
    (\<forall>abspath. absolute_path path = Inr abspath \<longrightarrow> has_root_path abspath \<and> absolute_path abspath = Inr abspath \<and>
      (\<forall>c \<in> set (components abspath). c \<noteq> [] \<and> c \<noteq> dot \<and> c \<noteq> dotdot))"
proof (intro conjI allI impI ballI)
  show "absolute_path path = Inl EINVAL \<longleftrightarrow> \<not> has_root_path path" by (simp add: absolute_path_def)
next
  fix abspath assume "absolute_path path = Inr abspath"
  then have root: "has_root_path path" and abspath: "abspath = lexically_normal path"
    by (simp_all add: absolute_path_def split: if_splits)
  show "has_root_path abspath" using root by (simp add: abspath has_root_path_normal)
  then show "absolute_path abspath = Inr abspath" by (simp add: absolute_path_def abspath lexically_normal_fixed)
  fix c assume "c \<in> set (components abspath)"
  then show "c \<noteq> []" "c \<noteq> dot" "c \<noteq> dotdot"
    using lexically_normal_absolute_components [OF root] by (auto simp: abspath)
qed

theorem absolute_path_canonical_witness:
  "absolute_path ''/a/./b/../c'' = Inr ''/a/c'' \<and> absolute_path ''/a/c'' = Inr ''/a/c''"
proof -
  have "absolute_path ''/a/./b/../c'' = Inr ''/a/c''" by code_simp
  then show ?thesis using absolute_path_canonical [of "''/a/./b/../c''"] by blast
qed

section \<open>Renaming\<close>

lemma root_path_absolute: "absolute_path path = Inr abspath \<Longrightarrow> root_path abspath = ''/''"
  by (auto simp: absolute_path_def root_path_def has_root_path_normal split: if_splits)

lemma locked_unless_read_only:
  assumes "vfs_ok root_of v" "map_of (m_mounts v) key = Some l"
    and "meth (mp_fs (locker_value l)) (mp_self (locker_value l)) (world v) = (r, self, w)"
  shows "do { (mp, v) \<leftarrow> lock_mount key v;
       if flags_test (mp_flags mp) read_only then Some (EACCES, unlock_mount key v)
       else do { let (r, v) = run_method key mp meth v; Some (r, unlock_mount key v) } } =
    (if flags_test (mp_flags (locker_value l)) read_only then Some (EACCES, v) else Some (r, after_call key l self w v))"
proof -
  have wf: "umap_wf (m_mounts v)" and "mount_ok root_of key l" using vfs_okD [OF assms(1)] assms(2) by blast+
  then have unlocked: "\<not> locker_mutex l" by (simp add: mount_ok_def)
  obtain r' u where run: "run_method key (locker_value l) meth
      (v\<lparr>m_mounts := umap_modify key (\<lambda>_. l\<lparr>locker_mutex := True\<rparr>) (m_mounts v)\<rparr>) = (r', u)" by fastforce
  then show ?thesis
    using run_and_unlock [OF unlocked run assms(3)] lock_unlock_id [OF wf assms(2) unlocked]
    by (simp add: lock_mount_eq [OF assms(2) unlocked])
qed

text \<open>C26: \<open>rename\<close> acts on the volume of the old name and on no other: unless that volume is read-only
  (\<open>EACCES\<close>, nothing called) its file system gets both normalised names, whatever volume the new one lies
  on; \<open>EXDEV\<close> is never the answer of the virtual file system itself.\<close>

theorem vfs_rename_correct:
  assumes "good root_of v" "absolute_path oldname = Inr a" "absolute_path newname = Inr b"
  shows "case find_mount_point a (m_mounts v) of None \<Rightarrow> VirtualFS_rename oldname newname v = Some (ENOENT, v)
    | Some key \<Rightarrow> \<exists>l. map_of (m_mounts v) key = Some l \<and>
        (if flags_test (mp_flags (locker_value l)) read_only then VirtualFS_rename oldname newname v = Some (EACCES, v)
         else case fs_rename (mp_fs (locker_value l)) a b (mp_self (locker_value l)) (world v) of (e, self, w) \<Rightarrow>
           \<exists>v'. VirtualFS_rename oldname newname v = Some (e, v') \<and> world v' = w \<and> good root_of v' \<and> kept v v' \<and>
             m_fd_container v' = m_fd_container v)"
proof -
  have names: "oldname \<noteq> []" "newname \<noteq> []" using assms(2,3) by (auto simp: absolute_path_def has_root_path_def)
  have ok: "vfs_ok root_of v" using assms(1) by (simp add: good_def)
  show ?thesis
  proof (cases "find_mount_point a (m_mounts v)")
    case None
    then show ?thesis
      using names assms(2,3) by (simp add: VirtualFS_rename_def invoke_fops_same_mp_def root_path_absolute)
  next
    case (Some key)
    then have "umap_contains key (m_mounts v)" using find_mount_point_key by blast
    then obtain l where l: "map_of (m_mounts v) key = Some l" "rooted_filesystem (mp_fs (locker_value l)) root_of"
      using vfs_ok_mount [OF ok] by metis
    obtain e self w where call: "fs_rename (mp_fs (locker_value l)) a b (mp_self (locker_value l)) (world v) = (e, self, w)"
      by (metis surj_pair)
    have "root_of self = root_of (mp_self (locker_value l))"
      using keeps_rootD [of root_of "fs_rename (mp_fs (locker_value l)) a b", OF _ call]
        rooted_filesystem.path_keeps [OF l(2)] by blast
    then have "good root_of (after_call key l self w v)"
      using after_call_ok [OF ok l(1)] assms(1) after_call_files [of key l self w v] by (simp add: good_def)
    moreover have "VirtualFS_rename oldname newname v =
        (if flags_test (mp_flags (locker_value l)) read_only then Some (EACCES, v) else Some (e, after_call key l self w v))"
      using names assms(2,3) Some locked_unless_read_only [OF ok l(1), of "\<lambda>fs. fs_rename fs a b", OF call]
      by (simp add: VirtualFS_rename_def invoke_fops_same_mp_def root_path_absolute)
    ultimately show ?thesis using Some l(1) call by simp
  qed
qed

lemma sample_rename_abs: "absolute_path ''/vol/a'' = Inr ''/vol/a''" "absolute_path ''/b'' = Inr ''/b''"
  by code_simp+

theorem vfs_rename_correct_witness:
  "VirtualFS_rename ''/vol/a'' ''/b'' (sample_vfs 1) = Some (EACCES, sample_vfs 1)"
  using vfs_rename_correct [OF sample_vfs_good [of 1] sample_rename_abs]
  by (simp add: sample_vfs_key flags_test_def locker_new_def sample_mount_def)

section \<open>Statistics\<close>

text \<open>The statistics of a volume agree with what its file system reports and with its mount: used and
  free space add up to the size of the volume, the root and the flags are those of the mount, and a path on
  no volume is \<open>ENOENT\<close>.\<close>

theorem vfs_stat_parts_of_correct:
  assumes "good root_of v" "find_mount_point path (m_mounts v) = Some key" "map_of (m_mounts v) key = Some l"
    and "fs_stat_vfs (mp_fs (locker_value l)) key statvfs_zero (mp_self (locker_value l)) (world v) = ((e, sv), self, w)"
  shows "\<exists>ps v'. VirtualFS_stat_parts_of path v = Some (Inr ps, v') \<and> ps_mount_point ps = key \<and>
    ps_flags ps = mp_flags (locker_value l) \<and> ps_type ps = type_name (mp_type (locker_value l)) \<and>
    ps_free_space ps = f_bfree sv * f_bsize sv \<and> ps_used_space ps + ps_free_space ps = f_blocks sv * f_frsize sv \<and>
    world v' = w \<and> good root_of v'"
proof -
  have ok: "vfs_ok root_of v" using assms(1) by (simp add: good_def)
  have mount: "mount_ok root_of key l" using vfs_okD(3) [OF ok assms(3)] .
  then have unlocked: "\<not> locker_mutex l" and root: "mp_root (locker_value l) = key"
    and rooted: "rooted_filesystem (mp_fs (locker_value l)) root_of" by (simp_all add: mount_ok_def)
  let ?v = "v\<lparr>m_mounts := umap_modify key (\<lambda>_. l\<lparr>locker_mutex := True\<rparr>) (m_mounts v)\<rparr>"
  obtain r u where run: "run_method key (locker_value l) (\<lambda>fs. fs_stat_vfs fs (mp_root (locker_value l)) statvfs_zero) ?v = (r, u)"
    by fastforce
  have after: "r = (e, sv)" "unlock_mount key u = after_call key l self w v"
    using run_and_unlock [OF unlocked run] assms(4) by (simp_all add: root)
  have "root_of self = root_of (mp_self (locker_value l))"
    using keeps_rootD [of root_of "fs_stat_vfs (mp_fs (locker_value l)) key statvfs_zero", OF _ assms(4)]
      rooted_filesystem.path_keeps [OF rooted] by blast
  then have "good root_of (unlock_mount key u)" "world (unlock_mount key u) = w"
    using after_call_ok [OF ok assms(3)] assms(1) after_call_files [of key l self w v] by (simp_all add: after good_def)
  then show ?thesis
    using assms(2) run after(1)
    by (simp add: VirtualFS_stat_parts_of_def lock_mount_eq [OF assms(3) unlocked] get_mount_point_stats_def Let_def root)
qed

lemma unit_result: "\<exists>e sv self. (x :: ('a \<times> 'b) \<times> 'c \<times> unit) = ((e, sv), self, ())"
  by (cases x) auto

theorem vfs_stat_parts_of_correct_witness:
  "\<exists>ps v'. VirtualFS_stat_parts_of ''/vol/a'' (sample_vfs 0) = Some (Inr ps, v') \<and> ps_mount_point ps = ''/vol''"
proof -
  let ?call = "fs_stat_vfs (mp_fs (locker_value (locker_new (sample_mount ''/vol'' 0)))) ''/vol'' statvfs_zero
     (mp_self (locker_value (locker_new (sample_mount ''/vol'' 0)))) (world (sample_vfs 0))"
  obtain e sv self where call: "?call = ((e, sv), self, ())"
    using unit_result [of ?call] by (elim exE)
  show ?thesis using vfs_stat_parts_of_correct [OF sample_vfs_good [of 0] sample_vfs_key call] by blast
qed

section \<open>Names of partitions\<close>

lemma char_of_digit: "n < 10 \<Longrightarrow> digit_value (char_of (48 + n)) = Some n"
  by (simp add: digit_value_def)

lemma digits_value_app:
  "\<forall>c \<in> set s. digit_value c \<noteq> None \<Longrightarrow> digits_value acc (s @ t) = digits_value (digits_value acc s) t"
  by (induction s arbitrary: acc) auto

lemma to_string_digits: "\<forall>c \<in> set (to_string n). digit_value c \<noteq> None"
proof (induction n rule: to_string.induct)
  case (1 n)
  show ?case
  proof (cases "n < 10")
    case True
    then show ?thesis using char_of_digit by (simp add: to_string.simps [of n])
  next
    case False
    then show ?thesis using 1 by (simp add: to_string.simps [of n] ball_Un)
  qed
qed

lemma to_string_not_empty: "to_string n \<noteq> []"
  by (induction n rule: to_string.induct) (simp add: to_string.simps)

lemma digits_value_to_string: "\<exists>k. \<forall>acc. digits_value acc (to_string n) = acc * 10 ^ k + n"
proof (induction n rule: to_string.induct)
  case (1 n)
  show ?case
  proof (cases "n < 10")
    case True
    then have "digits_value acc (to_string n) = acc * 10 ^ 1 + n" for acc
      using char_of_digit by (simp add: to_string.simps [of n])
    then show ?thesis by blast
  next
    case False
    obtain k j where k: "\<And>acc. digits_value acc (to_string (n div 10)) = acc * 10 ^ k + n div 10"
      "\<And>acc. digits_value acc (to_string (n mod 10)) = acc * 10 ^ j + n mod 10"
      using 1 False by blast
    have "to_string (n mod 10) = [char_of (48 + n mod 10)]" by (simp add: to_string.simps [of "n mod 10"])
    then have last: "digits_value acc (to_string (n mod 10)) = acc * 10 + n mod 10" for acc
      using char_of_digit [of "n mod 10"] by simp
    have "digits_value acc (to_string n) = acc * 10 ^ (k + 1) + n" for acc
      using False digits_value_app [OF to_string_digits, of acc "n div 10" "to_string (n mod 10)"]
      by (simp add: to_string.simps [of n] k(1) last algebra_simps)
    then show ?thesis by blast
  qed
qed

lemma digit_not_space: "digit_value c \<noteq> None \<Longrightarrow> \<not> is_space c \<and> c \<noteq> CHR 0x2D \<and> c \<noteq> CHR 0x2B"
  by (auto simp: digit_value_def is_space_def)

lemma stoi_to_string:
  assumes "int n \<le> INT_MAX"
  shows "stoi (to_string n) = Some (int n)"
proof -
  obtain c cs where s: "to_string n = c # cs" using to_string_not_empty [of n] by (cases "to_string n") auto
  have digit: "digit_value c \<noteq> None" using to_string_digits [of n] by (simp add: s)
  have drop: "dropWhile is_space (c # cs) = c # cs" using digit_not_space [OF digit] by simp
  obtain k where "digits_value 0 (to_string n) = 0 * 10 ^ k + n" using digits_value_to_string [of n] by blast
  then have "digits_value 0 (c # cs) = n" by (simp add: s)
  then show ?thesis
    unfolding stoi_def Let_def s drop using digit digit_not_space [OF digit] assms
    by (simp add: INT_MAX_def del: digits_value.simps)
qed

text \<open>C36: The name a partition gives itself leads back to it: as long as the name of the disk has no \<open>p\<close>, the
  name of partition \<open>n\<close> splits into the disk and the number.\<close>

theorem split_disk_name_roundtrip:
  assumes "CHR ''p'' \<notin> set disk" "n < 256"
  shows "split_disk_name (create_partition_name disk n) = Some (Some disk, Some (of_nat n))"
proof -
  have "dropWhile (\<lambda>c. c \<noteq> CHR ''p'') (disk @ CHR ''p'' # rest) = CHR ''p'' # rest"
    "takeWhile (\<lambda>c. c \<noteq> CHR ''p'') (disk @ CHR ''p'' # rest) = disk" for rest
    using assms(1) by (induction disk) auto
  then show ?thesis
    using stoi_to_string [of n] assms(2) by (simp add: split_disk_name_def create_partition_name_def INT_MAX_def)
qed

theorem split_disk_name_roundtrip_witness:
  "split_disk_name (create_partition_name ''disk0'' 12) = Some (Some ''disk0'', Some 12)"
  using split_disk_name_roundtrip [of "''disk0''" 12] by simp

text \<open>A disk whose name has a \<open>p\<close> (\<open>spi0\<close>) is split inside its name and the conversion of the rest throws;
  a number above 255 is narrowed.\<close>

lemma split_disk_name_divergences:
  "split_disk_name (create_partition_name ''spi0'' 0) = None" "split_disk_name ''disk0p256'' = Some (Some ''disk0'', Some 0)"
  by code_simp+

section \<open>Files that outlive their volume\<close>

lemma invoke_fops_fd_unmounted:
  assumes "fd_handle fd (m_fd_container v) = Some fil" "\<not> umap_contains (file_root fil) (m_mounts v)"
  shows "invoke_fops_fd m t fd v = None"
proof -
  have "fd_exist fd (m_fd_container v)" using assms(1) by (auto simp: fd_exist_handle)
  then show ?thesis
    using assms by (simp add: invoke_fops_fd_def call_locked_def lock_mount_def umap_contains_def FileHandle_get_root_def)
qed

lemma std_descriptor_unknown:
  assumes "container_ok (m_fd_container v)" "k < 3"
  shows "invoke_fops_fd m t k v = Some (t EBADF, v)"
  using container_okD(9) [OF assms(1), of k] assms(2) by (intro invoke_fops_fd_unknown) auto

text \<open>A descriptor that is still open when its volume is unmounted cannot be used again: closing it, or
  any other operation on it, looks the volume up with \<open>at\<close>, whose exception ends the program.\<close>

theorem vfs_descriptor_outlives_volume:
  assumes "fd_handle fd (m_fd_container v) = Some fil" "\<not> umap_contains (file_root fil) (m_mounts v)" "3 \<le> fd"
  shows "VirtualFS_close fd v = None \<and> VirtualFS_write fd data v = None \<and> VirtualFS_read fd buf v = None \<and>
    VirtualFS_lseek fd pos dir v = None \<and> VirtualFS_fsync fd v = None \<and> VirtualFS_fstat fd st v = None"
proof -
  have "fd_exist fd (m_fd_container v)" using assms(1) by (auto simp: fd_exist_handle)
  then show ?thesis
    using assms
    by (simp add: invoke_fops_fd_unmounted VirtualFS_close_def lock_guard_def VirtualFS_write_def invoke_stdstream_out_def VirtualFS_read_def
        invoke_stdstream_in_def VirtualFS_lseek_def VirtualFS_fsync_def VirtualFS_fstat_def)
qed

theorem vfs_descriptor_outlives_volume_witness:
  "VirtualFS_close 3 (sample_open_vfs\<lparr>m_mounts := []\<rparr>) = None"
  using vfs_descriptor_outlives_volume [of 3 "sample_open_vfs\<lparr>m_mounts := []\<rparr>"] sample_open_vfs_simps(2)
  by (simp add: umap_contains_def)

section \<open>The standard streams\<close>

text \<open>The descriptors 0, 1 and 2 go to the standard streams and touch no file system: bytes written to 1
  and 2 go to \<open>out\<close> and \<open>err\<close>, 0 is read from \<open>in\<close>; when a stream refuses, and when 0 is written or 1 and 2
  are read, the answer is \<open>EBADF\<close>.\<close>

theorem vfs_std_streams:
  assumes "container_ok (m_fd_container v)"
  shows "VirtualFS_write 1 data v = (case std_out (m_stdstream v) data (world v) of
      (Inr n, w) \<Rightarrow> Some (Inr n, v\<lparr>world := w\<rparr>) | (Inl _, w) \<Rightarrow> Some (Inl EBADF, v\<lparr>world := w\<rparr>)) \<and>
    VirtualFS_write 2 data v = (case std_err (m_stdstream v) data (world v) of
      (Inr n, w) \<Rightarrow> Some (Inr n, v\<lparr>world := w\<rparr>) | (Inl _, w) \<Rightarrow> Some (Inl EBADF, v\<lparr>world := w\<rparr>)) \<and>
    VirtualFS_read 0 buf v = (case std_in (m_stdstream v) buf (world v) of
      ((Inr n, b), w) \<Rightarrow> Some ((Inr n, b), v\<lparr>world := w\<rparr>) | ((Inl _, b), w) \<Rightarrow> Some ((Inl EBADF, b), v\<lparr>world := w\<rparr>)) \<and>
    VirtualFS_write 0 data v = Some (Inl EBADF, v) \<and> VirtualFS_read 1 buf v = Some ((Inl EBADF, buf), v)"
  using assms
  by (auto simp: VirtualFS_write_def VirtualFS_read_def invoke_stdstream_out_def invoke_stdstream_in_def
      std_descriptor_unknown split: prod.split sum.split)

theorem vfs_std_streams_witness:
  "VirtualFS_write 0 [65] (sample_vfs 0) = Some (Inl EBADF, sample_vfs 0)"
proof -
  have "container_ok (m_fd_container (sample_vfs 0))"
    using sample_vfs_good [of 0] by (simp add: good_def vfs_ok_def)
  then show ?thesis using vfs_std_streams by blast
qed

end
