(* ===== verification/Vfs_Locks.thy ===== *)
theory Vfs_Locks
  imports Prelude
begin

text \<open>
  Several threads in the virtual file system: the mutexes the operations of \<open>VirtualFS\<close> (\<open>lib/common/vfs.cpp\<close>),
  of \<open>Disk\<close> and of \<open>DiskManager\<close> take, in the order of the code, and between them the accesses to the table of
  open files and to the table of mount points, the uses of a handle by reference after \<open>m_mutex\<close> was given back,
  and the times the code of a volume's file system runs. The other theories follow one thread and say what an
  operation computes; this one follows the operations of any number of threads, interleaved event by event,
  and says when they wait. The calls a file system makes to its device are \<open>io\<close>: the names of the disks
  whose mutex is taken and released, in turn (\<open>lib/common/disk.cpp\<close>).
\<close>

section \<open>Events\<close>

datatype mutex = Vfs_mutex | Mount_mutex string | Registry_mutex | Disk_mutex string

datatype event = Acquire mutex | Release mutex | Access_files | Use_handle | Read_mounts | Write_mounts
  | Call_fs string

type_synonym io = "string list"

definition io_trace :: "io \<Rightarrow> event list" where
  "io_trace ds = concat (map (\<lambda>d. [Acquire (Disk_mutex d), Release (Disk_mutex d)]) ds)"

text \<open>A call of the file system of a volume: its code runs before and after every access to the device.\<close>

definition fs_trace :: "string \<Rightarrow> io \<Rightarrow> event list" where
  "fs_trace key ds = Call_fs key # concat (map (\<lambda>d. [Acquire (Disk_mutex d), Release (Disk_mutex d), Call_fs key]) ds)"

definition locked_trace :: "string \<Rightarrow> event list \<Rightarrow> event list" where
  "locked_trace key es = Acquire (Mount_mutex key) # es @ [Release (Mount_mutex key)]"

definition guard_trace :: "event list \<Rightarrow> event list" where
  "guard_trace es = Acquire Vfs_mutex # es @ [Release Vfs_mutex]"

section \<open>The operations\<close>

text \<open>A call that is refused before it looks anything up (an empty or relative path) or that goes to a standard
  stream has no events and is left out. An operation on a descriptor: \<open>None\<close> when it is not open. \<open>m_mutex\<close> is
  given back with a reference to the handle in hand: its root is read, the table of mount points is read, and
  the file system works on the handle, all without \<open>m_mutex\<close>.\<close>

definition fops_fd_trace :: "(string \<times> io) option \<Rightarrow> event list" where
  "fops_fd_trace target = Acquire Vfs_mutex # Access_files # (case target of
       None \<Rightarrow> [Release Vfs_mutex]
     | Some (key, ds) \<Rightarrow> Access_files # Release Vfs_mutex # Use_handle # Read_mounts #
         locked_trace key (Use_handle # fs_trace key ds @ [Use_handle]))"

text \<open>An operation on a path: \<open>None\<close> when no volume is found. The same for two paths (\<open>rename\<close>).\<close>

definition fops_path_trace :: "(string \<times> io) option \<Rightarrow> event list" where
  "fops_path_trace target = Read_mounts # (case target of None \<Rightarrow> [] | Some (key, ds) \<Rightarrow> locked_trace key (fs_trace key ds))"

definition dirops_trace :: "string \<Rightarrow> io \<Rightarrow> event list" where
  "dirops_trace key ds = Read_mounts # locked_trace key (fs_trace key ds)"

text \<open>\<open>open\<close>: the volume, the device accesses and whether a descriptor is handed out.\<close>

definition open_trace :: "(string \<times> io \<times> bool) option \<Rightarrow> event list" where
  "open_trace target = guard_trace (Read_mounts # (case target of None \<Rightarrow> []
     | Some (key, ds, opened) \<Rightarrow> locked_trace key (fs_trace key ds @ (if opened then [Access_files] else []))))"

text \<open>\<open>close\<close>: the volume of the descriptor and the target of the delayed unlink.\<close>

definition close_trace :: "(string \<times> io \<times> (string \<times> io) option option) option \<Rightarrow> event list" where
  "close_trace target = guard_trace (Access_files # (case target of None \<Rightarrow> []
     | Some (key, ds, unlink) \<Rightarrow> fops_fd_trace (Some (key, ds)) @ Access_files #
         (case unlink of None \<Rightarrow> [] | Some path \<Rightarrow> fops_path_trace path)))"

definition unlink_trace :: "(string \<times> io) option option \<Rightarrow> event list" where
  "unlink_trace target = guard_trace (Access_files # (case target of None \<Rightarrow> [Access_files] | Some path \<Rightarrow> fops_path_trace path))"

text \<open>\<open>mount\<close>: the accesses while the volume is looked up, created and labelled; when its root is free, the
  accesses of the file system's \<open>mount\<close> and whether that succeeds.\<close>

definition mount_trace :: "io \<times> (io \<times> bool) option option \<Rightarrow> event list" where
  "mount_trace m = guard_trace (io_trace (fst m) @ (case snd m of None \<Rightarrow> [] | Some found \<Rightarrow> Read_mounts #
     (case found of None \<Rightarrow> [] | Some (ds, ok) \<Rightarrow> io_trace ds @ (if ok then [Write_mounts] else []))))"

definition mount_all_trace :: "(string \<times> io \<times> (io \<times> bool) option option) list \<Rightarrow> event list" where
  "mount_all_trace ps = guard_trace (concat (map (\<lambda>(disk, m). io_trace [disk] @ mount_trace m) ps))"

definition umount_trace :: "(string \<times> io \<times> bool) option \<Rightarrow> event list" where
  "umount_trace target = guard_trace (Read_mounts # (case target of None \<Rightarrow> []
     | Some (key, ds, ok) \<Rightarrow> locked_trace key (fs_trace key ds) @ (if ok then [Write_mounts] else [])))"

text \<open>\<open>umount_all\<close> gives the lock of a volume back before it unmounts it.\<close>

definition umount_all_trace :: "(string \<times> io) list \<Rightarrow> event list" where
  "umount_all_trace ms = guard_trace (concat (map (\<lambda>(key, ds). Read_mounts # locked_trace key [] @ fs_trace key ds) ms) @
     [Write_mounts])"

definition get_roots_trace :: "event list" where
  "get_roots_trace = guard_trace [Read_mounts]"

definition stat_parts_trace :: "(string \<times> io) list \<Rightarrow> event list" where
  "stat_parts_trace ms = concat (map (\<lambda>(key, ds). Read_mounts # locked_trace key (fs_trace key ds)) ms)"

definition register_filesystem_trace :: "event list" where
  "register_filesystem_trace = guard_trace []"

definition register_device_trace :: "io \<Rightarrow> event list" where
  "register_device_trace ds = Acquire Registry_mutex # io_trace ds @ [Release Registry_mutex]"

text \<open>The destructor: \<open>cleanup_opened_files\<close> walks the open files without \<open>m_mutex\<close>, calls the operation on every
  descriptor of a path and, when the path is marked, the one on the path; then \<open>umount_all\<close>.\<close>

definition cleanup_trace :: "((string \<times> io) option list \<times> (string \<times> io) option option) list \<Rightarrow> event list" where
  "cleanup_trace es = Access_files # concat (map (\<lambda>(fds, unlink).
     concat (map (\<lambda>fd. Access_files # fops_fd_trace fd) fds) @ Access_files #
       (case unlink of None \<Rightarrow> [] | Some path \<Rightarrow> fops_path_trace path)) es)"

definition destroy_trace :: "((string \<times> io) option list \<times> (string \<times> io) option option) list \<Rightarrow>
    (string \<times> io) list \<Rightarrow> event list" where
  "destroy_trace es ms = cleanup_trace es @ umount_all_trace ms"

datatype vfs_call = Descriptor_call "(string \<times> io) option" | Path_call "(string \<times> io) option" | Dir_call string io
  | Open_call "(string \<times> io \<times> bool) option" | Close_call "(string \<times> io \<times> (string \<times> io) option option) option"
  | Unlink_call "(string \<times> io) option option" | Mount_call "io \<times> (io \<times> bool) option option"
  | Mount_all_call "(string \<times> io \<times> (io \<times> bool) option option) list" | Umount_call "(string \<times> io \<times> bool) option"
  | Umount_all_call "(string \<times> io) list" | Get_roots_call | Stat_parts_call "(string \<times> io) list"
  | Register_filesystem_call | Register_device_call io
  | Destroy_call "((string \<times> io) option list \<times> (string \<times> io) option option) list" "(string \<times> io) list"

fun trace :: "vfs_call \<Rightarrow> event list" where
  "trace (Descriptor_call t) = fops_fd_trace t"
| "trace (Path_call t) = fops_path_trace t"
| "trace (Dir_call key ds) = dirops_trace key ds"
| "trace (Open_call t) = open_trace t"
| "trace (Close_call t) = close_trace t"
| "trace (Unlink_call t) = unlink_trace t"
| "trace (Mount_call m) = mount_trace m"
| "trace (Mount_all_call ps) = mount_all_trace ps"
| "trace (Umount_call t) = umount_trace t"
| "trace (Umount_all_call ms) = umount_all_trace ms"
| "trace Get_roots_call = get_roots_trace"
| "trace (Stat_parts_call ms) = stat_parts_trace ms"
| "trace Register_filesystem_call = register_filesystem_trace"
| "trace (Register_device_call ds) = register_device_trace ds"
| "trace (Destroy_call es ms) = destroy_trace es ms"

section \<open>Threads\<close>

record thread =
  held :: "mutex list"
  todo :: "event list"

text \<open>A thread takes a mutex that no thread holds; \<open>m_mutex\<close> is recursive, so its owner may take it again.\<close>

definition can_run :: "thread list \<Rightarrow> nat \<Rightarrow> bool" where
  "can_run ts i = (case todo (ts ! i) of [] \<Rightarrow> False
     | Acquire l # es \<Rightarrow> list_all (\<lambda>j. l \<in> set (held (ts ! j)) \<longrightarrow> j = i \<and> l = Vfs_mutex) [0..<length ts]
     | Release l # es \<Rightarrow> l \<in> set (held (ts ! i))
     | _ \<Rightarrow> True)"

definition run_event :: "event \<Rightarrow> mutex list \<Rightarrow> mutex list" where
  "run_event e hs = (case e of Acquire l \<Rightarrow> l # hs | Release l \<Rightarrow> remove1 l hs | _ \<Rightarrow> hs)"

definition run_thread :: "thread \<Rightarrow> thread" where
  "run_thread t = t\<lparr>held := run_event (hd (todo t)) (held t), todo := tl (todo t)\<rparr>"

inductive step :: "thread list \<Rightarrow> thread list \<Rightarrow> bool" where
  "i < length ts \<Longrightarrow> can_run ts i \<Longrightarrow> step ts (ts[i := run_thread (ts ! i)])"

inductive reachable :: "thread list \<Rightarrow> thread list \<Rightarrow> bool" for start where
  reachable_start: "reachable start start"
| reachable_step: "reachable start ts \<Longrightarrow> step ts ts' \<Longrightarrow> reachable start ts'"

definition start_threads :: "vfs_call list list \<Rightarrow> thread list" where
  "start_threads programs = map (\<lambda>calls. \<lparr>held = [], todo = concat (map trace calls)\<rparr>) programs"

definition finished :: "thread list \<Rightarrow> bool" where
  "finished ts = list_all (\<lambda>t. todo t = []) ts"

definition work_left :: "thread list \<Rightarrow> nat" where
  "work_left ts = sum_list (map (length \<circ> todo) ts)"

section \<open>The order of the mutexes\<close>

fun rank :: "mutex \<Rightarrow> nat" where
  "rank Vfs_mutex = 0"
| "rank (Mount_mutex _) = 1"
| "rank Registry_mutex = 2"
| "rank (Disk_mutex _) = 3"

text \<open>What keeps to the order: a mutex is taken above everything held (\<open>m_mutex\<close> again, too), and one that is
  given back is held.\<close>

definition in_order :: "event \<Rightarrow> mutex list \<Rightarrow> bool" where
  "in_order e hs = (case e of
       Acquire l \<Rightarrow> (\<forall>h \<in> set hs. rank h < rank l \<or> h = Vfs_mutex \<and> l = Vfs_mutex)
     | Release l \<Rightarrow> l \<in> set hs
     | _ \<Rightarrow> True)"

text \<open>The mutex an access belongs under: \<open>m_mutex\<close> for the open files and for writes to the mount points, the
  mutex of the mount point for its file system.\<close>

definition covered :: "event \<Rightarrow> mutex list \<Rightarrow> bool" where
  "covered e hs = (case e of
       Access_files \<Rightarrow> Vfs_mutex \<in> set hs
     | Write_mounts \<Rightarrow> Vfs_mutex \<in> set hs
     | Call_fs key \<Rightarrow> Mount_mutex key \<in> set hs
     | _ \<Rightarrow> True)"

text \<open>Of the events in \<open>W\<close> it is asked that they are covered.\<close>

definition allowed :: "event set \<Rightarrow> event \<Rightarrow> mutex list \<Rightarrow> bool" where
  "allowed W e hs = (in_order e hs \<and> (e \<in> W \<longrightarrow> covered e hs))"

fun discipline :: "event set \<Rightarrow> mutex list \<Rightarrow> event list \<Rightarrow> mutex list option" where
  "discipline W hs [] = Some hs"
| "discipline W hs (e # es) = (if allowed W e hs then discipline W (run_event e hs) es else None)"

text \<open>The destructor looks at the open files, and \<open>umount_all\<close> calls the file systems, without the mutex.\<close>

fun covers :: "event set \<Rightarrow> vfs_call \<Rightarrow> bool" where
  "covers W (Destroy_call _ _) = (W = {})"
| "covers W (Umount_all_call _) = (\<forall>key. Call_fs key \<notin> W)"
| "covers W _ = True"

lemma covers_nothing: "covers {} c"
  by (cases c) auto

lemma discipline_append: "discipline W hs (es @ fs) = Option.bind (discipline W hs es) (\<lambda>hs. discipline W hs fs)"
  by (induction es arbitrary: hs) auto

lemma discipline_concat:
  "(\<And>x. x \<in> set xs \<Longrightarrow> discipline W hs (f x) = Some hs) \<Longrightarrow> discipline W hs (concat (map f xs)) = Some hs"
  by (induction xs) (auto simp: discipline_append)

lemmas event_simps = allowed_def in_order_def covered_def run_event_def

lemma discipline_io: "\<forall>h \<in> set hs. rank h < 3 \<Longrightarrow> discipline W hs (io_trace ds) = Some hs"
  unfolding io_trace_def by (rule discipline_concat) (auto simp: event_simps)

lemma discipline_fs:
  "\<forall>h \<in> set hs. rank h < 3 \<Longrightarrow> Mount_mutex key \<in> set hs \<or> Call_fs key \<notin> W \<Longrightarrow> discipline W hs (fs_trace key ds) = Some hs"
  unfolding fs_trace_def by (auto simp: event_simps intro!: discipline_concat)

lemma discipline_locked:
  assumes "set hs \<subseteq> {Vfs_mutex}" "discipline W (Mount_mutex key # hs) es = Some (Mount_mutex key # hs)"
  shows "discipline W hs (locked_trace key es) = Some hs"
  using assms by (auto simp: locked_trace_def discipline_append event_simps)

lemma discipline_guard:
  assumes "set hs \<subseteq> {Vfs_mutex}" "discipline W (Vfs_mutex # hs) es = Some (Vfs_mutex # hs)"
  shows "discipline W hs (guard_trace es) = Some hs"
  using assms by (auto simp: guard_trace_def discipline_append event_simps)

lemma discipline_fs_locked:
  "set hs \<subseteq> {Vfs_mutex} \<Longrightarrow> discipline W (Mount_mutex key # hs) (fs_trace key ds) = Some (Mount_mutex key # hs)"
  by (rule discipline_fs) (auto dest!: subsetD)

lemma discipline_locked_fs: "set hs \<subseteq> {Vfs_mutex} \<Longrightarrow> discipline W hs (locked_trace key (fs_trace key ds)) = Some hs"
  by (intro discipline_locked discipline_fs_locked)

lemma discipline_io_below: "set hs \<subseteq> {Vfs_mutex} \<Longrightarrow> discipline W hs (io_trace ds) = Some hs"
  by (rule discipline_io) (auto dest!: subsetD)

lemma discipline_fops_path: "set hs \<subseteq> {Vfs_mutex} \<Longrightarrow> discipline W hs (fops_path_trace t) = Some hs"
  by (auto simp: fops_path_trace_def event_simps discipline_locked_fs split: option.split)

lemma discipline_fops_fd:
  assumes "set hs \<subseteq> {Vfs_mutex}"
  shows "discipline W hs (fops_fd_trace t) = Some hs"
proof -
  have "discipline W hs (locked_trace key (Use_handle # fs_trace key ds @ [Use_handle])) = Some hs" for key ds
    using assms by (intro discipline_locked) (auto simp: event_simps discipline_append discipline_fs_locked)
  then show ?thesis using assms by (auto simp: fops_fd_trace_def event_simps split: option.split)
qed

lemma discipline_mount: "set hs \<subseteq> {Vfs_mutex} \<Longrightarrow> discipline W hs (mount_trace m) = Some hs"
  unfolding mount_trace_def
  by (rule discipline_guard) (auto simp: discipline_append discipline_io_below event_simps split: option.split)

lemma discipline_umount_all:
  assumes "\<forall>key. Call_fs key \<notin> W"
  shows "discipline W [] (umount_all_trace ms) = Some []"
proof -
  have "discipline W [Vfs_mutex] (Read_mounts # locked_trace key [] @ fs_trace key ds) = Some [Vfs_mutex]" for key ds
    using assms discipline_locked [of "[Vfs_mutex]" W key "[]"] discipline_fs [of "[Vfs_mutex]" key W ds]
    by (simp add: event_simps discipline_append)
  then have "discipline W [Vfs_mutex]
      (concat (map (\<lambda>(key, ds). Read_mounts # locked_trace key [] @ fs_trace key ds) ms)) = Some [Vfs_mutex]"
    by (intro discipline_concat) auto
  then show ?thesis by (auto simp: umount_all_trace_def discipline_append event_simps intro!: discipline_guard)
qed

lemmas discipline_parts = discipline_append discipline_io_below discipline_locked_fs discipline_fops_path
  discipline_fops_fd discipline_mount

lemma discipline_destroy: "discipline {} [] (destroy_trace es ms) = Some []"
proof -
  have files: "discipline {} [] (Access_files # fs) = discipline {} [] fs" for fs by (simp add: event_simps)
  have "discipline {} [] (concat (map (\<lambda>fd. Access_files # fops_fd_trace fd) fds)) = Some []" for fds
    by (rule discipline_concat) (simp add: files discipline_parts del: discipline.simps)
  then have "discipline {} [] (cleanup_trace es) = Some []"
    unfolding cleanup_trace_def files
    by (intro discipline_concat)
      (auto simp: files discipline_parts simp del: discipline.simps(2) split: option.split)
  then show ?thesis by (simp add: destroy_trace_def discipline_append discipline_umount_all)
qed

text \<open>Every operation keeps to the order and holds no mutex when it returns.\<close>

lemma trace_discipline: "covers W c \<Longrightarrow> discipline W [] (trace c) = Some []"
proof (cases c)
  case (Open_call t)
  have "discipline W [Vfs_mutex] (locked_trace key (fs_trace key ds @ [Access_files])) = Some [Vfs_mutex]" for key ds
    by (rule discipline_locked) (auto simp: discipline_append discipline_fs_locked event_simps)
  then show ?thesis using Open_call
    by (auto simp: discipline_locked_fs open_trace_def event_simps intro!: discipline_guard split: option.split)
next
  case (Close_call t)
  then show ?thesis
    by (auto simp: close_trace_def event_simps discipline_parts intro!: discipline_guard split: option.split)
next
  case (Unlink_call t)
  then show ?thesis
    by (auto simp: unlink_trace_def event_simps discipline_parts intro!: discipline_guard split: option.split)
next
  case (Mount_all_call ps)
  then show ?thesis
    by (auto simp: mount_all_trace_def discipline_parts simp del: discipline.simps
        intro!: discipline_guard discipline_concat)
next
  case (Umount_call t)
  then show ?thesis
    by (auto simp: umount_trace_def event_simps discipline_parts intro!: discipline_guard split: option.split)
next
  case (Stat_parts_call ms)
  then show ?thesis
    by (auto simp: stat_parts_trace_def event_simps discipline_parts intro!: discipline_concat)
next
  case (Register_device_call ds)
  then show ?thesis
    by (simp add: register_device_trace_def event_simps discipline_append discipline_io)
qed (auto simp: discipline_parts dirops_trace_def get_roots_trace_def register_filesystem_trace_def event_simps
    discipline_umount_all discipline_destroy intro!: discipline_guard)

section \<open>The invariant of the threads\<close>

definition orderly :: "event set \<Rightarrow> thread \<Rightarrow> bool" where
  "orderly W t = (discipline W (held t) (todo t) = Some [])"

definition threads_ok :: "event set \<Rightarrow> thread list \<Rightarrow> bool" where
  "threads_ok W ts = ((\<forall>t \<in> set ts. orderly W t) \<and>
     (\<forall>i < length ts. \<forall>j < length ts. i \<noteq> j \<longrightarrow> set (held (ts ! i)) \<inter> set (held (ts ! j)) = {}))"

lemma can_runD: "can_run ts i \<Longrightarrow> \<exists>e es. todo (ts ! i) = e # es"
  by (cases "todo (ts ! i)") (auto simp: can_run_def)

lemma run_thread_orderly: "orderly W t \<Longrightarrow> todo t = e # es \<Longrightarrow> orderly W (run_thread t)"
  by (auto simp: orderly_def run_thread_def split: if_splits)

lemma run_thread_held:
  assumes "can_run ts i" "l \<in> set (held (run_thread (ts ! i)))" "j < length ts" "j \<noteq> i" "l \<in> set (held (ts ! j))"
  shows "l \<in> set (held (ts ! i))"
  using assms by (auto simp: can_run_def run_thread_def run_event_def list_all_iff split: list.splits event.splits
      dest: notin_set_remove1 set_remove1_subset [THEN subsetD])

lemma threads_ok_step: "step ts ts' \<Longrightarrow> threads_ok W ts \<Longrightarrow> threads_ok W ts'"
proof (induction rule: step.induct)
  case (1 i ts)
  then obtain e es where e: "todo (ts ! i) = e # es" using can_runD by blast
  have "orderly W t" if "t \<in> set (ts[i := run_thread (ts ! i)])" for t
    using that 1 run_thread_orderly [OF _ e] set_update_subset_insert [of ts i "run_thread (ts ! i)"]
    by (auto simp: threads_ok_def)
  moreover have excl: "set (held (run_thread (ts ! i))) \<inter> set (held (ts ! j)) = {}" if j: "j < length ts" "j \<noteq> i" for j
  proof -
    have "set (held (ts ! i)) \<inter> set (held (ts ! j)) = {}" using 1 j by (auto simp: threads_ok_def)
    then show ?thesis using run_thread_held [OF 1(2) _ j] by blast
  qed
  have "set (held (ts[i := run_thread (ts ! i)] ! j)) \<inter> set (held (ts[i := run_thread (ts ! i)] ! k)) = {}"
    if "j < length ts" "k < length ts" "j \<noteq> k" for j k
    using that 1(1,3) excl [of j] excl [of k] by (cases "j = i"; cases "k = i") (auto simp: threads_ok_def nth_list_update)
  ultimately show ?case by (simp add: threads_ok_def)
qed

definition programs_cover :: "event set \<Rightarrow> vfs_call list list \<Rightarrow> bool" where
  "programs_cover W programs = (\<forall>calls \<in> set programs. \<forall>c \<in> set calls. covers W c)"

lemma threads_ok_start:
  assumes "programs_cover W programs"
  shows "threads_ok W (start_threads programs)"
proof -
  have "discipline W [] (concat (map trace calls)) = Some []" if "calls \<in> set programs" for calls
    using assms that by (intro discipline_concat trace_discipline) (simp add: programs_cover_def)
  then show ?thesis by (auto simp: threads_ok_def start_threads_def orderly_def)
qed

lemma reachable_ok:
  "reachable (start_threads programs) ts \<Longrightarrow> programs_cover W programs \<Longrightarrow> threads_ok W ts"
  by (induction rule: reachable.induct) (auto simp: threads_ok_start threads_ok_step)

text \<open>The thread that holds the highest mutex can run.\<close>

lemma held_unfinished: "orderly W t \<Longrightarrow> held t \<noteq> [] \<Longrightarrow> todo t \<noteq> []"
  by (auto simp: orderly_def)

lemma orderly_next: "orderly W t \<Longrightarrow> todo t = e # es \<Longrightarrow> allowed W e (held t)"
  by (auto simp: orderly_def split: if_splits)

lemma highest_can_run:
  assumes ok: "threads_ok W ts" and i: "i < length ts" "todo (ts ! i) = e # es"
    and top: "\<And>j l. j < length ts \<Longrightarrow> l \<in> set (held (ts ! j)) \<Longrightarrow> \<exists>h \<in> set (held (ts ! i)). rank l \<le> rank h"
  shows "can_run ts i"
proof -
  have nxt: "allowed W e (held (ts ! i))" using ok i orderly_next nth_mem by (metis threads_ok_def)
  have free: "j = i \<and> l = Vfs_mutex" if e: "e = Acquire l" and j: "j < length ts" "l \<in> set (held (ts ! j))" for l j
  proof -
    obtain h where h: "h \<in> set (held (ts ! i))" "rank l \<le> rank h" using top [OF j] by blast
    then have same: "h = Vfs_mutex" "l = Vfs_mutex" using nxt by (auto simp: e allowed_def in_order_def)
    then show ?thesis using h(1) j ok i(1) by (auto simp: threads_ok_def)
  qed
  show ?thesis
    using nxt free i by (auto simp: can_run_def allowed_def in_order_def list_all_iff split: event.split)
qed

lemma threads_ok_progress:
  assumes ok: "threads_ok W ts" and more: "\<not> finished ts"
  shows "\<exists>ts'. step ts ts'"
proof -
  let ?R = "rank ` (\<Union>j < length ts. set (held (ts ! j)))"
  have "\<exists>i < length ts. todo (ts ! i) \<noteq> [] \<and>
    (\<forall>j < length ts. \<forall>l \<in> set (held (ts ! j)). \<exists>h \<in> set (held (ts ! i)). rank l \<le> rank h)"
  proof (cases "?R = {}")
    case True
    then show ?thesis using more by (auto simp: finished_def list_all_iff in_set_conv_nth)
  next
    case False
    have fin: "finite ?R" by simp
    define m where "m = Max ?R"
    have m: "m \<in> ?R" unfolding m_def using fin False by (rule Max_in)
    then obtain i h where i: "i < length ts" "h \<in> set (held (ts ! i))" "rank h = m" by blast
    have "rank l \<le> rank h" if "j < length ts" "l \<in> set (held (ts ! j))" for j l
      using that fin unfolding i(3) m_def by (intro Max_ge) auto
    moreover have "orderly W (ts ! i)" using ok i(1) by (simp add: threads_ok_def)
    then have "todo (ts ! i) \<noteq> []" using i(2) by (intro held_unfinished) auto
    ultimately show ?thesis using i by blast
  qed
  then obtain i where i: "i < length ts" "todo (ts ! i) \<noteq> []"
    "\<And>j l. j < length ts \<Longrightarrow> l \<in> set (held (ts ! j)) \<Longrightarrow> \<exists>h \<in> set (held (ts ! i)). rank l \<le> rank h" by blast
  from i(2) obtain e es where "todo (ts ! i) = e # es" by (meson neq_Nil_conv)
  from step.intros [OF i(1) highest_can_run [OF ok i(1) this i(3)]] show ?thesis ..
qed

lemma work_left_step: "step ts ts' \<Longrightarrow> work_left ts' < work_left ts"
proof (induction rule: step.induct)
  case (1 i ts)
  then obtain e es where e: "todo (ts ! i) = e # es" using can_runD by blast
  have split: "work_left (xs @ t # ys) = length (todo t) + work_left (xs @ ys)" for xs t ys by (simp add: work_left_def)
  have "work_left ts = length (todo (ts ! i)) + work_left (take i ts @ drop (Suc i) ts)"
    using split [of "take i ts" "ts ! i" "drop (Suc i) ts"] id_take_nth_drop [OF 1(1)] by simp
  moreover have "work_left (ts[i := run_thread (ts ! i)]) = length es + work_left (take i ts @ drop (Suc i) ts)"
    using 1(1) e by (simp add: upd_conv_take_nth_drop split run_thread_def)
  ultimately show ?case by (simp add: e)
qed

text \<open>C10: No deadlock: whatever operations any number of threads run on the virtual file system, and however they
  are interleaved, a state they reach is either finished or lets some thread go on; as every step leaves
  less to do, all operations return.\<close>

theorem vfs_threads_never_deadlock:
  assumes "reachable (start_threads programs) ts"
  shows "(finished ts \<or> (\<exists>ts'. step ts ts')) \<and> (\<forall>ts'. step ts ts' \<longrightarrow> work_left ts' < work_left ts) \<and>
    (finished ts \<longrightarrow> list_all (\<lambda>t. held t = []) ts)"
proof (intro conjI allI impI)
  have any: "programs_cover {} programs" by (simp add: programs_cover_def covers_nothing)
  note ok = reachable_ok [OF assms any]
  show "finished ts \<or> (\<exists>ts'. step ts ts')" using threads_ok_progress [OF ok] by blast
  show "work_left ts' < work_left ts" if "step ts ts'" for ts' using that by (rule work_left_step)
  show "list_all (\<lambda>t. held t = []) ts" if "finished ts"
    using that ok by (auto simp: finished_def list_all_iff threads_ok_def orderly_def)
qed

definition about_to :: "event set \<Rightarrow> thread \<Rightarrow> bool" where
  "about_to es t = (case todo t of [] \<Rightarrow> False | e # _ \<Rightarrow> e \<in> es)"

definition destroys :: "vfs_call \<Rightarrow> bool" where
  "destroys c = (case c of Destroy_call _ _ \<Rightarrow> True | _ \<Rightarrow> False)"

definition unmounts_all :: "vfs_call \<Rightarrow> bool" where
  "unmounts_all c = (case c of Umount_all_call _ \<Rightarrow> True | _ \<Rightarrow> False)"

lemma covers_tables: "\<not> destroys c \<Longrightarrow> covers {Access_files, Write_mounts} c"
  by (cases c) (auto simp: destroys_def)

lemma covers_everything: "\<not> destroys c \<Longrightarrow> \<not> unmounts_all c \<Longrightarrow> covers W c"
  by (cases c) (auto simp: destroys_def unmounts_all_def)

lemma covered_exclusive:
  assumes "threads_ok W ts" "i < length ts" "j < length ts" "i \<noteq> j" "X \<subseteq> W"
    and same: "\<And>e hs. e \<in> X \<Longrightarrow> covered e hs \<Longrightarrow> l \<in> set hs"
  shows "\<not> (about_to X (ts ! i) \<and> about_to X (ts ! j))"
proof -
  have "l \<in> set (held (ts ! k))" if nxt: "about_to X (ts ! k)" and k: "k < length ts" for k
  proof -
    obtain e es where e: "todo (ts ! k) = e # es" "e \<in> X" using nxt by (auto simp: about_to_def split: list.splits)
    have "orderly W (ts ! k)" using assms(1) k by (simp add: threads_ok_def)
    from orderly_next [OF this e(1)] have "covered e (held (ts ! k))" using e(2) assms(5) by (auto simp: allowed_def)
    then show ?thesis by (rule same [OF e(2)])
  qed
  then show ?thesis using assms(1-4) unfolding threads_ok_def by blast
qed

text \<open>C17: While the virtual file system lives (no thread runs its destructor), in no state that is reached,
  whatever the operations and their interleaving, are two threads about to access the maps of open files
  or to write the table of mount points; and if no thread runs \<open>umount_all\<close> either, no two are inside the file
  system of the same volume. Not protected, and not claimed to be, are the lookups of a mount point and the
  reference to its handle that an operation on a descriptor works with after giving \<open>m_mutex\<close> back.\<close>

theorem open_files_exclusive:
  assumes "reachable (start_threads programs) ts" "i < length ts" "j < length ts" "i \<noteq> j"
    and alive: "\<forall>calls \<in> set programs. \<forall>c \<in> set calls. \<not> destroys c"
  shows "\<not> (about_to {Access_files, Write_mounts} (ts ! i) \<and> about_to {Access_files, Write_mounts} (ts ! j)) \<and>
    ((\<forall>calls \<in> set programs. \<forall>c \<in> set calls. \<not> unmounts_all c) \<longrightarrow>
      \<not> (about_to {Call_fs key} (ts ! i) \<and> about_to {Call_fs key} (ts ! j)))"
proof (intro conjI impI)
  have "programs_cover {Access_files, Write_mounts} programs"
    using alive covers_tables unfolding programs_cover_def by blast
  then show "\<not> (about_to {Access_files, Write_mounts} (ts ! i) \<and> about_to {Access_files, Write_mounts} (ts ! j))"
    by (intro covered_exclusive [OF reachable_ok [OF assms(1)] assms(2-4) order_refl, where l = Vfs_mutex])
      (auto simp: covered_def)
next
  assume "\<forall>calls \<in> set programs. \<forall>c \<in> set calls. \<not> unmounts_all c"
  then have "programs_cover {Call_fs key} programs"
    using alive covers_everything unfolding programs_cover_def by blast
  then show "\<not> (about_to {Call_fs key} (ts ! i) \<and> about_to {Call_fs key} (ts ! j))"
    by (intro covered_exclusive [OF reachable_ok [OF assms(1)] assms(2-4) order_refl, where l = "Mount_mutex key"])
      (auto simp: covered_def)
qed

section \<open>Schedules\<close>

text \<open>Running a schedule: the thread of every step.\<close>

fun run_schedule :: "nat list \<Rightarrow> thread list \<Rightarrow> thread list option" where
  "run_schedule [] ts = Some ts"
| "run_schedule (i # sched) ts =
     (if i < length ts \<and> can_run ts i then run_schedule sched (ts[i := run_thread (ts ! i)]) else None)"

lemma run_schedule_reachable:
  "run_schedule sched ts = Some ts' \<Longrightarrow> reachable start ts \<Longrightarrow> reachable start ts'"
  by (induction sched ts arbitrary: ts' rule: run_schedule.induct)
     (auto split: if_splits intro: reachable_step step.intros)

text \<open>One thread closes a file whose unlinking was delayed, one writes to it.\<close>

definition sample_programs :: "vfs_call list list" where
  "sample_programs = [[Close_call (Some (''/vol'', [''disk0''], Some (Some (''/vol'', [''disk0'']))))],
     [Descriptor_call (Some (''/vol'', [''disk0'']))]]"

lemmas trace_defs = fops_fd_trace_def fops_path_trace_def close_trace_def umount_trace_def guard_trace_def
  locked_trace_def io_trace_def fs_trace_def umount_all_trace_def destroy_trace_def cleanup_trace_def

lemmas schedule_simps = can_run_def run_thread_def run_event_def start_threads_def upt_rec

text \<open>The thread that closes has taken \<open>m_mutex\<close>; the other one waits for it.\<close>

theorem vfs_threads_never_deadlock_witness:
  "\<exists>ts ts'. run_schedule [0, 0, 0] (start_threads sample_programs) = Some ts \<and> \<not> can_run ts 1 \<and> step ts ts'"
proof -
  obtain ts where run: "run_schedule [0, 0, 0] (start_threads sample_programs) = Some ts" and
    ts: "\<not> can_run ts 1" "\<not> finished ts"
    by (simp add: sample_programs_def trace_defs schedule_simps finished_def)
  from vfs_threads_never_deadlock [OF run_schedule_reachable [OF run reachable_start]] run ts show ?thesis by blast
qed

theorem open_files_exclusive_witness:
  "\<exists>ts. run_schedule [0] (start_threads sample_programs) = Some ts \<and> about_to {Access_files} (ts ! 0) \<and>
    \<not> (about_to {Access_files, Write_mounts} (ts ! 0) \<and> about_to {Access_files, Write_mounts} (ts ! 1)) \<and>
    \<not> (about_to {Call_fs ''/vol''} (ts ! 0) \<and> about_to {Call_fs ''/vol''} (ts ! 1))"
proof -
  obtain ts where run: "run_schedule [0] (start_threads sample_programs) = Some ts" and
    ts: "about_to {Access_files} (ts ! 0)" "length ts = 2"
    by (simp add: sample_programs_def trace_defs schedule_simps about_to_def)
  have "\<forall>calls \<in> set sample_programs. \<forall>c \<in> set calls. \<not> destroys c"
    "\<forall>calls \<in> set sample_programs. \<forall>c \<in> set calls. \<not> unmounts_all c"
    by (simp_all add: sample_programs_def destroys_def unmounts_all_def)
  from open_files_exclusive [OF run_schedule_reachable [OF run reachable_start] _ _ _ this(1), of 0 1 "''/vol''"] this(2) run ts
  show ?thesis by auto
qed

text \<open>The lookups of a mount point by an operation on a path or on an open descriptor are not under \<open>m_mutex\<close>: one
  thread can be about to erase a volume while another one reads the table.\<close>

lemma mount_table_race:
  "\<exists>ts. reachable (start_threads [[Umount_call (Some (''/vol'', [], True))], [Path_call (Some (''/vol'', []))]]) ts \<and>
    about_to {Write_mounts} (ts ! 0) \<and> about_to {Read_mounts} (ts ! 1)"
proof -
  let ?start = "start_threads [[Umount_call (Some (''/vol'', [], True))], [Path_call (Some (''/vol'', []))]]"
  obtain ts where run: "run_schedule [0, 0, 0, 0, 0] ?start = Some ts" and
    ts: "about_to {Write_mounts} (ts ! 0)" "about_to {Read_mounts} (ts ! 1)"
    by (simp add: trace_defs schedule_simps about_to_def)
  from run_schedule_reachable [OF run reachable_start] ts show ?thesis by blast
qed

text \<open>The same for a volume that is unmounted while a descriptor of it is in use: the descriptor's thread has left
  \<open>m_mutex\<close> and has not looked its volume up yet when the volume is erased.\<close>

lemma umount_overtakes_descriptor:
  "\<exists>ts. reachable (start_threads [[Umount_call (Some (''/vol'', [], True))], [Descriptor_call (Some (''/vol'', []))]]) ts \<and>
    todo (ts ! 0) = [] \<and> about_to {Read_mounts} (ts ! 1)"
proof -
  let ?start = "start_threads [[Umount_call (Some (''/vol'', [], True))], [Descriptor_call (Some (''/vol'', []))]]"
  obtain ts where run: "run_schedule [1, 1, 1, 1, 1, 0, 0, 0, 0, 0, 0, 0] ?start = Some ts" and
    ts: "todo (ts ! 0) = []" "about_to {Read_mounts} (ts ! 1)"
    by (simp add: trace_defs schedule_simps about_to_def)
  from run_schedule_reachable [OF run reachable_start] ts show ?thesis by blast
qed

text \<open>A handle that an operation works with is freed under it: the thread that closes the descriptor has
  returned, and the other one still goes on to read the root of the handle it holds a reference to.\<close>

lemma handle_used_after_close:
  "\<exists>ts. reachable (start_threads [[Close_call (Some (''/vol'', [], None))], [Descriptor_call (Some (''/vol'', []))]]) ts \<and>
    todo (ts ! 0) = [] \<and> about_to {Use_handle} (ts ! 1)"
proof -
  let ?start = "start_threads [[Close_call (Some (''/vol'', [], None))], [Descriptor_call (Some (''/vol'', []))]]"
  obtain ts where run: "run_schedule ([1, 1, 1, 1] @ replicate 15 0) ?start = Some ts" and
    ts: "todo (ts ! 0) = []" "about_to {Use_handle} (ts ! 1)"
    by (simp add: trace_defs schedule_simps about_to_def numeral_eq_Suc)
  from run_schedule_reachable [OF run reachable_start] ts show ?thesis by blast
qed

text \<open>\<open>umount_all\<close> calls the file system of a volume after giving its mutex back: another thread can be inside it.\<close>

lemma umount_all_inside_fs:
  "\<exists>ts. reachable (start_threads [[Umount_all_call [(''/vol'', [])]], [Path_call (Some (''/vol'', []))]]) ts \<and>
    about_to {Call_fs ''/vol''} (ts ! 0) \<and> about_to {Call_fs ''/vol''} (ts ! 1)"
proof -
  let ?start = "start_threads [[Umount_all_call [(''/vol'', [])]], [Path_call (Some (''/vol'', []))]]"
  obtain ts where run: "run_schedule [0, 0, 0, 0, 1, 1] ?start = Some ts" and
    ts: "about_to {Call_fs ''/vol''} (ts ! 0)" "about_to {Call_fs ''/vol''} (ts ! 1)"
    by (simp add: trace_defs schedule_simps about_to_def)
  from run_schedule_reachable [OF run reachable_start] ts show ?thesis by blast
qed

text \<open>The destructor does not wait for the operations: it looks at the open files while one of them does.\<close>

lemma destroy_meets_operation:
  "\<exists>ts. reachable (start_threads [[Destroy_call [] []], [Descriptor_call None]]) ts \<and>
    about_to {Access_files} (ts ! 0) \<and> about_to {Access_files} (ts ! 1)"
proof -
  let ?start = "start_threads [[Destroy_call [] []], [Descriptor_call None]]"
  obtain ts where run: "run_schedule [1] ?start = Some ts" and
    ts: "about_to {Access_files} (ts ! 0)" "about_to {Access_files} (ts ! 1)"
    by (simp add: trace_defs schedule_simps about_to_def)
  from run_schedule_reachable [OF run reachable_start] ts show ?thesis by blast
qed

end
