(* ===== verification/Syscalls.thy ===== *)
theory Syscalls
  imports Vfs_Mounts
begin

text \<open>
  The system call layer of evfs (\<open>adapters/syscalls.cpp\<close>, \<open>adapters/sys/sys/dirent.h\<close>): the calls a
  C library forwards to the virtual file system. A call takes the errno variable of its thread and the
  state of the virtual file system (\<open>borrow_vfs()\<close> is one object) and returns its result with both; a
  pointer is an option, with \<open>None\<close> for the null pointer, and a result \<open>None\<close> is again what is not a
  return (a null pointer made a \<open>std::string\<close>, and what ends an operation of the virtual file system).
  A directory stream is passed in and handed back as the call leaves it.
\<close>

section \<open>Results and errno\<close>

type_synonym ('r, 'v) syscall = "('r \<times> int \<times> 'v) option"

text \<open>\<open>static_cast<int>\<close> of a wider integer.\<close>

definition to_int :: "int \<Rightarrow> int" where
  "to_int n = sint (word_of_int n :: 32 word)"

text \<open>\<open>invoke_fs\<close> for the two kinds of results.\<close>

definition invoke_fs_code :: "(errno \<times> 'v) option \<Rightarrow> (int, 'v) syscall" where
  "invoke_fs_code call = do { (ret, v) \<leftarrow> call; Some (if ret \<noteq> 0 then -1 else 0, ret, v) }"

definition invoke_fs_result :: "('a \<Rightarrow> int) \<Rightarrow> ('a result \<times> 'v) option \<Rightarrow> (int, 'v) syscall" where
  "invoke_fs_result value call = do {
     (ret, v) \<leftarrow> call;
     (case ret of Inl e \<Rightarrow> Some (-1, e, v) | Inr x \<Rightarrow> Some (to_int (value x), 0, v)) }"

definition DT_FIFO :: u8 where "DT_FIFO = 1"
definition DT_CHR :: u8 where "DT_CHR = 2"
definition DT_DIR :: u8 where "DT_DIR = 4"
definition DT_BLK :: u8 where "DT_BLK = 6"
definition DT_REG :: u8 where "DT_REG = 8"
definition DT_SOCK :: u8 where "DT_SOCK = 12"

definition has_type :: "int \<Rightarrow> u32 \<Rightarrow> bool" where
  "has_type mode t = (word_of_int mode AND 0xF000 = t)"

definition stmode_to_type :: "int \<Rightarrow> u8" where
  "stmode_to_type mode =
     (if has_type mode 0x8000 then DT_REG else if has_type mode 0x4000 then DT_DIR
      else if has_type mode 0x2000 then DT_CHR else if has_type mode 0x6000 then DT_BLK
      else if has_type mode 0x1000 then DT_FIFO else if has_type mode 0xC000 then DT_SOCK else 0)"

section \<open>Files and paths\<close>

definition sys_open :: "string option \<Rightarrow> int \<Rightarrow> int \<Rightarrow> int \<Rightarrow> ('f, 'h, 'd, 'w) VirtualFS \<Rightarrow>
    (int, ('f, 'h, 'd, 'w) VirtualFS) syscall" where
  "sys_open file flags mode err v = do { path \<leftarrow> file; invoke_fs_result (\<lambda>n. n) (VirtualFS_open path flags mode v) }"

definition sys_close :: "int \<Rightarrow> int \<Rightarrow> ('f, 'h, 'd, 'w) VirtualFS \<Rightarrow> (int, ('f, 'h, 'd, 'w) VirtualFS) syscall" where
  "sys_close fd err v = invoke_fs_code (VirtualFS_close fd v)"

definition sys_write :: "int \<Rightarrow> u8 list \<Rightarrow> int \<Rightarrow> ('f, 'h, 'd, 'w) VirtualFS \<Rightarrow>
    (int, ('f, 'h, 'd, 'w) VirtualFS) syscall" where
  "sys_write fd buf err v = invoke_fs_result int (VirtualFS_write fd buf v)"

definition sys_read :: "int \<Rightarrow> u8 list \<Rightarrow> int \<Rightarrow> ('f, 'h, 'd, 'w) VirtualFS \<Rightarrow>
    (int \<times> u8 list, ('f, 'h, 'd, 'w) VirtualFS) syscall" where
  "sys_read fd buf err v = do {
     ((ret, buf), v) \<leftarrow> VirtualFS_read fd buf v;
     (r, err, v) \<leftarrow> invoke_fs_result int (Some (ret, v));
     Some ((r, buf), err, v) }"

definition sys_lseek :: "int \<Rightarrow> int \<Rightarrow> int \<Rightarrow> int \<Rightarrow> ('f, 'h, 'd, 'w) VirtualFS \<Rightarrow>
    (int, ('f, 'h, 'd, 'w) VirtualFS) syscall" where
  "sys_lseek fd pos dir err v = invoke_fs_result (\<lambda>n. n) (VirtualFS_lseek fd pos dir v)"

text \<open>Calls that fill a structure behind a pointer.\<close>

definition invoke_fs_out :: "((errno \<times> 'a) \<times> 'v) option \<Rightarrow> (int \<times> 'a option, 'v) syscall" where
  "invoke_fs_out call = do {
     ((ret, out), v) \<leftarrow> call;
     Some ((if ret \<noteq> 0 then -1 else 0, Some out), ret, v) }"

definition sys_fstat :: "int \<Rightarrow> stat option \<Rightarrow> int \<Rightarrow> ('f, 'h, 'd, 'w) VirtualFS \<Rightarrow>
    (int \<times> stat option, ('f, 'h, 'd, 'w) VirtualFS) syscall" where
  "sys_fstat fd pstat err v =
     (case pstat of Some st \<Rightarrow> invoke_fs_out (VirtualFS_fstat fd st v) | None \<Rightarrow> Some ((-1, None), EINVAL, v))"

definition sys_stat :: "string option \<Rightarrow> stat option \<Rightarrow> int \<Rightarrow> ('f, 'h, 'd, 'w) VirtualFS \<Rightarrow>
    (int \<times> stat option, ('f, 'h, 'd, 'w) VirtualFS) syscall" where
  "sys_stat file pstat err v =
     (case pstat of Some st \<Rightarrow> do { path \<leftarrow> file; invoke_fs_out (VirtualFS_stat path st v) }
      | None \<Rightarrow> Some ((-1, None), EINVAL, v))"

definition sys_statvfs :: "string option \<Rightarrow> statvfs option \<Rightarrow> int \<Rightarrow> ('f, 'h, 'd, 'w) VirtualFS \<Rightarrow>
    (int \<times> statvfs option, ('f, 'h, 'd, 'w) VirtualFS) syscall" where
  "sys_statvfs path buf err v =
     (case buf of None \<Rightarrow> Some ((-1, None), EINVAL, v)
      | Some st \<Rightarrow> do { path \<leftarrow> path; invoke_fs_out (VirtualFS_stat_vfs path st v) })"

definition sys_link :: "string option \<Rightarrow> string option \<Rightarrow> int \<Rightarrow> ('f, 'h, 'd, 'w) VirtualFS \<Rightarrow>
    (int, ('f, 'h, 'd, 'w) VirtualFS) syscall" where
  "sys_link existing newLink err v = do { p \<leftarrow> existing; q \<leftarrow> newLink; invoke_fs_code (VirtualFS_link p q v) }"

definition sys_symlink :: "string option \<Rightarrow> string option \<Rightarrow> int \<Rightarrow> ('f, 'h, 'd, 'w) VirtualFS \<Rightarrow>
    (int, ('f, 'h, 'd, 'w) VirtualFS) syscall" where
  "sys_symlink name1 name2 err v = do { p \<leftarrow> name1; q \<leftarrow> name2; invoke_fs_code (VirtualFS_symlink p q v) }"

definition sys_rename :: "string option \<Rightarrow> string option \<Rightarrow> int \<Rightarrow> ('f, 'h, 'd, 'w) VirtualFS \<Rightarrow>
    (int, ('f, 'h, 'd, 'w) VirtualFS) syscall" where
  "sys_rename oldName newName err v = do { p \<leftarrow> oldName; q \<leftarrow> newName; invoke_fs_code (VirtualFS_rename p q v) }"

definition sys_unlink :: "string option \<Rightarrow> int \<Rightarrow> ('f, 'h, 'd, 'w) VirtualFS \<Rightarrow> (int, ('f, 'h, 'd, 'w) VirtualFS) syscall" where
  "sys_unlink name err v = do { p \<leftarrow> name; invoke_fs_code (VirtualFS_unlink p v) }"

definition sys_rmdir :: "string option \<Rightarrow> int \<Rightarrow> ('f, 'h, 'd, 'w) VirtualFS \<Rightarrow> (int, ('f, 'h, 'd, 'w) VirtualFS) syscall" where
  "sys_rmdir name err v = do { p \<leftarrow> name; invoke_fs_code (VirtualFS_rmdir p v) }"

definition sys_chdir :: "string option \<Rightarrow> int \<Rightarrow> ('f, 'h, 'd, 'w) VirtualFS \<Rightarrow> (int, ('f, 'h, 'd, 'w) VirtualFS) syscall" where
  "sys_chdir path err v = do { p \<leftarrow> path; invoke_fs_code (VirtualFS_chdir p v) }"

definition sys_mkdir :: "string option \<Rightarrow> int \<Rightarrow> int \<Rightarrow> ('f, 'h, 'd, 'w) VirtualFS \<Rightarrow>
    (int, ('f, 'h, 'd, 'w) VirtualFS) syscall" where
  "sys_mkdir path mode err v = do { p \<leftarrow> path; invoke_fs_code (VirtualFS_mkdir p mode v) }"

definition sys_chmod :: "string option \<Rightarrow> int \<Rightarrow> int \<Rightarrow> ('f, 'h, 'd, 'w) VirtualFS \<Rightarrow>
    (int, ('f, 'h, 'd, 'w) VirtualFS) syscall" where
  "sys_chmod path mode err v = do { p \<leftarrow> path; invoke_fs_code (VirtualFS_chmod p mode v) }"

definition sys_fchmod :: "int \<Rightarrow> int \<Rightarrow> int \<Rightarrow> ('f, 'h, 'd, 'w) VirtualFS \<Rightarrow> (int, ('f, 'h, 'd, 'w) VirtualFS) syscall" where
  "sys_fchmod fd mode err v = invoke_fs_code (VirtualFS_fchmod fd mode v)"

definition sys_fsync :: "int \<Rightarrow> int \<Rightarrow> ('f, 'h, 'd, 'w) VirtualFS \<Rightarrow> (int, ('f, 'h, 'd, 'w) VirtualFS) syscall" where
  "sys_fsync fd err v = invoke_fs_code (VirtualFS_fsync fd v)"

definition sys_isatty :: "int \<Rightarrow> int \<Rightarrow> ('f, 'h, 'd, 'w) VirtualFS \<Rightarrow> (int, ('f, 'h, 'd, 'w) VirtualFS) syscall" where
  "sys_isatty fd err v = invoke_fs_result of_bool (VirtualFS_isatty fd v)"

text \<open>\<open>std::bitset<32>\<close> keeps the low 32 bits of the mount flags.\<close>

definition sys_mount :: "string option \<Rightarrow> string option \<Rightarrow> string option \<Rightarrow> u64 \<Rightarrow> int \<Rightarrow> ('f, 'h, 'd, 'w) VirtualFS \<Rightarrow>
    (int, ('f, 'h, 'd, 'w) VirtualFS) syscall" where
  "sys_mount dev dir fstype mountflags err v = do {
     dev \<leftarrow> dev; dir \<leftarrow> dir; fstype \<leftarrow> fstype;
     invoke_fs_code (VirtualFS_mount dev dir fstype (ucast mountflags) v) }"

definition sys_umount :: "string option \<Rightarrow> int \<Rightarrow> ('f, 'h, 'd, 'w) VirtualFS \<Rightarrow> (int, ('f, 'h, 'd, 'w) VirtualFS) syscall" where
  "sys_umount dev err v = do { dev \<leftarrow> dev; invoke_fs_code (VirtualFS_umount dev v) }"

text \<open>Calls that are not supported.\<close>

definition sys_fcntl :: "int \<Rightarrow> int \<Rightarrow> int \<Rightarrow> int \<Rightarrow> ('f, 'h, 'd, 'w) VirtualFS \<Rightarrow> (int, ('f, 'h, 'd, 'w) VirtualFS) syscall" where
  "sys_fcntl fd cmd arg err v = Some (-1, ENOTSUP, v)"

definition sys_readlink :: "string option \<Rightarrow> int \<Rightarrow> ('f, 'h, 'd, 'w) VirtualFS \<Rightarrow> (int, ('f, 'h, 'd, 'w) VirtualFS) syscall" where
  "sys_readlink path err v = Some (-1, EINVAL, v)"

definition sys_fpathconf :: "int \<Rightarrow> int \<Rightarrow> int \<Rightarrow> ('f, 'h, 'd, 'w) VirtualFS \<Rightarrow> (int, ('f, 'h, 'd, 'w) VirtualFS) syscall" where
  "sys_fpathconf fd name err v = Some (-1, ENOTSUP, v)"

definition sys_pathconf :: "string option \<Rightarrow> int \<Rightarrow> int \<Rightarrow> ('f, 'h, 'd, 'w) VirtualFS \<Rightarrow> (int, ('f, 'h, 'd, 'w) VirtualFS) syscall" where
  "sys_pathconf path name err v = Some (-1, ENOTSUP, v)"

text \<open>\<open>snprintf (buf, size, "%s", s)\<close>: the text up to its first null byte, cut to the buffer, and a null byte.\<close>

definition c_str :: "string \<Rightarrow> string" where
  "c_str s = takeWhile (\<lambda>c. c \<noteq> CHR 0x00) s"

definition snprintf_s :: "string \<Rightarrow> nat \<Rightarrow> string \<Rightarrow> string" where
  "snprintf_s buf n s =
     (if n = 0 then buf else let out = take (n - 1) (c_str s) @ [CHR 0x00] in out @ drop (length out) buf)"

definition sys_getcwd :: "string option \<Rightarrow> nat \<Rightarrow> int \<Rightarrow> ('f, 'h, 'd, 'w) VirtualFS \<Rightarrow>
    (string option, ('f, 'h, 'd, 'w) VirtualFS) syscall" where
  "sys_getcwd buf n err v =
     (case buf of None \<Rightarrow> Some (None, EINVAL, v) | Some buf \<Rightarrow> Some (Some (snprintf_s buf n (VirtualFS_getcwd v)), err, v))"

section \<open>Directory streams\<close>

abbreviation (input) EOVERFLOW :: errno where "EOVERFLOW \<equiv> 75"

record dirent =
  d_ino :: int
  d_type :: u8
  d_reclen :: nat
  d_name :: string

definition dirent_zero :: dirent where
  "dirent_zero = \<lparr>d_ino = 0, d_type = 0, d_reclen = 0, d_name = []\<rparr>"

text \<open>The size of the name in a \<open>dirent\<close>, the closing null byte included.\<close>

definition d_name_size :: nat where "d_name_size = 256"

record 'd dirstream =
  dirh :: "'d DirectoryHandle"
  position :: u64
  dir_data :: dirent

text \<open>The allocation may fail: \<open>allocated\<close> says whether it succeeds.\<close>

definition sys_opendir :: "bool \<Rightarrow> string option \<Rightarrow> int \<Rightarrow> ('f, 'h, 'd, 'w) VirtualFS \<Rightarrow>
    ('d dirstream option, ('f, 'h, 'd, 'w) VirtualFS) syscall" where
  "sys_opendir allocated dirname err v =
     (case dirname of None \<Rightarrow> Some (None, EIO, v)
      | Some dirname \<Rightarrow>
          if \<not> allocated then Some (None, ENOMEM, v)
          else do {
            (handle, v) \<leftarrow> VirtualFS_diropen dirname v;
            (case handle of Inl e \<Rightarrow> Some (None, e, v)
             | Inr h \<Rightarrow> Some (Some \<lparr>dirh = h, position = 0, dir_data = dirent_zero\<rparr>, err, v)) })"

definition sys_closedir :: "'d dirstream option \<Rightarrow> int \<Rightarrow> ('f, 'h, 'd, 'w) VirtualFS \<Rightarrow>
    (int, ('f, 'h, 'd, 'w) VirtualFS) syscall" where
  "sys_closedir dirp err v =
     (case dirp of None \<Rightarrow> Some (-1, EBADF, v)
      | Some d \<Rightarrow> do {
          ((ret, _), v) \<leftarrow> VirtualFS_dirclose (dirh d) v;
          Some (if ret \<noteq> 0 then -1 else 0, if ret \<noteq> 0 then ret else err, v) })"

text \<open>The entry a directory element becomes.\<close>

definition entry_of :: "string \<Rightarrow> stat \<Rightarrow> dirent \<Rightarrow> dirent" where
  "entry_of fname stdata entry = entry\<lparr>d_ino := st_ino stdata, d_type := stmode_to_type (st_mode stdata),
     d_reclen := length fname, d_name := take (d_name_size - 1) (c_str fname)\<rparr>"

definition sys_readdir :: "'d dirstream option \<Rightarrow> int \<Rightarrow> ('f, 'h, 'd, 'w) VirtualFS \<Rightarrow>
    (dirent option \<times> 'd dirstream option, ('f, 'h, 'd, 'w) VirtualFS) syscall" where
  "sys_readdir dirp err v =
     (case dirp of None \<Rightarrow> Some ((None, None), EBADF, v)
      | Some d \<Rightarrow> do {
          (((ret, fname, stdata), h), v) \<leftarrow> VirtualFS_dirnext ([], stat_zero) (dirh d) v;
          let d = d\<lparr>dirh := h\<rparr>;
          if ret \<noteq> 0 \<and> ret \<noteq> ENOENT then Some ((None, Some d), ret, v)
          else if ret = ENOENT then Some ((None, Some d), err, v)
          else if d_name_size \<le> length fname then Some ((None, Some d), EOVERFLOW, v)
          else do {
            let d = d\<lparr>position := position d + 1, dir_data := entry_of fname stdata (dir_data d)\<rparr>;
            Some ((Some (dir_data d), Some d), err, v) } })"

text \<open>The out parameter \<open>result\<close> is modelled by whether \<open>*result\<close> is a null pointer; when it is not after a
  success, it is \<open>entry\<close>.\<close>

definition sys_readdir_r :: "'d dirstream option \<Rightarrow> dirent \<Rightarrow> bool \<Rightarrow> int \<Rightarrow> ('f, 'h, 'd, 'w) VirtualFS \<Rightarrow>
    (int \<times> dirent \<times> bool \<times> 'd dirstream option, ('f, 'h, 'd, 'w) VirtualFS) syscall" where
  "sys_readdir_r dirp entry result err v =
     (case dirp of None \<Rightarrow> Some ((-1, entry, result, None), EBADF, v)
      | Some d \<Rightarrow>
          if \<not> result then Some ((-1, entry, result, Some d), EINVAL, v)
          else do {
            (((ret, fname, stdata), h), v) \<leftarrow> VirtualFS_dirnext ([], stat_zero) (dirh d) v;
            let d = d\<lparr>dirh := h\<rparr>;
            if ret \<noteq> 0 \<and> ret \<noteq> ENOENT then Some ((-1, entry, result, Some d), ret, v)
            else if ret = ENOENT then Some ((0, entry, False, Some d), err, v)
            else if d_name_size \<le> length fname then Some ((-1, entry, result, Some d), EOVERFLOW, v)
            else Some ((0, entry_of fname stdata entry, True, Some (d\<lparr>position := position d + 1\<rparr>)), err, v) })"

definition sys_rewinddir :: "'d dirstream option \<Rightarrow> int \<Rightarrow> ('f, 'h, 'd, 'w) VirtualFS \<Rightarrow>
    ('d dirstream option, ('f, 'h, 'd, 'w) VirtualFS) syscall" where
  "sys_rewinddir dirp err v =
     (case dirp of None \<Rightarrow> Some (None, EBADF, v)
      | Some d \<Rightarrow> do {
          ((res, h), v) \<leftarrow> VirtualFS_dirreset (dirh d) v;
          let d = d\<lparr>dirh := h\<rparr>;
          if res \<noteq> 0 then Some (Some d, res, v) else Some (Some (d\<lparr>position := 0\<rparr>), err, v) })"

lemma sless_Suc: "(x :: u64) <s y \<Longrightarrow> sint (x + 1) = sint x + 1"
  using sint_lt [of y] sint_ge [of x]
  by (simp add: word_sless_alt sint_word_ariths signed_take_bit_int_eq_self)

text \<open>The loop of \<open>seekdir\<close>; name and attributes are overwritten by every step.\<close>

function seek_forward :: "u64 \<Rightarrow> string \<times> stat \<Rightarrow> 'd dirstream \<Rightarrow> ('f, 'h, 'd, 'w) VirtualFS \<Rightarrow>
    ('d dirstream \<times> ('f, 'h, 'd, 'w) VirtualFS) option" where
  "seek_forward loc out d v =
     (if position d <s loc then
        (case VirtualFS_dirnext out (dirh d) v of
           None \<Rightarrow> None
         | Some (((ret, out), h), v) \<Rightarrow>
             if ret = 0 then seek_forward loc out (d\<lparr>dirh := h, position := position d + 1\<rparr>) v
             else Some (d\<lparr>dirh := h\<rparr>, v))
      else Some (d, v))"
  by auto

termination
  by (relation "measure (\<lambda>(loc, _, d, _). nat (sint loc - sint (position d)))")
    (auto simp: sless_Suc word_sless_alt)

declare seek_forward.simps [simp del]

definition sys_seekdir :: "'d dirstream option \<Rightarrow> u64 \<Rightarrow> int \<Rightarrow> ('f, 'h, 'd, 'w) VirtualFS \<Rightarrow>
    ('d dirstream option, ('f, 'h, 'd, 'w) VirtualFS) syscall" where
  "sys_seekdir dirp loc err v =
     (case dirp of None \<Rightarrow> Some (None, EBADF, v)
      | Some d \<Rightarrow>
          if loc <s 0 then Some (Some d, EINVAL, v)
          else do {
            (d, v) \<leftarrow> (if loc <s position d
              then do {
                ((_, h), v) \<leftarrow> VirtualFS_dirreset (dirh d) v;
                Some (d\<lparr>dirh := h, position := 0\<rparr>, v) }
              else Some (d, v));
            (d, v) \<leftarrow> seek_forward loc ([], stat_zero) d v;
            Some (Some d, err, v) })"

definition sys_telldir :: "'d dirstream option \<Rightarrow> int \<Rightarrow> ('f, 'h, 'd, 'w) VirtualFS \<Rightarrow>
    (int, ('f, 'h, 'd, 'w) VirtualFS) syscall" where
  "sys_telldir dirp err v =
     (case dirp of None \<Rightarrow> Some (-1, EBADF, v) | Some d \<Rightarrow> Some (sint (position d), err, v))"

section \<open>Directory streams never get stuck\<close>

lemma dirops_return:
  assumes good: "good root_of v" and root: "umap_contains (dir_root h) (m_mounts v)"
    and meth: "\<And>fs. rooted_filesystem fs root_of \<Longrightarrow> keeps_handle dir_root root_of (m fs)"
  obtains r h' v' where "invoke_dirops m h v = Some ((r, h'), v')" "good root_of v'" "kept v v'" "dir_root h' = dir_root h"
proof -
  have ok: "vfs_ok root_of v" using good by (simp add: good_def)
  obtain x l self w where call: "rooted_filesystem (mp_fs (locker_value l)) root_of"
    "m (mp_fs (locker_value l)) h (mp_self (locker_value l)) (world v) = (x, self, w)"
    "call_locked (dir_root h) (\<lambda>fs. m fs h) v = Some (x, after_call (dir_root h) l self w v)"
    "vfs_ok root_of (after_call (dir_root h) l self w v)"
    by (rule call_locked_ok [OF ok root, of "\<lambda>fs. m fs h"]) (use keeps_handle_root [OF meth] in blast)+
  obtain r h' where x: "x = (r, h')" by (cases x)
  have "dir_root h' = dir_root h" using keeps_handleD [OF meth [OF call(1)]] call(2) x by blast
  moreover have "good root_of (after_call (dir_root h) l self w v)"
    using call(4) good by (simp add: good_def after_call_files)
  ultimately show thesis
    using that [of r h' "after_call (dir_root h) l self w v"] call(3)
    by (simp add: x invoke_dirops_def DirectoryHandle_get_root_def)
qed

lemma dirnext_returns:
  assumes "good root_of v" "umap_contains (dir_root h) (m_mounts v)"
  obtains e out' h' v' where "VirtualFS_dirnext out h v = Some (((e, out'), h'), v')" "good root_of v'" "kept v v'"
    "dir_root h' = dir_root h"
proof -
  obtain r h' v' where "invoke_dirops (\<lambda>fs. fs_dirnext fs out) h v = Some ((r, h'), v')" "good root_of v'"
    "kept v v'" "dir_root h' = dir_root h"
    by (rule dirops_return [OF assms rooted_filesystem.dir_keeps(2)])
  then show thesis using that [of "fst r" "snd r" h' v'] by (simp add: VirtualFS_dirnext_def)
qed

lemma dirreset_returns:
  assumes "good root_of v" "umap_contains (dir_root h) (m_mounts v)"
  obtains e h' v' where "VirtualFS_dirreset h v = Some ((e, h'), v')" "good root_of v'" "kept v v'" "dir_root h' = dir_root h"
  unfolding VirtualFS_dirreset_def by (rule dirops_return [OF assms rooted_filesystem.dir_keeps(1)])

text \<open>The stream an operation leaves: its volume is mounted, its position is no negative \<open>long\<close>.\<close>

definition stream_ok :: "'d dirstream \<Rightarrow> ('f, 'h, 'd, 'w) VirtualFS \<Rightarrow> bool" where
  "stream_ok d v \<longleftrightarrow> umap_contains (dir_root (dirh d)) (m_mounts v) \<and> 0 \<le> sint (position d)"

lemma seek_forward_returns:
  "good root_of v \<Longrightarrow> umap_contains (dir_root (dirh d)) (m_mounts v) \<Longrightarrow>
    \<exists>d' v'. seek_forward loc out d v = Some (d', v') \<and> good root_of v' \<and> kept v v' \<and> dir_data d' = dir_data d \<and>
      dir_root (dirh d') = dir_root (dirh d) \<and> sint (position d) \<le> sint (position d') \<and>
      (sint (position d) \<le> sint loc \<longrightarrow> sint (position d') \<le> sint loc)"
proof (induction loc out d v rule: seek_forward.induct)
  case (1 loc out d v)
  show ?case
  proof (cases "position d <s loc")
    case False
    then show ?thesis using 1 by (simp add: seek_forward.simps [of loc out d v])
  next
    case True
    obtain e out' h' u where nxt: "VirtualFS_dirnext out (dirh d) v = Some (((e, out'), h'), u)" "good root_of u"
      "kept v u" "dir_root h' = dir_root (dirh d)"
      by (rule dirnext_returns [OF 1(2,3)])
    have step: "seek_forward loc out d v = (if e = 0
        then seek_forward loc out' (d\<lparr>dirh := h', position := position d + 1\<rparr>) u else Some (d\<lparr>dirh := h'\<rparr>, u))"
      using True nxt(1) by (simp add: seek_forward.simps [of loc out d v])
    show ?thesis
    proof (cases "e = 0")
      case False
      then show ?thesis using True nxt by (simp add: step word_sless_alt)
    next
      case e: True
      let ?d = "d\<lparr>dirh := h', position := position d + 1\<rparr>"
      have root: "umap_contains (dir_root (dirh ?d)) (m_mounts u)" using 1(3) nxt(3,4) by (simp add: kept_contains)
      obtain d' v' where "seek_forward loc out' ?d u = Some (d', v')" "good root_of v'" "kept u v'"
        "dir_data d' = dir_data d" "dir_root (dirh d') = dir_root (dirh d)" "sint (position d + 1) \<le> sint (position d')"
        "sint (position d + 1) \<le> sint loc \<longrightarrow> sint (position d') \<le> sint loc"
        using 1(1) [OF True nxt(1) refl refl refl e nxt(2) root] nxt(4) by auto
      then show ?thesis
        using kept_trans [OF nxt(3)] True e
        by (intro exI [of _ d'] exI [of _ v']) (simp add: step sless_Suc [OF True] word_sless_alt)
    qed
  qed
qed

text \<open>The stream delivers entries with these names, one by one, and then none: the end, or an error.\<close>

fun delivers :: "'d DirectoryHandle \<Rightarrow> ('f, 'h, 'd, 'w) VirtualFS \<Rightarrow> string list \<Rightarrow> bool" where
  "delivers h v [] = (\<forall>out. \<exists>e out' h' v'. VirtualFS_dirnext out h v = Some (((e, out'), h'), v') \<and> e \<noteq> 0)"
| "delivers h v (x # xs) =
     (\<forall>out. \<exists>st h' v'. VirtualFS_dirnext out h v = Some (((0, x, st), h'), v') \<and> delivers h' v' xs)"

lemma seek_forward_delivers:
  "delivers (dirh d) v es \<Longrightarrow> sint (position d) \<le> sint loc \<Longrightarrow> seek_forward loc out d v = Some (d', v') \<Longrightarrow>
    n = nat (sint loc - sint (position d)) \<Longrightarrow>
    (if n \<le> length es then position d' = loc \<and> delivers (dirh d') v' (drop n es)
     else sint (position d') = sint (position d) + int (length es))"
proof (induction es arbitrary: out d v n)
  case Nil
  show ?case
  proof (cases "position d <s loc")
    case True
    obtain e out' h u where "VirtualFS_dirnext out (dirh d) v = Some (((e, out'), h), u)" "e \<noteq> 0"
      using Nil(1) unfolding delivers.simps by blast
    then show ?thesis using Nil True by (auto simp: seek_forward.simps [of loc out d v] word_sless_alt)
  next
    case False
    then have "sint (position d) = sint loc" using Nil(2) by (simp add: word_sless_alt)
    then show ?thesis using Nil False by (simp add: seek_forward.simps [of loc out d v] signed_word_eqI)
  qed
next
  case (Cons x xs)
  show ?case
  proof (cases "position d <s loc")
    case False
    then have "sint (position d) = sint loc" using Cons.prems(2) by (simp add: word_sless_alt)
    then show ?thesis using Cons.prems False by (simp add: seek_forward.simps [of loc out d v] signed_word_eqI)
  next
    case True
    obtain st h u where one: "VirtualFS_dirnext out (dirh d) v = Some (((0, x, st), h), u)" "delivers h u xs"
      using Cons.prems(1) unfolding delivers.simps by blast
    let ?d = "d\<lparr>dirh := h, position := position d + 1\<rparr>"
    have pos: "sint (position ?d) = sint (position d) + 1" by (simp add: sless_Suc [OF True])
    have run: "seek_forward loc (x, st) ?d u = Some (d', v')"
      using Cons.prems(3) True one(1) by (simp add: seek_forward.simps [of loc out d v])
    have "sint (position d) < sint loc" using True by (simp add: word_sless_alt)
    then have n: "n = Suc (nat (sint loc - sint (position ?d)))" "sint (position ?d) \<le> sint loc"
      using Cons.prems(4) pos by simp_all
    have "delivers (dirh ?d) u xs" using one(2) by simp
    from Cons.IH [OF this n(2) run refl] show ?thesis unfolding n(1) pos by simp
  qed
qed

text \<open>Where a seek starts: at the beginning, after a rewind, when it goes back, else where the stream is.\<close>

definition seek_start :: "u64 \<Rightarrow> 'd dirstream \<Rightarrow> ('f, 'h, 'd, 'w) VirtualFS \<Rightarrow>
    (int \<times> 'd DirectoryHandle \<times> ('f, 'h, 'd, 'w) VirtualFS) option" where
  "seek_start loc d v = (if loc <s position d
     then do { ((_, h), v) \<leftarrow> VirtualFS_dirreset (dirh d) v; Some (0, h, v) }
     else Some (sint (position d), dirh d, v))"

text \<open>C27: \<open>seekdir\<close> to a position that is no negative number returns, keeps the good state and errno, and
  leaves the stream at that position in the directory: let the stream deliver the entries \<open>es\<close> from where the
  seek starts (after the rewind when it goes back, else from its present position). When there are enough
  of them, the position is the one asked for and what the stream delivers next is what follows in \<open>es\<close>; else the
  position is the number of the last entry there is. The last entry read stays readable.\<close>

theorem seekdir_correct:
  assumes "good root_of v" "umap_contains (dir_root (dirh d)) (m_mounts v)" "0 \<le> sint (position d)" "0 \<le> sint loc"
    and "seek_start loc d v = Some (p, h, u)" "delivers h u es"
  shows "\<exists>d' v'. sys_seekdir (Some d) loc err v = Some (Some d', err, v') \<and> good root_of v' \<and>
    dir_data d' = dir_data d \<and> dir_root (dirh d') = dir_root (dirh d) \<and>
    (if nat (sint loc - p) \<le> length es
     then position d' = loc \<and> delivers (dirh d') v' (drop (nat (sint loc - p)) es)
     else sint (position d') = p + int (length es))"
proof -
  let ?d = "if loc <s position d then d\<lparr>dirh := h, position := 0\<rparr> else d"
  obtain e h2 u2 where reset: "VirtualFS_dirreset (dirh d) v = Some ((e, h2), u2)" "good root_of u2" "kept v u2"
    "dir_root h2 = dir_root (dirh d)"
    by (rule dirreset_returns [OF assms(1,2)])
  have start: "p = sint (position ?d)" "h = dirh ?d" "good root_of u" "umap_contains (dir_root h) (m_mounts u)"
    "dir_root h = dir_root (dirh d)" "sint (position ?d) \<le> sint loc"
    using assms reset by (auto simp: seek_start_def kept_contains word_sless_alt split: if_splits)
  have run: "sys_seekdir (Some d) loc err v =
      do { (d, v) \<leftarrow> seek_forward loc ([], stat_zero) ?d u; Some (Some d, err, v) }"
    using assms(4,5) reset(1) by (auto simp: sys_seekdir_def seek_start_def word_sless_alt)
  have "umap_contains (dir_root (dirh ?d)) (m_mounts u)" using start(2,4) by simp
  then obtain d' v' where s: "seek_forward loc ([], stat_zero) ?d u = Some (d', v')" "good root_of v'"
    "dir_data d' = dir_data ?d" "dir_root (dirh d') = dir_root (dirh ?d)"
    using seek_forward_returns [OF start(3), of ?d loc "([], stat_zero)"] by blast
  moreover have "delivers (dirh ?d) u es" using assms(6) start(2) by simp
  note seek_forward_delivers [OF this start(6) s(1) refl]
  moreover have "dir_data ?d = dir_data d" "dir_root (dirh ?d) = dir_root (dirh d)" using start(2,5) by simp_all
  ultimately show ?thesis using run start(1) by simp
qed

lemma sample_call:
  assumes "m (filesystem_lwext4_ops sample_api) sample_fs () = (r, sample_fs, ())"
  shows "call_locked ''/vol'' m (sample_vfs 0) = Some (r, sample_vfs 0)"
proof -
  let ?l = "locker_new (sample_mount ''/vol'' 0)"
  have same: "(sample_fs :: unit filesystem_lwext4)\<lparr>lw_root := ''/vol''\<rparr> = sample_fs" by (simp add: sample_fs_def)
  have "call_locked ''/vol'' m (sample_vfs 0) = Some (r, after_call ''/vol'' ?l sample_fs () (sample_vfs 0))"
    using assms same by (intro call_locked_eq sample_vfs_key) (simp_all add: locker_new_def sample_mount_def)
  moreover have "after_call ''/vol'' ?l sample_fs () (sample_vfs 0) = sample_vfs 0"
    by (simp add: after_call_def sample_vfs_def VirtualFS_new_def locker_new_def sample_mount_def umap_modify_def same)
  ultimately show ?thesis by simp
qed

lemma sample_dirnext:
  "VirtualFS_dirnext out \<lparr>dir_root = ''/vol'', dir_raw = n\<rparr> (sample_vfs 0) =
    Some (((case sample_dirent n of
        Some de \<Rightarrow> (EOK, de_name de, stat_zero\<lparr>st_ino := uint (de_inode de),
          st_mode := uint (ino_to_st_mode (uint (de_inode_type de)))\<rparr>)
      | None \<Rightarrow> (ENOENT, out)), \<lparr>dir_root = ''/vol'', dir_raw = n + 1\<rparr>), sample_vfs 0)"
proof -
  have "call_locked ''/vol'' (\<lambda>fs. fs_dirnext fs out \<lparr>dir_root = ''/vol'', dir_raw = n\<rparr>) (sample_vfs 0) =
    Some (((case sample_dirent n of
        Some de \<Rightarrow> (EOK, de_name de, stat_zero\<lparr>st_ino := uint (de_inode de),
          st_mode := uint (ino_to_st_mode (uint (de_inode_type de)))\<rparr>)
      | None \<Rightarrow> (ENOENT, out)), \<lparr>dir_root = ''/vol'', dir_raw = n + 1\<rparr>), sample_vfs 0)"
    by (rule sample_call) (simp add: filesystem_lwext4_ops_def lwext4_dirnext_def sample_api_def)
  then show ?thesis by (simp add: VirtualFS_dirnext_def invoke_dirops_def DirectoryHandle_get_root_def)
qed

definition sample_dirstream :: "nat dirstream" where
  "sample_dirstream = \<lparr>dirh = \<lparr>dir_root = ''/vol'', dir_raw = 0\<rparr>, position = 7, dir_data = dirent_zero\<rparr>"

text \<open>The sample directory has the entries \<open>.\<close>, \<open>..\<close> and \<open>a\<close>; going back to its third entry.\<close>

theorem seekdir_correct_witness:
  "\<exists>d' v'. sys_seekdir (Some sample_dirstream) 2 0 (sample_vfs 0) = Some (Some d', 0, v') \<and> position d' = 2 \<and>
    delivers (dirh d') v' [''a'']"
proof -
  have mounted: "umap_contains (dir_root (dirh sample_dirstream)) (m_mounts (sample_vfs 0))"
    by (simp add: sample_dirstream_def sample_vfs_def umap_contains_def)
  have "call_locked ''/vol'' (\<lambda>fs. fs_dirreset fs \<lparr>dir_root = ''/vol'', dir_raw = 0\<rparr>) (sample_vfs 0) =
      Some ((EOK, \<lparr>dir_root = ''/vol'', dir_raw = 0\<rparr>), sample_vfs 0)"
    by (rule sample_call) (simp add: filesystem_lwext4_ops_def lwext4_dirreset_def sample_api_def)
  then have start: "seek_start 2 sample_dirstream (sample_vfs 0) = Some (0, \<lparr>dir_root = ''/vol'', dir_raw = 0\<rparr>, sample_vfs 0)"
    by (simp add: seek_start_def sample_dirstream_def VirtualFS_dirreset_def invoke_dirops_def DirectoryHandle_get_root_def
        word_sless_alt)
  have "delivers \<lparr>dir_root = ''/vol'', dir_raw = 0\<rparr> (sample_vfs 0) [''.'', ''..'', ''a'']"
    by (simp add: sample_dirnext sample_dirent_def)
  from seekdir_correct [OF sample_vfs_good mounted _ _ start this, of 0]
  show ?thesis by (simp add: sample_dirstream_def numeral_eq_Suc) blast
qed

text \<open>Going back is a rewind that ignores its error, then a walk.\<close>

lemma seekdir_back:
  assumes "0 \<le> sint loc" "loc <s position d" "VirtualFS_dirreset (dirh d) v = Some ((0, h), u)"
  shows "sys_seekdir (Some d) loc err v =
    do { (d, err, v) \<leftarrow> sys_rewinddir (Some d) err v; sys_seekdir d loc err v }"
  using assms by (simp add: sys_seekdir_def sys_rewinddir_def word_sless_alt)

datatype dir_call = Readdir | Readdir_r dirent | Rewinddir | Seekdir u64 | Telldir

fun run_dir_call :: "dir_call \<Rightarrow> 'd dirstream option \<Rightarrow> int \<Rightarrow> ('f, 'h, 'd, 'w) VirtualFS \<Rightarrow>
    ('d dirstream option, ('f, 'h, 'd, 'w) VirtualFS) syscall" where
  "run_dir_call Readdir d err v = do { ((_, d), err, v) \<leftarrow> sys_readdir d err v; Some (d, err, v) }"
| "run_dir_call (Readdir_r entry) d err v = do { ((_, _, _, d), err, v) \<leftarrow> sys_readdir_r d entry True err v; Some (d, err, v) }"
| "run_dir_call Rewinddir d err v = sys_rewinddir d err v"
| "run_dir_call (Seekdir loc) d err v = sys_seekdir d loc err v"
| "run_dir_call Telldir d err v = do { (_, err, v) \<leftarrow> sys_telldir d err v; Some (d, err, v) }"

fun run_dir_calls :: "dir_call list \<Rightarrow> 'd dirstream option \<Rightarrow> int \<Rightarrow> ('f, 'h, 'd, 'w) VirtualFS \<Rightarrow>
    ('d dirstream option, ('f, 'h, 'd, 'w) VirtualFS) syscall" where
  "run_dir_calls [] d err v = Some (d, err, v)"
| "run_dir_calls (c # cs) d err v = do { (d, err, v) \<leftarrow> run_dir_call c d err v; run_dir_calls cs d err v }"

lemma run_dir_call_returns:
  assumes "good root_of v" "umap_contains (dir_root (dirh d)) (m_mounts v)"
  shows "\<exists>d' err' v'. run_dir_call c (Some d) err v = Some (Some d', err', v') \<and> good root_of v' \<and> kept v v' \<and>
    dir_root (dirh d') = dir_root (dirh d)"
proof -
  obtain e name st h u where nxt: "VirtualFS_dirnext ([], stat_zero) (dirh d) v = Some (((e, name, st), h), u)"
    "good root_of u" "kept v u" "dir_root h = dir_root (dirh d)"
    by (rule dirnext_returns [OF assms]) auto
  obtain e2 h2 u2 where reset: "VirtualFS_dirreset (dirh d) v = Some ((e2, h2), u2)" "good root_of u2" "kept v u2"
    "dir_root h2 = dir_root (dirh d)"
    by (rule dirreset_returns [OF assms])
  show ?thesis
  proof (cases c)
    case (Seekdir loc)
    have "umap_contains (dir_root h2) (m_mounts u2)" using assms(2) reset(3,4) by (simp add: kept_contains)
    then have "\<exists>d' v'. seek_forward loc ([], stat_zero) (d\<lparr>dirh := h2, position := 0\<rparr>) u2 = Some (d', v') \<and> good root_of v' \<and>
        kept v v' \<and> dir_root (dirh d') = dir_root (dirh d)"
      using seek_forward_returns [OF reset(2), of "d\<lparr>dirh := h2, position := 0\<rparr>" loc "([], stat_zero)"] reset(4)
        kept_trans [OF reset(3)] by auto
    moreover have "\<exists>d' v'. seek_forward loc ([], stat_zero) d v = Some (d', v') \<and> good root_of v' \<and>
        kept v v' \<and> dir_root (dirh d') = dir_root (dirh d)"
      using seek_forward_returns [OF assms, of loc "([], stat_zero)"] by auto
    ultimately show ?thesis using assms reset(1) by (auto simp: Seekdir sys_seekdir_def)
  qed (use assms nxt reset in \<open>auto simp: sys_readdir_def sys_readdir_r_def sys_rewinddir_def sys_telldir_def Let_def\<close>)
qed

lemma run_dir_calls_return:
  "good root_of v \<Longrightarrow> umap_contains (dir_root (dirh d)) (m_mounts v) \<Longrightarrow>
    \<exists>d' err' v'. run_dir_calls cs (Some d) err v = Some (Some d', err', v') \<and> good root_of v' \<and> kept v v' \<and>
      dir_root (dirh d') = dir_root (dirh d)"
proof (induction cs arbitrary: d err v)
  case Nil
  then show ?case by simp
next
  case (Cons c cs)
  obtain d1 err1 v1 where one: "run_dir_call c (Some d) err v = Some (Some d1, err1, v1)" "good root_of v1" "kept v v1"
    "dir_root (dirh d1) = dir_root (dirh d)"
    using run_dir_call_returns [OF Cons.prems] by blast
  have "umap_contains (dir_root (dirh d1)) (m_mounts v1)" using Cons.prems(2) one(3,4) by (simp add: kept_contains)
  then show ?case using Cons.IH [OF one(2), of d1 err1] one kept_trans [OF one(3)] by auto
qed

lemma diropen_result:
  assumes good: "good root_of v"
  shows "\<exists>r v'. VirtualFS_diropen path v = Some (r, v') \<and> good root_of v' \<and> kept v v' \<and>
    (case r of Inl _ \<Rightarrow> True | Inr h \<Rightarrow> umap_contains (dir_root h) (m_mounts v'))"
proof (cases "absolute_path path")
  case (Inl e)
  then show ?thesis using good by (simp add: VirtualFS_diropen_def)
next
  case (Inr abspath)
  show ?thesis
  proof (cases "find_mount_point abspath (m_mounts v)")
    case None
    then show ?thesis using Inr good by (simp add: VirtualFS_diropen_def)
  next
    case (Some key)
    have ok: "vfs_ok root_of v" using good by (simp add: good_def)
    have key: "umap_contains key (m_mounts v)" using find_mount_point_key [OF Some] by blast
    obtain r l self w where call: "root_of (mp_self (locker_value l)) = key"
      "rooted_filesystem (mp_fs (locker_value l)) root_of"
      "fs_diropen (mp_fs (locker_value l)) abspath (mp_self (locker_value l)) (world v) = (r, self, w)"
      "call_locked key (\<lambda>fs. fs_diropen fs abspath) v = Some (r, after_call key l self w v)"
      "vfs_ok root_of (after_call key l self w v)"
      by (rule call_locked_ok [OF ok key, of "\<lambda>fs. fs_diropen fs abspath"])
        (use rooted_filesystem.diropen_keeps in blast)+
    have "dir_root h = key" if "r = Inr h" for h
      using rooted_filesystem.diropen_root [OF call(2)] call(1,3) that by auto
    then show ?thesis
      using Some Inr call(4,5) key good
      by (auto simp: VirtualFS_diropen_def good_def after_call_files kept_contains [OF after_call_simps(4)] split: sum.split)
  qed
qed

lemma dirclose_returns:
  assumes "good root_of v" "umap_contains (dir_root h) (m_mounts v)"
  obtains e h' v' where "VirtualFS_dirclose h v = Some ((e, h'), v')" "good root_of v'" "kept v v'"
  unfolding VirtualFS_dirclose_def by (rule dirops_return [OF assms rooted_filesystem.dir_keeps(3)])

text \<open>C19: A directory is read to its end or anywhere else without getting stuck: \<open>opendir\<close> returns, with a null
  pointer and the error or with a stream; on the stream any sequence of \<open>readdir\<close>, \<open>readdir_r\<close>, \<open>rewinddir\<close>,
  \<open>seekdir\<close> and \<open>telldir\<close> returns, and so does \<open>closedir\<close> after it, from a good state to a good state.\<close>

theorem dir_session_never_stuck:
  assumes "good root_of v"
  shows "\<exists>dirp err' v1. sys_opendir allocated name err v = Some (dirp, err', v1) \<and> good root_of v1 \<and> kept v v1 \<and>
    (case dirp of None \<Rightarrow> True
     | Some d \<Rightarrow> \<exists>d' err2 v2 r err3 v3. run_dir_calls calls (Some d) err' v1 = Some (Some d', err2, v2) \<and>
         sys_closedir (Some d') err2 v2 = Some (r, err3, v3) \<and> good root_of v3 \<and> kept v v3)"
proof (cases "name = None \<or> \<not> allocated")
  case True
  then show ?thesis using assms by (cases name) (auto simp: sys_opendir_def)
next
  case False
  then obtain path where name: "name = Some path" and allocated by auto
  obtain r v1 where opened: "VirtualFS_diropen path v = Some (r, v1)" "good root_of v1" "kept v v1"
    "case r of Inl _ \<Rightarrow> True | Inr h \<Rightarrow> umap_contains (dir_root h) (m_mounts v1)"
    using diropen_result [OF assms] by blast
  show ?thesis
  proof (cases r)
    case (Inl e)
    then show ?thesis using opened \<open>allocated\<close> by (simp add: sys_opendir_def name)
  next
    case (Inr h)
    let ?d = "\<lparr>dirh = h, position = 0, dir_data = dirent_zero\<rparr>"
    have "umap_contains (dir_root (dirh ?d)) (m_mounts v1)" using opened(4) Inr by simp
    from run_dir_calls_return [OF opened(2) this] obtain d' err2 v2 where ran:
      "run_dir_calls calls (Some ?d) err v1 = Some (Some d', err2, v2)" "good root_of v2" "kept v1 v2"
      "dir_root (dirh d') = dir_root h"
      by fastforce
    have "umap_contains (dir_root (dirh d')) (m_mounts v2)" using opened(4) Inr ran(3,4) by (simp add: kept_contains)
    from dirclose_returns [OF ran(2) this] obtain e h' v3 where
      "VirtualFS_dirclose (dirh d') v2 = Some ((e, h'), v3)" "good root_of v3" "kept v2 v3" by blast
    then show ?thesis
      using opened ran Inr \<open>allocated\<close> kept_trans [OF opened(3)] kept_trans [OF ran(3)]
      by (simp add: sys_opendir_def sys_closedir_def name)
  qed
qed

theorem dir_session_never_stuck_witness:
  "\<exists>dirp err' v1. sys_opendir True (Some ''/vol'') 0 (sample_vfs 0) = Some (dirp, err', v1) \<and> kept (sample_vfs 0) v1"
  using dir_session_never_stuck [OF sample_vfs_good [of 0], of True "Some ''/vol''" 0 "[Readdir, Seekdir 4]"] by blast

section \<open>Read-only volumes\<close>

lemma open_read_only:
  assumes "vfs_ok root_of v" "absolute_path path = Inr abspath" "find_mount_point abspath (m_mounts v) = Some key"
    and "map_of (m_mounts v) key = Some l" "flags_test (mp_flags (locker_value l)) read_only"
    and "word_of_int flags AND O_ACCMODE \<noteq> O_RDONLY"
  shows "VirtualFS_open path flags mode v = Some (Inl EACCES, v)"
proof -
  let ?v = "v\<lparr>m_mutex := rm_lock (m_mutex v)\<rparr>"
  have l: "umap_wf (m_mounts ?v)" "map_of (m_mounts ?v) key = Some l" "\<not> locker_mutex l"
    using vfs_okD [OF assms(1)] assms(4) by (auto simp: mount_ok_def)
  obtain r self w where call: "fs_open (mp_fs (locker_value l)) abspath (word_of_int flags) mode
      (mp_self (locker_value l)) (world ?v) = (r, self, w)"
    by (metis surj_pair)
  have "open_on_mount key path abspath flags mode ?v = Some (Inl EACCES, ?v)"
    using open_on_mount_eq [OF l call, of path] assms(5,6) by simp
  then show ?thesis using assms(2,3) by (simp add: VirtualFS_open_def lock_guard_def)
qed

text \<open>C28: The mount flag \<open>MS_RDONLY\<close> of the \<open>mount\<close> call keeps writers away: every \<open>open\<close> for writing of a path that
  lies on the volume fails with \<open>EACCES\<close> and changes nothing.\<close>

theorem readonly_mount_refuses_writers:
  assumes "good root_of v" "factories_ok root_of v"
    and "sys_mount (Some dev) (Some dir) (Some fstype) mountflags err v = Some (0, err1, v1)" "dir \<noteq> []"
    and "bit mountflags 0" "absolute_path path = Inr abspath" "find_mount_point abspath (m_mounts v1) = Some dir"
    and "word_of_int flags AND O_ACCMODE \<noteq> O_RDONLY"
  shows "sys_open (Some path) flags mode err1 v1 = Some (-1, EACCES, v1)"
proof -
  have mounted: "VirtualFS_mount dev dir fstype (ucast mountflags) v = Some (EOK, v1)"
    using assms(3) by (auto simp: sys_mount_def invoke_fs_code_def bind_eq_Some_conv split: if_splits)
  obtain l where l: "m_mounts v1 = (dir, l) # m_mounts v" "mp_flags (locker_value l) = ucast mountflags"
    using mount_returns [OF mounted] assms(4) by auto
  have "vfs_ok root_of v1" using mount_good [OF assms(1,2) mounted] by (simp add: good_def)
  moreover have "flags_test (mp_flags (locker_value l)) read_only"
    using assms(5) by (simp add: l(2) flags_test_def bit_simps)
  ultimately show ?thesis
    using open_read_only [OF _ assms(6,7), of root_of l flags mode] assms(8) l(1)
    by (simp add: sys_open_def invoke_fs_result_def)
qed

lemma sample_read_only_mounting:
  "\<exists>v'. sys_mount (Some ''disk0p0'') (Some ''/vol'') (Some ''ext4'') 1 0 sample_machine = Some (0, 0, v')"
  by (simp add: sys_mount_def invoke_fs_code_def VirtualFS_mount_def lock_guard_def sample_discovery)
    (simp add: sample_machine_def VirtualFS_new_def get_fs_factory_def fs_type_eq_def ext4_type_def
      filesystem_factory_lwext4_def create_filesystem_lwext4_def sample_api_def choose_root_def umap_contains_def
      filesystem_lwext4_ops_def lwext4_mount_def)

theorem readonly_mount_refuses_writers_witness:
  "\<exists>v'. sys_mount (Some ''disk0p0'') (Some ''/vol'') (Some ''ext4'') 1 0 sample_machine = Some (0, 0, v') \<and>
     sys_open (Some ''/vol/a'') 1 0 0 v' = Some (-1, EACCES, v')"
proof -
  obtain v' where run: "sys_mount (Some ''disk0p0'') (Some ''/vol'') (Some ''ext4'') 1 0 sample_machine = Some (0, 0, v')"
    using sample_read_only_mounting by blast
  have abs: "absolute_path ''/vol/a'' = Inr ''/vol/a''" by code_simp
  have "VirtualFS_mount ''disk0p0'' ''/vol'' ''ext4'' 1 sample_machine = Some (EOK, v')"
    using run by (auto simp: sys_mount_def invoke_fs_code_def bind_eq_Some_conv split: if_splits)
  then obtain l where "m_mounts v' = (''/vol'', l) # m_mounts sample_machine"
    using mount_returns by fastforce
  then have found: "find_mount_point ''/vol/a'' (m_mounts v') = Some ''/vol''" by simp
  show ?thesis
    using readonly_mount_refuses_writers [OF sample_machine_good run _ _ abs found, of 1 0] run
    by (simp add: O_ACCMODE_def O_RDONLY_def)
qed

section \<open>Opening and closing\<close>

lemma open_result:
  assumes good: "good root_of v" and run: "VirtualFS_open path flags mode v = Some (Inr fd, v1)"
    and idx: "fd_idx (m_fd_container v) < INT_MAX"
  shows "good root_of v1 \<and> (\<exists>h. fd_insert path h (m_fd_container v) = Some (fd, m_fd_container v1))"
proof -
  let ?v = "v\<lparr>m_mutex := rm_lock (m_mutex v)\<rparr>"
  have g: "good root_of v1" using open_settles [OF good idx, of path flags mode] run by (auto simp: settles_def)
  obtain abspath key where path: "absolute_path path = Inr abspath" "find_mount_point abspath (m_mounts v) = Some key"
    using run by (auto simp: VirtualFS_open_def lock_guard_def split: sum.splits option.splits)
  have ok: "vfs_ok root_of v" using good by (simp add: good_def)
  obtain l where l: "map_of (m_mounts v) key = Some l" "\<not> locker_mutex l"
    using vfs_ok_mount [OF ok] find_mount_point_key [OF path(2)] by metis
  obtain r self w where call: "fs_open (mp_fs (locker_value l)) abspath (word_of_int flags) mode
      (mp_self (locker_value l)) (world ?v) = (r, self, w)"
    by (metis surj_pair)
  have wf: "umap_wf (m_mounts ?v)" using ok by (simp add: vfs_ok_def)
  have "map_of (m_mounts ?v) key = Some l" using l by simp
  note on = open_on_mount_eq [OF wf this l(2) call, of path]
  show ?thesis
    using run path g
    by (auto simp: VirtualFS_open_def lock_guard_def on bind_eq_Some_conv split: if_splits sum.splits)
qed

lemma close_plain:
  assumes good: "good root_of v" and on: "open_files (m_fd_container v) p = Some (insert fd s, b)"
    and fd: "fd \<notin> s" "s = {} \<Longrightarrow> \<not> b"
  shows "\<exists>r v'. VirtualFS_close fd v = Some (r, v') \<and> good root_of v' \<and> \<not> fd_exist fd (m_fd_container v') \<and>
    open_files (m_fd_container v') = (open_files (m_fd_container v))(p := if s = {} then None else Some (s, b))"
proof -
  let ?v = "v\<lparr>m_mutex := rm_lock (m_mutex v)\<rparr>"
  have g: "good root_of ?v" using good by (rule good_rm_lock)
  have ok: "container_ok (m_fd_container v)" using good by (simp add: good_def vfs_ok_def)
  have ex: "fd_exist fd (m_fd_container v)" using on container_okD(7) [OF ok, of fd] by (auto simp: open_on_files)
  then obtain fil where fil: "fd_handle fd (m_fd_container ?v) = Some fil" by (auto simp: fd_exist_handle)
  obtain r u q d where k: "invoke_fops_fd fs_close (\<lambda>e. e) fd ?v = Some (r, u)" "good root_of u"
    "fd_remove fd (m_fd_container u) = (q, d)" "good root_of (u\<lparr>m_fd_container := d\<rparr>)"
    "kept ?v (u\<lparr>m_fd_container := d\<rparr>)" "open_files (m_fd_container u) = open_files (m_fd_container ?v)"
    by (rule close_known [OF g fil]) blast
  have oku: "container_ok (m_fd_container u)" using k(2) by (simp add: good_def vfs_ok_def)
  have onu: "open_files (m_fd_container u) p = Some (insert fd s, b)" using k(6) on by simp
  note rem = fd_remove_files [OF oku onu insertI1, unfolded k(3), simplified]
  have whole: "insert fd s = {fd} \<longleftrightarrow> s = {}" "insert fd s - {fd} = s" using fd(1) by auto
  have "q = None" using rem(1) fd whole by (auto split: if_splits)
  moreover have "m_mutex u = rm_lock (m_mutex v)" using k(5) by (simp add: kept_def)
  ultimately have "VirtualFS_close fd v = Some (r, u\<lparr>m_fd_container := d, m_mutex := m_mutex v\<rparr>)"
    using ex k(1,3) by (simp add: VirtualFS_close_def lock_guard_def Let_def)
  moreover have "good root_of (u\<lparr>m_fd_container := d, m_mutex := m_mutex v\<rparr>)" using k(4) good_rm_lock by blast
  moreover have "\<not> fd_exist fd d" by (simp add: fd_exist_def rem(3) umap_simps)
  moreover have "open_files d = (open_files (m_fd_container v))(p := if s = {} then None else Some (s, b))"
    using rem(2) k(6) whole fd(1) by simp
  ultimately show ?thesis by simp
qed

text \<open>C8: Closing what was just opened restores the table of open files: in a good state with descriptor numbers left,
  when \<open>open\<close> has returned a descriptor, \<open>close\<close> of it returns in a good state, and whatever the file system
  answers to it, the descriptor is free again and every path has the descriptors and the mark it had before the
  \<open>open\<close>.\<close>

theorem open_close_restores:
  assumes "good root_of v" "fd_idx (m_fd_container v) < INT_MAX"
    and "sys_open (Some path) flags mode err v = Some (fd, e, v1)" "0 \<le> fd"
  shows "\<exists>r err2 v2. sys_close fd e v1 = Some (r, err2, v2) \<and> good root_of v2 \<and>
    open_files (m_fd_container v2) = open_files (m_fd_container v) \<and> \<not> fd_exist fd (m_fd_container v2)"
proof -
  have ok: "container_ok (m_fd_container v)" using assms(1) by (simp add: good_def vfs_ok_def)
  obtain x u where x: "VirtualFS_open path flags mode v = Some (x, u)"
    "(case x of Inl e \<Rightarrow> Some (-1, e, u) | Inr k \<Rightarrow> Some (to_int k, 0, u)) = Some (fd, e, v1)"
    using assms(3) by (auto simp: sys_open_def invoke_fs_result_def bind_eq_Some_conv)
  then obtain n where n: "VirtualFS_open path flags mode v = Some (Inr n, v1)" "fd = to_int n"
    using assms(4) by (cases x) auto
  obtain h where g: "good root_of v1" and ins: "fd_insert path h (m_fd_container v) = Some (n, m_fd_container v1)"
    using open_result [OF assms(1) n(1) assms(2)] by blast
  have idx: "n = fd_idx (m_fd_container v)" using open_files_insert(1) [OF ins] .
  have "3 \<le> n" "n < 2147483647" using idx container_okD(3) [OF ok] assms(2) by (simp_all add: INT_MAX_def)
  then have fd: "fd = n"
    by (simp add: n(2) to_int_def int_word_sint)
  let ?p = "lexically_normal path"
  obtain s b where before: "n \<notin> s" "s = {} \<Longrightarrow> \<not> b" "open_files (m_fd_container v1) ?p = Some (insert n s, b)"
    "open_files (m_fd_container v) ?p = (if s = {} then None else Some (s, b))"
  proof (cases "open_files (m_fd_container v) ?p")
    case None
    then show thesis using that [of "{}" False] open_files_insert(2) [OF ins] by simp
  next
    case (Some sb)
    obtain s b where sb: "sb = (s, b)" by (cases sb)
    have "s \<noteq> {}" using Some container_okD(5) [OF ok] by (auto simp: sb open_files_def)
    moreover have "n \<notin> s" using fresh_not_open [OF ok] Some container_okD(7) [OF ok, of n] by (auto simp: sb idx open_on_files)
    ultimately show thesis using that [of s b] open_files_insert(2) [OF ins] Some by (simp add: sb)
  qed
  obtain r v2 where v2: "VirtualFS_close n v1 = Some (r, v2)" "good root_of v2" "\<not> fd_exist n (m_fd_container v2)"
    "open_files (m_fd_container v2) = (open_files (m_fd_container v1))(?p := if s = {} then None else Some (s, b))"
    using close_plain [OF g before(3,1,2)] by blast
  have "open_files (m_fd_container v2) = open_files (m_fd_container v)"
    using v2(4) before(4) open_files_insert(2) [OF ins] by (auto simp: fun_eq_iff)
  then show ?thesis using v2 by (simp add: sys_close_def invoke_fs_code_def fd)
qed

lemma sample_open_call_result:
  "\<exists>v'. VirtualFS_open ''/vol/a'' 2 0 (sample_vfs 0) = Some (Inr 3, v')"
proof -
  let ?v = "(sample_vfs 0)\<lparr>m_mutex := rm_lock 0\<rparr>"
  have abs: "absolute_path ''/vol/a'' = Inr ''/vol/a''" "lexically_normal ''/vol/a'' = ''/vol/a''" by code_simp+
  have wf: "umap_wf (m_mounts ?v)" and l: "map_of (m_mounts ?v) ''/vol'' = Some (locker_new (sample_mount ''/vol'' 0))"
    by (simp_all add: sample_vfs_def umap_wf_def umap_keys_def)
  have call: "fs_open (mp_fs (locker_value (locker_new (sample_mount ''/vol'' 0)))) ''/vol/a'' (word_of_int 2) 0
     (mp_self (locker_value (locker_new (sample_mount ''/vol'' 0)))) (world ?v) =
   (Inr \<lparr>file_abspath = ''/vol/a'', file_root = ''/vol'', file_raw = 0\<rparr>, sample_fs, ())"
    using sample_open_call [of 0 "''/vol/a''" "word_of_int 2" 0] by simp
  have "\<not> flags_test (mp_flags (locker_value (locker_new (sample_mount ''/vol'' 0)))) read_only"
    by (simp add: flags_test_def locker_new_def sample_mount_def)
  then have "open_on_mount ''/vol'' ''/vol/a'' ''/vol/a'' 2 0 ?v = (do {
      (fd, c) \<leftarrow> fd_insert ''/vol/a'' \<lparr>file_abspath = ''/vol/a'', file_root = ''/vol'', file_raw = 0\<rparr> (m_fd_container ?v);
      Some (Inr fd, (after_call ''/vol'' (locker_new (sample_mount ''/vol'' 0)) sample_fs () ?v)\<lparr>m_fd_container := c\<rparr>) })"
    using open_on_mount_eq [OF wf l _ call, of "''/vol/a''"] by (simp add: locker_new_def)
  moreover have "m_mutex (sample_vfs 0) = 0" by (simp add: sample_vfs_mutex)
  ultimately show ?thesis
    by (simp add: VirtualFS_open_def lock_guard_def abs(1) sample_vfs_key fd_insert_def Let_def sample_vfs_idx INT_MAX_def)
qed

theorem open_close_restores_witness:
  "\<exists>v1 r err2 v2. sys_open (Some ''/vol/a'') 2 0 0 (sample_vfs 0) = Some (3, 0, v1) \<and>
    sys_close 3 0 v1 = Some (r, err2, v2) \<and> open_files (m_fd_container v2) = open_files (m_fd_container (sample_vfs 0))"
proof -
  obtain v1 where "VirtualFS_open ''/vol/a'' 2 0 (sample_vfs 0) = Some (Inr 3, v1)" using sample_open_call_result by blast
  then have run: "sys_open (Some ''/vol/a'') 2 0 0 (sample_vfs 0) = Some (3, 0, v1)"
    by (simp add: sys_open_def invoke_fs_result_def to_int_def)
  have "fd_idx (m_fd_container (sample_vfs 0)) < INT_MAX" by (simp add: sample_vfs_idx INT_MAX_def)
  then show ?thesis
    using open_close_restores [OF sample_vfs_good [of 0] _ run] run by auto
qed

section \<open>What a caller cannot see\<close>

text \<open>\<open>lseek\<close> returns its position through an \<open>int\<close>: a position of 31 bits arrives, any other one arrives
  as another number, with errno 0.\<close>

theorem sys_lseek_truncates:
  assumes "VirtualFS_lseek fd pos dir v = Some (Inr p, v')"
  shows "\<exists>r. sys_lseek fd pos dir err v = Some (r, 0, v') \<and> (r = p \<longleftrightarrow> - (2 ^ 31) \<le> p \<and> p < 2 ^ 31) \<and>
    - (2 ^ 31) \<le> r \<and> r < 2 ^ 31"
proof -
  have as_mod: "to_int p = (p + 2147483648) mod 4294967296 - 2147483648" by (simp add: to_int_def int_word_sint)
  have range: "0 \<le> (p + 2147483648) mod 4294967296" "(p + 2147483648) mod 4294967296 < 4294967296" by simp_all
  have "(p + 2147483648) mod 4294967296 = p + 2147483648" if "- 2147483648 \<le> p" "p < 2147483648"
    using that by (intro mod_pos_pos_trivial) simp_all
  then have "to_int p = p \<longleftrightarrow> - (2 ^ 31) \<le> p \<and> p < 2 ^ 31" "- (2 ^ 31) \<le> to_int p" "to_int p < 2 ^ 31"
    using range unfolding as_mod by auto
  then show ?thesis using assms by (simp add: sys_lseek_def invoke_fs_result_def)
qed

lemma sample_lseek: "\<exists>v'. VirtualFS_lseek 3 4294967301 0 sample_open_vfs = Some (Inr 4294967301, v')"
proof -
  let ?fil = "\<lparr>file_abspath = ''/vol/a'', file_root = ''/vol'', file_raw = 0\<rparr>"
  let ?v = "sample_open_vfs\<lparr>m_mutex := m_mutex sample_open_vfs\<rparr>"
  have "map_of (m_mounts ?v) ''/vol'' = Some (locker_new (sample_mount ''/vol'' 0))"
    using sample_open_vfs_simps(3) by simp
  moreover have "fs_lseek (mp_fs (locker_value (locker_new (sample_mount ''/vol'' 0)))) 4294967301 0 ?fil
      (mp_self (locker_value (locker_new (sample_mount ''/vol'' 0)))) (world ?v) =
      ((Inr 4294967301, ?fil\<lparr>file_raw := 4294967301\<rparr>), sample_fs, ())"
    by (simp add: locker_new_def sample_mount_def filesystem_lwext4_ops_def lwext4_lseek_def invoke_raw_def sample_api_def
        sample_fs_def)
  ultimately have "call_locked ''/vol'' (\<lambda>fs. fs_lseek fs 4294967301 0 ?fil) ?v =
      Some ((Inr 4294967301, ?fil\<lparr>file_raw := 4294967301\<rparr>),
        after_call ''/vol'' (locker_new (sample_mount ''/vol'' 0)) sample_fs () ?v)"
    by (intro call_locked_eq) (simp_all add: locker_new_def)
  moreover have "fd_exist 3 (m_fd_container sample_open_vfs)"
    using sample_open_vfs_simps(2) by (auto simp: fd_exist_handle)
  ultimately show ?thesis
    by (simp add: VirtualFS_lseek_def invoke_fops_fd_def sample_open_vfs_simps(2) FileHandle_get_root_def)
qed

theorem sys_lseek_truncates_witness:
  "\<exists>r v'. sys_lseek 3 4294967301 0 0 sample_open_vfs = Some (r, 0, v') \<and> r \<noteq> 4294967301"
proof -
  obtain v' where "VirtualFS_lseek 3 4294967301 0 sample_open_vfs = Some (Inr 4294967301, v')" using sample_lseek by blast
  from sys_lseek_truncates [OF this, of 0] show ?thesis by auto
qed

text \<open>An entry whose name does not fit is consumed: the handle has moved on, the position has not.\<close>

lemma readdir_overflow_loses_entry:
  assumes "VirtualFS_dirnext ([], stat_zero) (dirh d) v = Some (((0, fname, stdata), h), u)" "256 \<le> length fname"
  shows "sys_readdir (Some d) err v = Some ((None, Some (d\<lparr>dirh := h\<rparr>)), EOVERFLOW, u)"
  using assms by (simp add: sys_readdir_def d_name_size_def)

text \<open>The position of a stream counts the entries delivered: \<open>readdir\<close> adds one exactly when it delivers an
  entry, whose name is a string of at most 255 bytes; when it delivers none, the last entry stays as it was.\<close>

theorem readdir_counts:
  assumes "sys_readdir (Some d) err v = Some ((ent, dirp), err', v')"
  shows "\<exists>d'. dirp = Some d' \<and> position d' = position d + (if ent = None then 0 else 1) \<and>
    (case ent of None \<Rightarrow> dir_data d' = dir_data d
     | Some e \<Rightarrow> e = dir_data d' \<and> err' = err \<and> length (d_name e) \<le> d_reclen e \<and> d_reclen e < 256 \<and>
         CHR 0x00 \<notin> set (d_name e))"
proof -
  obtain r fname st h u where nxt: "VirtualFS_dirnext ([], stat_zero) (dirh d) v = Some (((r, fname, st), h), u)"
    using assms by (auto simp: sys_readdir_def bind_eq_Some_conv)
  have "length (takeWhile P s) \<le> length s" for P and s :: string by (rule length_takeWhile_le)
  moreover have "CHR 0x00 \<notin> set (take n (takeWhile (\<lambda>c. c \<noteq> CHR 0x00) s))" for n s
    by (auto dest!: in_set_takeD set_takeWhileD)
  ultimately show ?thesis
    using assms by (auto simp: sys_readdir_def nxt Let_def entry_of_def c_str_def d_name_size_def min_le_iff_disj split: if_splits)
qed

lemma sample_readdir:
  "\<exists>ent d' err' v'. sys_readdir (Some sample_dirstream) 0 (sample_vfs 0) = Some ((ent, d'), err', v')"
proof -
  have "umap_contains (dir_root (dirh sample_dirstream)) (m_mounts (sample_vfs 0))"
    by (simp add: sample_dirstream_def sample_vfs_def umap_contains_def)
  from run_dir_call_returns [OF sample_vfs_good [of 0] this, of Readdir 0] show ?thesis
    by (auto simp: bind_eq_Some_conv)
qed

theorem readdir_counts_witness:
  "\<exists>ent d' err' v'. sys_readdir (Some sample_dirstream) 0 (sample_vfs 0) = Some ((ent, Some d'), err', v') \<and>
    position d' = 7 + (if ent = None then 0 else 1)"
proof -
  obtain ent d' err' v' where run: "sys_readdir (Some sample_dirstream) 0 (sample_vfs 0) = Some ((ent, d'), err', v')"
    using sample_readdir by blast
  then show ?thesis using readdir_counts [OF run] by (auto simp: sample_dirstream_def)
qed

end
