(* ===== verification/File_Io.thy ===== *)
theory File_Io
  imports Syscalls
begin

text \<open>
  Input and output on open files through all layers: the system calls (\<open>adapters/syscalls.cpp\<close>), the calls of
  \<open>VirtualFS\<close>, the table of open files, the lock of the volume and the file system. The reference is a plain
  machine without tables of numbers, locks and result conversions: a descriptor has a handle, the handle's
  volume a file system object, and a call is a call of the object's method.
\<close>

section \<open>The calls\<close>

datatype io_call =
    Write_call int "u8 list"
  | Read_call int "u8 list"
  | Seek_call int int int
  | Stat_call int stat
  | Sync_call int
  | Chmod_call int int
  | Tty_call int

text \<open>What the caller sees: the returned number, errno, and the buffer or structure it passed.\<close>

record io_reply =
  io_ret :: int
  io_errno :: int
  io_buffer :: "u8 list"
  io_stat :: "stat option"

definition plain_reply :: "(int, 'v) syscall \<Rightarrow> (io_reply \<times> 'v) option" where
  "plain_reply call = do { (r, e, v) \<leftarrow> call; Some (\<lparr>io_ret = r, io_errno = e, io_buffer = [], io_stat = None\<rparr>, v) }"

fun run_io :: "io_call \<Rightarrow> int \<Rightarrow> ('f, 'h, 'd, 'w) VirtualFS \<Rightarrow> (io_reply \<times> ('f, 'h, 'd, 'w) VirtualFS) option" where
  "run_io (Write_call fd data) err v = plain_reply (sys_write fd data err v)"
| "run_io (Read_call fd buf) err v = do {
     ((r, buf), e, v) \<leftarrow> sys_read fd buf err v;
     Some (\<lparr>io_ret = r, io_errno = e, io_buffer = buf, io_stat = None\<rparr>, v) }"
| "run_io (Seek_call fd pos dir) err v = plain_reply (sys_lseek fd pos dir err v)"
| "run_io (Stat_call fd st) err v = do {
     ((r, st), e, v) \<leftarrow> sys_fstat fd (Some st) err v;
     Some (\<lparr>io_ret = r, io_errno = e, io_buffer = [], io_stat = st\<rparr>, v) }"
| "run_io (Sync_call fd) err v = plain_reply (sys_fsync fd err v)"
| "run_io (Chmod_call fd mode) err v = plain_reply (sys_fchmod fd mode err v)"
| "run_io (Tty_call fd) err v = plain_reply (sys_isatty fd err v)"

fun run_ios :: "io_call list \<Rightarrow> int \<Rightarrow> ('f, 'h, 'd, 'w) VirtualFS \<Rightarrow>
    (io_reply list \<times> ('f, 'h, 'd, 'w) VirtualFS) option" where
  "run_ios [] err v = Some ([], v)"
| "run_ios (c # cs) err v = do {
     (reply, v) \<leftarrow> run_io c err v;
     (replies, v) \<leftarrow> run_ios cs (io_errno reply) v;
     Some (reply # replies, v) }"

section \<open>The reference machine\<close>

record ('f, 'h, 'd, 'w) io_state =
  io_handles :: "int \<Rightarrow> 'h FileHandle option"
  io_volumes :: "string \<Rightarrow> (('f, 'h, 'd, 'w) Filesystem \<times> 'f) option"
  io_streams :: "'w StdStream"
  io_world :: 'w

text \<open>A method of the file system that holds the file.\<close>

definition on_handle :: "(('f, 'h, 'd, 'w) Filesystem \<Rightarrow> 'h FileHandle \<Rightarrow> ('f, 'w, 'r \<times> 'h FileHandle) fs_method) \<Rightarrow>
    'r \<Rightarrow> int \<Rightarrow> ('f, 'h, 'd, 'w) io_state \<Rightarrow> 'r \<times> ('f, 'h, 'd, 'w) io_state" where
  "on_handle meth bad fd s =
     (case io_handles s fd of None \<Rightarrow> (bad, s)
      | Some h \<Rightarrow> (case io_volumes s (file_root h) of None \<Rightarrow> (bad, s)
        | Some (fs, self) \<Rightarrow> (case meth fs h self (io_world s) of
            ((r, h'), self', w) \<Rightarrow> (r, s\<lparr>io_handles := (io_handles s)(fd \<mapsto> h'),
              io_volumes := (io_volumes s)(file_root h \<mapsto> (fs, self')), io_world := w\<rparr>))))"

text \<open>Numbers and errors as a caller of the C interface sees them.\<close>

definition code_reply :: "errno \<Rightarrow> io_reply" where
  "code_reply e = \<lparr>io_ret = (if e = 0 then 0 else -1), io_errno = e, io_buffer = [], io_stat = None\<rparr>"

definition result_reply :: "int result \<Rightarrow> io_reply" where
  "result_reply r = (case r of
     Inl e \<Rightarrow> \<lparr>io_ret = -1, io_errno = e, io_buffer = [], io_stat = None\<rparr>
   | Inr n \<Rightarrow> \<lparr>io_ret = to_int n, io_errno = 0, io_buffer = [], io_stat = None\<rparr>)"

text \<open>The standard streams are the descriptors 0 to 2; what a failing stream reports is not seen, the caller gets
  \<open>EBADF\<close>.\<close>

definition stream_write :: "('w \<Rightarrow> nat result \<times> 'w) \<Rightarrow> ('f, 'h, 'd, 'w) io_state \<Rightarrow> nat result \<times> ('f, 'h, 'd, 'w) io_state" where
  "stream_write out s = (case out (io_world s) of
     (Inr n, w) \<Rightarrow> (Inr n, s\<lparr>io_world := w\<rparr>) | (Inl _, w) \<Rightarrow> (Inl EBADF, s\<lparr>io_world := w\<rparr>))"

definition stream_read :: "('w \<Rightarrow> (nat result \<times> u8 list) \<times> 'w) \<Rightarrow> ('f, 'h, 'd, 'w) io_state \<Rightarrow>
    (nat result \<times> u8 list) \<times> ('f, 'h, 'd, 'w) io_state" where
  "stream_read inp s = (case inp (io_world s) of
     ((Inr n, buf), w) \<Rightarrow> ((Inr n, buf), s\<lparr>io_world := w\<rparr>) | ((Inl _, buf), w) \<Rightarrow> ((Inl EBADF, buf), s\<lparr>io_world := w\<rparr>))"

fun spec_io :: "io_call \<Rightarrow> ('f, 'h, 'd, 'w) io_state \<Rightarrow> io_reply \<times> ('f, 'h, 'd, 'w) io_state" where
  "spec_io (Write_call fd data) s =
     (case (if fd = 1 then stream_write (std_out (io_streams s) data) s
            else if fd = 2 then stream_write (std_err (io_streams s) data) s
            else on_handle (\<lambda>fs. fs_write fs data) (Inl EBADF) fd s) of
        (r, s) \<Rightarrow> (result_reply (map_sum id int r), s))"
| "spec_io (Read_call fd buf) s =
     (case (if fd = 0 then stream_read (std_in (io_streams s) buf) s
            else on_handle (\<lambda>fs. fs_read fs buf) (Inl EBADF, buf) fd s) of
        ((r, buf), s) \<Rightarrow> ((result_reply (map_sum id int r))\<lparr>io_buffer := buf\<rparr>, s))"
| "spec_io (Seek_call fd pos dir) s = apfst result_reply (on_handle (\<lambda>fs. fs_lseek fs pos dir) (Inl EBADF) fd s)"
| "spec_io (Stat_call fd st) s =
     (if fd < 3 then ((code_reply 0)\<lparr>io_stat := Some (stat_zero\<lparr>st_mode := S_IFCHR\<rparr>)\<rparr>, s)
      else case on_handle (\<lambda>fs. fs_fstat fs st) (EBADF, st) fd s of
        ((e, st), s) \<Rightarrow> ((code_reply e)\<lparr>io_stat := Some st\<rparr>, s))"
| "spec_io (Sync_call fd) s = apfst code_reply (on_handle fs_fsync EBADF fd s)"
| "spec_io (Chmod_call fd mode) s = apfst code_reply (on_handle (\<lambda>fs. fs_fchmod fs mode) EBADF fd s)"
| "spec_io (Tty_call fd) s =
     (if fd < 3 then (result_reply (Inr 1), s)
      else apfst (\<lambda>r. result_reply (map_sum id of_bool r)) (on_handle fs_isatty (Inl EBADF) fd s))"

fun spec_ios :: "io_call list \<Rightarrow> ('f, 'h, 'd, 'w) io_state \<Rightarrow> io_reply list \<times> ('f, 'h, 'd, 'w) io_state" where
  "spec_ios [] s = ([], s)"
| "spec_ios (c # cs) s = (case spec_io c s of (reply, s) \<Rightarrow> (case spec_ios cs s of (replies, s) \<Rightarrow> (reply # replies, s)))"

section \<open>The view of the machine\<close>

definition io_view :: "('f, 'h, 'd, 'w) VirtualFS \<Rightarrow> ('f, 'h, 'd, 'w) io_state" where
  "io_view v = \<lparr>io_handles = (\<lambda>fd. fd_handle fd (m_fd_container v)),
     io_volumes = (\<lambda>key. map_option (\<lambda>l. (mp_fs (locker_value l), mp_self (locker_value l))) (map_of (m_mounts v) key)),
     io_streams = m_stdstream v, io_world = world v\<rparr>"

lemma io_view_world [simp]: "io_view (v\<lparr>world := w\<rparr>) = (io_view v)\<lparr>io_world := w\<rparr>"
  by (simp add: io_view_def)

lemma io_view_after_call:
  assumes "map_of (m_mounts v) key = Some l"
  shows "io_view ((after_call key l self w v)\<lparr>m_fd_container := fd_handle_update fd h (m_fd_container v)\<rparr>) =
    (io_view v)\<lparr>io_handles := (\<lambda>n. if n = fd \<and> fd_exist fd (m_fd_container v) then Some h else fd_handle n (m_fd_container v)),
      io_volumes := (io_volumes (io_view v))(key \<mapsto> (mp_fs (locker_value l), self)), io_world := w\<rparr>"
  using assms by (auto simp: io_view_def after_call_def umap_simps fd_handle_update_handle fun_eq_iff)

lemma invoke_fops_fd_view:
  assumes good: "good root_of v"
    and meth: "\<And>fs. rooted_filesystem fs root_of \<Longrightarrow> keeps_handle file_root root_of (meth fs)"
  obtains r u where "invoke_fops_fd meth terror fd v = Some (r, u)" "good root_of u"
    "on_handle meth (terror EBADF) fd (io_view v) = (r, io_view u)"
proof (cases "fd_handle fd (m_fd_container v)")
  case None
  then have "\<not> fd_exist fd (m_fd_container v)" by (auto simp: fd_exist_handle)
  then show thesis using that [of "terror EBADF" v] good None
    by (simp add: invoke_fops_fd_unknown on_handle_def io_view_def)
next
  case (Some fil)
  obtain r fil' l self w where c: "map_of (m_mounts v) (file_root fil) = Some l"
    "meth (mp_fs (locker_value l)) fil (mp_self (locker_value l)) (world v) = ((r, fil'), self, w)"
    "file_root fil' = file_root fil"
    "invoke_fops_fd meth terror fd v = Some (r, (after_call (file_root fil) l self w v)
      \<lparr>m_fd_container := fd_handle_update fd fil' (m_fd_container v)\<rparr>)"
    "vfs_ok root_of (after_call (file_root fil) l self w v)"
    by (rule invoke_fops_fd_known [OF good Some meth])
  have "good root_of ((after_call (file_root fil) l self w v)\<lparr>m_fd_container := fd_handle_update fd fil' (m_fd_container v)\<rparr>)"
    using handle_stored_good [OF c(5), of fd fil fil'] good Some c(3) by (simp add: good_def after_call_files)
  moreover have "fd_exist fd (m_fd_container v)" using Some by (auto simp: fd_exist_handle)
  then have "on_handle meth (terror EBADF) fd (io_view v) =
      (r, io_view ((after_call (file_root fil) l self w v)\<lparr>m_fd_container := fd_handle_update fd fil' (m_fd_container v)\<rparr>))"
    using Some c(1,2) unfolding io_view_after_call [OF c(1)]
    by (auto simp: on_handle_def io_view_def fun_eq_iff)
  ultimately show thesis using that c(4) by blast
qed

section \<open>The layers implement the machine\<close>

lemma low_not_open: "good root_of v \<Longrightarrow> n < 3 \<Longrightarrow> io_handles (io_view v) n = None"
  using fd_exist_handle [of n "m_fd_container v"] container_okD(9) [of "m_fd_container v" n]
  by (force simp: good_def vfs_ok_def io_view_def)

lemma on_handle_low: "good root_of v \<Longrightarrow> n < 3 \<Longrightarrow> on_handle meth bad n (io_view v) = (bad, io_view v)"
  by (simp add: on_handle_def low_not_open)

lemma keeps_fs:
  "rooted_filesystem fs root_of \<Longrightarrow> keeps_handle file_root root_of (fs_write fs data)"
  "rooted_filesystem fs root_of \<Longrightarrow> keeps_handle file_root root_of (fs_read fs data)"
  "rooted_filesystem fs root_of \<Longrightarrow> keeps_handle file_root root_of (fs_lseek fs pos dir)"
  "rooted_filesystem fs root_of \<Longrightarrow> keeps_handle file_root root_of (fs_fstat fs st)"
  "rooted_filesystem fs root_of \<Longrightarrow> keeps_handle file_root root_of (fs_fsync fs)"
  "rooted_filesystem fs root_of \<Longrightarrow> keeps_handle file_root root_of (fs_isatty fs)"
  "rooted_filesystem fs root_of \<Longrightarrow> keeps_handle file_root root_of (fs_fchmod fs mode)"
  by (rule rooted_filesystem.handle_keeps, assumption)+

definition implements :: "('f \<Rightarrow> string) \<Rightarrow> ('r \<times> ('f, 'h, 'd, 'w) VirtualFS) option \<Rightarrow> 'r \<times> ('f, 'h, 'd, 'w) io_state \<Rightarrow> bool" where
  "implements root_of call spec = (\<exists>r u. call = Some (r, u) \<and> good root_of u \<and> spec = (r, io_view u))"

lemma implementsI: "call = Some (r, u) \<Longrightarrow> good root_of u \<Longrightarrow> spec = (r, io_view u) \<Longrightarrow> implements root_of call spec"
  unfolding implements_def by blast

lemma implementsE:
  assumes "implements root_of call spec"
  obtains r u where "call = Some (r, u)" "good root_of u" "spec = (r, io_view u)"
  using assms unfolding implements_def by blast

lemma write_implements:
  assumes good: "good root_of v"
  shows "implements root_of (run_io (Write_call fd data) err v) (spec_io (Write_call fd data) (io_view v))"
proof (cases "fd = 1 \<or> fd = 2")
  case True
  obtain r w where out: "(if fd = 1 then std_out else std_err) (m_stdstream v) data (world v) = (r, w)" by fastforce
  have g: "good root_of (v\<lparr>world := w\<rparr>)" using good_world [OF good] by simp
  then have "\<not> fd_exist fd (m_fd_container v)"
    using True low_not_open [OF good, of fd] by (auto simp: fd_exist_handle io_view_def)
  then show ?thesis
    using True out
    by (cases r) (auto intro!: implementsI [OF _ g] simp: plain_reply_def sys_write_def VirtualFS_write_def
        invoke_stdstream_out_def invoke_fops_fd_unknown invoke_fs_result_def stream_write_def result_reply_def
        io_view_def split: if_splits)
next
  case False
  obtain r u where c: "invoke_fops_fd (\<lambda>fs. fs_write fs data) Inl fd v = Some (r, u)" "good root_of u"
    "on_handle (\<lambda>fs. fs_write fs data) (Inl EBADF) fd (io_view v) = (r, io_view u)"
    by (rule invoke_fops_fd_view [where meth = "\<lambda>fs. fs_write fs data" and terror = Inl and fd = fd, OF good keeps_fs(1)])
  show ?thesis
    using False c by (cases r) (auto intro!: implementsI [OF _ c(2)] simp: plain_reply_def sys_write_def VirtualFS_write_def
        invoke_stdstream_out_def invoke_fs_result_def result_reply_def)
qed

lemma read_implements:
  assumes good: "good root_of v"
  shows "implements root_of (run_io (Read_call fd buf) err v) (spec_io (Read_call fd buf) (io_view v))"
proof (cases "fd = 0")
  case True
  obtain r b w where inp: "std_in (m_stdstream v) buf (world v) = ((r, b), w)" by (metis surj_pair)
  have g: "good root_of (v\<lparr>world := w\<rparr>)" using good_world [OF good] by simp
  then have "\<not> fd_exist 0 (m_fd_container v)"
    using low_not_open [OF good, of 0] by (auto simp: fd_exist_handle io_view_def)
  then show ?thesis
    using True inp
    by (cases r) (auto intro!: implementsI [OF _ g] simp: sys_read_def VirtualFS_read_def
        invoke_stdstream_in_def invoke_fops_fd_unknown invoke_fs_result_def stream_read_def result_reply_def io_view_def)
next
  case False
  obtain x u where c: "invoke_fops_fd (\<lambda>fs. fs_read fs buf) (\<lambda>e. (Inl e, buf)) fd v = Some (x, u)" "good root_of u"
    "on_handle (\<lambda>fs. fs_read fs buf) (Inl EBADF, buf) fd (io_view v) = (x, io_view u)"
    by (rule invoke_fops_fd_view [where meth = "\<lambda>fs. fs_read fs buf" and terror = "\<lambda>e. (Inl e, buf)" and fd = fd, OF good keeps_fs(2)])
  obtain r b where x: "x = (r, b)" by fastforce
  show ?thesis
    using False c unfolding x by (cases r) (auto intro!: implementsI [OF _ c(2)] simp: sys_read_def VirtualFS_read_def
        invoke_stdstream_in_def invoke_fs_result_def result_reply_def)
qed

lemma seek_implements:
  assumes good: "good root_of v"
  shows "implements root_of (run_io (Seek_call fd pos dir) err v) (spec_io (Seek_call fd pos dir) (io_view v))"
proof -
  obtain r u where c: "invoke_fops_fd (\<lambda>fs. fs_lseek fs pos dir) Inl fd v = Some (r, u)" "good root_of u"
    "on_handle (\<lambda>fs. fs_lseek fs pos dir) (Inl EBADF) fd (io_view v) = (r, io_view u)"
    by (rule invoke_fops_fd_view [where meth = "\<lambda>fs. fs_lseek fs pos dir" and terror = Inl and fd = fd, OF good keeps_fs(3)])
  show ?thesis
    using c by (cases r) (auto intro!: implementsI [OF _ c(2)] simp: plain_reply_def sys_lseek_def VirtualFS_lseek_def
        invoke_fs_result_def result_reply_def)
qed

lemma stat_implements:
  assumes good: "good root_of v"
  shows "implements root_of (run_io (Stat_call fd st) err v) (spec_io (Stat_call fd st) (io_view v))"
proof (cases "fd < 3")
  case True
  then show ?thesis using good
    by (auto intro!: implementsI [OF _ good] simp: sys_fstat_def VirtualFS_fstat_def invoke_fs_out_def code_reply_def)
next
  case False
  obtain x u where c: "invoke_fops_fd (\<lambda>fs. fs_fstat fs st) (\<lambda>e. (e, st)) fd v = Some (x, u)" "good root_of u"
    "on_handle (\<lambda>fs. fs_fstat fs st) (EBADF, st) fd (io_view v) = (x, io_view u)"
    by (rule invoke_fops_fd_view [where meth = "\<lambda>fs. fs_fstat fs st" and terror = "\<lambda>e. (e, st)" and fd = fd, OF good keeps_fs(4)])
  obtain e s where x: "x = (e, s)" by fastforce
  show ?thesis
    using False c unfolding x by (auto intro!: implementsI [OF _ c(2)] simp: sys_fstat_def VirtualFS_fstat_def invoke_fs_out_def code_reply_def)
qed

lemma code_implements:
  assumes good: "good root_of v"
  shows "implements root_of (run_io (Sync_call fd) err v) (spec_io (Sync_call fd) (io_view v))"
    "implements root_of (run_io (Chmod_call fd mode) err v) (spec_io (Chmod_call fd mode) (io_view v))"
proof -
  obtain r u where c: "invoke_fops_fd fs_fsync (\<lambda>e. e) fd v = Some (r, u)" "good root_of u"
    "on_handle fs_fsync EBADF fd (io_view v) = (r, io_view u)"
    by (rule invoke_fops_fd_view [where meth = fs_fsync and terror = "\<lambda>e. e" and fd = fd, OF good keeps_fs(5)])
  show "implements root_of (run_io (Sync_call fd) err v) (spec_io (Sync_call fd) (io_view v))"
    using c by (auto intro!: implementsI [OF _ c(2)] simp: plain_reply_def sys_fsync_def VirtualFS_fsync_def
        invoke_fs_code_def code_reply_def)
next
  obtain r u where c: "invoke_fops_fd (\<lambda>fs. fs_fchmod fs mode) (\<lambda>e. e) fd v = Some (r, u)" "good root_of u"
    "on_handle (\<lambda>fs. fs_fchmod fs mode) EBADF fd (io_view v) = (r, io_view u)"
    by (rule invoke_fops_fd_view [where meth = "\<lambda>fs. fs_fchmod fs mode" and terror = "\<lambda>e. e" and fd = fd, OF good keeps_fs(7)])
  show "implements root_of (run_io (Chmod_call fd mode) err v) (spec_io (Chmod_call fd mode) (io_view v))"
    using c by (auto intro!: implementsI [OF _ c(2)] simp: plain_reply_def sys_fchmod_def VirtualFS_fchmod_def
        invoke_fs_code_def code_reply_def)
qed

lemma tty_implements:
  assumes good: "good root_of v"
  shows "implements root_of (run_io (Tty_call fd) err v) (spec_io (Tty_call fd) (io_view v))"
proof (cases "fd < 3")
  case True
  have "to_int 1 = 1" by (simp add: to_int_def)
  then show ?thesis using True good
    by (auto intro!: implementsI [OF _ good] simp: plain_reply_def sys_isatty_def VirtualFS_isatty_def invoke_fs_result_def result_reply_def)
next
  case False
  obtain r u where c: "invoke_fops_fd fs_isatty Inl fd v = Some (r, u)" "good root_of u"
    "on_handle fs_isatty (Inl EBADF) fd (io_view v) = (r, io_view u)"
    by (rule invoke_fops_fd_view [where meth = fs_isatty and terror = Inl and fd = fd, OF good keeps_fs(6)])
  show ?thesis
    using False c by (cases r) (auto intro!: implementsI [OF _ c(2)] simp: plain_reply_def sys_isatty_def VirtualFS_isatty_def
        invoke_fs_result_def result_reply_def)
qed

lemma run_io_implements: "good root_of v \<Longrightarrow> implements root_of (run_io call err v) (spec_io call (io_view v))"
  by (cases call) (simp_all only: write_implements read_implements seek_implements stat_implements code_implements tty_implements)

section \<open>Property\<close>

lemma run_ios_implements: "good root_of v \<Longrightarrow> implements root_of (run_ios calls err v) (spec_ios calls (io_view v))"
proof (induction calls arbitrary: err v)
  case Nil
  then show ?case by (auto intro: implementsI)
next
  case (Cons c cs)
  obtain r u where one: "run_io c err v = Some (r, u)" "good root_of u" "spec_io c (io_view v) = (r, io_view u)"
    by (rule implementsE [OF run_io_implements [OF Cons.prems]])
  obtain rs w where rest: "run_ios cs (io_errno r) u = Some (rs, w)" "good root_of w" "spec_ios cs (io_view u) = (rs, io_view w)"
    by (rule implementsE [OF Cons.IH [OF one(2)]])
  show ?case by (rule implementsI [OF _ rest(2)]) (simp_all add: one rest)
qed

text \<open>C7: Input and output through all layers is what the file systems do: in a good state (every open file's
  volume is still mounted), for every sequence of read, write, seek, stat, sync, chmod and isatty system calls
  on any descriptors, open or not and on any volumes, the returned numbers, errno values, buffers and structures are those of the plain machine in which a call is
  one call of the method of the file's own file system, and afterwards every handle, every file system
  object and the outside world are as that machine leaves them. In between no other file, volume or stream
  is touched, and nothing gets stuck.\<close>

theorem io_transparent:
  assumes "good root_of v"
  shows "\<exists>u. run_ios calls err v = Some (fst (spec_ios calls (io_view v)), u) \<and> good root_of u \<and>
    io_view u = snd (spec_ios calls (io_view v))"
  by (rule implementsE [OF run_ios_implements [OF assms, of calls err]]) simp

theorem io_transparent_witness:
  "\<exists>u rs. run_ios [Write_call 1 [104, 105], Write_call 9 [1], Tty_call 2, Sync_call 3] 0 sample_open_vfs = Some (rs, u) \<and>
    List.map io_ret (take 3 rs) = [2, -1, 1] \<and> List.map io_errno (take 3 rs) = [0, EBADF, 0]"
proof -
  let ?calls = "[Write_call 1 [104, 105], Write_call 9 [1], Tty_call 2, Sync_call 3]"
  have "io_handles (io_view sample_open_vfs) 9 = None" "io_streams (io_view sample_open_vfs) = sample_stream"
    by (simp_all add: io_view_def fd_handle_def sample_open_vfs_def sample_vfs_def VirtualFS_new_def)
  then have "List.map io_ret (take 3 (fst (spec_ios ?calls (io_view sample_open_vfs)))) = [2, -1, 1]"
    "List.map io_errno (take 3 (fst (spec_ios ?calls (io_view sample_open_vfs)))) = [0, EBADF, 0]"
    by (simp_all add: stream_write_def sample_stream_def result_reply_def on_handle_def to_int_def split: prod.split)
  with io_transparent [OF sample_open_vfs_good, of ?calls 0] show ?thesis by auto
qed

end
