(* ===== verification/Newlib.thy ===== *)
theory Newlib
  imports Syscalls
begin

text \<open>
  The entry points of the C library newlib (\<open>adapters/newlib/syscalls.cpp\<close>): the reentrant calls
  \<open>_xxx_r\<close> work on the errno of the \<open>_reent\<close> they are given, the others on the global one. The names drop
  the leading underscore and carry the prefix \<open>newlib_\<close>; the global structure is passed like the given one.
\<close>

record reent =
  reent_errno :: int

definition with_reent :: "(int \<Rightarrow> 'v \<Rightarrow> ('r, 'v) syscall) \<Rightarrow> reent \<Rightarrow> 'v \<Rightarrow> ('r \<times> reent \<times> 'v) option" where
  "with_reent call r v = do { (ret, err, v) \<leftarrow> call (reent_errno r) v; Some (ret, r\<lparr>reent_errno := err\<rparr>, v) }"

type_synonym ('r, 'f, 'h, 'd, 'w) entry =
  "reent \<Rightarrow> ('f, 'h, 'd, 'w) VirtualFS \<Rightarrow> ('r \<times> reent \<times> ('f, 'h, 'd, 'w) VirtualFS) option"

section \<open>Reentrant calls\<close>

definition newlib_open_r :: "string option \<Rightarrow> int \<Rightarrow> int \<Rightarrow> (int, 'f, 'h, 'd, 'w) entry" where
  "newlib_open_r file flags mode = with_reent (sys_open file flags mode)"

definition newlib_close_r :: "int \<Rightarrow> (int, 'f, 'h, 'd, 'w) entry" where
  "newlib_close_r fd = with_reent (sys_close fd)"

definition newlib_write_r :: "int \<Rightarrow> u8 list \<Rightarrow> (int, 'f, 'h, 'd, 'w) entry" where
  "newlib_write_r fd buf = with_reent (sys_write fd buf)"

definition newlib_read_r :: "int \<Rightarrow> u8 list \<Rightarrow> (int \<times> u8 list, 'f, 'h, 'd, 'w) entry" where
  "newlib_read_r fd buf = with_reent (sys_read fd buf)"

definition newlib_lseek_r :: "int \<Rightarrow> int \<Rightarrow> int \<Rightarrow> (int, 'f, 'h, 'd, 'w) entry" where
  "newlib_lseek_r fd pos dir = with_reent (sys_lseek fd pos dir)"

definition newlib_fstat_r :: "int \<Rightarrow> stat option \<Rightarrow> (int \<times> stat option, 'f, 'h, 'd, 'w) entry" where
  "newlib_fstat_r fd st = with_reent (sys_fstat fd st)"

definition newlib_stat_r :: "string option \<Rightarrow> stat option \<Rightarrow> (int \<times> stat option, 'f, 'h, 'd, 'w) entry" where
  "newlib_stat_r file pstat = with_reent (sys_stat file pstat)"

definition newlib_isatty_r :: "int \<Rightarrow> (int, 'f, 'h, 'd, 'w) entry" where
  "newlib_isatty_r fd = with_reent (sys_isatty fd)"

definition newlib_fcntl_r :: "int \<Rightarrow> int \<Rightarrow> int \<Rightarrow> (int, 'f, 'h, 'd, 'w) entry" where
  "newlib_fcntl_r fd cmd arg = with_reent ((\<lambda>_ v. Some (-1, ENOTSUP, v)))"

definition newlib_statvfs_r :: "string option \<Rightarrow> statvfs option \<Rightarrow> (int \<times> statvfs option, 'f, 'h, 'd, 'w) entry" where
  "newlib_statvfs_r path buf = with_reent ((\<lambda>err v. if buf = None then Some ((-1, None), EINVAL, v) else sys_statvfs path buf err v))"

definition newlib_fsync_r :: "int \<Rightarrow> (int, 'f, 'h, 'd, 'w) entry" where
  "newlib_fsync_r fd = with_reent (sys_fsync fd)"

definition newlib_link_r :: "string option \<Rightarrow> string option \<Rightarrow> (int, 'f, 'h, 'd, 'w) entry" where
  "newlib_link_r existing newLink = with_reent (sys_link existing newLink)"

definition newlib_unlink_r :: "string option \<Rightarrow> (int, 'f, 'h, 'd, 'w) entry" where
  "newlib_unlink_r name = with_reent (sys_unlink name)"

definition newlib_rmdir_r :: "string option \<Rightarrow> (int, 'f, 'h, 'd, 'w) entry" where
  "newlib_rmdir_r name = with_reent (sys_rmdir name)"

definition newlib_chdir_r :: "string option \<Rightarrow> (int, 'f, 'h, 'd, 'w) entry" where
  "newlib_chdir_r path = with_reent (sys_chdir path)"

definition newlib_rename_r :: "string option \<Rightarrow> string option \<Rightarrow> (int, 'f, 'h, 'd, 'w) entry" where
  "newlib_rename_r oldName newName = with_reent (sys_rename oldName newName)"

definition newlib_mkdir_r :: "string option \<Rightarrow> int \<Rightarrow> (int, 'f, 'h, 'd, 'w) entry" where
  "newlib_mkdir_r path mode = with_reent (sys_mkdir path mode)"

section \<open>Calls on the global structure\<close>

definition newlib_open :: "string option \<Rightarrow> int \<Rightarrow> int \<Rightarrow> (int, 'f, 'h, 'd, 'w) entry" where
  "newlib_open file flags mode = newlib_open_r file flags mode"

definition newlib_close :: "int \<Rightarrow> (int, 'f, 'h, 'd, 'w) entry" where
  "newlib_close fd = newlib_close_r fd"

definition newlib_write :: "int \<Rightarrow> u8 list \<Rightarrow> (int, 'f, 'h, 'd, 'w) entry" where
  "newlib_write fd buf = newlib_write_r fd buf"

definition newlib_read :: "int \<Rightarrow> u8 list \<Rightarrow> (int \<times> u8 list, 'f, 'h, 'd, 'w) entry" where
  "newlib_read fd buf = newlib_read_r fd buf"

definition newlib_lseek :: "int \<Rightarrow> int \<Rightarrow> int \<Rightarrow> (int, 'f, 'h, 'd, 'w) entry" where
  "newlib_lseek fd pos dir = newlib_lseek_r fd pos dir"

definition newlib_fstat :: "int \<Rightarrow> stat option \<Rightarrow> (int \<times> stat option, 'f, 'h, 'd, 'w) entry" where
  "newlib_fstat fd st = newlib_fstat_r fd st"

definition newlib_stat :: "string option \<Rightarrow> stat option \<Rightarrow> (int \<times> stat option, 'f, 'h, 'd, 'w) entry" where
  "newlib_stat file pstat = newlib_stat_r file pstat"

definition newlib_isatty :: "int \<Rightarrow> (int, 'f, 'h, 'd, 'w) entry" where
  "newlib_isatty fd = newlib_isatty_r fd"

definition newlib_fcntlr :: "int \<Rightarrow> int \<Rightarrow> int \<Rightarrow> (int, 'f, 'h, 'd, 'w) entry" where
  "newlib_fcntlr fd cmd arg = newlib_fcntl_r fd cmd arg"

definition newlib_statvfs :: "string option \<Rightarrow> statvfs option \<Rightarrow> (int \<times> statvfs option, 'f, 'h, 'd, 'w) entry" where
  "newlib_statvfs path buf = newlib_statvfs_r path buf"

definition newlib_fsync :: "int \<Rightarrow> (int, 'f, 'h, 'd, 'w) entry" where
  "newlib_fsync fd = newlib_fsync_r fd"

definition newlib_link :: "string option \<Rightarrow> string option \<Rightarrow> (int, 'f, 'h, 'd, 'w) entry" where
  "newlib_link existing newLink = newlib_link_r existing newLink"

definition newlib_unlink :: "string option \<Rightarrow> (int, 'f, 'h, 'd, 'w) entry" where
  "newlib_unlink name = newlib_unlink_r name"

definition newlib_rename :: "string option \<Rightarrow> string option \<Rightarrow> (int, 'f, 'h, 'd, 'w) entry" where
  "newlib_rename oldName newName = newlib_rename_r oldName newName"

definition newlib_mkdir :: "string option \<Rightarrow> int \<Rightarrow> (int, 'f, 'h, 'd, 'w) entry" where
  "newlib_mkdir path mode = newlib_mkdir_r path mode"

definition newlib_rmdir :: "string option \<Rightarrow> (int, 'f, 'h, 'd, 'w) entry" where
  "newlib_rmdir name = newlib_rmdir_r name"

definition newlib_chdir :: "string option \<Rightarrow> (int, 'f, 'h, 'd, 'w) entry" where
  "newlib_chdir path = newlib_chdir_r path"

section \<open>Directories and mounts\<close>

definition newlib_opendir :: "bool \<Rightarrow> string option \<Rightarrow> ('d dirstream option, 'f, 'h, 'd, 'w) entry" where
  "newlib_opendir allocated dirname = with_reent (sys_opendir allocated dirname)"

definition newlib_closedir :: "'d dirstream option \<Rightarrow> (int, 'f, 'h, 'd, 'w) entry" where
  "newlib_closedir dirp = with_reent (sys_closedir dirp)"

definition newlib_readdir_r :: "'d dirstream option \<Rightarrow> dirent \<Rightarrow> bool \<Rightarrow> (int \<times> dirent \<times> bool \<times> 'd dirstream option, 'f, 'h, 'd, 'w) entry" where
  "newlib_readdir_r dirp entry result = with_reent (sys_readdir_r dirp entry result)"

definition newlib_readdir :: "'d dirstream option \<Rightarrow> (dirent option \<times> 'd dirstream option, 'f, 'h, 'd, 'w) entry" where
  "newlib_readdir dirp = with_reent (sys_readdir dirp)"

definition newlib_rewinddir :: "'d dirstream option \<Rightarrow> ('d dirstream option, 'f, 'h, 'd, 'w) entry" where
  "newlib_rewinddir dirp = with_reent (sys_rewinddir dirp)"

definition newlib_seekdir :: "'d dirstream option \<Rightarrow> u64 \<Rightarrow> ('d dirstream option, 'f, 'h, 'd, 'w) entry" where
  "newlib_seekdir dirp loc = with_reent (sys_seekdir dirp loc)"

definition newlib_telldir :: "'d dirstream option \<Rightarrow> (int, 'f, 'h, 'd, 'w) entry" where
  "newlib_telldir dirp = with_reent (sys_telldir dirp)"

definition newlib_mount :: "string option \<Rightarrow> string option \<Rightarrow> string option \<Rightarrow> u64 \<Rightarrow> (int, 'f, 'h, 'd, 'w) entry" where
  "newlib_mount source target fstype mountflags = with_reent (sys_mount source target fstype mountflags)"

definition newlib_umount :: "string option \<Rightarrow> (int, 'f, 'h, 'd, 'w) entry" where
  "newlib_umount target = with_reent (sys_umount target)"

end
