(* ===== verification/Fs_Dir.thy ===== *)
theory Fs_Dir
  imports Syscalls
begin

text \<open>
  The directory iteration of \<open>std::filesystem\<close> that evfs supplies (\<open>adapters/dir-common.h\<close>,
  \<open>adapters/fs_dir.cpp\<close>), on top of the directory calls of theory \<open>Syscalls\<close>: \<open>_Dir_base\<close>, \<open>_Dir\<close>,
  \<open>directory_iterator\<close>, \<open>recursive_directory_iterator\<close> and the erasing walk behind \<open>remove_all\<close>.

  A \<open>DIR*\<close> is the stream behind it or \<open>None\<close>; an object is passed in and handed back; a destructor that
  closes a stream is called where the code destroys the object. An exception is a result \<open>None\<close>. What the
  code takes from the rest of \<open>std::filesystem\<close> (the type of a path, \<open>remove\<close>) and whether \<open>opendir\<close> gets
  memory are fields of the record \<open>environment\<close>. \<open>advance\<close> calls itself until an entry is neither \<open>.\<close> nor
  \<open>..\<close>, and the erasing walk loops until something can be removed: both are partial functions.
\<close>

section \<open>Types\<close>

datatype file_type = ft_none | ft_regular | ft_directory | ft_symlink | ft_block | ft_character | ft_fifo
  | ft_socket | ft_unknown

definition DT_UNKNOWN :: u8 where "DT_UNKNOWN = 0"
definition DT_LNK :: u8 where "DT_LNK = 10"

definition get_file_type :: "dirent \<Rightarrow> file_type" where
  "get_file_type d =
     (if d_type d = DT_BLK then ft_block else if d_type d = DT_CHR then ft_character
      else if d_type d = DT_DIR then ft_directory else if d_type d = DT_FIFO then ft_fifo
      else if d_type d = DT_LNK then ft_symlink else if d_type d = DT_REG then ft_regular
      else if d_type d = DT_SOCK then ft_socket else if d_type d = DT_UNKNOWN then ft_unknown else ft_none)"

record directory_entry =
  de_path :: string
  de_type :: file_type

definition no_directory_entry :: directory_entry where
  "no_directory_entry = \<lparr>de_path = [], de_type = ft_none\<rparr>"

type_synonym ('r, 'v) posix_call = "int \<Rightarrow> 'v \<Rightarrow> ('r, 'v) syscall"

record 'v environment =
  env_allocates :: bool
  env_symlink_status :: "string \<Rightarrow> (file_type \<times> int, 'v) posix_call"
  env_status :: "string \<Rightarrow> (file_type \<times> int, 'v) posix_call"
  env_remove :: "string \<Rightarrow> (bool \<times> int, 'v) posix_call"

type_synonym directory_options = u32

definition follow_directory_symlink :: directory_options where "follow_directory_symlink = 1"
definition skip_permission_denied :: directory_options where "skip_permission_denied = 2"
definition directory_iterator_nofollow :: directory_options where "directory_iterator_nofollow = 64"
definition directory_iterator_filename_only :: directory_options where "directory_iterator_filename_only = 128"

definition is_set :: "directory_options \<Rightarrow> directory_options \<Rightarrow> bool" where
  "is_set obj bits = (obj AND bits \<noteq> 0)"

section \<open>The open directory\<close>

definition is_permission_denied_error :: "int \<Rightarrow> bool" where
  "is_permission_denied_error e = (e = EACCES)"

definition is_dot_or_dotdot :: "string \<Rightarrow> bool" where
  "is_dot_or_dotdot s = (s = ''.'' \<or> s = ''..'')"

text \<open>Opening: the stream, and the error code the caller sees. The \<open>nofollow\<close> flag is not used.\<close>

definition Dir_base :: "bool \<Rightarrow> string \<Rightarrow> bool \<Rightarrow>
    ('d dirstream option \<times> int, ('f, 'h, 'd, 'w) VirtualFS) posix_call" where
  "Dir_base allocates pathname skip err v = do {
     (dirp, err, v) \<leftarrow> sys_opendir allocates (Some pathname) err v;
     Some ((dirp, if dirp \<noteq> None then 0 else if is_permission_denied_error err \<and> skip then 0 else err), err, v) }"

text \<open>The destructor.\<close>

definition close_stream :: "'d dirstream option \<Rightarrow> (unit, ('f, 'h, 'd, 'w) VirtualFS) posix_call" where
  "close_stream dirp err v =
     (case dirp of None \<Rightarrow> Some ((), err, v)
      | Some d \<Rightarrow> do { (_, err, v) \<leftarrow> sys_closedir (Some d) err v; Some ((), err, v) })"

text \<open>The next entry that is neither \<open>.\<close> nor \<open>..\<close>; errno is restored.\<close>

partial_function (option) base_advance :: "bool \<Rightarrow> 'd dirstream option \<Rightarrow> int \<Rightarrow> ('f, 'h, 'd, 'w) VirtualFS \<Rightarrow>
    (dirent option \<times> int \<times> 'd dirstream option, ('f, 'h, 'd, 'w) VirtualFS) syscall" where
  "base_advance skip dirp err v = do {
     ((entp, dirp), e, v) \<leftarrow> sys_readdir dirp 0 v;
     (case entp of
        Some ent \<Rightarrow> if is_dot_or_dotdot (d_name ent) then base_advance skip dirp err v else Some ((Some ent, 0, dirp), err, v)
      | None \<Rightarrow>
          if e \<noteq> 0 then
            if e = EACCES \<and> skip then Some ((None, 0, dirp), err, v) else Some ((None, e, dirp), err, v)
          else Some ((None, 0, dirp), err, v)) }"

record 'd Dir =
  dir_dirp :: "'d dirstream option"
  dir_path :: string
  dir_entry :: directory_entry

text \<open>The entry an element of the directory becomes.\<close>

definition make_entry :: "string \<Rightarrow> dirent \<Rightarrow> directory_entry" where
  "make_entry path ent = \<lparr>de_path = path_append path (d_name ent),
     de_type = (if d_type ent \<noteq> DT_UNKNOWN then get_file_type ent else ft_none)\<rparr>"

definition Dir_new :: "('f, 'h, 'd, 'w) VirtualFS environment \<Rightarrow> string \<Rightarrow> bool \<Rightarrow>
    ('d Dir \<times> int, ('f, 'h, 'd, 'w) VirtualFS) posix_call" where
  "Dir_new env p skip err v = do {
     ((dirp, ec), err, v) \<leftarrow> Dir_base (env_allocates env) p skip err v;
     Some ((\<lparr>dir_dirp = dirp, dir_path = (if ec = 0 then p else []), dir_entry = no_directory_entry\<rparr>, ec), err, v) }"

definition Dir_advance :: "bool \<Rightarrow> 'd Dir \<Rightarrow> (bool \<times> int \<times> 'd Dir, ('f, 'h, 'd, 'w) VirtualFS) posix_call" where
  "Dir_advance skip d err v = do {
     ((entp, ec, dirp), err, v) \<leftarrow> base_advance skip (dir_dirp d) err v;
     let d = d\<lparr>dir_dirp := dirp\<rparr>;
     (case entp of
        Some ent \<Rightarrow> Some ((True, ec, d\<lparr>dir_entry := make_entry (dir_path d) ent\<rparr>), err, v)
      | None \<Rightarrow> Some ((False, ec, if ec = 0 then d\<lparr>dir_entry := no_directory_entry\<rparr> else d), err, v)) }"

text \<open>The variant that throws.\<close>

definition Dir_advance_throw :: "bool \<Rightarrow> 'd Dir \<Rightarrow> (bool \<times> 'd Dir, ('f, 'h, 'd, 'w) VirtualFS) posix_call" where
  "Dir_advance_throw skip d err v = do {
     ((ok, ec, d), err, v) \<leftarrow> Dir_advance skip d err v;
     if ec \<noteq> 0 then None else Some ((ok, d), err, v) }"

text \<open>The error code is only written on the way that asks for the type of the path.\<close>

definition should_recurse :: "('f, 'h, 'd, 'w) VirtualFS environment \<Rightarrow> bool \<Rightarrow> 'd Dir \<Rightarrow> int \<Rightarrow>
    (bool \<times> int, ('f, 'h, 'd, 'w) VirtualFS) posix_call" where
  "should_recurse env follow_symlink d ec err v = do {
     ((t, ec, failed), err, v) \<leftarrow>
       (if de_type (dir_entry d) = ft_none
        then do {
          ((t, ec), err, v) \<leftarrow> env_symlink_status env (de_path (dir_entry d)) err v;
          Some ((t, ec, ec \<noteq> 0), err, v) }
        else Some ((de_type (dir_entry d), ec, False), err, v));
     if failed then Some ((False, ec), err, v)
     else if t = ft_directory then Some ((True, ec), err, v)
     else if t = ft_symlink \<and> follow_symlink then do {
       ((t, ec), err, v) \<leftarrow> env_status env (de_path (dir_entry d)) err v;
       Some ((t = ft_directory, ec), err, v) }
     else Some ((False, ec), err, v) }"

definition open_subdir :: "('f, 'h, 'd, 'w) VirtualFS environment \<Rightarrow> bool \<Rightarrow> 'd Dir \<Rightarrow>
    ('d Dir \<times> int, ('f, 'h, 'd, 'w) VirtualFS) posix_call" where
  "open_subdir env skip d err v = do {
     ((dirp, ec), err, v) \<leftarrow> Dir_base (env_allocates env) (de_path (dir_entry d)) skip err v;
     Some ((\<lparr>dir_dirp = dirp, dir_path = (if dir_path d = [] then dir_path d else de_path (dir_entry d)),
       dir_entry = no_directory_entry\<rparr>, ec), err, v) }"

definition do_unlink :: "('f, 'h, 'd, 'w) VirtualFS environment \<Rightarrow> 'd Dir \<Rightarrow>
    (bool \<times> int, ('f, 'h, 'd, 'w) VirtualFS) posix_call" where
  "do_unlink env d = env_remove env (de_path (dir_entry d))"

section \<open>Directory iterators\<close>

text \<open>The iterator at the end is \<open>None\<close>. The constructor with an error code; without one a code that is not 0
  is thrown.\<close>

definition directory_iterator :: "('f, 'h, 'd, 'w) VirtualFS environment \<Rightarrow> string \<Rightarrow> directory_options \<Rightarrow>
    ('d Dir option \<times> int, ('f, 'h, 'd, 'w) VirtualFS) posix_call" where
  "directory_iterator env p options err v = do {
     let skip = is_set options skip_permission_denied;
     ((d, ec), err, v) \<leftarrow> Dir_new env p skip err v;
     if dir_dirp d = None then Some ((None, ec), err, v)
     else do {
       ((ok, ec, d), err, v) \<leftarrow> Dir_advance skip d err v;
       if ok then Some ((Some d, ec), err, v)
       else do {
         (_, err, v) \<leftarrow> close_stream (dir_dirp d) err v;
         Some ((None, ec), err, v) } } }"

definition directory_iterator_throw :: "('f, 'h, 'd, 'w) VirtualFS environment \<Rightarrow> string \<Rightarrow> directory_options \<Rightarrow>
    ('d Dir option, ('f, 'h, 'd, 'w) VirtualFS) posix_call" where
  "directory_iterator_throw env p options err v = do {
     ((it, ec), err, v) \<leftarrow> directory_iterator env p options err v;
     if ec \<noteq> 0 then None else Some (it, err, v) }"

definition iterator_deref :: "'d Dir option \<Rightarrow> directory_entry option" where
  "iterator_deref it = map_option dir_entry it"

definition iterator_increment :: "'d Dir option \<Rightarrow> ('d Dir option \<times> int, ('f, 'h, 'd, 'w) VirtualFS) posix_call" where
  "iterator_increment it err v =
     (case it of None \<Rightarrow> Some ((None, EINVAL), err, v)
      | Some d \<Rightarrow> do {
          ((ok, ec, d), err, v) \<leftarrow> Dir_advance False d err v;
          if ok then Some ((Some d, ec), err, v)
          else do {
            (_, err, v) \<leftarrow> close_stream (dir_dirp d) err v;
            Some ((None, ec), err, v) } })"

definition iterator_next :: "'d Dir option \<Rightarrow> ('d Dir option, ('f, 'h, 'd, 'w) VirtualFS) posix_call" where
  "iterator_next it err v =
     (case it of None \<Rightarrow> None
      | Some d \<Rightarrow> do {
          ((ok, d), err, v) \<leftarrow> Dir_advance_throw False d err v;
          if ok then Some (Some d, err, v)
          else do {
            (_, err, v) \<leftarrow> close_stream (dir_dirp d) err v;
            Some (None, err, v) } })"

section \<open>Recursive directory iterators\<close>

text \<open>The stack of open directories, the innermost first.\<close>

record 'd Dir_stack =
  stack_dirs :: "'d Dir list"
  stack_orig :: string
  stack_options :: directory_options
  stack_pending :: bool

fun close_streams :: "'d Dir list \<Rightarrow> (unit, ('f, 'h, 'd, 'w) VirtualFS) posix_call" where
  "close_streams [] err v = Some ((), err, v)"
| "close_streams (d # ds) err v = do { (_, err, v) \<leftarrow> close_stream (dir_dirp d) err v; close_streams ds err v }"

text \<open>\<open>_M_dirs.reset()\<close>: the container destroys its elements from the bottom of the stack.\<close>

definition reset_dirs :: "'d Dir_stack \<Rightarrow> ('d Dir_stack option, ('f, 'h, 'd, 'w) VirtualFS) posix_call" where
  "reset_dirs s err v = do { (_, err, v) \<leftarrow> close_streams (rev (stack_dirs s)) err v; Some (None, err, v) }"

fun join_entries :: "string \<Rightarrow> 'd Dir list \<Rightarrow> string" where
  "join_entries p [] = p"
| "join_entries p (d # ds) = join_entries (path_append p (de_path (dir_entry d))) ds"

definition current_path :: "'d Dir_stack \<Rightarrow> string" where
  "current_path s =
     (if dir_path (hd (stack_dirs s)) = [] then join_entries (stack_orig s) (rev (stack_dirs s))
      else de_path (dir_entry (hd (stack_dirs s))))"

text \<open>The constructor with an error code and the throwing one differ in which \<open>advance\<close> they call: with an
  error code it is written by \<open>advance\<close> itself.\<close>

definition recursive_directory_iterator :: "('f, 'h, 'd, 'w) VirtualFS environment \<Rightarrow> string \<Rightarrow> directory_options \<Rightarrow>
    ('d Dir_stack option \<times> int, ('f, 'h, 'd, 'w) VirtualFS) posix_call" where
  "recursive_directory_iterator env p options err v = do {
     let skip = is_set options skip_permission_denied;
     let filename_only = is_set options directory_iterator_filename_only;
     ((d, ec), err, v) \<leftarrow> Dir_new env p skip err v;
     if dir_dirp d = None then Some ((None, ec), err, v)
     else do {
       ((ok, ec, d), err, v) \<leftarrow> Dir_advance skip d err v;
       if ok
       then Some ((Some \<lparr>stack_dirs = [d], stack_orig = (if filename_only then p else []), stack_options = options,
         stack_pending = True\<rparr>, ec), err, v)
       else do {
         (_, err, v) \<leftarrow> close_stream (dir_dirp d) err v;
         Some ((None, ec), err, v) } } }"

definition recursive_directory_iterator_throw :: "('f, 'h, 'd, 'w) VirtualFS environment \<Rightarrow> string \<Rightarrow> directory_options \<Rightarrow>
    ('d Dir_stack option, ('f, 'h, 'd, 'w) VirtualFS) posix_call" where
  "recursive_directory_iterator_throw env p options err v = do {
     ((it, ec), err, v) \<leftarrow> recursive_directory_iterator env p options err v;
     if ec \<noteq> 0 then None else Some (it, err, v) }"

definition recursive_options :: "'d Dir_stack option \<Rightarrow> directory_options option" where
  "recursive_options it = map_option stack_options it"

definition recursive_depth :: "'d Dir_stack option \<Rightarrow> int option" where
  "recursive_depth it = map_option (\<lambda>s. int (length (stack_dirs s)) - 1) it"

definition recursion_pending :: "'d Dir_stack option \<Rightarrow> bool option" where
  "recursion_pending it = map_option stack_pending it"

definition recursive_deref :: "'d Dir_stack option \<Rightarrow> directory_entry option" where
  "recursive_deref it = map_option (\<lambda>s. dir_entry (hd (stack_dirs s))) it"

definition disable_recursion_pending :: "'d Dir_stack option \<Rightarrow> 'd Dir_stack option option" where
  "disable_recursion_pending it = map_option (\<lambda>s. Some (s\<lparr>stack_pending := False\<rparr>)) it"

text \<open>The loop that leaves the directories that have come to their end: the stack, or \<open>None\<close> when it has run
  empty, and the error code. It stops at an error with the failing directory on top.\<close>

fun advance_or_pop :: "bool \<Rightarrow> 'd Dir list \<Rightarrow> ('d Dir list option \<times> int, ('f, 'h, 'd, 'w) VirtualFS) posix_call" where
  "advance_or_pop skip [] err v = Some ((None, 0), err, v)"
| "advance_or_pop skip (d # ds) err v = do {
     ((ok, ec, d), err, v) \<leftarrow> Dir_advance skip d err v;
     if ok \<or> ec \<noteq> 0 then Some ((Some (d # ds), ec), err, v)
     else do {
       (_, err, v) \<leftarrow> close_stream (dir_dirp d) err v;
       if ds = [] then Some ((None, 0), err, v) else advance_or_pop skip ds err v } }"

definition recursive_finish :: "'d Dir_stack \<Rightarrow> 'd Dir list option \<Rightarrow> int \<Rightarrow>
    ('d Dir_stack option \<times> int, ('f, 'h, 'd, 'w) VirtualFS) posix_call" where
  "recursive_finish s dirs ec err v =
     (case dirs of None \<Rightarrow> Some ((None, ec), err, v)
      | Some dirs \<Rightarrow>
          if ec \<noteq> 0 then do { (it, err, v) \<leftarrow> reset_dirs (s\<lparr>stack_dirs := dirs\<rparr>) err v; Some ((it, ec), err, v) }
          else Some ((Some (s\<lparr>stack_dirs := dirs\<rparr>), ec), err, v))"

definition recursive_increment :: "('f, 'h, 'd, 'w) VirtualFS environment \<Rightarrow> 'd Dir_stack option \<Rightarrow> int \<Rightarrow>
    ('d Dir_stack option \<times> int, ('f, 'h, 'd, 'w) VirtualFS) posix_call" where
  "recursive_increment env it ec err v =
     (case it of None \<Rightarrow> Some ((None, EINVAL), err, v)
      | Some s \<Rightarrow> do {
          let follow = is_set (stack_options s) follow_directory_symlink;
          let skip = is_set (stack_options s) skip_permission_denied;
          let d = hd (stack_dirs s);
          let was_pending = stack_pending s;
          let s = s\<lparr>stack_pending := True\<rparr>;
          ((enter, ec), err, v) \<leftarrow> (if was_pending then should_recurse env follow d ec err v else Some ((False, ec), err, v));
          ((sub, ec), err, v) \<leftarrow> (if enter
            then do { ((sub, ec), err, v) \<leftarrow> open_subdir env skip d err v; Some ((Some sub, ec), err, v) }
            else Some ((None, ec), err, v));
          if enter \<and> ec \<noteq> 0 then do { (it, err, v) \<leftarrow> reset_dirs s err v; Some ((it, ec), err, v) }
          else do {
            let dirs = (case sub of Some sub \<Rightarrow> if dir_dirp sub \<noteq> None then sub # stack_dirs s else stack_dirs s
              | None \<Rightarrow> stack_dirs s);
            ((dirs, left_ec), err, v) \<leftarrow> advance_or_pop skip dirs err v;
            recursive_finish s dirs left_ec err v } })"

definition recursive_next :: "('f, 'h, 'd, 'w) VirtualFS environment \<Rightarrow> 'd Dir_stack option \<Rightarrow>
    ('d Dir_stack option, ('f, 'h, 'd, 'w) VirtualFS) posix_call" where
  "recursive_next env it err v = do {
     ((it, ec), err, v) \<leftarrow> recursive_increment env it 0 err v;
     if ec \<noteq> 0 then None else Some (it, err, v) }"

definition recursive_pop :: "'d Dir_stack option \<Rightarrow> ('d Dir_stack option \<times> int, ('f, 'h, 'd, 'w) VirtualFS) posix_call" where
  "recursive_pop it err v =
     (case it of None \<Rightarrow> Some ((None, EINVAL), err, v)
      | Some s \<Rightarrow> do {
          let skip = is_set (stack_options s) skip_permission_denied;
          (_, err, v) \<leftarrow> close_stream (dir_dirp (hd (stack_dirs s))) err v;
          ((dirs, ec), err, v) \<leftarrow> advance_or_pop skip (tl (stack_dirs s)) err v;
          recursive_finish s dirs ec err v })"

definition recursive_pop_throw :: "'d Dir_stack option \<Rightarrow> ('d Dir_stack option, ('f, 'h, 'd, 'w) VirtualFS) posix_call" where
  "recursive_pop_throw it err v = do {
     ((it, ec), err, v) \<leftarrow> recursive_pop it err v;
     if ec \<noteq> 0 then None else Some (it, err, v) }"

section \<open>Erasing\<close>

abbreviation (input) EISDIR :: errno where "EISDIR \<equiv> 21"

text \<open>The loop of \<open>__erase\<close>: one element removed, or an error, with the stack as it is then. An assertion
  that fails does not return.\<close>

partial_function (option) erase_loop :: "('f, 'h, 'd, 'w) VirtualFS environment \<Rightarrow> 'd Dir list \<Rightarrow> int \<Rightarrow>
    ('f, 'h, 'd, 'w) VirtualFS \<Rightarrow> ('d Dir list \<times> int, ('f, 'h, 'd, 'w) VirtualFS) syscall" where
  "erase_loop env dirs err v =
     (case dirs of [] \<Rightarrow> None
      | d # ds \<Rightarrow>
          if de_type (dir_entry d) = ft_directory then do {
            ((sub, ec), err, v) \<leftarrow> open_subdir env False d err v;
            if ec \<noteq> 0 then Some ((dirs, ec), err, v)
            else if dir_dirp sub = None then None
            else do {
              ((ok, ec, sub), err, v) \<leftarrow> Dir_advance False sub err v;
              if ok then erase_loop env (sub # dirs) err v
              else if ec \<noteq> 0 then do {
                (_, err, v) \<leftarrow> close_stream (dir_dirp sub) err v;
                Some ((dirs, ec), err, v) }
              else do {
                ((removed, ec), err, v) \<leftarrow> do_unlink env d err v;
                (_, err, v) \<leftarrow> close_stream (dir_dirp sub) err v;
                if removed \<or> ec \<noteq> 0 then Some ((dirs, ec), err, v) else erase_loop env dirs err v } } }
          else do {
            ((removed, ec), err, v) \<leftarrow> do_unlink env d err v;
            if removed then Some ((dirs, ec), err, v)
            else if de_type (dir_entry d) = ft_none \<and> (ec = EPERM \<or> ec = EISDIR)
            then erase_loop env (d\<lparr>dir_entry := (dir_entry d)\<lparr>de_type := ft_directory\<rparr>\<rparr> # ds) err v
            else if ec \<noteq> 0 then Some ((dirs, ec), err, v)
            else erase_loop env dirs err v })"

text \<open>\<open>__erase\<close>; the error code is the one behind \<open>ecptr\<close>, which is only written on an error.\<close>

definition recursive_erase :: "('f, 'h, 'd, 'w) VirtualFS environment \<Rightarrow> 'd Dir_stack option \<Rightarrow> int \<Rightarrow>
    ('d Dir_stack option \<times> int, ('f, 'h, 'd, 'w) VirtualFS) posix_call" where
  "recursive_erase env it ecptr err v =
     (case it of None \<Rightarrow> Some ((None, ecptr), err, v)
      | Some s \<Rightarrow> do {
          ((dirs, ec), err, v) \<leftarrow> erase_loop env (stack_dirs s) err v;
          ((dirs, more, ec), err, v) \<leftarrow> (if ec = 0
            then do {
              ((ok, ec, d), err, v) \<leftarrow> Dir_advance False (hd dirs) err v;
              Some ((d # tl dirs, ok, ec), err, v) }
            else Some ((dirs, False, ec), err, v));
          if ec \<noteq> 0 then do {
            (it, err, v) \<leftarrow> reset_dirs (s\<lparr>stack_dirs := dirs\<rparr>) err v;
            Some ((it, ec), err, v) }
          else if more then Some ((Some (s\<lparr>stack_dirs := dirs\<rparr>), ecptr), err, v)
          else do {
            (_, err, v) \<leftarrow> close_stream (dir_dirp (hd dirs)) err v;
            Some ((if tl dirs = [] then None else Some (s\<lparr>stack_dirs := tl dirs\<rparr>), ecptr), err, v) } })"

section \<open>What an iteration delivers\<close>

text \<open>The elements a stream delivers until its end, and stream and state there.\<close>

fun stream_lists :: "'d dirstream option \<Rightarrow> ('f, 'h, 'd, 'w) VirtualFS \<Rightarrow> dirent list \<Rightarrow> 'd dirstream option \<Rightarrow>
    ('f, 'h, 'd, 'w) VirtualFS \<Rightarrow> bool" where
  "stream_lists d v [] d' v' \<longleftrightarrow> sys_readdir d 0 v = Some ((None, d'), 0, v')"
| "stream_lists d v (e # es) d' v' \<longleftrightarrow>
     (case sys_readdir d 0 v of Some ((Some x, d1), _, v1) \<Rightarrow> x = e \<and> stream_lists d1 v1 es d' v' | _ \<Rightarrow> False)"

definition real_entries :: "dirent list \<Rightarrow> dirent list" where
  "real_entries es = filter (\<lambda>e. d_name e \<notin> {''.'', ''..''}) es"

lemma real_entries_simps [simp]:
  "real_entries [] = []"
  "real_entries (e # es) = (if is_dot_or_dotdot (d_name e) then real_entries es else e # real_entries es)"
  by (simp_all add: real_entries_def is_dot_or_dotdot_def)

lemma stream_lists_Cons:
  "stream_lists d v (e # es) d' v' \<longleftrightarrow> (\<exists>d1 err v1. sys_readdir d 0 v = Some ((Some e, d1), err, v1) \<and> stream_lists d1 v1 es d' v')"
  by (auto split: option.splits)

declare stream_lists.simps(2) [simp del]

lemma base_advance_lists:
  assumes "stream_lists d v es d' v'"
  shows "case real_entries es of
      [] \<Rightarrow> base_advance skip d err v = Some ((None, 0, d'), err, v')
    | e # rest \<Rightarrow> \<exists>d1 v1 es1. base_advance skip d err v = Some ((Some e, 0, d1), err, v1) \<and> stream_lists d1 v1 es1 d' v' \<and>
        real_entries es1 = rest"
  using assms
proof (induction es arbitrary: d v)
  case Nil
  then show ?case by (simp add: base_advance.simps [of skip d err v])
next
  case (Cons e es)
  obtain d1 e1 v1 where one: "sys_readdir d 0 v = Some ((Some e, d1), e1, v1)" "stream_lists d1 v1 es d' v'"
    using Cons.prems by (auto simp: stream_lists_Cons)
  show ?case
  proof (cases "is_dot_or_dotdot (d_name e)")
    case True
    then have eq: "base_advance skip d err v = base_advance skip d1 err v1"
      by (simp add: base_advance.simps [of skip d err v] one(1))
    show ?thesis unfolding eq using Cons.IH [OF one(2)] True by simp
  next
    case False
    then show ?thesis
      using one by (auto simp: base_advance.simps [of skip d err v])
  qed
qed

lemma Dir_advance_lists:
  assumes "stream_lists (dir_dirp d) v es d' v'"
  shows "case real_entries es of
      [] \<Rightarrow> Dir_advance skip d err v = Some ((False, 0, d\<lparr>dir_dirp := d', dir_entry := no_directory_entry\<rparr>), err, v')
    | e # rest \<Rightarrow> \<exists>d1 v1 es1. Dir_advance skip d err v =
        Some ((True, 0, d\<lparr>dir_dirp := d1, dir_entry := make_entry (dir_path d) e\<rparr>), err, v1) \<and>
        stream_lists d1 v1 es1 d' v' \<and> real_entries es1 = rest"
proof (cases "real_entries es")
  case Nil
  then show ?thesis using base_advance_lists [OF assms, of skip err] by (simp add: Dir_advance_def)
next
  case (Cons e rest)
  then obtain d1 v1 es1 where "base_advance skip (dir_dirp d) err v = Some ((Some e, 0, d1), err, v1)"
    "stream_lists d1 v1 es1 d' v'" "real_entries es1 = rest"
    using base_advance_lists [OF assms, of skip err] by auto
  then have "Dir_advance skip d err v =
      Some ((True, 0, d\<lparr>dir_dirp := d1, dir_entry := make_entry (dir_path d) e\<rparr>), err, v1)"
    "stream_lists d1 v1 es1 d' v'" "real_entries es1 = rest"
    by (simp_all add: Dir_advance_def)
  then show ?thesis using Cons by (simp only: list.case) blast
qed

text \<open>The entries of an iterator, by at most \<open>n\<close> increments.\<close>

fun walk :: "nat \<Rightarrow> 'd Dir option \<Rightarrow> (directory_entry list \<times> 'd Dir option \<times> int, ('f, 'h, 'd, 'w) VirtualFS) posix_call" where
  "walk 0 it err v = Some (([], it, 0), err, v)"
| "walk (Suc n) None err v = Some (([], None, 0), err, v)"
| "walk (Suc n) (Some d) err v = do {
     ((it, ec), err, v) \<leftarrow> iterator_increment (Some d) err v;
     if ec \<noteq> 0 then Some (([dir_entry d], it, ec), err, v)
     else do {
       ((es, it, ec), err, v) \<leftarrow> walk n it err v;
       Some ((dir_entry d # es, it, ec), err, v) } }"

lemma walk_lists:
  assumes "stream_lists (dir_dirp d) v es d' v'" "close_stream d' err v' = Some ((), err2, v2)" "length (real_entries es) < n"
  shows "walk n (Some d) err v = Some ((dir_entry d # List.map (make_entry (dir_path d)) (real_entries es), None, 0), err2, v2)"
  using assms(1,3)
proof (induction n arbitrary: d v es)
  case 0
  then show ?case by simp
next
  case (Suc n)
  note adv = Dir_advance_lists [OF Suc.prems(1), of False err]
  show ?case
  proof (cases "real_entries es")
    case Nil
    then have "iterator_increment (Some d) err v = Some ((None, 0), err2, v2)"
      using adv assms(2) by (simp add: iterator_increment_def)
    then show ?thesis using Nil by (cases n) simp_all
  next
    case (Cons e rest)
    obtain d1 v1 es1 where one: "Dir_advance False d err v =
        Some ((True, 0, d\<lparr>dir_dirp := d1, dir_entry := make_entry (dir_path d) e\<rparr>), err, v1)"
      "stream_lists d1 v1 es1 d' v'" "real_entries es1 = rest"
      using adv Cons by auto
    let ?d = "d\<lparr>dir_dirp := d1, dir_entry := make_entry (dir_path d) e\<rparr>"
    have "walk n (Some ?d) err v1 = Some ((dir_entry ?d # List.map (make_entry (dir_path ?d)) (real_entries es1), None, 0), err2, v2)"
      using Suc.IH [of ?d v1 es1] one Suc.prems(2) Cons by simp
    then show ?thesis using one Cons by (simp add: iterator_increment_def)
  qed
qed

text \<open>C13: A directory iterator delivers every element of the directory exactly once, in the order of \<open>readdir\<close>,
  with its full path and its type, and neither \<open>.\<close> nor \<open>..\<close>; then it is the end iterator, without an error,
  and the directory has been closed.\<close>

theorem directory_iterator_delivers:
  assumes "sys_opendir (env_allocates env) (Some p) err v = Some (Some s, err1, v1)" "stream_lists (Some s) v1 es d' v2"
    and "close_stream d' err1 v2 = Some ((), err2, v3)" "length es < n"
  shows "\<exists>it err' v'. directory_iterator env p options err v = Some ((it, 0), err', v') \<and>
    walk n it err' v' = Some ((List.map (make_entry p) (real_entries es), None, 0), err2, v3)"
proof -
  let ?d = "\<lparr>dir_dirp = Some s, dir_path = p, dir_entry = no_directory_entry\<rparr>"
  have new: "Dir_new env p skip err v = Some ((?d, 0), err1, v1)" for skip
    using assms(1) by (simp add: Dir_new_def Dir_base_def)
  have listed: "stream_lists (dir_dirp ?d) v1 es d' v2" using assms(2) by simp
  note adv = Dir_advance_lists [OF listed, of "is_set options skip_permission_denied" err1]
  have short: "length (real_entries es) \<le> length es" by (simp add: real_entries_def)
  show ?thesis
  proof (cases "real_entries es")
    case Nil
    then have "directory_iterator env p options err v = Some ((None, 0), err2, v3)"
      using adv assms(3) by (simp add: directory_iterator_def new Let_def)
    then show ?thesis using Nil assms(4) by (cases n) simp_all
  next
    case (Cons e rest)
    obtain d1 u es1 where one: "Dir_advance (is_set options skip_permission_denied) ?d err1 v1 =
        Some ((True, 0, ?d\<lparr>dir_dirp := d1, dir_entry := make_entry p e\<rparr>), err1, u)"
      "stream_lists d1 u es1 d' v2" "real_entries es1 = rest"
      using adv Cons by auto
    let ?e = "?d\<lparr>dir_dirp := d1, dir_entry := make_entry p e\<rparr>"
    have "directory_iterator env p options err v = Some ((Some ?e, 0), err1, u)"
      using one(1) by (simp add: directory_iterator_def new Let_def)
    moreover have "walk n (Some ?e) err1 u = Some ((dir_entry ?e # List.map (make_entry (dir_path ?e)) (real_entries es1), None, 0), err2, v3)"
      using one assms(3,4) short Cons by (intro walk_lists) auto
    ultimately show ?thesis using one(3) Cons by simp
  qed
qed

lemma sample_opendir:
  "sys_opendir True (Some ''/vol'') 0 (sample_vfs 0) =
    Some (Some \<lparr>dirh = \<lparr>dir_root = ''/vol'', dir_raw = 0\<rparr>, position = 0, dir_data = dirent_zero\<rparr>, 0, sample_vfs 0)"
proof -
  have "absolute_path ''/vol'' = Inr ''/vol''" by code_simp
  moreover have "find_mount_point ''/vol'' (m_mounts (sample_vfs 0)) = Some ''/vol''" by (simp add: sample_vfs_def)
  moreover have "call_locked ''/vol'' (\<lambda>fs. fs_diropen fs ''/vol'') (sample_vfs 0) =
      Some (Inr \<lparr>dir_root = ''/vol'', dir_raw = 0\<rparr>, sample_vfs 0)"
    by (rule sample_call) (simp add: filesystem_lwext4_ops_def lwext4_diropen_def sample_api_def sample_fs_def)
  ultimately show ?thesis by (simp add: sys_opendir_def VirtualFS_diropen_def)
qed

definition sample_entry_a :: dirent where
  "sample_entry_a = \<lparr>d_ino = 12, d_type = DT_REG, d_reclen = 1, d_name = ''a''\<rparr>"

definition sample_env :: "'v environment" where
  "sample_env = \<lparr>env_allocates = True, env_symlink_status = \<lambda>_ e v. None, env_status = \<lambda>_ e v. None,
     env_remove = \<lambda>_ e v. None\<rparr>"

lemma sample_readdir_step:
  "sys_readdir (Some \<lparr>dirh = \<lparr>dir_root = ''/vol'', dir_raw = n\<rparr>, position = p, dir_data = x\<rparr>) e (sample_vfs 0) =
    (case sample_dirent n of
       None \<Rightarrow> Some ((None, Some \<lparr>dirh = \<lparr>dir_root = ''/vol'', dir_raw = n + 1\<rparr>, position = p, dir_data = x\<rparr>), e, sample_vfs 0)
     | Some de \<Rightarrow>
         let ent = entry_of (de_name de) (stat_zero\<lparr>st_ino := uint (de_inode de),
           st_mode := uint (ino_to_st_mode (uint (de_inode_type de)))\<rparr>) x
         in Some ((Some ent, Some \<lparr>dirh = \<lparr>dir_root = ''/vol'', dir_raw = n + 1\<rparr>, position = p + 1, dir_data = ent\<rparr>),
           e, sample_vfs 0))"
  by (auto simp: sys_readdir_def sample_dirnext sample_dirent_def d_name_size_def Let_def)

text \<open>The sample volume holds \<open>.\<close>, \<open>..\<close> and one regular file.\<close>

lemma sample_names:
  "d_name (entry_of ''.'' st x) = ''.''" "d_name (entry_of ''..'' st x) = ''..''"
  "entry_of ''a'' (stat_zero\<lparr>st_ino := 12, st_mode := 32768\<rparr>) x = sample_entry_a"
proof -
  have "stmode_to_type 32768 = DT_REG" by (simp add: stmode_to_type_def has_type_def)
  then show "d_name (entry_of ''.'' st x) = ''.''" "d_name (entry_of ''..'' st x) = ''..''"
    "entry_of ''a'' (stat_zero\<lparr>st_ino := 12, st_mode := 32768\<rparr>) x = sample_entry_a"
    by (simp_all add: entry_of_def c_str_def d_name_size_def sample_entry_a_def)
qed

lemma sample_listing:
  "\<exists>e0 e1 d'. stream_lists (Some \<lparr>dirh = \<lparr>dir_root = ''/vol'', dir_raw = 0\<rparr>, position = 0, dir_data = dirent_zero\<rparr>)
      (sample_vfs 0) [e0, e1, sample_entry_a] (Some d') (sample_vfs 0) \<and> d_name e0 = ''.'' \<and> d_name e1 = ''..'' \<and>
      dirh d' = \<lparr>dir_root = ''/vol'', dir_raw = 4\<rparr>"
proof -
  have dirents: "sample_dirent 0 = Some \<lparr>de_inode = 2, de_inode_type = 2, de_name = ''.''\<rparr>"
    "sample_dirent (Suc 0) = Some \<lparr>de_inode = 2, de_inode_type = 2, de_name = ''..''\<rparr>"
    "sample_dirent 2 = Some \<lparr>de_inode = 12, de_inode_type = 1, de_name = ''a''\<rparr>" "sample_dirent 3 = None"
    by (simp_all add: sample_dirent_def)
  have suc: "Suc 0 + 1 = 2" "Suc (Suc 0) = 2" "Suc 2 = 3" "Suc 3 = 4" by simp_all
  have mode: "uint (ino_to_st_mode 1) = 32768" by (simp add: ino_to_st_mode_def)
  show ?thesis
    by (simp add: stream_lists_Cons sample_readdir_step dirents suc Let_def mode sample_names)
qed

theorem directory_iterator_delivers_witness:
  "\<exists>it err' v' err2 v3. directory_iterator sample_env ''/vol'' 0 0 (sample_vfs 0) = Some ((it, 0), err', v') \<and>
    walk 4 it err' v' = Some (([\<lparr>de_path = ''/vol/a'', de_type = ft_regular\<rparr>], None, 0), err2, v3)"
proof -
  obtain e0 e1 d' where listed: "stream_lists (Some \<lparr>dirh = \<lparr>dir_root = ''/vol'', dir_raw = 0\<rparr>, position = 0, dir_data = dirent_zero\<rparr>)
      (sample_vfs 0) [e0, e1, sample_entry_a] (Some d') (sample_vfs 0)" "d_name e0 = ''.''" "d_name e1 = ''..''"
      "dirh d' = \<lparr>dir_root = ''/vol'', dir_raw = 4\<rparr>"
    using sample_listing by blast
  have "call_locked ''/vol'' (\<lambda>fs. fs_dirclose fs (dirh d')) (sample_vfs 0) = Some ((0, dirh d'), sample_vfs 0)"
    by (rule sample_call) (simp add: filesystem_lwext4_ops_def lwext4_dirclose_def sample_api_def listed(4))
  then have closed: "close_stream (Some d') 0 (sample_vfs 0) = Some ((), 0, sample_vfs 0)"
    by (simp add: close_stream_def sys_closedir_def VirtualFS_dirclose_def invoke_dirops_def DirectoryHandle_get_root_def listed(4))
  have opened: "sys_opendir (env_allocates (sample_env :: (unit filesystem_lwext4, nat, nat, unit) VirtualFS environment))
      (Some ''/vol'') 0 (sample_vfs 0) =
      Some (Some \<lparr>dirh = \<lparr>dir_root = ''/vol'', dir_raw = 0\<rparr>, position = 0, dir_data = dirent_zero\<rparr>, 0, sample_vfs 0)"
    by (simp add: sample_env_def sample_opendir)
  have path: "path_append ''/vol'' ''a'' = ''/vol/a''" by code_simp
  have type: "get_file_type sample_entry_a = ft_regular" "d_type sample_entry_a \<noteq> DT_UNKNOWN" "d_name sample_entry_a = ''a''"
    by (simp_all add: get_file_type_def sample_entry_a_def DT_REG_def DT_BLK_def DT_CHR_def DT_DIR_def DT_FIFO_def
        DT_LNK_def DT_UNKNOWN_def)
  have "real_entries [e0, e1, sample_entry_a] = [sample_entry_a]"
    using listed(2,3) type(3) by (simp add: is_dot_or_dotdot_def)
  then show ?thesis
    using directory_iterator_delivers [OF opened listed(1) closed, of 4 0] by (auto simp: make_entry_def path type)
qed

section \<open>The stack of a recursive iterator\<close>

lemma advance_or_pop_stack:
  "advance_or_pop skip ds err v = Some ((left, ec), err', v') \<Longrightarrow>
    (case left of None \<Rightarrow> ec = 0 | Some ds' \<Rightarrow> ds' \<noteq> [] \<and> length ds' \<le> length ds)"
proof (induction ds arbitrary: err v)
  case (Cons d ds)
  obtain ok e d1 err1 v1 where one: "Dir_advance skip d err v = Some ((ok, e, d1), err1, v1)"
    using Cons.prems by (auto simp: bind_eq_Some_conv)
  show ?case
  proof (cases "ok \<or> e \<noteq> 0")
    case True
    then show ?thesis using Cons.prems one by auto
  next
    case False
    then obtain err2 v2 where "(if ds = [] then Some ((None, 0), err2, v2) else advance_or_pop skip ds err2 v2) =
        Some ((left, ec), err', v')"
      using Cons.prems one by (auto simp: bind_eq_Some_conv)
    then show ?thesis using Cons.IH [of err2 v2] by (fastforce split: if_splits option.splits)
  qed
qed auto

lemma recursive_finish_stack:
  assumes "recursive_finish s left ec err v = Some ((it, ec'), err', v')"
    and "case left of None \<Rightarrow> ec = 0 | Some ds' \<Rightarrow> ds' \<noteq> [] \<and> length ds' \<le> n"
  shows "ec' = ec" "case it of None \<Rightarrow> True | Some s' \<Rightarrow> ec' = 0 \<and> (\<exists>ds. s' = s\<lparr>stack_dirs := ds\<rparr> \<and> ds \<noteq> [] \<and> length ds \<le> n)"
  using assms by (auto simp: recursive_finish_def reset_dirs_def bind_eq_Some_conv split: option.splits if_splits)

text \<open>The steps of a recursive walk.\<close>

datatype walk_step = Increment | Pop

fun run_walk_step :: "('f, 'h, 'd, 'w) VirtualFS environment \<Rightarrow> walk_step \<Rightarrow> 'd Dir_stack option \<Rightarrow> int \<Rightarrow>
    ('d Dir_stack option \<times> int, ('f, 'h, 'd, 'w) VirtualFS) posix_call" where
  "run_walk_step env Increment it ec err v = recursive_increment env it ec err v"
| "run_walk_step env Pop it ec err v = recursive_pop it err v"

text \<open>What an increment comes to once it has entered a directory or not.\<close>

lemma recursive_increment_entered:
  assumes "recursive_increment env (Some s) ec0 err v = Some ((it, ec), err', v')"
  obtains sub e2 err2 v2 where "(if sub \<noteq> None \<and> e2 \<noteq> 0 then do { (it, err, v) \<leftarrow> reset_dirs (s\<lparr>stack_pending := True\<rparr>) err2 v2; Some ((it, e2), err, v) }
      else do {
        ((dirs, left_ec), err, v) \<leftarrow> advance_or_pop (is_set (stack_options s) skip_permission_denied) (case sub of
            Some sub \<Rightarrow> if dir_dirp sub \<noteq> None then sub # stack_dirs s else stack_dirs s
          | None \<Rightarrow> stack_dirs s) err2 v2;
        recursive_finish (s\<lparr>stack_pending := True\<rparr>) dirs left_ec err v }) = Some ((it, ec), err', v')"
proof -
  obtain enter e1 err1 v1 where step1: "(if stack_pending s
      then should_recurse env (is_set (stack_options s) follow_directory_symlink) (hd (stack_dirs s)) ec0 err v
      else Some ((False, ec0), err, v)) = Some ((enter, e1), err1, v1)"
    using assms by (auto simp: recursive_increment_def Let_def bind_eq_Some_conv)
  show thesis
  proof (cases enter)
    case False
    then show thesis
      using that [of None e1 err1 v1] assms step1 by (simp add: recursive_increment_def Let_def)
  next
    case True
    then obtain sub e2 err2 v2 where "open_subdir env (is_set (stack_options s) skip_permission_denied) (hd (stack_dirs s)) err1 v1 = Some ((sub, e2), err2, v2)"
      using assms step1 by (auto simp: recursive_increment_def Let_def bind_eq_Some_conv)
    then show thesis
      using that [of "Some sub" e2 err2 v2] True assms step1
      by (cases "e2 = 0") (simp_all add: recursive_increment_def Let_def cong: if_cong)
  qed
qed

text \<open>C22: A recursive iterator that is not at its end stands on at least one open directory. A step descends by at
  most one level, a \<open>pop\<close> ascends by at least one; after a step without an error the recursion is pending
  again and the options are the same, and an error leaves the end iterator.\<close>

theorem recursive_iterator_stack:
  assumes "stack_dirs s \<noteq> []" "run_walk_step env step (Some s) ec0 err v = Some ((it, ec), err', v')"
  shows "case it of None \<Rightarrow> True
    | Some s' \<Rightarrow> ec = 0 \<and> stack_dirs s' \<noteq> [] \<and> stack_options s' = stack_options s \<and> stack_orig s' = stack_orig s \<and>
        (case step of Increment \<Rightarrow> length (stack_dirs s') \<le> length (stack_dirs s) + 1 \<and> stack_pending s'
         | Pop \<Rightarrow> length (stack_dirs s') < length (stack_dirs s) \<and> stack_pending s' = stack_pending s)"
proof (cases step)
  case Pop
  let ?skip = "is_set (stack_options s) skip_permission_denied"
  obtain err1 v1 left e err2 v2 where adv: "advance_or_pop ?skip (tl (stack_dirs s)) err1 v1 = Some ((left, e), err2, v2)"
    "recursive_finish s left e err2 v2 = Some ((it, ec), err', v')"
    using assms(2) by (auto simp: Pop recursive_pop_def Let_def bind_eq_Some_conv)
  show ?thesis
    using recursive_finish_stack(2) [OF adv(2) advance_or_pop_stack [OF adv(1)]] assms(1)
    by (auto simp: Pop less_le_trans split: option.splits) (cases "stack_dirs s", auto)+
next
  case Increment
  let ?skip = "is_set (stack_options s) skip_permission_denied"
  let ?s = "s\<lparr>stack_pending := True\<rparr>"
  obtain sub e2 err2 v2 where entered: "(if sub \<noteq> None \<and> e2 \<noteq> 0 then do { (it, err, v) \<leftarrow> reset_dirs ?s err2 v2; Some ((it, e2), err, v) }
      else do {
        ((dirs, left_ec), err, v) \<leftarrow> advance_or_pop ?skip (case sub of
            Some sub \<Rightarrow> if dir_dirp sub \<noteq> None then sub # stack_dirs s else stack_dirs s
          | None \<Rightarrow> stack_dirs s) err2 v2;
        recursive_finish ?s dirs left_ec err v }) = Some ((it, ec), err', v')"
    using assms(2) unfolding Increment run_walk_step.simps by (rule recursive_increment_entered)
  consider (reset) err1 v1 where "reset_dirs ?s err1 v1 = Some (it, err', v')"
    | (moved) dirs err1 v1 left e err2 v2 where "advance_or_pop ?skip dirs err1 v1 = Some ((left, e), err2, v2)"
      "recursive_finish ?s left e err2 v2 = Some ((it, ec), err', v')" "length dirs \<le> length (stack_dirs s) + 1"
    using entered by (auto simp: bind_eq_Some_conv simp del: advance_or_pop.simps split: if_splits option.splits)
  then show ?thesis
  proof cases
    case reset
    then show ?thesis by (auto simp: reset_dirs_def bind_eq_Some_conv)
  next
    case moved
    then show ?thesis
      using recursive_finish_stack(2) [OF moved(2) advance_or_pop_stack [OF moved(1)]]
      by (auto simp: Increment split: option.splits)
  qed
qed

definition sample_stack :: "nat Dir_stack" where
  "sample_stack = \<lparr>stack_dirs = [\<lparr>dir_dirp = Some \<lparr>dirh = \<lparr>dir_root = ''/vol'', dir_raw = 2\<rparr>, position = 2, dir_data = dirent_zero\<rparr>,
     dir_path = ''/vol'', dir_entry = \<lparr>de_path = ''/vol/b'', de_type = ft_regular\<rparr>\<rparr>],
     stack_orig = [], stack_options = 0, stack_pending = True\<rparr>"

lemma sample_increment:
  "\<exists>s'. run_walk_step sample_env Increment (Some sample_stack) 0 0 (sample_vfs 0) = Some ((Some s', 0), 0, sample_vfs 0)"
proof -
  have dirent: "sample_dirent 2 = Some \<lparr>de_inode = 12, de_inode_type = 1, de_name = ''a''\<rparr>" by (simp add: sample_dirent_def)
  have mode: "uint (ino_to_st_mode 1) = 32768" by (simp add: ino_to_st_mode_def)
  have "\<not> is_dot_or_dotdot (d_name sample_entry_a)" by (simp add: is_dot_or_dotdot_def sample_entry_a_def)
  then have "base_advance False (Some \<lparr>dirh = \<lparr>dir_root = ''/vol'', dir_raw = 2\<rparr>, position = 2, dir_data = dirent_zero\<rparr>) 0 (sample_vfs 0) =
    Some ((Some sample_entry_a, 0, Some \<lparr>dirh = \<lparr>dir_root = ''/vol'', dir_raw = 3\<rparr>, position = 3, dir_data = sample_entry_a\<rparr>), 0, sample_vfs 0)"
    by (simp add: base_advance.simps sample_readdir_step dirent Let_def mode sample_names)
  then show ?thesis
    by (simp add: recursive_increment_def sample_stack_def is_set_def should_recurse_def recursive_finish_def Dir_advance_def
        skip_permission_denied_def follow_directory_symlink_def)
qed

theorem recursive_iterator_stack_witness:
  "\<exists>s'. run_walk_step sample_env Increment (Some sample_stack) 0 0 (sample_vfs 0) = Some ((Some s', 0), 0, sample_vfs 0) \<and>
    stack_dirs s' \<noteq> [] \<and> length (stack_dirs s') \<le> 2 \<and> stack_pending s'"
proof -
  obtain s' where run: "run_walk_step sample_env Increment (Some sample_stack) 0 0 (sample_vfs 0) = Some ((Some s', 0), 0, sample_vfs 0)"
    using sample_increment by blast
  have "stack_dirs sample_stack \<noteq> []" "length (stack_dirs sample_stack) = 1" by (simp_all add: sample_stack_def)
  then show ?thesis using recursive_iterator_stack [OF _ run] run by simp
qed

section \<open>What erasing removes\<close>

text \<open>The removal of an entry. Of a directory: it is opened, nothing is found in it, it is removed in the state the
  listing has left, and its stream is closed.\<close>

inductive removes :: "('f, 'h, 'd, 'w) VirtualFS environment \<Rightarrow> directory_entry \<Rightarrow> int \<Rightarrow> ('f, 'h, 'd, 'w) VirtualFS \<Rightarrow>
    bool" for env where
  other_file: "de_type e \<noteq> ft_directory \<Longrightarrow> env_remove env (de_path e) err0 v0 = Some ((True, 0), err, v) \<Longrightarrow>
    removes env e err v"
| empty_directory: "de_type e = ft_directory \<Longrightarrow> dir_entry d = e \<Longrightarrow>
    open_subdir env False d err0 v0 = Some ((sub, 0), err1, v1) \<Longrightarrow>
    Dir_advance False sub err1 v1 = Some ((False, 0, sub'), err2, v2) \<Longrightarrow>
    env_remove env (de_path e) err2 v2 = Some ((True, 0), err3, v3) \<Longrightarrow>
    close_stream (dir_dirp sub') err3 v3 = Some ((), err, v) \<Longrightarrow> removes env e err v"

definition erased_top :: "('f, 'h, 'd, 'w) VirtualFS environment \<Rightarrow> 'd Dir list \<Rightarrow>
    ('d Dir list \<times> int) \<times> int \<times> ('f, 'h, 'd, 'w) VirtualFS \<Rightarrow> bool" where
  "erased_top env dirs r = (case r of ((dirs', ec), err, v) \<Rightarrow> ec = 0 \<longrightarrow>
     (\<exists>d new. dirs' = d # new @ tl dirs \<and> removes env (dir_entry d) err v))"

lemma erased_top_deeper: "erased_top env (sub # d # ds) r \<Longrightarrow> erased_top env (d # ds) r"
  by (auto simp: erased_top_def split: prod.splits)

lemma erase_loop_sound:
  assumes "erase_loop env dirs err v = Some r"
  shows "erased_top env dirs r"
proof (rule erase_loop.raw_induct [OF _ assms, where P = "\<lambda>env dirs err v r. erased_top env dirs r"], goal_cases)
  case (1 loop env dirs err v r)
  obtain d ds where dirs: "dirs = d # ds" using 1(2) by (auto split: list.splits)
  show ?case
  proof (cases "de_type (dir_entry d) = ft_directory")
    case dir: True
    obtain sub ec err1 v1 where sub: "open_subdir env False d err v = Some ((sub, ec), err1, v1)"
      using 1(2) dir by (auto simp: dirs bind_eq_Some_conv)
    show ?thesis
    proof (cases "ec = 0")
      case False
      then show ?thesis using 1(2) dir sub by (auto simp: dirs erased_top_def)
    next
      case ec: True
      have stream: "dir_dirp sub \<noteq> None" using 1(2) dir sub ec by (simp add: dirs split: if_splits)
      obtain ok ec2 sub2 err2 v2 where adv: "Dir_advance False sub err1 v1 = Some ((ok, ec2, sub2), err2, v2)"
        using 1(2) dir sub ec stream by (auto simp: dirs bind_eq_Some_conv)
      consider (deeper) ok | (failed) "\<not> ok" "ec2 \<noteq> 0" | (empty) "\<not> ok" "ec2 = 0" by blast
      then show ?thesis
      proof cases
        case deeper
        then have "loop env (sub2 # dirs) err2 v2 = Some r" using 1(2) dir sub ec stream adv by (simp add: dirs)
        from 1(1) [OF this] show ?thesis unfolding dirs by (rule erased_top_deeper)
      next
        case failed
        then show ?thesis using 1(2) dir sub ec stream adv by (auto simp: dirs erased_top_def bind_eq_Some_conv)
      next
        case empty
        obtain removed ec3 err3 v3 where rm: "env_remove env (de_path (dir_entry d)) err2 v2 = Some ((removed, ec3), err3, v3)"
          using 1(2) dir sub ec stream adv empty by (auto simp: dirs do_unlink_def bind_eq_Some_conv)
        obtain err4 v4 where cl: "close_stream (dir_dirp sub2) err3 v3 = Some ((), err4, v4)"
          using 1(2) dir sub ec stream adv empty rm by (auto simp: dirs do_unlink_def bind_eq_Some_conv)
        have r: "(if removed \<or> ec3 \<noteq> 0 then Some ((dirs, ec3), err4, v4) else loop env dirs err4 v4) = Some r"
          using 1(2) dir sub ec stream adv empty rm cl by (simp add: dirs do_unlink_def)
        show ?thesis
        proof (cases "removed \<and> ec3 = 0")
          case True
          have "removes env (dir_entry d) err4 v4"
            using True dir sub ec adv empty rm cl by (intro removes.empty_directory [OF dir refl]) auto
          then show ?thesis using r True by (auto simp: dirs erased_top_def)
        next
          case False
          then show ?thesis using r 1(1) [of env dirs err4 v4 r] by (auto simp: erased_top_def split: if_splits)
        qed
      qed
    qed
  next
    case other: False
    obtain removed ec err1 v1 where rm: "env_remove env (de_path (dir_entry d)) err v = Some ((removed, ec), err1, v1)"
      using 1(2) other by (auto simp: dirs do_unlink_def bind_eq_Some_conv)
    show ?thesis
    proof (cases removed)
      case True
      then show ?thesis using 1(2) other rm removes.other_file [OF other]
        by (auto simp: dirs do_unlink_def erased_top_def)
    next
      case False
      let ?d = "d\<lparr>dir_entry := (dir_entry d)\<lparr>de_type := ft_directory\<rparr>\<rparr>"
      have r: "(if de_type (dir_entry d) = ft_none \<and> (ec = EPERM \<or> ec = EISDIR) then loop env (?d # ds) err1 v1
        else if ec \<noteq> 0 then Some ((dirs, ec), err1, v1) else loop env dirs err1 v1) = Some r"
        using 1(2) other rm False by (simp add: dirs do_unlink_def)
      show ?thesis
      proof (cases "de_type (dir_entry d) = ft_none \<and> (ec = EPERM \<or> ec = EISDIR)")
        case True
        then have "loop env (?d # ds) err1 v1 = Some r" using r by simp
        from 1(1) [OF this] show ?thesis by (simp add: dirs erased_top_def)
      next
        case False
        then show ?thesis using r 1(1) [of env dirs err1 v1 r] by (auto simp: erased_top_def split: if_splits)
      qed
    qed
  qed
qed

text \<open>What one step of erasing (\<open>__erase\<close>, the step of \<open>remove_all\<close>) does if it returns, whatever the file systems
  answer. When it reports an error, the iterator is the end iterator. When it reports none, exactly the entry the iterator
  came to has been removed with the success of \<open>remove\<close>: the entry it stood on, or one below that entry in
  directories the step has entered; and an entry known as a directory only after a listing of it, in the
  state in which \<open>remove\<close> was called, had come to its end without an entry. The iterator has then moved on from
  the removed entry: to the next entry of the same directory, or out of that directory, to an unchanged
  entry of the directory above, or to the end.\<close>

theorem recursive_erase_sound:
  assumes "recursive_erase env (Some s) 0 err v = Some ((it, ec), err', v')"
  shows "if ec \<noteq> 0 then it = None
    else \<exists>d new err1 v1 more d' err2 v2. removes env (dir_entry d) err1 v1 \<and>
      Dir_advance False d err1 v1 = Some ((more, 0, d'), err2, v2) \<and>
      (let above = new @ tl (stack_dirs s) in
       it = (if more then Some (s\<lparr>stack_dirs := d' # above\<rparr>)
         else if above = [] then None else Some (s\<lparr>stack_dirs := above\<rparr>)))"
proof -
  obtain dirs e err1 v1 where loop: "erase_loop env (stack_dirs s) err v = Some ((dirs, e), err1, v1)"
    using assms by (auto simp: recursive_erase_def bind_eq_Some_conv)
  show ?thesis
  proof (cases "e = 0")
    case False
    then show ?thesis using assms loop by (auto simp: recursive_erase_def bind_eq_Some_conv reset_dirs_def)
  next
    case True
    then obtain d new where d: "dirs = d # new @ tl (stack_dirs s)" "removes env (dir_entry d) err1 v1"
      using erase_loop_sound [OF loop] by (auto simp: erased_top_def)
    obtain more e2 d' err2 v2 where adv: "Dir_advance False d err1 v1 = Some ((more, e2, d'), err2, v2)"
      using assms loop True d(1) by (auto simp: recursive_erase_def bind_eq_Some_conv)
    show ?thesis
    proof (cases "e2 = 0")
      case False
      then show ?thesis using assms loop True d(1) adv by (auto simp: recursive_erase_def bind_eq_Some_conv reset_dirs_def)
    next
      case e2: True
      have "ec = 0 \<and> it = (if more then Some (s\<lparr>stack_dirs := d' # new @ tl (stack_dirs s)\<rparr>)
          else if new @ tl (stack_dirs s) = [] then None else Some (s\<lparr>stack_dirs := new @ tl (stack_dirs s)\<rparr>))"
        using assms loop True d(1) adv e2 by (auto simp: recursive_erase_def bind_eq_Some_conv split: if_splits)
      then have "removes env (dir_entry d) err1 v1 \<and> Dir_advance False d err1 v1 = Some ((more, 0, d'), err2, v2) \<and>
          (let above = new @ tl (stack_dirs s) in
           it = (if more then Some (s\<lparr>stack_dirs := d' # above\<rparr>)
             else if above = [] then None else Some (s\<lparr>stack_dirs := above\<rparr>)))" "ec = 0"
        using d(2) adv e2 by (simp_all add: Let_def)
      then show ?thesis by (simp only: simp_thms if_False) blast
    qed
  qed
qed

definition erasing_env :: "'v environment" where
  "erasing_env = sample_env\<lparr>env_remove := \<lambda>_ e v. Some ((True, 0), e, v)\<rparr>"

text \<open>The iterator stands on the file \<open>b\<close>, after which the sample directory still has the file \<open>a\<close>.\<close>

lemma sample_erase:
  "\<exists>it. recursive_erase erasing_env (Some sample_stack) 0 0 (sample_vfs 0) = Some ((it, 0), 0, sample_vfs 0)"
proof -
  have dirent: "sample_dirent 2 = Some \<lparr>de_inode = 12, de_inode_type = 1, de_name = ''a''\<rparr>" by (simp add: sample_dirent_def)
  have mode: "uint (ino_to_st_mode 1) = 32768" by (simp add: ino_to_st_mode_def)
  have "\<not> is_dot_or_dotdot (d_name sample_entry_a)" by (simp add: is_dot_or_dotdot_def sample_entry_a_def)
  then have "base_advance False (Some \<lparr>dirh = \<lparr>dir_root = ''/vol'', dir_raw = 2\<rparr>, position = 2, dir_data = dirent_zero\<rparr>) 0 (sample_vfs 0) =
    Some ((Some sample_entry_a, 0, Some \<lparr>dirh = \<lparr>dir_root = ''/vol'', dir_raw = 3\<rparr>, position = 3, dir_data = sample_entry_a\<rparr>), 0, sample_vfs 0)"
    by (simp add: base_advance.simps sample_readdir_step dirent Let_def mode sample_names)
  then show ?thesis
    by (simp add: recursive_erase_def sample_stack_def erase_loop.simps do_unlink_def erasing_env_def Dir_advance_def)
qed

theorem recursive_erase_sound_witness:
  "\<exists>it d err1 (v1 :: (unit filesystem_lwext4, nat, nat, unit) VirtualFS). recursive_erase erasing_env (Some sample_stack) 0 0 (sample_vfs 0) = Some ((it, 0), 0, sample_vfs 0) \<and>
    removes erasing_env (dir_entry (d :: nat Dir)) err1 v1"
proof -
  obtain it where run: "recursive_erase erasing_env (Some sample_stack) 0 0 (sample_vfs 0) = Some ((it, 0), 0, sample_vfs 0)"
    using sample_erase by blast
  from recursive_erase_sound [OF run] show ?thesis using run by auto
qed

section \<open>Errors of the end iterator\<close>

text \<open>Advancing an end iterator is \<open>EINVAL\<close> (an exception in the variants without an error code) and changes
  nothing; erasing through one is not reported at all.\<close>

theorem end_iterator_errors:
  shows "iterator_increment None err v = Some ((None, EINVAL), err, v) \<and> iterator_next None err v = None \<and>
    recursive_increment env None ec err v = Some ((None, EINVAL), err, v) \<and> recursive_next env None err v = None \<and>
    recursive_pop None err v = Some ((None, EINVAL), err, v) \<and> recursive_pop_throw None err v = None \<and>
    recursive_erase env None ec err v = Some ((None, ec), err, v)"
  by (simp add: iterator_increment_def iterator_next_def recursive_increment_def recursive_next_def recursive_pop_def
      recursive_pop_throw_def recursive_erase_def)

text \<open>A permission that is denied is skipped on request: the directory then counts as empty.\<close>

lemma skipped_permission_denied:
  assumes "sys_opendir (env_allocates env) (Some p) err v = Some (None, EACCES, v')"
  shows "directory_iterator env p skip_permission_denied err v = Some ((None, 0), EACCES, v')"
    "directory_iterator env p 0 err v = Some ((None, EACCES), EACCES, v')"
  using assms
  by (simp_all add: directory_iterator_def Dir_new_def Dir_base_def is_permission_denied_error_def is_set_def
      skip_permission_denied_def)

text \<open>The erasing loop does not return when \<open>remove\<close> reports neither a removed file nor an error, which is what
  it reports for a file that is already gone.\<close>

lemma erase_loop_spins:
  assumes type: "de_type (dir_entry d) \<noteq> ft_directory"
    and gone: "\<And>err. \<exists>err'. env_remove env (de_path (dir_entry d)) err v = Some ((False, 0), err', v)"
  shows "erase_loop env (d # ds) err v = None"
proof -
  have "\<not> (e = env \<and> dirs = d # ds \<and> u = v)" if r: "erase_loop e dirs err u = Some r" for e dirs err u r
    apply (rule erase_loop.raw_induct [OF _ r, where P = "\<lambda>e dirs err u r. \<not> (e = env \<and> dirs = d # ds \<and> u = v)"])
    subgoal premises prems for loop e dirs err u r
    proof
      assume at: "e = env \<and> dirs = d # ds \<and> u = v"
      obtain err' where "env_remove env (de_path (dir_entry d)) err v = Some ((False, 0), err', v)" using gone by blast
      then have "loop e dirs err' v = Some r" using prems(2) type at by (simp add: do_unlink_def)
      then show False using prems(1) at by blast
    qed
    done
  then show ?thesis by (cases "erase_loop env (d # ds) err v") blast+
qed

end
