(* ===== verification/Vfs_Destroy.thy ===== *)
theory Vfs_Destroy
  imports File_Io
begin

text \<open>
  The destructor of the virtual file system (\<open>~VirtualFS\<close> and \<open>cleanup_opened_files\<close> of \<open>lib/common/vfs.cpp\<close>)
  against the plain machine of \<open>File_Io\<close>: the list of calls of the file systems that shutting down consists of.
\<close>

section \<open>The reference\<close>

datatype shutdown_call = Close_file int | Unlink_path string

text \<open>Path by path: the open files on it are closed, and when it is marked it is unlinked after that.\<close>

definition entry_calls :: "string \<times> file_descriptor \<Rightarrow> shutdown_call list" where
  "entry_calls pe = List.map Close_file (indexes (snd pe)) @ (if marked_for_unlink (snd pe) then [Unlink_path (fst pe)] else [])"

definition shutdown_calls :: "'h file_descriptor_container \<Rightarrow> shutdown_call list" where
  "shutdown_calls c = concat (List.map entry_calls (by_path c))"

text \<open>A method of the file system of the volume that a path is on.\<close>

definition on_path :: "string list \<Rightarrow> (('f, 'h, 'd, 'w) Filesystem \<Rightarrow> string \<Rightarrow> ('f, 'w, errno) fs_method) \<Rightarrow>
    string \<Rightarrow> ('f, 'h, 'd, 'w) io_state \<Rightarrow> ('f, 'h, 'd, 'w) io_state" where
  "on_path roots meth path s =
     (case absolute_path path of Inl _ \<Rightarrow> s
      | Inr p \<Rightarrow> (case List.find (\<lambda>key. occurs_in key p) roots of None \<Rightarrow> s
        | Some key \<Rightarrow> (case io_volumes s key of None \<Rightarrow> s
          | Some (fs, self) \<Rightarrow> (case meth fs p self (io_world s) of
              (_, self', w) \<Rightarrow> s\<lparr>io_volumes := (io_volumes s)(key \<mapsto> (fs, self')), io_world := w\<rparr>))))"

fun shut :: "string list \<Rightarrow> shutdown_call \<Rightarrow> ('f, 'h, 'd, 'w) io_state \<Rightarrow> ('f, 'h, 'd, 'w) io_state" where
  "shut roots (Close_file fd) s = snd (on_handle fs_close EBADF fd s)"
| "shut roots (Unlink_path path) s = on_path roots fs_unlink path s"

text \<open>The volumes are unmounted up to the first that reports an error.\<close>

fun unmount_roots :: "string list \<Rightarrow> ('f, 'h, 'd, 'w) io_state \<Rightarrow> 'w" where
  "unmount_roots [] s = io_world s"
| "unmount_roots (key # keys) s =
     (case io_volumes s key of None \<Rightarrow> unmount_roots keys s
      | Some (fs, self) \<Rightarrow> (case fs_unmount fs self (io_world s) of
          (e, _, w) \<Rightarrow> if e \<noteq> EOK then w else unmount_roots keys (s\<lparr>io_world := w\<rparr>)))"

section \<open>What is called\<close>

lemma count_concat: "count_list (concat (List.map f xs)) a = sum_list (List.map (\<lambda>x. count_list (f x) a) xs)"
  by (induction xs) (auto simp: count_list_append)

lemma count_distinct: "distinct xs \<Longrightarrow> count_list xs a = of_bool (a \<in> set xs)"
  by (induction xs) auto

lemma sum_unique:
  assumes "distinct (List.map fst al)" "\<And>p e q e'. (p, e) \<in> set al \<Longrightarrow> (q, e') \<in> set al \<Longrightarrow> P p e \<Longrightarrow> P q e' \<Longrightarrow> p = q"
  shows "sum_list (List.map (\<lambda>(p, e). of_bool (P p e)) al) = (of_bool (\<exists>p e. (p, e) \<in> set al \<and> P p e) :: nat)"
  using assms
proof (induction al)
  case (Cons a al)
  obtain p e where a: "a = (p, e)" by (cases a)
  have "sum_list (List.map (\<lambda>(p, e). of_bool (P p e)) al) = (of_bool (\<exists>p e. (p, e) \<in> set al \<and> P p e) :: nat)"
    using Cons.IH Cons.prems by (metis (no_types, lifting) distinct.simps(2) list.set_intros(2) list.simps(9))
  moreover have "\<not> (P p e \<and> (\<exists>q e'. (q, e') \<in> set al \<and> P q e'))"
    using Cons.prems by (auto simp: a image_iff) (metis fst_conv)
  ultimately show ?case by (auto simp: a)
qed simp

lemma entry_calls_count:
  "count_list (entry_calls (p, e)) (Close_file fd) = count_list (indexes e) fd"
  "count_list (entry_calls (p, e)) (Unlink_path q) = of_bool (marked_for_unlink e \<and> p = q)"
proof -
  have "count_list (List.map Close_file xs) (Close_file fd) = count_list xs fd"
    "count_list (List.map Close_file xs) (Unlink_path q) = 0" for xs
    by (induction xs) auto
  then show "count_list (entry_calls (p, e)) (Close_file fd) = count_list (indexes e) fd"
    "count_list (entry_calls (p, e)) (Unlink_path q) = of_bool (marked_for_unlink e \<and> p = q)"
    by (auto simp: entry_calls_def count_list_append)
qed

lemma shutdown_calls_count:
  assumes ok: "container_ok c"
  shows "count_list (shutdown_calls c) (Close_file fd) = of_bool (fd_exist fd c)"
    "count_list (shutdown_calls c) (Unlink_path p) = of_bool (\<exists>s. open_files c p = Some (s, True))"
proof -
  have wf: "distinct (List.map fst (by_path c))" using container_okD(1) [OF ok] by (simp add: umap_wf_def umap_keys_def)
  have in_map: "(q, e) \<in> set (by_path c) \<longleftrightarrow> map_of (by_path c) q = Some e" for q e
    using wf by simp
  have dist: "distinct (indexes e)" if "(q, e) \<in> set (by_path c)" for q e
    using container_okD(6) [OF ok] that in_map by blast
  have "count_list (shutdown_calls c) (Close_file fd) =
      sum_list (List.map (\<lambda>(q, e). of_bool (fd \<in> set (indexes e))) (by_path c))"
    unfolding shutdown_calls_def count_concat
    by (rule arg_cong [where f = sum_list]) (auto simp: entry_calls_count count_distinct dist)
  also have "\<dots> = of_bool (\<exists>q e. (q, e) \<in> set (by_path c) \<and> fd \<in> set (indexes e))"
    by (rule sum_unique [OF wf]) (use container_okD(8) [OF ok] in_map in \<open>auto simp: open_on_def\<close>)
  finally show "count_list (shutdown_calls c) (Close_file fd) = of_bool (fd_exist fd c)"
    using container_okD(7) [OF ok] in_map by (simp add: open_on_def)
  have "count_list (shutdown_calls c) (Unlink_path p) =
      sum_list (List.map (\<lambda>(q, e). of_bool (marked_for_unlink e \<and> q = p)) (by_path c))"
    unfolding shutdown_calls_def count_concat
    by (rule arg_cong [where f = sum_list]) (auto simp: entry_calls_count)
  also have "\<dots> = of_bool (\<exists>q e. (q, e) \<in> set (by_path c) \<and> marked_for_unlink e \<and> q = p)"
    by (rule sum_unique [OF wf]) auto
  finally show "count_list (shutdown_calls c) (Unlink_path p) = of_bool (\<exists>s. open_files c p = Some (s, True))"
    using in_map by (auto simp: open_files_def)
qed

section \<open>The destructor makes these calls\<close>

lemma find_mount_point_find: "find_mount_point path m = List.find (\<lambda>key. occurs_in key path) (umap_keys m)"
  by (induction m) (auto simp: umap_keys_def)

lemma io_view_after:
  assumes "map_of (m_mounts v) key = Some l"
  shows "io_view (after_call key l self w v) =
    (io_view v)\<lparr>io_volumes := (io_volumes (io_view v))(key \<mapsto> (mp_fs (locker_value l), self)), io_world := w\<rparr>"
  using assms by (auto simp: io_view_def after_call_def umap_simps fun_eq_iff)

lemma invoke_fops_path_view:
  assumes good: "good root_of v" and meth: "\<And>fs p. rooted_filesystem fs root_of \<Longrightarrow> keeps_root root_of (meth fs p)"
    and nonempty: "path = [] \<longrightarrow> \<not> has_root_path path"
  obtains r u where "invoke_fops_path meth (\<lambda>e. e) path v = Some (r, u)" "good root_of u" "kept v u"
    "io_view u = on_path (umap_keys (m_mounts v)) meth path (io_view v)"
proof (cases "absolute_path path")
  case (Inl e)
  then show thesis using that [of "if path = [] then ENOENT else e" v] good by (simp add: invoke_fops_path_def on_path_def)
next
  case (Inr p)
  then have path: "path \<noteq> []" using nonempty by (auto simp: absolute_path_def split: if_splits)
  show thesis
  proof (cases "find_mount_point p (m_mounts v)")
    case None
    then show thesis using that [of ENOENT v] good path Inr
      by (simp add: invoke_fops_path_def on_path_def find_mount_point_find)
  next
    case (Some key)
    have ok: "vfs_ok root_of v" using good by (simp add: good_def)
    have key: "umap_contains key (m_mounts v)" using find_mount_point_key [OF Some] by blast
    obtain r l self w where c: "map_of (m_mounts v) key = Some l"
      "meth (mp_fs (locker_value l)) p (mp_self (locker_value l)) (world v) = (r, self, w)"
      "call_locked key (\<lambda>fs. meth fs p) v = Some (r, after_call key l self w v)"
      "vfs_ok root_of (after_call key l self w v)"
      by (rule call_locked_ok [OF ok key, of "\<lambda>fs. meth fs p"]) (use meth in blast)+
    have "good root_of (after_call key l self w v)" using c(4) good by (simp add: good_def after_call_files)
    moreover have "io_view (after_call key l self w v) = on_path (umap_keys (m_mounts v)) meth path (io_view v)"
      using Inr Some c(1,2) by (simp add: on_path_def find_mount_point_find [symmetric] io_view_after) (simp add: io_view_def)
    ultimately show thesis using that c(3) path Inr Some by (simp add: invoke_fops_path_def)
  qed
qed

lemma close_descriptors_view:
  "good root_of v \<Longrightarrow> \<exists>u. close_descriptors fds v = Some u \<and> good root_of u \<and> kept v u \<and>
    io_view u = fold (shut roots) (List.map Close_file fds) (io_view v)"
proof (induction fds arbitrary: v)
  case (Cons fd fds)
  have keeps: "keeps_handle file_root root_of (fs_close fs)" if "rooted_filesystem fs root_of" for fs
    using rooted_filesystem.handle_keeps(1) [OF that] .
  obtain r u where u: "invoke_fops_fd fs_close (\<lambda>e. e) fd v = Some (r, u)" "good root_of u"
    "on_handle fs_close EBADF fd (io_view v) = (r, io_view u)"
    by (rule invoke_fops_fd_view [where meth = fs_close and terror = "\<lambda>e. e" and fd = fd, OF Cons.prems keeps])
  have "settles root_of (invoke_fops_fd fs_close (\<lambda>e. e) fd v) v"
    by (rule invoke_fops_fd_settles [OF Cons.prems keeps])
  then have "kept v u" using u(1) by (auto simp: settles_def)
  then show ?case using Cons.IH [OF u(2)] u kept_trans by fastforce
qed simp

lemma cleanup_entries_view:
  "good root_of v \<Longrightarrow> \<exists>u. cleanup_entries m v = Some u \<and> good root_of u \<and> kept v u \<and>
    io_view u = fold (shut (umap_keys (m_mounts v))) (concat (List.map entry_calls m)) (io_view v)"
proof (induction m arbitrary: v)
  case (Cons e m)
  obtain path entry where e: "e = (path, entry)" by (cases e)
  let ?roots = "umap_keys (m_mounts v)"
  obtain u where u: "close_descriptors (indexes entry) v = Some u" "good root_of u" "kept v u"
    "io_view u = fold (shut ?roots) (List.map Close_file (indexes entry)) (io_view v)"
    using close_descriptors_view [OF Cons.prems] by blast
  have roots: "umap_keys (m_mounts u) = ?roots" using u(3) by (simp add: kept_def)
  have keeps: "keeps_root root_of (fs_unlink fs p)" if "rooted_filesystem fs root_of" for fs p
    using rooted_filesystem.path_keeps [OF that] by blast
  obtain r w where w: "invoke_fops_path fs_unlink (\<lambda>e. e) path u = Some (r, w)" "good root_of w" "kept u w"
    "io_view w = on_path (umap_keys (m_mounts u)) fs_unlink path (io_view u)"
    by (rule invoke_fops_path_view [OF u(2), of fs_unlink path]) (use keeps in \<open>auto simp: has_root_path_def\<close>)
  show ?case
  proof (cases "marked_for_unlink entry")
    case True
    obtain x where x: "cleanup_entries m w = Some x" "good root_of x" "kept w x"
      "io_view x = fold (shut (umap_keys (m_mounts w))) (concat (List.map entry_calls m)) (io_view w)"
      using Cons.IH [OF w(2)] by blast
    have "umap_keys (m_mounts w) = ?roots" "kept v x" using w(3) x(3) u(3) roots kept_trans by (auto simp: kept_def)
    then show ?thesis using True u w x roots by (simp add: e entry_calls_def [of "(path, entry)"])
  next
    case False
    obtain x where x: "cleanup_entries m u = Some x" "good root_of x" "kept u x"
      "io_view x = fold (shut (umap_keys (m_mounts u))) (concat (List.map entry_calls m)) (io_view u)"
      using Cons.IH [OF u(2)] by blast
    then show ?thesis using False u roots kept_trans [OF u(3) x(3)] by (simp add: e entry_calls_def [of "(path, entry)"])
  qed
qed simp

lemma unmount_roots_calls:
  "\<forall>(key, l) \<in> set m. io_volumes s key = Some (mp_fs (locker_value l), mp_self (locker_value l)) \<Longrightarrow>
    unmount_roots (umap_keys m) s = snd (unmount_calls m (io_world s))"
  by (induction m arbitrary: s) (auto simp: umap_keys_def split: prod.split)

text \<open>C35: The destructor of the virtual file system returns, leaves no volume in the table and no lock taken, and to
  the outside it has been this: path by path, every open descriptor is closed by the file system of its
  volume, and a path that is marked for unlinking is unlinked after its descriptors; then the volumes are
  unmounted up to the first that reports an error, and what the calls report is ignored. Every open descriptor
  is closed exactly once, nothing else is closed, and exactly the marked paths are unlinked, once each.\<close>

theorem vfs_destroy_correct:
  assumes "good root_of v"
  shows "\<exists>v'. VirtualFS_destroy v = Some v' \<and> m_mounts v' = [] \<and> m_mutex v' = m_mutex v \<and>
    world v' = unmount_roots (umap_keys (m_mounts v))
      (fold (shut (umap_keys (m_mounts v))) (shutdown_calls (m_fd_container v)) (io_view v)) \<and>
    (\<forall>fd. count_list (shutdown_calls (m_fd_container v)) (Close_file fd) = of_bool (fd_exist fd (m_fd_container v))) \<and>
    (\<forall>p. count_list (shutdown_calls (m_fd_container v)) (Unlink_path p) =
      of_bool (\<exists>s. open_files (m_fd_container v) p = Some (s, True)))"
proof -
  obtain u where u: "cleanup_opened_files v = Some u" "good root_of u" "kept v u"
    "io_view u = fold (shut (umap_keys (m_mounts v))) (shutdown_calls (m_fd_container v)) (io_view v)"
    using cleanup_entries_view [OF assms] by (auto simp: cleanup_opened_files_def shutdown_calls_def)
  have wf: "umap_wf (m_mounts u)" using u(2) by (simp add: good_def vfs_ok_def)
  have "unmount_roots (umap_keys (m_mounts u)) (io_view u) = snd (unmount_calls (m_mounts u) (world u))"
    using unmount_roots_calls [of "m_mounts u" "io_view u"] umap_in_set [OF wf] by (force simp: io_view_def)
  moreover have "umap_keys (m_mounts u) = umap_keys (m_mounts v)" "m_mutex u = m_mutex v"
    using u(3) by (simp_all add: kept_def)
  moreover have "container_ok (m_fd_container v)" using assms by (simp add: good_def vfs_ok_def)
  ultimately show ?thesis
    using u(1,4) vfs_umount_all_correct [OF u(2)] by (simp add: VirtualFS_destroy_def shutdown_calls_count)
qed

theorem vfs_destroy_correct_witness:
  "\<exists>v'. VirtualFS_destroy sample_open_vfs = Some v' \<and> m_mounts v' = [] \<and>
    count_list (shutdown_calls (m_fd_container sample_open_vfs)) (Close_file 3) = 1 \<and>
    count_list (shutdown_calls (m_fd_container sample_open_vfs)) (Unlink_path ''/vol/a'') = 1"
proof -
  have "fd_exist 3 (m_fd_container sample_open_vfs)" using sample_open_vfs_simps(2) fd_exist_handle by blast
  then show ?thesis using vfs_destroy_correct [OF sample_open_vfs_good] sample_open_vfs_simps(1) by auto
qed

end
