(* ===== verification/Ext4_Listing.thy ===== *)
theory Ext4_Listing
  imports Fs_Dir
begin

text \<open>
  Listing a directory of an ext4 volume, through all layers: \<open>ext4_dir_entry_next\<close> of the lwext4 library,
  \<open>filesystem_lwext4::dirnext\<close>, \<open>VirtualFS::dirnext\<close> under the lock of the mount point, \<open>readdir\<close> and
  \<open>_Dir::advance\<close>. The types of ext4 directory entries are the numbers of \<open>ext4_types.h\<close>: 1 regular file,
  2 directory, 3 character device, 4 block device, 5 fifo, 6 socket, 7 symbolic link.
\<close>

text \<open>The type byte an entry of \<open>readdir\<close> gets.\<close>

lemma stmode_of_entry_type:
  "stmode_to_type (uint (ino_to_st_mode (uint (t :: u8)))) =
     (if t = 1 then DT_REG else if t = 2 then DT_DIR else if t = 3 then DT_CHR else if t = 4 then DT_BLK
      else if t = 5 then DT_FIFO else if t = 6 then DT_SOCK else DT_UNKNOWN)"
proof -
  have "uint t = 1 \<longleftrightarrow> t = 1" "uint t = 2 \<longleftrightarrow> t = 2" "uint t = 3 \<longleftrightarrow> t = 3" "uint t = 4 \<longleftrightarrow> t = 4"
    "uint t = 5 \<longleftrightarrow> t = 5" "uint t = 6 \<longleftrightarrow> t = 6"
    by (simp_all add: word_uint_eq_iff)
  then show ?thesis
    by (simp add: ino_to_st_mode_def stmode_to_type_def has_type_def DT_UNKNOWN_def)
qed

lemmas dirent_types = DT_REG_def DT_DIR_def DT_CHR_def DT_BLK_def DT_FIFO_def DT_SOCK_def DT_LNK_def DT_UNKNOWN_def

definition ext4_file_type :: "u8 \<Rightarrow> file_type" where
  "ext4_file_type t = (if t = 1 then ft_regular else if t = 2 then ft_directory else if t = 3 then ft_character
     else if t = 4 then ft_block else if t = 5 then ft_fifo else if t = 6 then ft_socket else ft_none)"

lemma make_entry_type:
  assumes "d_type ent = stmode_to_type (uint (ino_to_st_mode (uint t)))"
  shows "de_type (make_entry p ent) = ext4_file_type t"
proof -
  consider "t = 1" | "t = 2" | "t = 3" | "t = 4" | "t = 5" | "t = 6" | "t \<notin> {1, 2, 3, 4, 5, 6}" by blast
  then show ?thesis
    by cases (simp_all add: assms [unfolded stmode_of_entry_type] make_entry_def get_file_type_def dirent_types ext4_file_type_def)
qed

lemma ext4_file_type_iff:
  "ext4_file_type t = ft_regular \<longleftrightarrow> t = 1" "ext4_file_type t = ft_directory \<longleftrightarrow> t = 2"
  "ext4_file_type t = ft_character \<longleftrightarrow> t = 3" "ext4_file_type t = ft_block \<longleftrightarrow> t = 4"
  "ext4_file_type t = ft_fifo \<longleftrightarrow> t = 5" "ext4_file_type t = ft_socket \<longleftrightarrow> t = 6"
  "ext4_file_type t = ft_none \<longleftrightarrow> t \<notin> {1, 2, 3, 4, 5, 6}" "ext4_file_type t \<noteq> ft_symlink"
  by (auto simp: ext4_file_type_def)

lemma should_recurse_cached:
  "de_type (dir_entry d) \<noteq> ft_none \<Longrightarrow> de_type (dir_entry d) \<noteq> ft_symlink \<Longrightarrow>
    should_recurse env follow d ec err v = Some ((de_type (dir_entry d) = ft_directory, ec), err, v)"
  by (simp add: should_recurse_def)

text \<open>One call of \<open>readdir\<close> on an ext4 volume.\<close>

lemma ext4_dirnext:
  assumes "map_of (m_mounts v) (dir_root h) = Some l" "\<not> locker_mutex l" "mp_fs (locker_value l) = filesystem_lwext4_ops api"
    and "lw_dir_entry_next api (dir_raw h) (world v) = ((Some de, raw), w)"
  shows "VirtualFS_dirnext out h v =
    Some (((EOK, de_name de, stat_zero\<lparr>st_ino := uint (de_inode de), st_mode := uint (ino_to_st_mode (uint (de_inode_type de)))\<rparr>),
      h\<lparr>dir_raw := raw\<rparr>), after_call (dir_root h) l (mp_self (locker_value l)) w v)"
  unfolding VirtualFS_dirnext_def invoke_dirops_def DirectoryHandle_get_root_def
  by (rule call_locked_eq [OF assms(1,2)])
     (simp add: assms(3,4) filesystem_lwext4_ops_def lwext4_dirnext_def)

text \<open>C15: The type of an ext4 directory entry arrives at the iterator: an element of the directory that the
  library delivers becomes an entry with the full path and, for the six types other than symbolic links, the
  corresponding type, so that the recursion descends exactly into directories and asks no file system for it.
  A symbolic link and an unknown type arrive as \<open>none\<close>.\<close>

theorem ext4_entry_type_arrives:
  assumes mount: "map_of (m_mounts v) (dir_root (dirh s)) = Some l" "\<not> locker_mutex l"
      "mp_fs (locker_value l) = filesystem_lwext4_ops api"
    and elem: "lw_dir_entry_next api (dir_raw (dirh s)) (world v) = ((Some de, raw), w)"
    and fname: "length (de_name de) \<le> 255" "CHR 0x00 \<notin> set (de_name de)" "de_name de \<noteq> ''.''" "de_name de \<noteq> ''..''"
    and d: "dir_dirp d = Some s"
  shows "\<exists>d' v'. Dir_advance skip d err v = Some ((True, 0, d'), err, v') \<and>
    de_path (dir_entry d') = path_append (dir_path d) (de_name de) \<and>
    (de_type (dir_entry d') = ft_regular \<longleftrightarrow> de_inode_type de = 1) \<and>
    (de_type (dir_entry d') = ft_directory \<longleftrightarrow> de_inode_type de = 2) \<and>
    (de_type (dir_entry d') = ft_character \<longleftrightarrow> de_inode_type de = 3) \<and>
    (de_type (dir_entry d') = ft_block \<longleftrightarrow> de_inode_type de = 4) \<and>
    (de_type (dir_entry d') = ft_fifo \<longleftrightarrow> de_inode_type de = 5) \<and>
    (de_type (dir_entry d') = ft_socket \<longleftrightarrow> de_inode_type de = 6) \<and>
    (de_type (dir_entry d') = ft_none \<longleftrightarrow> de_inode_type de \<notin> {1, 2, 3, 4, 5, 6}) \<and>
    (de_inode_type de \<in> {1, 2, 3, 4, 5, 6} \<longrightarrow>
      should_recurse env follow d' ec err v' = Some ((de_inode_type de = 2, ec), err, v'))"
proof -
  let ?st = "stat_zero\<lparr>st_ino := uint (de_inode de), st_mode := uint (ino_to_st_mode (uint (de_inode_type de)))\<rparr>"
  let ?ent = "entry_of (de_name de) ?st (dir_data s)"
  let ?s = "s\<lparr>dirh := (dirh s)\<lparr>dir_raw := raw\<rparr>, position := position s + 1, dir_data := ?ent\<rparr>"
  let ?v = "after_call (dir_root (dirh s)) l (mp_self (locker_value l)) w v"
  have whole: "c_str (de_name de) = de_name de" using fname(2) by (auto simp: c_str_def takeWhile_eq_all_conv)
  have ent: "d_name ?ent = de_name de" using fname(1) by (simp add: entry_of_def d_name_size_def whole)
  have type: "d_type ?ent = stmode_to_type (uint (ino_to_st_mode (uint (de_inode_type de))))" by (simp add: entry_of_def)
  have "sys_readdir (Some s) 0 v = Some ((Some ?ent, Some ?s), 0, ?v)"
    using fname(1) by (simp add: sys_readdir_def ext4_dirnext [OF mount elem] d_name_size_def Let_def)
  then have adv: "base_advance skip (Some s) err v = Some ((Some ?ent, 0, Some ?s), err, ?v)"
    using fname(3,4) by (simp add: base_advance.simps is_dot_or_dotdot_def ent)
  let ?d = "d\<lparr>dir_dirp := Some ?s, dir_entry := make_entry (dir_path d) ?ent\<rparr>"
  have run: "Dir_advance skip d err v = Some ((True, 0, ?d), err, ?v)" by (simp add: Dir_advance_def d adv)
  have path: "de_path (dir_entry ?d) = path_append (dir_path d) (de_name de)" by (simp add: make_entry_def ent)
  have ft: "de_type (dir_entry ?d) = ext4_file_type (de_inode_type de)" by (simp add: make_entry_type [OF type])
  have rec: "should_recurse env follow ?d ec err ?v = Some ((de_inode_type de = 2, ec), err, ?v)"
    if "de_inode_type de \<in> {1, 2, 3, 4, 5, 6}"
    using that should_recurse_cached [of ?d env follow ec err ?v] unfolding ft by (simp only: ext4_file_type_iff) simp
  show ?thesis
    by (rule exI [of _ ?d], rule exI [of _ ?v]) (intro conjI run path impI rec, simp_all only: ft ext4_file_type_iff)
qed

text \<open>The third element of the sample directory is the file \<open>a\<close>.\<close>

theorem ext4_entry_type_arrives_witness:
  "\<exists>d' v'. Dir_advance False \<lparr>dir_dirp = Some (sample_dirstream\<lparr>dirh := \<lparr>dir_root = ''/vol'', dir_raw = 2\<rparr>\<rparr>),
      dir_path = ''/vol'', dir_entry = no_directory_entry\<rparr> 0 (sample_vfs 0) = Some ((True, 0, d'), 0, v') \<and>
    de_type (dir_entry d') = ft_regular"
proof -
  let ?s = "sample_dirstream\<lparr>dirh := \<lparr>dir_root = ''/vol'', dir_raw = 2\<rparr>\<rparr>"
  let ?d = "\<lparr>dir_dirp = Some ?s, dir_path = ''/vol'', dir_entry = no_directory_entry\<rparr>"
  let ?l = "locker_new (sample_mount ''/vol'' 0)"
  have "map_of (m_mounts (sample_vfs 0)) (dir_root (dirh ?s)) = Some ?l" "\<not> locker_mutex ?l"
    "mp_fs (locker_value ?l) = filesystem_lwext4_ops sample_api"
    by (simp_all add: sample_vfs_def locker_new_def sample_mount_def)
  moreover have "lw_dir_entry_next sample_api (dir_raw (dirh ?s)) (world (sample_vfs 0)) =
      ((Some \<lparr>de_inode = 12, de_inode_type = 1, de_name = ''a''\<rparr>, 3), world (sample_vfs 0))"
    by (simp add: sample_api_def sample_dirent_def)
  ultimately have "\<exists>d' v'. Dir_advance False ?d 0 (sample_vfs 0) = Some ((True, 0, d'), 0, v') \<and>
      (de_type (dir_entry d') = ft_regular \<longleftrightarrow> (1 :: u8) = 1)"
    using ext4_entry_type_arrives [of "sample_vfs 0" ?s ?l sample_api _ _ _ ?d False 0] by fastforce
  then show ?thesis by simp
qed

end
