(* ===== verification/Fs_Walk.thy ===== *)
theory Fs_Walk
  imports Ext4_Listing
begin

text \<open>
  The recursive directory iterator on a directory tree: on a volume that does not change meanwhile it delivers
  every file and directory below its start exactly once, in depth-first order. The reference is the
  recursive listing of the tree; the iterator works on an explicit stack of open directories.
\<close>

section \<open>Trees of directories\<close>

datatype node = Node (node_entry: dirent) (node_kids: "node list")

text \<open>The entries of a tree, every directory before what it holds.\<close>

fun preorder :: "string \<Rightarrow> node list \<Rightarrow> directory_entry list" where
  "preorder p [] = []"
| "preorder p (Node e kids # ns) = make_entry p e # preorder (path_append p (d_name e)) kids @ preorder p ns"

text \<open>A stream that delivers the elements without a change of the state and can be closed at its end.\<close>

definition closable :: "('f, 'h, 'd, 'w) VirtualFS \<Rightarrow> 'd dirstream option \<Rightarrow> bool" where
  "closable v s = (\<forall>err. close_stream s err v = Some ((), err, v))"

fun steady_lists :: "('f, 'h, 'd, 'w) VirtualFS \<Rightarrow> 'd dirstream option \<Rightarrow> dirent list \<Rightarrow> bool" where
  "steady_lists v s [] = (\<exists>s'. sys_readdir s 0 v = Some ((None, s'), 0, v) \<and> closable v s')"
| "steady_lists v s (e # es) = (\<exists>s'. sys_readdir s 0 v = Some ((Some e, s'), 0, v) \<and> steady_lists v s' es)"

definition known_type :: "dirent \<Rightarrow> bool" where
  "known_type e = (d_type e \<in> {DT_REG, DT_DIR, DT_CHR, DT_BLK, DT_FIFO, DT_SOCK})"

text \<open>A path denotes a tree: the directory can be opened and lists the nodes of the first level (beside \<open>.\<close> and
  \<open>..\<close>), and the directories among them denote their subtrees.\<close>

inductive denotes :: "('f, 'h, 'd, 'w) VirtualFS \<Rightarrow> string \<Rightarrow> node list \<Rightarrow> bool" for v where
  "\<forall>err. sys_opendir True (Some p) err v = Some (Some s, err, v) \<Longrightarrow> steady_lists v (Some s) es \<Longrightarrow>
   real_entries es = List.map node_entry ns \<Longrightarrow>
   \<forall>n \<in> set ns. known_type (node_entry n) \<and>
     (if d_type (node_entry n) = DT_DIR then denotes v (path_append p (d_name (node_entry n))) (node_kids n)
      else node_kids n = []) \<Longrightarrow>
   denotes v p ns"

definition node_ok :: "('f, 'h, 'd, 'w) VirtualFS \<Rightarrow> string \<Rightarrow> node \<Rightarrow> bool" where
  "node_ok v p n = (known_type (node_entry n) \<and>
     (if d_type (node_entry n) = DT_DIR then denotes v (path_append p (d_name (node_entry n))) (node_kids n)
      else node_kids n = []))"

lemma denotesE:
  assumes "denotes v p ns"
  obtains s es where "\<And>err. sys_opendir True (Some p) err v = Some (Some s, err, v)" "steady_lists v (Some s) es"
    "real_entries es = List.map node_entry ns" "\<forall>n \<in> set ns. node_ok v p n"
  using assms by (cases rule: denotes.cases) (auto simp: node_ok_def)

lemma make_entry_known:
  "known_type e \<Longrightarrow> de_type (make_entry p e) \<noteq> ft_none \<and> de_type (make_entry p e) \<noteq> ft_symlink \<and>
    (de_type (make_entry p e) = ft_directory \<longleftrightarrow> d_type e = DT_DIR)"
  by (auto simp: known_type_def make_entry_def get_file_type_def dirent_types)

lemma path_append_nonempty: "p \<noteq> [] \<Longrightarrow> path_append p q \<noteq> []"
  by (auto simp: path_append_def has_root_path_def)

section \<open>Streams\<close>

lemma base_advance_steady:
  "steady_lists v s es \<Longrightarrow> (case real_entries es of
      [] \<Rightarrow> \<exists>s'. base_advance skip s err v = Some ((None, 0, s'), err, v) \<and> closable v s'
    | e # rest \<Rightarrow> \<exists>s' es'. base_advance skip s err v = Some ((Some e, 0, s'), err, v) \<and> steady_lists v s' es' \<and>
        real_entries es' = rest)"
proof (induction es arbitrary: s)
  case Nil
  then show ?case by (auto simp: base_advance.simps [of skip s err v])
next
  case (Cons e es)
  then obtain s' where one: "sys_readdir s 0 v = Some ((Some e, s'), 0, v)" "steady_lists v s' es" by auto
  show ?case
  proof (cases "is_dot_or_dotdot (d_name e)")
    case True
    then have eq: "base_advance skip s err v = base_advance skip s' err v"
      by (simp add: base_advance.simps [of skip s err v] one(1))
    show ?thesis unfolding eq using Cons.IH [OF one(2)] True by simp
  next
    case False
    then show ?thesis using one by (auto simp: base_advance.simps [of skip s err v])
  qed
qed

text \<open>A directory of the stack with the nodes it has still to deliver.\<close>

definition frame_ok :: "('f, 'h, 'd, 'w) VirtualFS \<Rightarrow> 'd Dir \<times> node list \<Rightarrow> bool" where
  "frame_ok v f = (case f of (d, ns) \<Rightarrow> dir_path d \<noteq> [] \<and> (\<forall>n \<in> set ns. node_ok v (dir_path d) n) \<and>
     (\<exists>es. steady_lists v (dir_dirp d) es \<and> real_entries es = List.map node_entry ns))"

lemma Dir_advance_frame:
  assumes "frame_ok v (d, ns)"
  shows "case ns of
      [] \<Rightarrow> \<exists>d'. Dir_advance skip d err v = Some ((False, 0, d'), err, v) \<and> closable v (dir_dirp d')
    | n # rest \<Rightarrow> \<exists>d'. Dir_advance skip d err v = Some ((True, 0, d'), err, v) \<and> dir_path d' = dir_path d \<and>
        dir_entry d' = make_entry (dir_path d) (node_entry n) \<and> frame_ok v (d', rest)"
proof -
  obtain es where es: "steady_lists v (dir_dirp d) es" "real_entries es = List.map node_entry ns"
    using assms by (auto simp: frame_ok_def)
  note adv = base_advance_steady [OF es(1), of skip err]
  show ?thesis
  proof (cases ns)
    case Nil
    then show ?thesis using adv es(2) by (auto simp: Dir_advance_def)
  next
    case (Cons n rest)
    then obtain s' es' where one: "base_advance skip (dir_dirp d) err v = Some ((Some (node_entry n), 0, s'), err, v)"
      "steady_lists v s' es'" "real_entries es' = List.map node_entry rest"
      using adv es(2) by auto
    let ?d = "d\<lparr>dir_dirp := s', dir_entry := make_entry (dir_path d) (node_entry n)\<rparr>"
    have "Dir_advance skip d err v = Some ((True, 0, ?d), err, v)" by (simp add: Dir_advance_def one(1))
    moreover have "frame_ok v (?d, rest)" using assms one(2,3) Cons by (auto simp: frame_ok_def)
    ultimately show ?thesis using Cons by auto
  qed
qed

section \<open>The stack\<close>

definition future :: "('d Dir \<times> node list) list \<Rightarrow> directory_entry list" where
  "future fs = concat (List.map (\<lambda>(d, ns). preorder (dir_path d) ns) fs)"

lemma preorder_Cons:
  "preorder p (n # ns) = make_entry p (node_entry n) #
     preorder (path_append p (d_name (node_entry n))) (node_kids n) @ preorder p ns"
  by (cases n) simp

lemma future_simps [simp]: "future [] = []" "future ((d, ns) # fs) = preorder (dir_path d) ns @ future fs"
  by (simp_all add: future_def)

text \<open>The stack stands on the node \<open>n\<close> of its top directory; \<open>rest\<close> is what comes after that node.\<close>

definition stands_on :: "('f, 'h, 'd, 'w) VirtualFS \<Rightarrow> 'd Dir list \<Rightarrow> directory_entry list \<Rightarrow> bool" where
  "stands_on v ds rest = (\<exists>d ns fs n. ds = d # List.map fst fs \<and> list_all (frame_ok v) ((d, ns) # fs) \<and>
     dir_entry d = make_entry (dir_path d) (node_entry n) \<and> node_ok v (dir_path d) n \<and>
     rest = preorder (path_append (dir_path d) (d_name (node_entry n))) (node_kids n) @ future ((d, ns) # fs))"

lemma advance_or_pop_future:
  "fs \<noteq> [] \<Longrightarrow> list_all (frame_ok v) fs \<Longrightarrow> (case future fs of
      [] \<Rightarrow> advance_or_pop skip (List.map fst fs) err v = Some ((None, 0), err, v)
    | e # rest \<Rightarrow> \<exists>ds. advance_or_pop skip (List.map fst fs) err v = Some ((Some ds, 0), err, v) \<and>
        dir_entry (hd ds) = e \<and> stands_on v ds rest)"
proof (induction fs)
  case (Cons f fs)
  obtain d ns where f: "f = (d, ns)" by fastforce
  have ok: "frame_ok v (d, ns)" "list_all (frame_ok v) fs" using Cons.prems f by simp_all
  show ?case
  proof (cases ns)
    case Nil
    then obtain d' where adv: "Dir_advance skip d err v = Some ((False, 0, d'), err, v)" "closable v (dir_dirp d')"
      using Dir_advance_frame [OF ok(1), of skip err] by auto
    then have eq: "advance_or_pop skip (List.map fst (f # fs)) err v =
        (if fs = [] then Some ((None, 0), err, v) else advance_or_pop skip (List.map fst fs) err v)"
      by (simp add: f closable_def)
    show ?thesis
    proof (cases "fs = []")
      case True
      then show ?thesis unfolding eq using Nil by (simp add: f)
    next
      case False
      then show ?thesis unfolding eq using Cons.IH [OF False ok(2)] Nil by (simp add: f)
    qed
  next
    case (Cons n rest)
    then obtain d' where adv: "Dir_advance skip d err v = Some ((True, 0, d'), err, v)" "dir_path d' = dir_path d"
      "dir_entry d' = make_entry (dir_path d) (node_entry n)" "frame_ok v (d', rest)"
      using Dir_advance_frame [OF ok(1), of skip err] by auto
    have "stands_on v (d' # List.map fst fs)
        (preorder (path_append (dir_path d) (d_name (node_entry n))) (node_kids n) @ preorder (dir_path d) rest @ future fs)"
      unfolding stands_on_def using adv ok Cons
      by (intro exI [of _ d'] exI [of _ rest] exI [of _ fs] exI [of _ n]) (auto simp: frame_ok_def)
    moreover have "advance_or_pop skip (List.map fst (f # fs)) err v = Some ((Some (d' # List.map fst fs), 0), err, v)"
      using adv(1) by (simp add: f)
    ultimately show ?thesis using Cons adv(3) by (simp add: f preorder_Cons)
  qed
qed simp

text \<open>Entering a directory puts it on the stack.\<close>

lemma open_subdir_frame:
  assumes node: "node_ok v (dir_path d) n" "d_type (node_entry n) = DT_DIR" and path: "dir_path d \<noteq> []"
    and d: "dir_entry d = make_entry (dir_path d) (node_entry n)" and env: "env_allocates env"
  shows "\<exists>sub. open_subdir env skip d err v = Some ((sub, 0), err, v) \<and> dir_dirp sub \<noteq> None \<and>
    dir_path sub = path_append (dir_path d) (d_name (node_entry n)) \<and> frame_ok v (sub, node_kids n)"
proof -
  let ?p = "path_append (dir_path d) (d_name (node_entry n))"
  have entry: "de_path (dir_entry d) = ?p" by (simp add: d make_entry_def)
  have "denotes v ?p (node_kids n)" using node by (simp add: node_ok_def)
  then obtain s es where s: "\<And>err. sys_opendir True (Some ?p) err v = Some (Some s, err, v)" "steady_lists v (Some s) es"
    "real_entries es = List.map node_entry (node_kids n)" "\<forall>k \<in> set (node_kids n). node_ok v ?p k"
    by (rule denotesE) blast
  let ?sub = "\<lparr>dir_dirp = Some s, dir_path = ?p, dir_entry = no_directory_entry\<rparr>"
  have "open_subdir env skip d err v = Some ((?sub, 0), err, v)"
    using env path s(1) [of err] by (simp add: open_subdir_def Dir_base_def entry)
  moreover have "frame_ok v (?sub, node_kids n)" using s path by (auto simp: frame_ok_def path_append_nonempty)
  ultimately show ?thesis by simp
qed

lemma recursive_increment_stands:
  assumes at: "stands_on v (stack_dirs s) rest" "stack_pending s" and env: "env_allocates env"
  shows "case rest of
      [] \<Rightarrow> recursive_increment env (Some s) ec err v = Some ((None, 0), err, v)
    | e # rest' \<Rightarrow> \<exists>s'. recursive_increment env (Some s) ec err v = Some ((Some s', 0), err, v) \<and> stack_pending s' \<and>
        dir_entry (hd (stack_dirs s')) = e \<and> stands_on v (stack_dirs s') rest'"
proof -
  let ?skip = "is_set (stack_options s) skip_permission_denied" and ?follow = "is_set (stack_options s) follow_directory_symlink"
  obtain d ns fs n where d: "stack_dirs s = d # List.map fst fs" "list_all (frame_ok v) ((d, ns) # fs)"
    "dir_entry d = make_entry (dir_path d) (node_entry n)" "node_ok v (dir_path d) n"
    "rest = preorder (path_append (dir_path d) (d_name (node_entry n))) (node_kids n) @ future ((d, ns) # fs)"
    using at(1) unfolding stands_on_def by blast
  have known: "known_type (node_entry n)" using d(4) by (simp add: node_ok_def)
  have path: "dir_path d \<noteq> []" using d(2) by (simp add: frame_ok_def)
  have asks: "should_recurse env ?follow d ec err v = Some ((d_type (node_entry n) = DT_DIR, ec), err, v)"
    using should_recurse_cached [of d] make_entry_known [OF known] by (simp add: d(3))
  have "\<exists>gs. gs \<noteq> [] \<and> list_all (frame_ok v) gs \<and> future gs = rest \<and>
    recursive_increment env (Some s) ec err v = (do {
      ((dirs, left_ec), err, v) \<leftarrow> advance_or_pop ?skip (List.map fst gs) err v;
      recursive_finish (s\<lparr>stack_pending := True\<rparr>) dirs left_ec err v })"
  proof (cases "d_type (node_entry n) = DT_DIR")
    case True
    obtain sub where sub: "open_subdir env ?skip d err v = Some ((sub, 0), err, v)" "dir_dirp sub \<noteq> None"
      "dir_path sub = path_append (dir_path d) (d_name (node_entry n))" "frame_ok v (sub, node_kids n)"
      using open_subdir_frame [OF d(4) True path d(3) env] by blast
    show ?thesis using d sub(2-4) True
      by (intro exI [of _ "(sub, node_kids n) # (d, ns) # fs"]) (simp add: recursive_increment_def Let_def at(2) asks sub(1))
  next
    case False
    then have "node_kids n = []" using d(4) by (simp add: node_ok_def)
    then show ?thesis using d False
      by (intro exI [of _ "(d, ns) # fs"]) (simp add: recursive_increment_def Let_def at(2) asks)
  qed
  then obtain gs where gs: "gs \<noteq> []" "list_all (frame_ok v) gs" "future gs = rest"
    "recursive_increment env (Some s) ec err v = (do {
      ((dirs, left_ec), err, v) \<leftarrow> advance_or_pop ?skip (List.map fst gs) err v;
      recursive_finish (s\<lparr>stack_pending := True\<rparr>) dirs left_ec err v })" by (elim exE conjE) (rule that)
  show ?thesis
    using advance_or_pop_future [OF gs(1,2), of ?skip err] unfolding gs(3)
    by (auto simp: gs(4) recursive_finish_def split: list.splits)
qed

text \<open>The entries of a recursive iterator, by at most \<open>n\<close> increments.\<close>

fun recursive_walk :: "('f, 'h, 'd, 'w) VirtualFS environment \<Rightarrow> nat \<Rightarrow> 'd Dir_stack option \<Rightarrow>
    (directory_entry list \<times> 'd Dir_stack option \<times> int, ('f, 'h, 'd, 'w) VirtualFS) posix_call" where
  "recursive_walk env 0 it err v = Some (([], it, 0), err, v)"
| "recursive_walk env (Suc n) None err v = Some (([], None, 0), err, v)"
| "recursive_walk env (Suc n) (Some s) err v = do {
     ((it, ec), err, v) \<leftarrow> recursive_increment env (Some s) 0 err v;
     if ec \<noteq> 0 then Some (([dir_entry (hd (stack_dirs s))], it, ec), err, v)
     else do {
       ((es, it, ec), err, v) \<leftarrow> recursive_walk env n it err v;
       Some ((dir_entry (hd (stack_dirs s)) # es, it, ec), err, v) } }"

lemma recursive_walk_stands:
  assumes env: "env_allocates env"
  shows "stands_on v (stack_dirs s) rest \<Longrightarrow> stack_pending s \<Longrightarrow> length rest + 1 < n \<Longrightarrow>
    recursive_walk env n (Some s) err v = Some ((dir_entry (hd (stack_dirs s)) # rest, None, 0), err, v)"
proof (induction rest arbitrary: s n)
  case Nil
  obtain m where n: "n = Suc (Suc m)" using Nil(3) by (cases n; cases "n - 1") auto
  show ?case using recursive_increment_stands [OF Nil(1,2) env, of 0 err] by (simp add: n)
next
  case (Cons e rest)
  then obtain m where n: "n = Suc m" "length rest + 1 < m" by (cases n) auto
  obtain s' where s': "recursive_increment env (Some s) 0 err v = Some ((Some s', 0), err, v)" "stack_pending s'"
    "dir_entry (hd (stack_dirs s')) = e" "stands_on v (stack_dirs s') rest"
    using recursive_increment_stands [OF Cons.prems(1,2) env, of 0 err] by auto
  show ?case using Cons.IH [OF s'(4,2) n(2)] s'(1,3) by (simp add: n(1))
qed

text \<open>C14: A recursive directory iterator over a directory that does not change and holds no symbolic links delivers,
  with any options, every file and every directory below it exactly once, each with its full path and type
  and every directory before its contents, exactly as the recursive listing of the tree; then it is the end
  iterator, without an error, and errno and the virtual file system are as they were.\<close>

theorem recursive_iterator_preorder:
  assumes tree: "denotes v p ns" and p: "p \<noteq> []" and env: "env_allocates env" and n: "length (preorder p ns) < n"
  shows "\<exists>it. recursive_directory_iterator env p options err v = Some ((it, 0), err, v) \<and>
    recursive_walk env n it err v = Some ((preorder p ns, None, 0), err, v)"
proof -
  obtain s es where s: "\<And>err. sys_opendir True (Some p) err v = Some (Some s, err, v)" "steady_lists v (Some s) es"
    "real_entries es = List.map node_entry ns" "\<forall>k \<in> set ns. node_ok v p k"
    using tree by (rule denotesE) blast
  let ?d = "\<lparr>dir_dirp = Some s, dir_path = p, dir_entry = no_directory_entry\<rparr>"
  let ?skip = "is_set options skip_permission_denied"
  have new: "Dir_new env p skip err v = Some ((?d, 0), err, v)" for skip using env s(1) [of err] by (simp add: Dir_new_def Dir_base_def)
  have ok: "frame_ok v (?d, ns)" using s p by (auto simp: frame_ok_def)
  note adv = Dir_advance_frame [OF ok, of ?skip err]
  show ?thesis
  proof (cases ns)
    case Nil
    then have "recursive_directory_iterator env p options err v = Some ((None, 0), err, v)"
      using adv by (auto simp: recursive_directory_iterator_def new Let_def closable_def)
    then show ?thesis using Nil n by (cases n) auto
  next
    case (Cons k rest)
    then obtain d' where d': "Dir_advance ?skip ?d err v = Some ((True, 0, d'), err, v)" "dir_path d' = p"
      "dir_entry d' = make_entry p (node_entry k)" "frame_ok v (d', rest)" using adv by auto
    let ?it = "\<lparr>stack_dirs = [d'], stack_orig = (if is_set options directory_iterator_filename_only then p else []),
      stack_options = options, stack_pending = True\<rparr>"
    have "stands_on v (stack_dirs ?it) (tl (preorder p ns))"
      unfolding stands_on_def using d' s(4) Cons
      by (intro exI [of _ d'] exI [of _ rest] exI [of _ "[]"] exI [of _ k]) (simp add: preorder_Cons)
    then have "recursive_walk env n (Some ?it) err v = Some ((preorder p ns, None, 0), err, v)"
      using recursive_walk_stands [OF env, of v ?it _ n err] n Cons d'(3) by (simp add: preorder_Cons)
    moreover have "recursive_directory_iterator env p options err v = Some ((Some ?it, 0), err, v)"
      by (simp add: recursive_directory_iterator_def new Let_def d'(1))
    ultimately show ?thesis by blast
  qed
qed

section \<open>Trees on an ext4 volume\<close>

text \<open>A directory element as the listing shows it.\<close>

definition ext4_dirent :: "ext4_direntry \<Rightarrow> dirent" where
  "ext4_dirent de = entry_of (de_name de)
     (stat_zero\<lparr>st_ino := uint (de_inode de), st_mode := uint (ino_to_st_mode (uint (de_inode_type de)))\<rparr>) dirent_zero"

lemma entry_of_overwrites: "entry_of fname st x = entry_of fname st y"
  by (simp add: entry_of_def)

lemma after_call_same:
  "umap_wf (m_mounts v) \<Longrightarrow> map_of (m_mounts v) key = Some l \<Longrightarrow> after_call key l (mp_self (locker_value l)) (world v) v = v"
  by (simp add: after_call_def umap_modify_same)

text \<open>A library that reads its directories without changing the outside state: \<open>rest\<close> is what a directory object
  has still to deliver.\<close>

definition static_directories :: "('h, 'd, 'w) lwext4 \<Rightarrow> ('d \<Rightarrow> ext4_direntry list) \<Rightarrow> 'w \<Rightarrow> bool" where
  "static_directories api rest w = (\<forall>raw.
     (\<exists>raw'. lw_dir_entry_next api raw w = ((case rest raw of [] \<Rightarrow> None | de # _ \<Rightarrow> Some de, raw'), w) \<and> rest raw' = tl (rest raw)) \<and>
     (\<exists>raw'. lw_dir_close api raw w = ((0, raw'), w)) \<and>
     (\<forall>de \<in> set (rest raw). length (de_name de) \<le> 255))"

definition mounted_at :: "string \<Rightarrow> ('h, 'd, 'w) lwext4 \<Rightarrow> ('w filesystem_lwext4, 'h, 'd, 'w) VirtualFS \<Rightarrow> bool" where
  "mounted_at root api v = (umap_wf (m_mounts v) \<and> (case map_of (m_mounts v) root of None \<Rightarrow> False
     | Some l \<Rightarrow> \<not> locker_mutex l \<and> mp_fs (locker_value l) = filesystem_lwext4_ops api \<and> lw_root (mp_self (locker_value l)) = root))"

lemma mounted_atE:
  assumes "mounted_at root api v"
  obtains l where "map_of (m_mounts v) root = Some l" "\<not> locker_mutex l" "mp_fs (locker_value l) = filesystem_lwext4_ops api"
    "lw_root (mp_self (locker_value l)) = root" "after_call root l (mp_self (locker_value l)) (world v) v = v"
  using assms after_call_same unfolding mounted_at_def by (auto split: option.splits)

lemma ext4_closable:
  assumes "mounted_at root api v" "static_directories api rest (world v)" "dir_root (dirh s) = root"
  shows "closable v (Some s)"
proof -
  obtain l where l: "map_of (m_mounts v) root = Some l" "\<not> locker_mutex l" "mp_fs (locker_value l) = filesystem_lwext4_ops api"
    "after_call root l (mp_self (locker_value l)) (world v) v = v"
    using assms(1) by (rule mounted_atE)
  obtain raw' where raw': "lw_dir_close api (dir_raw (dirh s)) (world v) = ((0, raw'), world v)"
    using assms(2) unfolding static_directories_def by blast
  have "call_locked root (\<lambda>fs. fs_dirclose fs (dirh s)) v =
      Some ((0, (dirh s)\<lparr>dir_raw := raw'\<rparr>), after_call root l (mp_self (locker_value l)) (world v) v)"
    by (rule call_locked_eq [OF l(1,2)]) (simp add: l(3) filesystem_lwext4_ops_def lwext4_dirclose_def raw')
  then show ?thesis
    by (simp add: closable_def close_stream_def sys_closedir_def VirtualFS_dirclose_def invoke_dirops_def
        DirectoryHandle_get_root_def assms(3) l(4))
qed

lemma ext4_steady_lists:
  assumes mounted: "mounted_at root api v" and static: "static_directories api rest (world v)"
  shows "dir_root (dirh s) = root \<Longrightarrow> rest (dir_raw (dirh s)) = des \<Longrightarrow> steady_lists v (Some s) (List.map ext4_dirent des)"
proof (induction des arbitrary: s)
  case Nil
  obtain l where l: "map_of (m_mounts v) root = Some l" "\<not> locker_mutex l" "mp_fs (locker_value l) = filesystem_lwext4_ops api"
    "after_call root l (mp_self (locker_value l)) (world v) v = v"
    using mounted by (rule mounted_atE)
  obtain raw' where raw': "lw_dir_entry_next api (dir_raw (dirh s)) (world v) = ((None, raw'), world v)"
    using static Nil.prems(2) unfolding static_directories_def by (metis list.simps(4))
  have "VirtualFS_dirnext ([], stat_zero) (dirh s) v = Some (((ENOENT, [], stat_zero), (dirh s)\<lparr>dir_raw := raw'\<rparr>),
      after_call root l (mp_self (locker_value l)) (world v) v)"
    unfolding VirtualFS_dirnext_def invoke_dirops_def DirectoryHandle_get_root_def Nil.prems(1)
    by (rule call_locked_eq [OF l(1,2)]) (simp add: l(3) filesystem_lwext4_ops_def lwext4_dirnext_def raw')
  then have "sys_readdir (Some s) 0 v = Some ((None, Some (s\<lparr>dirh := (dirh s)\<lparr>dir_raw := raw'\<rparr>\<rparr>)), 0, v)"
    by (simp add: sys_readdir_def l(4))
  then show ?case using ext4_closable [OF mounted static, of "s\<lparr>dirh := (dirh s)\<lparr>dir_raw := raw'\<rparr>\<rparr>"] Nil.prems(1) by simp
next
  case (Cons de des)
  obtain l where l: "map_of (m_mounts v) root = Some l" "\<not> locker_mutex l" "mp_fs (locker_value l) = filesystem_lwext4_ops api"
    "after_call root l (mp_self (locker_value l)) (world v) v = v"
    using mounted by (rule mounted_atE)
  obtain raw' where raw': "lw_dir_entry_next api (dir_raw (dirh s)) (world v) = ((Some de, raw'), world v)" "rest raw' = des"
    using static Cons.prems(2) unfolding static_directories_def by (metis list.simps(5) list.sel(3))
  have short: "length (de_name de) \<le> 255" using static Cons.prems(2) unfolding static_directories_def by (metis list.set_intros(1))
  let ?s = "s\<lparr>dirh := (dirh s)\<lparr>dir_raw := raw'\<rparr>, position := position s + 1, dir_data := ext4_dirent de\<rparr>"
  have nxt: "VirtualFS_dirnext ([], stat_zero) (dirh s) v = Some (((EOK, de_name de, stat_zero\<lparr>st_ino := uint (de_inode de),
      st_mode := uint (ino_to_st_mode (uint (de_inode_type de)))\<rparr>), (dirh s)\<lparr>dir_raw := raw'\<rparr>), v)"
    using ext4_dirnext [of v "dirh s" l api de raw' "world v" "([], stat_zero)"] l raw'(1) Cons.prems(1) by simp
  have "entry_of (de_name de) (stat_zero\<lparr>st_ino := uint (de_inode de),
      st_mode := uint (ino_to_st_mode (uint (de_inode_type de)))\<rparr>) (dir_data s) = ext4_dirent de"
    unfolding ext4_dirent_def by (rule entry_of_overwrites)
  then have "sys_readdir (Some s) 0 v = Some ((Some (ext4_dirent de), Some ?s), 0, v)"
    using short by (simp add: sys_readdir_def nxt d_name_size_def Let_def)
  then show ?case using Cons.IH [of ?s] raw'(2) Cons.prems(1) by simp
qed

text \<open>A directory that the library can open denotes the tree of its elements.\<close>

lemma ext4_denotes:
  assumes mounted: "mounted_at root api v" and static: "static_directories api rest (world v)"
    and p: "absolute_path p = Inr p" "find_mount_point p (m_mounts v) = Some root"
    and opens: "lw_dir_open api (lw_dir api) (to_native_path root p) (world v) = ((0, raw), world v)"
    and level: "real_entries (List.map ext4_dirent (rest raw)) = List.map node_entry ns"
    and kids: "\<forall>n \<in> set ns. known_type (node_entry n) \<and>
      (if d_type (node_entry n) = DT_DIR then denotes v (path_append p (d_name (node_entry n))) (node_kids n)
       else node_kids n = [])"
  shows "denotes v p ns"
proof (rule denotes.intros [OF _ _ level kids])
  obtain l where l: "map_of (m_mounts v) root = Some l" "\<not> locker_mutex l" "mp_fs (locker_value l) = filesystem_lwext4_ops api"
    "lw_root (mp_self (locker_value l)) = root" "after_call root l (mp_self (locker_value l)) (world v) v = v"
    using mounted by (rule mounted_atE)
  let ?s = "\<lparr>dirh = \<lparr>dir_root = root, dir_raw = raw\<rparr>, position = 0, dir_data = dirent_zero\<rparr>"
  have "call_locked root (\<lambda>fs. fs_diropen fs p) v =
      Some (Inr \<lparr>dir_root = root, dir_raw = raw\<rparr>, after_call root l (mp_self (locker_value l)) (world v) v)"
    by (rule call_locked_eq [OF l(1,2)]) (simp add: l(3,4) filesystem_lwext4_ops_def lwext4_diropen_def opens)
  then show "\<forall>err. sys_opendir True (Some p) err v = Some (Some ?s, err, v)"
    by (simp add: sys_opendir_def VirtualFS_diropen_def p l(5))
  show "steady_lists v (Some ?s) (List.map ext4_dirent (rest raw))"
    by (rule ext4_steady_lists [OF mounted static]) simp_all
qed

text \<open>A volume with the directory \<open>d\<close>, which holds the file \<open>a\<close>, and the file \<open>b\<close>.\<close>

definition sample_level :: "ext4_direntry list \<Rightarrow> ext4_direntry list" where
  "sample_level des = \<lparr>de_inode = 2, de_inode_type = 2, de_name = ''.''\<rparr> # \<lparr>de_inode = 2, de_inode_type = 2, de_name = ''..''\<rparr> # des"

definition sample_tree_rest :: "nat \<Rightarrow> ext4_direntry list" where
  "sample_tree_rest n =
     (if n < 10 then drop n (sample_level [\<lparr>de_inode = 11, de_inode_type = 2, de_name = ''d''\<rparr>,
        \<lparr>de_inode = 12, de_inode_type = 1, de_name = ''b''\<rparr>])
      else drop (n - 10) (sample_level [\<lparr>de_inode = 13, de_inode_type = 1, de_name = ''a''\<rparr>]))"

definition sample_tree_api :: "(nat, nat, 'w) lwext4" where
  "sample_tree_api = sample_api\<lparr>lw_dir_open := \<lambda>_ p w. ((0, if p = ''/vol/d'' then 10 else 0), w),
     lw_dir_entry_next := \<lambda>n w. ((case sample_tree_rest n of [] \<Rightarrow> None | de # _ \<Rightarrow> Some de,
       if sample_tree_rest n = [] then n else n + 1), w)\<rparr>"

definition sample_tree_vfs :: "(unit filesystem_lwext4, nat, nat, unit) VirtualFS" where
  "sample_tree_vfs = (sample_vfs 0)\<lparr>m_mounts := [(''/vol'', locker_new ((sample_mount ''/vol'' 0)\<lparr>mp_fs := filesystem_lwext4_ops sample_tree_api\<rparr>))]\<rparr>"

definition sample_file :: "u32 \<Rightarrow> char \<Rightarrow> node" where
  "sample_file ino c = Node \<lparr>d_ino = uint ino, d_type = DT_REG, d_reclen = 1, d_name = [c]\<rparr> []"

definition sample_tree :: "node list" where
  "sample_tree = [Node \<lparr>d_ino = 11, d_type = DT_DIR, d_reclen = 1, d_name = ''d''\<rparr> [sample_file 13 (CHR ''a'')],
     sample_file 12 (CHR ''b'')]"

lemma sample_tree_static: "static_directories sample_tree_api sample_tree_rest w"
proof -
  have "sample_tree_rest (if sample_tree_rest n = [] then n else n + 1) = tl (sample_tree_rest n)" for n
  proof (cases "n < 10")
    case True
    then have "n \<in> {0, 1, 2, 3, 4, 5, 6, 7, 8, 9}" by auto
    then show ?thesis by (auto simp: sample_tree_rest_def sample_level_def)
  next
    case False
    then obtain k where "n = 10 + k" by (metis le_add_diff_inverse not_less)
    then show ?thesis by (simp add: sample_tree_rest_def drop_Suc tl_drop)
  qed
  moreover have "\<forall>de \<in> set (sample_tree_rest n). length (de_name de) \<le> 255" for n
    by (auto simp: sample_tree_rest_def sample_level_def dest!: in_set_dropD)
  ultimately show ?thesis by (auto simp: static_directories_def sample_tree_api_def sample_api_def)
qed

lemma sample_tree_mounted: "mounted_at ''/vol'' sample_tree_api sample_tree_vfs"
  by (simp add: mounted_at_def sample_tree_vfs_def locker_new_def sample_mount_def umap_wf_def umap_keys_def)

lemma sample_dirents:
  "ext4_dirent \<lparr>de_inode = ino, de_inode_type = 1, de_name = [c]\<rparr> = \<lparr>d_ino = uint ino, d_type = DT_REG, d_reclen = 1,
     d_name = (if c = CHR 0x00 then [] else [c])\<rparr>"
  "ext4_dirent \<lparr>de_inode = ino, de_inode_type = 2, de_name = [c]\<rparr> = \<lparr>d_ino = uint ino, d_type = DT_DIR, d_reclen = 1,
     d_name = (if c = CHR 0x00 then [] else [c])\<rparr>"
  "d_name (ext4_dirent \<lparr>de_inode = ino, de_inode_type = 2, de_name = ''..''\<rparr>) = ''..''"
  using stmode_of_entry_type [of 1] stmode_of_entry_type [of 2]
  by (simp_all add: ext4_dirent_def entry_of_def c_str_def d_name_size_def dirent_zero_def)

lemma sample_tree_denotes: "denotes sample_tree_vfs ''/vol'' sample_tree"
proof -
  note ext4 = ext4_denotes [OF sample_tree_mounted sample_tree_static]
  have paths: "absolute_path ''/vol'' = Inr ''/vol''" "absolute_path ''/vol/d'' = Inr ''/vol/d''"
    "path_append ''/vol'' ''d'' = ''/vol/d''" by code_simp+
  have mounts: "find_mount_point ''/vol'' (m_mounts sample_tree_vfs) = Some ''/vol''"
    "find_mount_point ''/vol/d'' (m_mounts sample_tree_vfs) = Some ''/vol''"
    by (simp_all add: sample_tree_vfs_def)
  have types: "known_type (node_entry (sample_file ino c))" "d_type (node_entry (sample_file ino c)) \<noteq> DT_DIR"
    "node_kids (sample_file ino c) = []" for ino c
    by (simp_all add: known_type_def sample_file_def dirent_types)
  have sub: "denotes sample_tree_vfs ''/vol/d'' [sample_file 13 (CHR ''a'')]"
    by (rule ext4 [OF paths(2) mounts(2), where raw = 10])
       (simp_all add: types, simp_all add: sample_tree_api_def sample_tree_vfs_def to_native_path_def sample_tree_rest_def
         sample_level_def sample_dirents is_dot_or_dotdot_def sample_file_def)
  show ?thesis
    unfolding sample_tree_def
    by (rule ext4 [OF paths(1) mounts(1), where raw = 0])
       (simp_all add: types sub paths(3) known_type_def, simp_all add: sample_tree_api_def sample_tree_vfs_def to_native_path_def
         sample_tree_rest_def sample_level_def sample_dirents is_dot_or_dotdot_def sample_file_def)
qed

theorem recursive_iterator_preorder_witness:
  "\<exists>it. recursive_directory_iterator sample_env ''/vol'' 0 0 sample_tree_vfs = Some ((it, 0), 0, sample_tree_vfs) \<and>
    recursive_walk sample_env 4 it 0 sample_tree_vfs = Some (([\<lparr>de_path = ''/vol/d'', de_type = ft_directory\<rparr>,
      \<lparr>de_path = ''/vol/d/a'', de_type = ft_regular\<rparr>, \<lparr>de_path = ''/vol/b'', de_type = ft_regular\<rparr>], None, 0), 0, sample_tree_vfs)"
proof -
  have "path_append ''/vol'' ''d'' = ''/vol/d''" "path_append ''/vol/d'' ''a'' = ''/vol/d/a''" "path_append ''/vol'' ''b'' = ''/vol/b''"
    by code_simp+
  then have pre: "preorder ''/vol'' sample_tree = [\<lparr>de_path = ''/vol/d'', de_type = ft_directory\<rparr>,
      \<lparr>de_path = ''/vol/d/a'', de_type = ft_regular\<rparr>, \<lparr>de_path = ''/vol/b'', de_type = ft_regular\<rparr>]"
    by (simp add: sample_tree_def sample_file_def make_entry_def get_file_type_def dirent_types)
  show ?thesis
    using recursive_iterator_preorder [OF sample_tree_denotes, of sample_env 4 0 0] unfolding pre by (simp add: sample_env_def)
qed

end
