(* ===== verification/Mkfs.thy ===== *)
theory Mkfs
  imports Ext4_Devices Syscalls
begin

text \<open>
  The formatting tool (\<open>lib/tools/mkfs.cpp\<close>, \<open>lib/api/vfs/tools/mkfs.hpp\<close>): the parameters handed to
  \<open>ext4_mkfs\<close> of the lwext4 library, which is a parameter of the model.
\<close>

datatype ext_type = ext2 | ext3 | ext4

record ext_params =
  prm_length :: u64
  prm_block_size :: u32
  prm_blocks_per_group :: u32
  prm_inodes_per_group :: u32
  prm_inode_size :: u32
  prm_inodes_count :: u32
  prm_journal_blocks :: u32
  prm_descriptor_size :: u32
  prm_journal :: bool
  prm_label :: string
  prm_uuid :: "u8 list"

record ext4_mkfs_info =
  mi_len :: u64
  mi_block_size :: u32
  mi_blocks_per_group :: u32
  mi_inodes_per_group :: u32
  mi_inode_size :: u32
  mi_inodes :: u32
  mi_journal_blocks :: u32
  mi_feat_ro_compat :: u32
  mi_feat_compat :: u32
  mi_feat_incompat :: u32
  mi_bg_desc_reserve_blocks :: u32
  mi_dsc_size :: u16
  mi_uuid :: "u8 list"
  mi_journal :: bool
  mi_label :: string

definition label_size :: nat where "label_size = 16"
definition F_SET_EXT2 :: int where "F_SET_EXT2 = 2"
definition F_SET_EXT3 :: int where "F_SET_EXT3 = 3"
definition F_SET_EXT4 :: int where "F_SET_EXT4 = 4"

text \<open>The label is the text of the array up to its null byte.\<close>

definition mkfs_info_of :: "ext_params \<Rightarrow> ext4_mkfs_info" where
  "mkfs_info_of params =
     \<lparr>mi_len = prm_length params, mi_block_size = prm_block_size params,
      mi_blocks_per_group = prm_blocks_per_group params, mi_inodes_per_group = prm_inodes_per_group params,
      mi_inode_size = prm_inode_size params, mi_inodes = prm_inodes_count params,
      mi_journal_blocks = prm_journal_blocks params, mi_feat_ro_compat = 0, mi_feat_compat = 0,
      mi_feat_incompat = 0, mi_bg_desc_reserve_blocks = 0, mi_dsc_size = ucast (prm_descriptor_size params),
      mi_uuid = prm_uuid params, mi_journal = prm_journal params,
      mi_label = take (label_size - 1) (c_str (prm_label params))\<rparr>"

definition fs_type_code :: "ext_type \<Rightarrow> int" where
  "fs_type_code t = (case t of ext2 \<Rightarrow> F_SET_EXT2 | ext3 \<Rightarrow> F_SET_EXT3 | ext4 \<Rightarrow> F_SET_EXT4)"

text \<open>\<open>ext4_mkfs\<close> is a parameter, as are the cache and the end-of-write function of the handle's device.\<close>

definition mkext :: "('d ext4_blockdev \<Rightarrow> ext4_mkfs_info \<Rightarrow> int \<Rightarrow> 'd \<Rightarrow> errno \<times> 'd) \<Rightarrow> ext4_bcache \<Rightarrow>
    (ext4_bcache \<Rightarrow> u64 \<Rightarrow> errno \<Rightarrow> u64 \<Rightarrow> ext4_bcache option) \<Rightarrow> 'd BlockDevice \<Rightarrow> ext_params \<Rightarrow> ext_type \<Rightarrow> 'd \<Rightarrow>
    (errno \<times> 'd) option" where
  "mkext ext4_mkfs bc ew part params t d = do {
     ctx \<leftarrow> lwext4_handle_new part bc ew d;
     Some (ext4_mkfs ctx (mkfs_info_of params) (fs_type_code t) d) }"

definition mkfat :: "'w Disk \<Rightarrow> errno" where
  "mkfat disk = ENOTSUP"

end
