(* ===== verification/Logger.thy ===== *)
theory Logger
  imports Syscalls
begin

text \<open>
  The logger (\<open>lib/logger/logger.hpp\<close>, \<open>logger.cpp\<close>): the levels, the registered callback and the cut of a
  message to the 128-byte buffer. A callback acts on the outside state \<open>'w\<close>; the formatting of the arguments
  is the C library's, a message is the formatted text. The other theories leave their log messages out.
\<close>

datatype level = debug | info | warning | err_level

definition level2str :: "level \<Rightarrow> string" where
  "level2str lvl = (case lvl of debug \<Rightarrow> ''DEBUG'' | info \<Rightarrow> ''INFO'' | warning \<Rightarrow> ''WARN'' | err_level \<Rightarrow> ''ERROR'')"

record 'w logger =
  g_write_output :: "(level \<Rightarrow> string \<Rightarrow> 'w \<Rightarrow> 'w) option"

definition register_output_callback :: "(level \<Rightarrow> string \<Rightarrow> 'w \<Rightarrow> 'w) option \<Rightarrow> 'w logger \<Rightarrow> 'w logger" where
  "register_output_callback cb g = g\<lparr>g_write_output := cb\<rparr>"

definition write_output :: "level \<Rightarrow> string \<Rightarrow> 'w logger \<Rightarrow> 'w \<Rightarrow> 'w" where
  "write_output lvl buf g w = (case g_write_output g of None \<Rightarrow> w | Some cb \<Rightarrow> cb lvl buf w)"

definition log_message :: "level \<Rightarrow> string \<Rightarrow> 'w logger \<Rightarrow> 'w \<Rightarrow> 'w" where
  "log_message lvl text g w = write_output lvl (c_str (snprintf_s (replicate 128 (CHR 0x00)) 128 text)) g w"

text \<open>A message reaches the callback up to its 127th byte.\<close>

lemma c_str_snprintf:
  assumes "CHR 0x00 \<notin> set msg" "0 < n"
  shows "c_str (snprintf_s buf n msg) = take (n - 1) msg"
proof -
  have whole: "c_str msg = msg" using assms(1) by (auto simp: c_str_def takeWhile_eq_all_conv)
  have "\<forall>c \<in> set (take (n - 1) msg). c \<noteq> CHR 0x00" using assms(1) by (metis in_set_takeD)
  then show ?thesis
    using assms(2) by (simp add: snprintf_s_def whole Let_def c_str_def [of "_ @ _"] takeWhile_append2)
qed

lemma log_message_cut:
  assumes "CHR 0x00 \<notin> set msg"
  shows "log_message lvl msg (register_output_callback (Some cb) g) w = cb lvl (take 127 msg) w"
  using c_str_snprintf [OF assms, of 128]
  by (simp only: log_message_def write_output_def register_output_callback_def logger.simps logger.surjective) simp

end
