(* ===== verification/Spec2Isabelle.thy ===== *)
theory Spec2Isabelle
  imports Prelude Path Unordered_Map Locker Bitmap Crc Superblock Block_Group Inode Hash Bcache
    Blockdev Blockdev_Contract Block_Device Superblock_Io Filesystem Fd_Container Fdisk Disk Vfs Vfs_Safety
    Vfs_Properties Vfs_Refinement Vfs_Mounts Vfs_Locks Lwext4_Fs Ext4_Devices Syscalls File_Io Newlib Fs_Dir
    Vfs_Destroy Ext4_Listing Fs_Walk Mkfs Logger
begin

text \<open>
  The verification library of evfs, a virtual file system for embedded programs in C++ with an ext4 driver
  on top of the vendored C library lwext4. Paths are relative to \<open>src/\<close>; \<open>lwext4/\<close> is
  \<open>lib/third-party/lwext4/\<close>.

  \<^bold>\<open>The program.\<close> A block device is registered with the disk manager (\<open>lib/common/disk_mngr.cpp\<close>), which probes it
  and reads its MBR partition table (\<open>lib/tools/fdisk.cpp\<close>) into a disk with partitions (\<open>lib/common/disk.cpp\<close>,
  \<open>partition.cpp\<close>). \<open>VirtualFS\<close> (\<open>lib/common/vfs.cpp\<close>) mounts partitions: it chooses a file system by the type
  byte of the partition, mounts it and files it under its root. Operations on paths look up the volume by its
  root, lock it and call its file system; operations on descriptors go through the table of open files
  (\<open>lib/common/file_descriptor_container.hpp\<close>), which also delays the unlinking of open files. The ext4 file
  system (\<open>lib/fstypes/filesystem_lwext4.cpp\<close>) calls lwext4, which reaches the partition again through
  \<open>lib/fstypes/handle/lwext4_handle.cpp\<close>, a block device layer and a block cache. Above \<open>VirtualFS\<close> are the system
  calls (\<open>adapters/syscalls.cpp\<close>), their newlib names and the directory iterators of \<open>std::filesystem\<close>
  (\<open>adapters/fs_dir.cpp\<close>).

  \<^bold>\<open>How it is modelled.\<close> An operation is a function from the state to its result and the new state; a result
  \<open>None\<close> is what is not a return: a failed assertion, an access out of bounds, a null pointer, an exception
  that leaves the function, or a mutex the only thread already holds. \<open>std::error_code\<close> is an \<open>errno\<close> number, with
  0 for success, and \<open>result<T>\<close> is \<open>errno + 'a\<close>. Machine integers are words of their width. The structures
  of the disk are lists of bytes read and written at the offsets of their fields. A \<open>std::unordered_map\<close> is an
  association list in iteration order. What lies outside (devices, the lwext4 functions the driver
  calls, the streams) is a record of functions over a state \<open>'w\<close> or \<open>'d\<close> of its own.

  \<^bold>\<open>The theories.\<close>
  \<^item> \<open>Prelude\<close>: words, byte lists, checked reads and writes; \<open>Path\<close>: \<open>lexically_normal\<close> and appending of
    \<open>std::filesystem::path\<close>; \<open>Unordered_Map\<close>; \<open>Locker\<close>: \<open>lib/common/locker.hpp\<close>.
  \<^item> \<open>Fd_Container\<close>: \<open>file_descriptor.hpp\<close>, \<open>file_descriptor_container.hpp\<close>. The invariant of the two maps, what
    insertion and removal do to it, and that a marked path is reported for unlinking exactly once.
  \<^item> \<open>Filesystem\<close>: the virtual methods of \<open>lib/api/vfs/filesystem.hpp\<close> with their \<open>ENOTSUP\<close> defaults and the handles;
    the locale \<open>rooted_filesystem\<close> is what \<open>VirtualFS\<close> relies on.
  \<^item> \<open>Fdisk\<close>: the boot record is validated, read and written; round trip of the whole table, refinement of the write
    of one entry, refusals and bounds. \<open>Disk\<close>: \<open>Disk\<close> and \<open>DiskManager\<close>; registering, unregistering, lending
    partitions.
  \<^item> \<open>Vfs\<close>: every operation of \<open>VirtualFS\<close>. \<open>Vfs_Safety\<close>: the state every operation keeps (\<open>good\<close>: volumes unlocked and filed
    under their own root, every open file on one) and that no operation gets stuck in it. \<open>Vfs_Properties\<close>: open,
    close, unlink, bad descriptors. \<open>Vfs_Mounts\<close>: mount, umount, their combinations (every partition tried by
    \<open>mount_all\<close>), lookup, rename, statistics. \<open>Vfs_Refinement\<close>: the open files as an abstract machine (next number, descriptors and
    mark of every path) that every sequence of operations implements; a descriptor stays open on its path until
    its own \<open>close\<close>, and its number is never given out again.
  \<^item> \<open>Vfs_Locks\<close>: any number of threads. The mutexes and shared accesses of every operation in the order of the code
    (calls of a file system, the use of a handle of the table after \<open>m_mutex\<close> is given back and the destructor
    included), an inductive step relation over their interleavings, freedom from deadlock by the order of the
    mutexes; mutual exclusion on the maps of open files while no thread runs the destructor, and inside a
    volume's file system while none runs \<open>umount_all\<close> either; and the races that are there: lookups in the table of
    mount points, a handle used after its \<open>close\<close>, \<open>umount_all\<close> and the destructor beside an operation.
  \<^item> \<open>Lwext4_Fs\<close>: \<open>filesystem_lwext4\<close> over the functions of lwext4 (record \<open>lwext4\<close>); \<open>Ext4_Devices\<close>: the device table
    of \<open>lwext4/src/ext4.c\<close>, and that a mount is all or nothing for it.
  \<^item> \<open>Syscalls\<close>: \<open>adapters/syscalls.cpp\<close> with errno and directory streams; \<open>File_Io\<close>: input and
    output through all layers against a machine without tables of numbers, locks and conversions of results;
    \<open>Vfs_Destroy\<close>: the destructor against the same machine: which calls reach the file systems, in which order;
    \<open>Newlib\<close>: \<open>adapters/newlib/syscalls.cpp\<close>; \<open>Fs_Dir\<close>: \<open>adapters/dir-common.h\<close>, \<open>adapters/fs_dir.cpp\<close>; \<open>Ext4_Listing\<close>: an ext4 directory listed through
    all layers; \<open>Fs_Walk\<close>: the recursive iterator, with its stack of open directories, delivers the preorder of the
    tree below its start. Of the erasing walk (\<open>__erase\<close>), \<open>Fs_Dir\<close> shows what one step removes and where it
    leaves the iterator, whatever the file systems answer.
  \<^item> \<open>Mkfs\<close>: \<open>lib/tools/mkfs.cpp\<close>; \<open>Logger\<close>: \<open>lib/logger\<close>.
  \<^item> lwext4: \<open>Blockdev\<close> (\<open>ext4_blockdev.c\<close>), \<open>Blockdev_Contract\<close> (the locales of drivers that keep what they store, and
    the laws of the block operations proved in them), \<open>Bcache\<close> (\<open>ext4_bcache.c\<close>), \<open>Block_Device\<close> (partitions, the
    RAM disk of \<open>test/common/ram_blkdev.cpp\<close> and \<open>lwext4_handle\<close> as interpretations of those locales),
    \<open>Bitmap\<close>, \<open>Crc\<close>, \<open>Superblock\<close>, \<open>Superblock_Io\<close>, \<open>Block_Group\<close>, \<open>Inode\<close> and \<open>Hash\<close>.

  \<^bold>\<open>Interfaces.\<close> The locales are the contract of a file system (\<open>rooted_filesystem\<close>, interpreted by \<open>filesystem_lwext4\<close>),
  and those of block devices and their drivers (interpreted by the RAM disk, partitions and the handle). The
  lemmas of the clients are proved in them once.

  \<^bold>\<open>Loops.\<close> Loops are structural recursions or have a measure (\<open>seek_forward\<close>: the distance to the position asked
  for). Two loops of \<open>Fs_Dir\<close> that a file system can keep busy for ever (skipping \<open>.\<close> entries, erasing) are
  partial functions. That the listing loops return is part of the theorems about them; that the erasing loop
  returns is not claimed: it depends on the file systems, and \<open>erase_loop_spins\<close> is a case in which it does not.
  What is proved about its step holds for the steps that return. There is no fuel in the model of the code;
  the number of steps in \<open>walk\<close> and in a schedule is part of the statement.

  \<^bold>\<open>Not modelled.\<close> Of lwext4, the layers between the block cache and the calls of the driver (\<open>ext4_fs.c\<close>,
  \<open>ext4_balloc.c\<close>, \<open>ext4_ialloc.c\<close>, \<open>ext4_extent.c\<close>, \<open>ext4_journal.c\<close>, \<open>ext4_dir.c\<close>, \<open>ext4_mkfs.c\<close> and most of
  \<open>ext4.c\<close>): vendored code, a parameter where evfs calls it. The formatting of log messages; the rest
  of \<open>std::filesystem\<close> that the iterators call; tests and host drivers. The single-threaded theories say what the
  operations compute, \<open>Vfs_Locks\<close> how they wait for each other; data races inside lwext4 are not followed.
\<close>

end
